(* ===== verification/Prelude.thy ===== *)
theory Prelude
  imports Main "HOL-Library.Sublist" "HOL-Library.Multiset"
begin

text \<open>
  What every component of the development shares: the JavaScript string operations the
  source calls, the insertion-ordered map that stands for a JavaScript \<open>Map\<close> or object,
  order-preserving deduplication, and the interface of a severity scale.

  A \<open>string\<close> is a list of UTF-16 code units below 256 (the Latin-1 range), which is what
  Isabelle's \<open>char\<close> holds; case mapping and white space are those of ECMAScript on that range.
  An \<open>undefined\<close> or a missing member is \<open>None\<close>.
\<close>

named_theorems js_simps \<open>equations that evaluate the string and list operations\<close>
named_theorems omap_simps \<open>laws of the insertion-ordered map\<close>

subsection \<open>Strings\<close>

definition upper_chars :: string where
  "upper_chars = ''ABCDEFGHIJKLMNOPQRSTUVWXYZ'' @
     [CHR 0xC0, CHR 0xC1, CHR 0xC2, CHR 0xC3, CHR 0xC4, 
      CHR 0xC5, CHR 0xC6, CHR 0xC7, CHR 0xC8, CHR 0xC9, CHR 0xCA, CHR 0xCB, CHR 0xCC, CHR 0xCD, 
      CHR 0xCE, CHR 0xCF, CHR 0xD0, CHR 0xD1, CHR 0xD2, CHR 0xD3, CHR 0xD4, CHR 0xD5, CHR 0xD6, 
      CHR 0xD8, CHR 0xD9, CHR 0xDA, CHR 0xDB, CHR 0xDC, CHR 0xDD, CHR 0xDE]"

definition lower_chars :: string where
  "lower_chars = ''abcdefghijklmnopqrstuvwxyz'' @
     [CHR 0xE0, CHR 0xE1, CHR 0xE2, CHR 0xE3, CHR 0xE4, 
      CHR 0xE5, CHR 0xE6, CHR 0xE7, CHR 0xE8, CHR 0xE9, CHR 0xEA, CHR 0xEB, CHR 0xEC, CHR 0xED, 
      CHR 0xEE, CHR 0xEF, CHR 0xF0, CHR 0xF1, CHR 0xF2, CHR 0xF3, CHR 0xF4, CHR 0xF5, CHR 0xF6, 
      CHR 0xF8, CHR 0xF9, CHR 0xFA, CHR 0xFB, CHR 0xFC, CHR 0xFD, CHR 0xFE]"

definition lower_char :: "char \<Rightarrow> char" where
  "lower_char c = (case map_of (zip upper_chars lower_chars) c of None \<Rightarrow> c | Some d \<Rightarrow> d)"

definition js_lower :: "string \<Rightarrow> string" where
  "js_lower s = map lower_char s"

definition js_space :: "char \<Rightarrow> bool" where
  "js_space c = (c \<in> set [CHR 0x09, CHR 0x0A, CHR 0x0B, CHR 0x0C, CHR 0x0D, CHR '' '', CHR 0xA0])"

definition js_trim :: "string \<Rightarrow> string" where
  "js_trim s = rev (dropWhile js_space (rev (dropWhile js_space s)))"

fun js_includes :: "string \<Rightarrow> string \<Rightarrow> bool" where
  "js_includes [] needle = (needle = [])"
| "js_includes (c # cs) needle = (prefix needle (c # cs) \<or> js_includes cs needle)"

fun js_join :: "string \<Rightarrow> string list \<Rightarrow> string" where
  "js_join sep [] = []"
| "js_join sep [x] = x"
| "js_join sep (x # y # ys) = x @ sep @ js_join sep (y # ys)"

fun js_split :: "char \<Rightarrow> string \<Rightarrow> string list" where
  "js_split sep [] = [[]]"
| "js_split sep (c # cs) =
     (if c = sep then [] # js_split sep cs
      else case js_split sep cs of [] \<Rightarrow> [[c]] | w # ws \<Rightarrow> (c # w) # ws)"

text \<open>A string is falsy in JavaScript exactly when it is missing or empty.\<close>

definition truthy :: "string option \<Rightarrow> bool" where
  "truthy s = (case s of None \<Rightarrow> False | Some x \<Rightarrow> x \<noteq> [])"

fun js_opt_true :: "bool option \<Rightarrow> bool" where
  "js_opt_true (Some b) = b"
| "js_opt_true None = False"

subsection \<open>Decimal rendering of integers\<close>

definition digit_char :: "nat \<Rightarrow> char" where
  "digit_char d = ''0123456789'' ! d"

fun show_nat :: "nat \<Rightarrow> string" where
  "show_nat n = (if n < 10 then [digit_char n] else show_nat (n div 10) @ [digit_char (n mod 10)])"

declare show_nat.simps [simp del]

definition show_int :: "int \<Rightarrow> string" where
  "show_int i = (if i < 0 then ''-'' @ show_nat (nat (- i)) else show_nat (nat i))"

lemma lower_chars_disjoint: "set lower_chars \<inter> set upper_chars = {}"
  by (simp add: upper_chars_def lower_chars_def)

lemma lower_chars_length: "length upper_chars = length lower_chars"
  by (simp add: upper_chars_def lower_chars_def)

lemma lower_char_table:
  "lower_char c = c \<and> c \<notin> set upper_chars \<or> lower_char c \<in> set lower_chars"
proof (cases "map_of (zip upper_chars lower_chars) c")
  case None
  then have "c \<notin> set upper_chars" by (simp add: map_of_zip_is_None lower_chars_length)
  with None show ?thesis by (simp add: lower_char_def)
next
  case (Some d)
  then have "d \<in> set lower_chars" by (auto dest!: map_of_SomeD set_zip_rightD)
  with Some show ?thesis by (simp add: lower_char_def)
qed

lemma lower_char_fixed: "c \<notin> set upper_chars \<Longrightarrow> lower_char c = c"
  by (auto simp: lower_char_def dest!: map_of_SomeD set_zip_leftD split: option.split)

lemma lower_char_idem [simp]: "lower_char (lower_char c) = lower_char c"
  using lower_char_table [of c] lower_chars_disjoint by (metis disjoint_iff lower_char_fixed)

lemma js_lower_idem [simp]: "js_lower (js_lower s) = js_lower s"
  by (simp add: js_lower_def)

lemma js_lower_append [simp]: "js_lower (s @ t) = js_lower s @ js_lower t"
  by (simp add: js_lower_def)

lemma js_lower_Nil [simp]: "js_lower [] = []"
  by (simp add: js_lower_def)

lemma js_lower_Cons: "js_lower (c # s) = lower_char c # js_lower s"
  by (simp add: js_lower_def)

lemma js_lower_eq_Nil [simp]: "js_lower s = [] \<longleftrightarrow> s = []"
  by (simp add: js_lower_def)

lemma js_includes_sublist: "js_includes s needle \<longleftrightarrow> sublist needle s"
  by (induction s) (auto simp: sublist_Cons_right)

lemma js_includes_self [simp]: "js_includes s s"
  by (simp add: js_includes_sublist)

lemma truthy_simps [simp]: "\<not> truthy None" "truthy (Some s) \<longleftrightarrow> s \<noteq> []"
  by (simp_all add: truthy_def)

lemma digit_cases:
  assumes "(d :: nat) < 10"
    and "P 0" "P 1" "P 2" "P 3" "P 4" "P 5" "P 6" "P 7" "P 8" "P 9"
  shows "P d"
proof -
  have "d = 0 \<or> d = 1 \<or> d = 2 \<or> d = 3 \<or> d = 4 \<or> d = 5 \<or> d = 6 \<or> d = 7 \<or> d = 8 \<or> d = 9"
    using assms(1) by arith
  with assms(2-) show ?thesis by blast
qed

lemma digit_char_inj: "d < 10 \<Longrightarrow> e < 10 \<Longrightarrow> digit_char d = digit_char e \<longleftrightarrow> d = e"
  unfolding digit_char_def by (subst nth_eq_iff_index_eq) simp_all

text \<open>The one-, two- and three-digit forms, which is all an IPv4 octet needs.\<close>

lemma show_nat_ne [simp]: "show_nat n \<noteq> []"
  by (subst show_nat.simps) simp

lemma show_nat_1: "n < 10 \<Longrightarrow> show_nat n = [digit_char n]"
  by (subst show_nat.simps) simp

lemma show_nat_2: "10 \<le> n \<Longrightarrow> n < 100 \<Longrightarrow> show_nat n = [digit_char (n div 10), digit_char (n mod 10)]"
  by (subst show_nat.simps) (simp add: show_nat_1)

lemma show_nat_3: "100 \<le> n \<Longrightarrow> n < 1000 \<Longrightarrow>
    show_nat n = [digit_char (n div 100), digit_char (n div 10 mod 10), digit_char (n mod 10)]"
  by (subst show_nat.simps) (simp add: show_nat_2 div_mult2_eq [symmetric])

lemma show_nat_digits: "c \<in> set (show_nat n) \<Longrightarrow> \<exists>d < 10. c = digit_char d"
proof (induction n rule: show_nat.induct)
  case (1 n)
  show ?case
  proof (cases "n < 10")
    case True
    with "1.prems" show ?thesis by (auto simp: show_nat_1)
  next
    case False
    then have "show_nat n = show_nat (n div 10) @ [digit_char (n mod 10)]" by (subst show_nat.simps) simp
    with 1 False show ?thesis by (auto intro: exI [of _ "n mod 10"])
  qed
qed

lemma show_nat_inj: "show_nat m = show_nat n \<Longrightarrow> m = n"
proof (induction m arbitrary: n rule: show_nat.induct)
  case (1 m)
  have u: "show_nat k = (if k < 10 then [digit_char k] else show_nat (k div 10) @ [digit_char (k mod 10)])" for k
    by (subst show_nat.simps) simp
  show ?case
  proof (cases "m < 10")
    case True
    with "1.prems" show ?thesis
      by (cases "n < 10") (auto simp: u [of m] u [of n] digit_char_inj dest: sym)
  next
    case False
    with "1.prems" have n: "\<not> n < 10" by (auto simp: u [of m] u [of n])
    from "1.prems" False n have eq: "show_nat (m div 10) = show_nat (n div 10)" "m mod 10 = n mod 10"
      by (auto simp: u [of m] u [of n] digit_char_inj)
    from "1.IH" [OF False eq(1)] eq(2) show ?thesis by (metis div_mult_mod_eq)
  qed
qed

subsection \<open>Character classes and anchored patterns\<close>

text \<open>
  The regular expressions the source tests hostnames with are alternatives of fixed-length
  sequences of character classes, anchored at the start and sometimes at the end.
\<close>

definition ch_in :: "string \<Rightarrow> char \<Rightarrow> bool" where
  "ch_in chars c = (c \<in> set chars)"

definition ch_digit :: "char \<Rightarrow> bool" where
  "ch_digit = ch_in ''0123456789''"

definition ch_hex :: "char \<Rightarrow> bool" where \<comment> \<open>\<open>[0-9a-f]\<close> with the flag \<open>i\<close>\<close>
  "ch_hex = ch_in ''0123456789abcdefABCDEF''"

definition lit :: "string \<Rightarrow> (char \<Rightarrow> bool) list" where
  "lit s = map (=) s"

fun cls_prefix :: "(char \<Rightarrow> bool) list \<Rightarrow> string \<Rightarrow> bool" where
  "cls_prefix [] s = True"
| "cls_prefix (p # ps) [] = False"
| "cls_prefix (p # ps) (c # cs) = (p c \<and> cls_prefix ps cs)"

lemma length_lit [simp]: "length (lit s) = length s"
  by (simp add: lit_def)

lemma cls_prefix_append:
  "cls_prefix (ps @ qs) s \<longleftrightarrow> cls_prefix ps s \<and> cls_prefix qs (drop (length ps) s)"
  by (induction ps s rule: cls_prefix.induct) auto

lemma cls_prefix_lit: "cls_prefix (lit p) s \<longleftrightarrow> prefix p s"
  by (induction "lit p" s arbitrary: p rule: cls_prefix.induct) (auto simp: lit_def)

lemma prefix_label:
  assumes "d \<notin> set x" "d \<notin> set y"
  shows "prefix (x @ d # r) (y @ d # s) \<longleftrightarrow> x = y \<and> prefix r s"
  using assms
proof (induction x arbitrary: y)
  case Nil
  then show ?case by (cases y) auto
next
  case (Cons c x)
  then show ?case by (cases y) auto
qed

subsection \<open>Lists without duplicates, in first-occurrence order\<close>

text \<open>\<open>pushUnique\<close> of the source, and \<open>[...new Set(values)]\<close> built from it.\<close>

definition push_unique :: "'a list \<Rightarrow> 'a \<Rightarrow> 'a list" where
  "push_unique xs x = (if x \<in> set xs then xs else xs @ [x])"

definition push_all_unique :: "'a list \<Rightarrow> 'a list \<Rightarrow> 'a list" where
  "push_all_unique xs ys = fold (\<lambda>y acc. push_unique acc y) ys xs"

definition dedupe :: "'a list \<Rightarrow> 'a list" where
  "dedupe xs = push_all_unique [] xs"

lemma set_push_unique [simp]: "set (push_unique xs x) = insert x (set xs)"
  by (auto simp: push_unique_def)

lemma distinct_push_unique [simp]: "distinct (push_unique xs x) = distinct xs"
  by (auto simp: push_unique_def)

lemma push_unique_ne [simp]: "push_unique xs x \<noteq> []"
  by (auto simp: push_unique_def)

lemma set_push_all_unique [simp]: "set (push_all_unique xs ys) = set xs \<union> set ys"
  unfolding push_all_unique_def by (induction ys arbitrary: xs) auto

lemma distinct_push_all_unique [simp]: "distinct (push_all_unique xs ys) = distinct xs"
  unfolding push_all_unique_def by (induction ys arbitrary: xs) auto

lemma push_all_unique_Nil [simp]: "push_all_unique xs [] = xs"
  by (simp add: push_all_unique_def)

lemma push_all_unique_Cons [simp]:
  "push_all_unique xs (y # ys) = push_all_unique (push_unique xs y) ys"
  by (simp add: push_all_unique_def)

lemma set_dedupe [simp]: "set (dedupe xs) = set xs"
  by (simp add: dedupe_def)

lemma distinct_dedupe [simp]: "distinct (dedupe xs)"
  by (simp add: dedupe_def)

lemma dedupe_Nil [simp]: "dedupe [] = []"
  by (simp add: dedupe_def)

subsection \<open>The interface of an insertion-ordered map\<close>

text \<open>
  \<open>Map.set\<close> on a key that is present keeps its position, and on a new key appends it;
  \<open>Map.delete\<close> removes the key; iteration follows insertion order. The components rely on
  the laws below only.
\<close>

locale js_map =
  fixes empty :: "'m"
    and get :: "'m \<Rightarrow> 'k \<Rightarrow> 'v option"
    and put :: "'k \<Rightarrow> 'v \<Rightarrow> 'm \<Rightarrow> 'm"
    and del :: "'k \<Rightarrow> 'm \<Rightarrow> 'm"
    and keys :: "'m \<Rightarrow> 'k list"
    and wf :: "'m \<Rightarrow> bool"
  assumes get_empty: "get empty k = None"
    and get_put: "get (put k v m) k' = (if k' = k then Some v else get m k')"
    and get_del: "wf m \<Longrightarrow> get (del k m) k' = (if k' = k then None else get m k')"
    and keys_empty: "keys empty = []"
    and keys_put: "keys (put k v m) = (if k \<in> set (keys m) then keys m else keys m @ [k])"
    and keys_del: "keys (del k m) = removeAll k (keys m)"
    and keys_get: "k \<in> set (keys m) \<longleftrightarrow> get m k \<noteq> None"
    and wf_empty: "wf empty"
    and wf_put: "wf m \<Longrightarrow> wf (put k v m)"
    and wf_del: "wf m \<Longrightarrow> wf (del k m)"
begin

lemma put_del_same: "wf m \<Longrightarrow> get (put k v (del k m)) k' = get (put k v m) k'"
  by (simp add: get_put get_del wf_del)

lemma del_del: "wf m \<Longrightarrow> get (del k (del k m)) k' = get (del k m) k'"
  by (simp add: get_del wf_del)

lemma del_missing: "wf m \<Longrightarrow> get m k = None \<Longrightarrow> get (del k m) k' = get m k'"
  by (auto simp: get_del)

lemma del_frame: "wf m \<Longrightarrow> k' \<noteq> k \<Longrightarrow> get (del k m) k' = get m k'"
  by (simp add: get_del)

lemma put_frame: "k' \<noteq> k \<Longrightarrow> get (put k v m) k' = get m k'"
  by (simp add: get_put)

lemma keys_del_fresh: "k \<notin> set (keys (del k m))"
  by (simp add: keys_del)

end

text \<open>The model's map: an association list.\<close>

definition omap_get :: "('k \<times> 'v) list \<Rightarrow> 'k \<Rightarrow> 'v option" where
  "omap_get = map_of"

fun omap_put :: "'k \<Rightarrow> 'v \<Rightarrow> ('k \<times> 'v) list \<Rightarrow> ('k \<times> 'v) list" where
  "omap_put k v [] = [(k, v)]"
| "omap_put k v ((k', v') # m) = (if k' = k then (k, v) # m else (k', v') # omap_put k v m)"

definition omap_del :: "'k \<Rightarrow> ('k \<times> 'v) list \<Rightarrow> ('k \<times> 'v) list" where
  "omap_del k m = filter (\<lambda>p. fst p \<noteq> k) m"

definition omap_keys :: "('k \<times> 'v) list \<Rightarrow> 'k list" where
  "omap_keys m = map fst m"

definition omap_wf :: "('k \<times> 'v) list \<Rightarrow> bool" where
  "omap_wf m = distinct (map fst m)"

abbreviation omap_has :: "('k \<times> 'v) list \<Rightarrow> 'k \<Rightarrow> bool" where
  "omap_has m k \<equiv> omap_get m k \<noteq> None"

lemma map_of_omap_put: "map_of (omap_put k v m) k' = (if k' = k then Some v else map_of m k')"
  by (induction k v m rule: omap_put.induct) auto

lemma fst_omap_put: "map fst (omap_put k v m) = (if k \<in> fst ` set m then map fst m else map fst m @ [k])"
  by (induction k v m rule: omap_put.induct) auto

lemma map_of_omap_del: "map_of (omap_del k m) k' = (if k' = k then None else map_of m k')"
  by (induction m) (auto simp: omap_del_def)

lemma fst_omap_del: "map fst (omap_del k m) = removeAll k (map fst m)"
  by (induction m) (auto simp: omap_del_def)

interpretation om: js_map "[]" omap_get omap_put omap_del omap_keys omap_wf
  by unfold_locales
    (auto simp: omap_get_def omap_keys_def omap_wf_def map_of_omap_put map_of_omap_del
      fst_omap_put fst_omap_del distinct_removeAll map_of_eq_None_iff)

lemmas omap_laws [omap_simps] =
  om.get_empty om.get_put om.get_del om.keys_empty om.keys_put om.keys_del
  om.wf_empty om.wf_put om.wf_del

lemma omap_get_del [simp]: "omap_get (omap_del k m) k' = (if k' = k then None else omap_get m k')"
  by (simp add: omap_get_def map_of_omap_del)

lemma omap_get_put [simp]: "omap_get (omap_put k v m) k' = (if k' = k then Some v else omap_get m k')"
  by (simp add: omap_get_def map_of_omap_put)

lemma omap_get_Nil [simp]: "omap_get [] k = None"
  by (simp add: omap_get_def)

lemma omap_get_Cons [simp]: "omap_get ((k', v) # m) k = (if k = k' then Some v else omap_get m k)"
  by (auto simp: omap_get_def)

lemma omap_del_mem: "p \<in> set (omap_del k m) \<longleftrightarrow> p \<in> set m \<and> fst p \<noteq> k"
  by (simp add: omap_del_def)

lemma omap_put_ne [simp]: "omap_put k v m \<noteq> []"
  by (cases "(k, v, m)" rule: omap_put.cases) auto

subsection \<open>Severity scales\<close>

text \<open>
  The source ranks decisions and risks by a table of numbers and keeps the stronger of two,
  in three places that must agree (the policy engine, the MCP pipeline and egress enforcement).
  The interface is the table; what the clients rely on is derived from it once.
\<close>

definition stronger :: "('a \<Rightarrow> nat) \<Rightarrow> 'a \<Rightarrow> 'a \<Rightarrow> 'a" where
  "stronger rank current candidate = (if rank candidate > rank current then candidate else current)"

locale severity_scale =
  fixes rank :: "'a \<Rightarrow> nat"
  assumes rank_inj: "rank x = rank y \<Longrightarrow> x = y"
begin

lemma stronger_rank [simp]: "rank (stronger rank x y) = max (rank x) (rank y)"
  by (simp add: stronger_def)

lemma stronger_idem: "stronger rank x x = x"
  by (simp add: stronger_def)

lemma stronger_comm: "stronger rank x y = stronger rank y x"
  by (rule rank_inj) (simp add: max.commute)

lemma stronger_assoc: "stronger rank (stronger rank x y) z = stronger rank x (stronger rank y z)"
  by (rule rank_inj) (simp add: max.assoc)

lemma stronger_cases: "stronger rank x y = x \<or> stronger rank x y = y"
  by (simp add: stronger_def)

lemma stronger_top: "(\<And>z. rank z \<le> rank t) \<Longrightarrow> stronger rank x y = t \<longleftrightarrow> x = t \<or> y = t"
  by (metis max.cobounded1 max.cobounded2 le_antisym rank_inj stronger_cases stronger_rank)

lemma fold_stronger_rank:
  "rank (fold (\<lambda>y acc. stronger rank acc y) ys x) = fold max (map rank ys) (rank x)"
  by (induction ys arbitrary: x) (simp_all add: max.commute)

lemma fold_stronger_ge: "y \<in> insert x (set ys) \<Longrightarrow> rank y \<le> rank (fold (\<lambda>y acc. stronger rank acc y) ys x)"
proof (induction ys arbitrary: x y)
  case (Cons z ys)
  have up: "rank (stronger rank x z) \<le> rank (fold (\<lambda>y acc. stronger rank acc y) ys (stronger rank x z))"
    by (rule Cons.IH) simp
  from Cons.prems consider "y \<in> set ys" | "y = x" | "y = z" by auto
  then show ?case
  proof cases
    case 1
    then show ?thesis using Cons.IH [of y "stronger rank x z"] by simp
  qed (use up in auto)
qed simp

lemma fold_stronger_mem: "fold (\<lambda>y acc. stronger rank acc y) ys x \<in> insert x (set ys)"
proof (induction ys arbitrary: x)
  case (Cons z ys)
  show ?case using Cons.IH [of "stronger rank x z"] stronger_cases [of x z] by (auto simp del: insert_iff)
qed simp

text \<open>The strongest element of a collection is determined by its members alone.\<close>

lemma fold_stronger_unique:
  assumes "m \<in> insert x (set ys)" and "\<And>y. y \<in> insert x (set ys) \<Longrightarrow> rank y \<le> rank m"
  shows "fold (\<lambda>y acc. stronger rank acc y) ys x = m"
  by (rule rank_inj, rule le_antisym)
     (simp_all only: assms fold_stronger_mem fold_stronger_ge)

lemma fold_stronger_set_cong:
  assumes "insert x (set xs) = insert y (set ys)"
  shows "fold (\<lambda>y acc. stronger rank acc y) xs x = fold (\<lambda>y acc. stronger rank acc y) ys y"
  by (rule fold_stronger_unique) (simp_all only: assms fold_stronger_mem fold_stronger_ge)

end

end
