(* ===== verification/Types.thy ===== *)
theory Types
  imports Prelude
begin

text \<open>
  The data model of \<open>src/types.ts\<close>: decisions, risks, planes, provenance, flow, the agent
  context every decision is a function of, the policy result, and JSON values. Optional members
  are \<open>option\<close>. A JSON number is kept as the lexeme \<open>JSON.stringify\<close> prints for it, which is all
  the modelled code ever reads of one; an object is its members in insertion order.
\<close>

subsection \<open>Enumerations\<close>

datatype decision = Allow | Deny | Approve | Redact

datatype risk_level = Low | Medium | High | Critical

datatype plane = Network | Tool | Content | Browser | Identity | Governance

datatype prov_source = User | System | Web | Email | ToolMetadata | ToolOutput | Memory

datatype trust_label = Trusted | Untrusted | Derived

datatype flow_direction = Ingress | Internal | Egress

datatype flow_label =
    ExternalEgress | CrossBoundary | HighRiskLabel | SecretMaterial | Pii | CredentialAccess
  | DestructiveAction | Payment | PrivateNetworkTarget | ManifestDrift | WatchdogTimeout

datatype execution_mode = NormalMode | ReadOnly | AnswerOnly

fun decision_str :: "decision \<Rightarrow> string" where
  "decision_str Allow = ''allow''"
| "decision_str Deny = ''deny''"
| "decision_str Approve = ''approve''"
| "decision_str Redact = ''redact''"

fun plane_str :: "plane \<Rightarrow> string" where
  "plane_str Network = ''network''"
| "plane_str Tool = ''tool''"
| "plane_str Content = ''content''"
| "plane_str Browser = ''browser''"
| "plane_str Identity = ''identity''"
| "plane_str Governance = ''governance''"

subsection \<open>The precedence tables\<close>

fun DECISION_ORDER :: "decision \<Rightarrow> nat" where
  "DECISION_ORDER Allow = 0"
| "DECISION_ORDER Redact = 1"
| "DECISION_ORDER Approve = 2"
| "DECISION_ORDER Deny = 3"

fun RISK_ORDER :: "risk_level \<Rightarrow> nat" where
  "RISK_ORDER Low = 0"
| "RISK_ORDER Medium = 1"
| "RISK_ORDER High = 2"
| "RISK_ORDER Critical = 3"

interpretation decisions: severity_scale DECISION_ORDER
proof
  show "x = y" if "DECISION_ORDER x = DECISION_ORDER y" for x y
    using that by (cases x; cases y) simp_all
qed

interpretation risks: severity_scale RISK_ORDER
proof
  show "x = y" if "RISK_ORDER x = RISK_ORDER y" for x y
    using that by (cases x; cases y) simp_all
qed

lemma DECISION_ORDER_le [simp]: "DECISION_ORDER d \<le> 3"
  by (cases d) simp_all

lemma RISK_ORDER_le [simp]: "RISK_ORDER r \<le> 3"
  by (cases r) simp_all

lemma DECISION_ORDER_3 [simp]: "DECISION_ORDER d = 3 \<longleftrightarrow> d = Deny"
  by (cases d) simp_all

lemma DECISION_ORDER_ge_3 [simp]: "3 \<le> DECISION_ORDER d \<longleftrightarrow> d = Deny"
  by (cases d) simp_all

lemma RISK_ORDER_ge_3 [simp]: "3 \<le> RISK_ORDER r \<longleftrightarrow> r = Critical"
  by (cases r) simp_all

text \<open>The order the tables induce, so that the library's order automation applies.\<close>

instantiation decision :: linorder
begin

definition less_eq_decision :: "decision \<Rightarrow> decision \<Rightarrow> bool" where
  "less_eq_decision x y = (DECISION_ORDER x \<le> DECISION_ORDER y)"

definition less_decision :: "decision \<Rightarrow> decision \<Rightarrow> bool" where
  "less_decision x y = (DECISION_ORDER x < DECISION_ORDER y)"

instance
  by intro_classes (auto simp: less_eq_decision_def less_decision_def intro: decisions.rank_inj)

end

instantiation risk_level :: linorder
begin

definition less_eq_risk_level :: "risk_level \<Rightarrow> risk_level \<Rightarrow> bool" where
  "less_eq_risk_level x y = (RISK_ORDER x \<le> RISK_ORDER y)"

definition less_risk_level :: "risk_level \<Rightarrow> risk_level \<Rightarrow> bool" where
  "less_risk_level x y = (RISK_ORDER x < RISK_ORDER y)"

instance
  by intro_classes (auto simp: less_eq_risk_level_def less_risk_level_def intro: risks.rank_inj)

end

lemma stronger_decision_max: "stronger DECISION_ORDER x y = max x y"
  by (cases x; cases y) (simp_all add: stronger_def max_def less_eq_decision_def)

lemma stronger_risk_max: "stronger RISK_ORDER x y = max x y"
  by (cases x; cases y) (simp_all add: stronger_def max_def less_eq_risk_level_def)

lemma decision_le_Deny [simp]: "(d :: decision) \<le> Deny"
  by (simp add: less_eq_decision_def)

lemma Deny_le_iff [simp]: "Deny \<le> d \<longleftrightarrow> d = Deny"
  by (cases d) (simp_all add: less_eq_decision_def)

lemma risk_le_Critical [simp]: "(r :: risk_level) \<le> Critical"
  by (simp add: less_eq_risk_level_def)

subsection \<open>JSON values\<close>

datatype json =
    JNull
  | JBool bool
  | JNum string
  | JStr string
  | JArr "json list"
  | JObj "(string \<times> json) list"

subsection \<open>The agent context\<close>

record provenance_tag =
  pt_source :: prov_source
  pt_trustLabel :: trust_label
  pt_labels :: "flow_label list option"
  pt_derivedFrom :: "prov_source list option"
  pt_justification :: "string option"

record flow_descriptor =
  fl_direction :: flow_direction
  fl_channel :: "string option"
  fl_target :: "string option"
  fl_labels :: "flow_label list option"
  fl_crossesBoundary :: "bool option"
  fl_highRisk :: "bool option"

record actor_scope =
  ac_channelId :: "string option"
  ac_userId :: "string option"
  ac_roleIds :: "string list option"

record control_state =
  ct_executionMode :: execution_mode
  ct_reason :: "string option"
  ct_enforcedBy :: "string option"

record agent_context =
  cx_agentId :: string
  cx_sessionId :: "string option"
  cx_plane :: plane
  cx_action :: string
  cx_payload :: "(string \<times> json) list"
  cx_metadata :: "(string \<times> string) list option"
  cx_actor :: "actor_scope option"
  cx_control :: "control_state option"
  cx_provenance :: "provenance_tag list option"
  cx_flow :: "flow_descriptor option"

text \<open>\<open>ctx.metadata?.[key]\<close>\<close>

definition metadata_at :: "agent_context \<Rightarrow> string \<Rightarrow> string option" where
  "metadata_at ctx k = (case cx_metadata ctx of None \<Rightarrow> None | Some m \<Rightarrow> omap_get m k)"

subsection \<open>Policy results and detections\<close>

record mitre_ref =
  mi_tactic :: string
  mi_technique :: string
  mi_techniqueId :: string

record detection_match =
  dm_id :: string
  dm_ruleId :: string
  dm_name :: string
  dm_description :: string
  dm_severity :: risk_level
  dm_mitre :: "mitre_ref option"

record policy_result =
  pr_decision :: decision
  pr_riskLevel :: risk_level
  pr_matchedRules :: "string list"
  pr_reasons :: "string list"
  pr_requiresApproval :: bool
  pr_highRiskFlow :: bool
  pr_detections :: "detection_match list"

end
