(* ===== verification/Detections.thy ===== *)
theory Detections
  imports Types
begin

text \<open>
  The detection catalogue of \<open>src/policy/detections.ts\<close>: the entries verbatim, the table that
  groups them by rule id, the table of the network inspector's block categories, and the lookup
  that turns the ids of the matched rules into detections, each id once.
\<close>

subsection \<open>The catalogue\<close>

definition detectionCatalog_1 :: "detection_match list" where
  "detectionCatalog_1 =
   [\<lparr>dm_id = ''det.net.ssrf.private'', dm_ruleId = ''net:block-ssrf-private'',
      dm_name = ''Private-range SSRF attempt'',
      dm_description = ''Outbound request targeted loopback, private, or link-local infrastructure.'',
      dm_severity = Critical, dm_mitre = Some \<lparr>mi_tactic = ''Initial Access'', mi_technique = ''Exploit Public-Facing Application'', mi_techniqueId = ''T1190''\<rparr>\<rparr>,
    \<lparr>dm_id = ''det.net.metadata.access'', dm_ruleId = ''net:block-metadata-endpoint'',
      dm_name = ''Cloud metadata access'',
      dm_description = ''Request attempted to access cloud instance metadata endpoints.'',
      dm_severity = Critical, dm_mitre = Some \<lparr>mi_tactic = ''Credential Access'', mi_technique = ''Cloud Instance Metadata API'', mi_techniqueId = ''T1552.005''\<rparr>\<rparr>,
    \<lparr>dm_id = ''det.net.sni.connect-mismatch'', dm_ruleId = ''net:sni-connect-mismatch'',
      dm_name = ''CONNECT host and TLS SNI disagree'',
      dm_description = ''A tunnelled connection named one host on its CONNECT line and negotiated a different one in its ClientHello. The proxy re-evaluated policy against the negotiated name. This is a client contradicting itself to the proxy, NOT domain fronting: fronting hides its real destination in the HTTP Host header inside the TLS session, which a proxy that does not terminate TLS cannot read.'',
      dm_severity = High, dm_mitre = None\<rparr>,
    \<lparr>dm_id = ''det.content.secret.exfil'', dm_ruleId = ''content:block-secret-exfil'',
      dm_name = ''Potential secret exfiltration'',
      dm_description = ''Detected credential material in outbound content flow.'',
      dm_severity = Critical, dm_mitre = Some \<lparr>mi_tactic = ''Exfiltration'', mi_technique = ''Exfiltration Over C2 Channel'', mi_techniqueId = ''T1041''\<rparr>\<rparr>,
    \<lparr>dm_id = ''det.identity.credential.access'', dm_ruleId = ''identity:flag-credential-access'',
      dm_name = ''Credential store access'',
      dm_description = ''Action requested access to secrets, passwords, tokens, or credential vaults.'',
      dm_severity = Critical, dm_mitre = Some \<lparr>mi_tactic = ''Credential Access'', mi_technique = ''Credentials from Password Stores'', mi_techniqueId = ''T1555''\<rparr>\<rparr>,
    \<lparr>dm_id = ''det.browser.oauth.approval'', dm_ruleId = ''browser:require-approval-oauth'',
      dm_name = ''OAuth grant attempt'',
      dm_description = ''Browser flow indicates third-party authorization grant request.'',
      dm_severity = High, dm_mitre = Some \<lparr>mi_tactic = ''Persistence'', mi_technique = ''Additional Cloud Credentials'', mi_techniqueId = ''T1098.001''\<rparr>\<rparr>,
    \<lparr>dm_id = ''det.tool.manifest.drift'', dm_ruleId = ''tool:approve-manifest-drift'',
      dm_name = ''Tool manifest drift'',
      dm_description = ''Tool or MCP manifest changed after prior approval.'',
      dm_severity = High, dm_mitre = Some \<lparr>mi_tactic = ''Defense Evasion'', mi_technique = ''Impair Defenses'', mi_techniqueId = ''T1562''\<rparr>\<rparr>,
    \<lparr>dm_id = ''det.mcp.tool.poisoned'', dm_ruleId = ''mcp:deny-tool-poisoning'',
      dm_name = ''Poisoned MCP tool description'',
      dm_description = ''An MCP server advertised a tool whose name or description carries instructions aimed at the model.'',
      dm_severity = Critical, dm_mitre = Some \<lparr>mi_tactic = ''Initial Access'', mi_technique = ''Supply Chain Compromise'', mi_techniqueId = ''T1195''\<rparr>\<rparr>,
    \<lparr>dm_id = ''det.mcp.tool.drift'', dm_ruleId = ''mcp:approve-tool-drift'',
      dm_name = ''MCP tool inventory drift'',
      dm_description = ''An MCP server advertised a tool set that differs from the inventory approved for this session.'',
      dm_severity = High, dm_mitre = Some \<lparr>mi_tactic = ''Initial Access'', mi_technique = ''Supply Chain Compromise'', mi_techniqueId = ''T1195''\<rparr>\<rparr>,
    \<lparr>dm_id = ''det.mcp.input.secret'', dm_ruleId = ''mcp:redact-input-secret'',
      dm_name = ''Credential material in MCP tool arguments'',
      dm_description = ''Outbound MCP tool arguments carried credential material and were redacted before reaching the server.'',
      dm_severity = High, dm_mitre = Some \<lparr>mi_tactic = ''Credential Access'', mi_technique = ''Unsecured Credentials'', mi_techniqueId = ''T1552''\<rparr>\<rparr>,
    \<lparr>dm_id = ''det.mcp.input.injection'', dm_ruleId = ''mcp:deny-input-injection'',
      dm_name = ''Injected instructions in MCP tool arguments'',
      dm_description = ''Outbound MCP tool arguments carried instruction-injection text aimed at the receiving server.'',
      dm_severity = High, dm_mitre = Some \<lparr>mi_tactic = ''Execution'', mi_technique = ''Command and Scripting Interpreter'', mi_techniqueId = ''T1059''\<rparr>\<rparr>]"

definition detectionCatalog_2 :: "detection_match list" where
  "detectionCatalog_2 =
   [\<lparr>dm_id = ''det.mcp.response.injection'', dm_ruleId = ''mcp:deny-response-injection'',
      dm_name = ''Injected instructions in MCP tool output'',
      dm_description = ''An MCP server returned tool output carrying instruction-injection text aimed at the agent.'',
      dm_severity = Critical, dm_mitre = Some \<lparr>mi_tactic = ''Execution'', mi_technique = ''Command and Scripting Interpreter'', mi_techniqueId = ''T1059''\<rparr>\<rparr>,
    \<lparr>dm_id = ''det.mcp.response.secret'', dm_ruleId = ''mcp:redact-response-secret'',
      dm_name = ''Credential material in MCP tool output'',
      dm_description = ''An MCP server returned credential material, which was redacted before it reached the agent.'',
      dm_severity = High, dm_mitre = Some \<lparr>mi_tactic = ''Credential Access'', mi_technique = ''Unsecured Credentials'', mi_techniqueId = ''T1552''\<rparr>\<rparr>,
    \<lparr>dm_id = ''det.net.egress.blocked'', dm_ruleId = ''net:deny-egress-not-allowlisted'',
      dm_name = ''Blocked egress to a non-allowlisted destination'',
      dm_description = ''A proxied agent tried to reach a host outside the configured egress allowlist while strict enforcement was active, and the connection was refused.'',
      dm_severity = High, dm_mitre = Some \<lparr>mi_tactic = ''Command and Control'', mi_technique = ''Application Layer Protocol'', mi_techniqueId = ''T1071''\<rparr>\<rparr>,
    \<lparr>dm_id = ''det.net.egress.port_blocked'', dm_ruleId = ''net:deny-egress-port-not-allowlisted'',
      dm_name = ''Blocked egress to a non-allowlisted port'',
      dm_description = ''A proxied agent tried to reach a port outside the configured egress port allowlist while strict enforcement was active, and the connection was refused. Reaching an unexpected port on an otherwise permitted host is how an agent turns a web allowlist into shell, database, or admin access.'',
      dm_severity = High, dm_mitre = Some \<lparr>mi_tactic = ''Command and Control'', mi_technique = ''Non-Standard Port'', mi_techniqueId = ''T1571''\<rparr>\<rparr>,
    \<lparr>dm_id = ''det.governance.lockdown.active'', dm_ruleId = ''governance:lockdown'',
      dm_name = ''Action refused by the operator lockdown'',
      dm_description = ''An action was attempted while the emergency stop was engaged and was refused. Expected during an intentional halt; unexpected outside one, which is why it is recorded rather than suppressed.'',
      dm_severity = Critical, dm_mitre = Some \<lparr>mi_tactic = ''Impact'', mi_technique = ''Service Stop'', mi_techniqueId = ''T1489''\<rparr>\<rparr>,
    \<lparr>dm_id = ''det.identity.decoy.triggered'', dm_ruleId = ''identity:deny-decoy-triggered'',
      dm_name = ''Decoy token triggered'',
      dm_description = ''A planted decoy credential appeared in inspected content. The value is synthetic and is never legitimately used, so its presence demonstrates exfiltration rather than inferring it.'',
      dm_severity = Critical, dm_mitre = Some \<lparr>mi_tactic = ''Credential Access'', mi_technique = ''Unsecured Credentials'', mi_techniqueId = ''T1552''\<rparr>\<rparr>,
    \<lparr>dm_id = ''det.content.spill.file_write'', dm_ruleId = ''content:deny-spill-file-write'',
      dm_name = ''Credential written to a watched path'',
      dm_description = ''The spill watch observed credential material appear in a file under a watched path. The write itself is the finding: staging a harvested credential on disk precedes the commit or upload that would make it egress, and nothing in the network plane sees that step.'',
      dm_severity = High, dm_mitre = Some \<lparr>mi_tactic = ''Credential Access'', mi_technique = ''Credentials In Files'', mi_techniqueId = ''T1552.001''\<rparr>\<rparr>]"

definition detectionCatalog_3 :: "detection_match list" where
  "detectionCatalog_3 =
   [\<lparr>dm_id = ''det.net.proxy.request_secret'', dm_ruleId = ''net:deny-proxy-request-secret'',
      dm_name = ''Credential material in a proxied request'',
      dm_description = ''A plaintext HTTP request through the forward proxy carried credential material in its path, headers, or body, and was refused. This is the first control in the product that sees a proxied body at all; the same request over https is invisible to it, because that body is never decrypted.'',
      dm_severity = Critical, dm_mitre = Some \<lparr>mi_tactic = ''Exfiltration'', mi_technique = ''Exfiltration Over C2 Channel'', mi_techniqueId = ''T1041''\<rparr>\<rparr>,
    \<lparr>dm_id = ''det.net.proxy.request_injection'', dm_ruleId = ''net:deny-proxy-request-injection'',
      dm_name = ''Injected instructions in a proxied request'',
      dm_description = ''A plaintext HTTP request through the forward proxy carried prompt-injection patterns in its path, headers, or body. An agent relaying an instruction override to a downstream service is aiming it at whatever consumes the request next.'',
      dm_severity = High, dm_mitre = Some \<lparr>mi_tactic = ''Execution'', mi_technique = ''Command and Scripting Interpreter'', mi_techniqueId = ''T1059''\<rparr>\<rparr>,
    \<lparr>dm_id = ''det.net.proxy.response_injection'', dm_ruleId = ''net:deny-proxy-response-injection'',
      dm_name = ''Injected instructions in a proxied response'',
      dm_description = ''A plaintext HTTP response through the forward proxy carried prompt-injection patterns back to the agent. A poisoned tool result is the dominant real-world shape of this attack, and a control that inspects only egress never sees it.'',
      dm_severity = High, dm_mitre = Some \<lparr>mi_tactic = ''Execution'', mi_technique = ''Command and Scripting Interpreter'', mi_techniqueId = ''T1059''\<rparr>\<rparr>,
    \<lparr>dm_id = ''det.net.proxy.response_secret'', dm_ruleId = ''net:flag-proxy-response-secret'',
      dm_name = ''Credential material in a proxied response'',
      dm_description = ''A plaintext HTTP response through the forward proxy carried credential material into the agent's context. Recorded rather than refused: a response carrying a secret is usually the agent reading one it is entitled to, and blocking that breaks the legitimate case far more often than it catches anything.'',
      dm_severity = High, dm_mitre = Some \<lparr>mi_tactic = ''Credential Access'', mi_technique = ''Unsecured Credentials'', mi_techniqueId = ''T1552''\<rparr>\<rparr>,
    \<lparr>dm_id = ''det.fleet.budget.exhausted'', dm_ruleId = ''fleet:deny-agent-budget-exhausted'',
      dm_name = ''Agent egress budget exhausted'',
      dm_description = ''A declared agent reached the request or byte ceiling configured for its window and the connection was refused. Expected when a budget is doing its job; worth reading when an agent that has never approached its ceiling suddenly does, which is what a runaway loop or an exfiltration attempt looks like from the outside.'',
      dm_severity = Medium, dm_mitre = Some \<lparr>mi_tactic = ''Exfiltration'', mi_technique = ''Exfiltration Over C2 Channel'', mi_techniqueId = ''T1041''\<rparr>\<rparr>,
    \<lparr>dm_id = ''det.fleet.agent.undeclared'', dm_ruleId = ''fleet:deny-undeclared-agent'',
      dm_name = ''Egress from an agent no declaration claims'',
      dm_description = ''A proxied connection could not be bound to any declared agent and the fleet is configured to refuse those. Either an agent was deployed without being declared, or something on the host is using the proxy that the operator did not put there. Both are worth knowing; only the second is an incident.'',
      dm_severity = High, dm_mitre = Some \<lparr>mi_tactic = ''Defense Evasion'', mi_technique = ''Masquerading'', mi_techniqueId = ''T1036''\<rparr>\<rparr>,
    \<lparr>dm_id = ''det.fleet.identity.refused'', dm_ruleId = ''fleet:deny-refused-agent-identity'',
      dm_name = ''Refused fleet identity'',
      dm_description = ''A connection presented a fleet credential the operator had withdrawn (revoked, or past its rotation overlap), or claimed a declared agent on a weaker signal while that agent's credential exists and was not presented. The second case is impersonation: a process name is chosen by the process. The first is INDETERMINATE by construction and the record says so, because a deployment that missed the change and a copy of the credential in someone else's hands present identical bytes. Confirm who holds it before closing this.'',
      dm_severity = High, dm_mitre = Some \<lparr>mi_tactic = ''Defense Evasion'', mi_technique = ''Valid Accounts'', mi_techniqueId = ''T1078''\<rparr>\<rparr>,
    \<lparr>dm_id = ''det.fleet.identity.unconfigured'', dm_ruleId = ''fleet:deny-unconfigured-agent-identity'',
      dm_name = ''Agent cannot satisfy the fleet minimum binding tier'',
      dm_description = ''A declared agent was refused because it cannot meet the fleet's configured minimum binding tier, or because its credential names an agent this instance no longer declares. Every connection it makes is refused identically, whoever makes it. This is the expected state while an operator raises the floor across a fleet, and `agentwall fleet list` names the agents in it.'',
      dm_severity = Medium, dm_mitre = None\<rparr>]"

definition detectionCatalog :: "detection_match list" where
  "detectionCatalog = detectionCatalog_1 @ detectionCatalog_2 @ detectionCatalog_3"

definition inspectionDetections :: "(string \<times> detection_match) list" where
  "inspectionDetections =
   [(''embedded-credentials'',
     \<lparr>dm_id = ''det.net.embedded.credentials'', dm_ruleId = ''inspection:embedded-credentials'',
      dm_name = ''Embedded credentials in URL'',
      dm_description = ''Outbound request included a username or password in the URL.'',
      dm_severity = High, dm_mitre = Some \<lparr>mi_tactic = ''Credential Access'', mi_technique = ''Exposed Credentials'', mi_techniqueId = ''T1552''\<rparr>\<rparr>),
    (''cloud-metadata'',
     \<lparr>dm_id = ''det.net.metadata.access'', dm_ruleId = ''inspection:cloud-metadata'',
      dm_name = ''Cloud metadata access'',
      dm_description = ''Request attempted to access cloud instance metadata endpoints.'',
      dm_severity = Critical, dm_mitre = Some \<lparr>mi_tactic = ''Credential Access'', mi_technique = ''Cloud Instance Metadata API'', mi_techniqueId = ''T1552.005''\<rparr>\<rparr>),
    (''private-target'',
     \<lparr>dm_id = ''det.net.ssrf.private'', dm_ruleId = ''inspection:private-target'',
      dm_name = ''Private-range SSRF attempt'',
      dm_description = ''Outbound request targeted loopback, private, or link-local infrastructure.'',
      dm_severity = Critical, dm_mitre = Some \<lparr>mi_tactic = ''Initial Access'', mi_technique = ''Exploit Public-Facing Application'', mi_techniqueId = ''T1190''\<rparr>\<rparr>),
    (''default-deny-egress'',
     \<lparr>dm_id = ''det.net.egress.default-deny'', dm_ruleId = ''inspection:default-deny-egress'',
      dm_name = ''Default-deny egress block'',
      dm_description = ''Outbound request was blocked by the default-deny egress posture.'',
      dm_severity = High, dm_mitre = None\<rparr>),
    (''blocked-scheme'',
     \<lparr>dm_id = ''det.net.egress.scheme'', dm_ruleId = ''inspection:blocked-scheme'',
      dm_name = ''Blocked egress scheme'',
      dm_description = ''Outbound request used a disallowed URL scheme.'',
      dm_severity = High, dm_mitre = None\<rparr>),
    (''blocked-port'',
     \<lparr>dm_id = ''det.net.egress.port'', dm_ruleId = ''inspection:blocked-port'',
      dm_name = ''Blocked egress port'',
      dm_description = ''Outbound request used a disallowed destination port.'',
      dm_severity = High, dm_mitre = None\<rparr>),
    (''invalid-url'',
     \<lparr>dm_id = ''det.net.egress.invalid-url'', dm_ruleId = ''inspection:invalid-url'',
      dm_name = ''Malformed outbound URL'',
      dm_description = ''Outbound request URL could not be parsed.'',
      dm_severity = High, dm_mitre = None\<rparr>)]"

subsection \<open>Grouping by rule\<close>

text \<open>
  One step of the \<open>reduce\<close> over the catalogue: an entry whose rule id has been seen is pushed
  onto that rule's list, any other opens a new list at the end.
\<close>

fun group_detection :: "(string \<times> detection_match list) list \<Rightarrow> detection_match
    \<Rightarrow> (string \<times> detection_match list) list" where
  "group_detection [] item = [(dm_ruleId item, [item])]"
| "group_detection ((ruleId, items) # acc) item =
     (if ruleId = dm_ruleId item then (ruleId, items @ [item]) # acc
      else (ruleId, items) # group_detection acc item)"

definition detectionByRule :: "(string \<times> detection_match list) list" where
  "detectionByRule = foldl group_detection [] detectionCatalog"

definition add_detection :: "detection_match list \<Rightarrow> detection_match \<Rightarrow> detection_match list" where
  "add_detection results entry = (if dm_id entry \<in> set (map dm_id results) then results else results @ [entry])"

definition detections_of_rule :: "string \<Rightarrow> detection_match list" where
  "detections_of_rule ruleId = (case omap_get detectionByRule ruleId of None \<Rightarrow> [] | Some mapped \<Rightarrow> mapped)"

definition detectionsForRules :: "string list \<Rightarrow> detection_match list" where
  "detectionsForRules ruleIds = foldl (foldl add_detection) [] (map detections_of_rule ruleIds)"

definition detectionForBlockedCategory :: "string option \<Rightarrow> detection_match option" where
  "detectionForBlockedCategory category =
     (if truthy category then omap_get inspectionDetections (the category) else None)"

subsection \<open>What the lookup returns\<close>

lemma group_detection_lookup:
  "(case omap_get (group_detection acc item) r of None \<Rightarrow> [] | Some xs \<Rightarrow> xs) =
   (case omap_get acc r of None \<Rightarrow> [] | Some xs \<Rightarrow> xs) @ (if dm_ruleId item = r then [item] else [])"
  by (induction acc item rule: group_detection.induct) (auto simp: omap_get_def split: option.splits)

lemma detections_of_rule_filter:
  "detections_of_rule r = filter (\<lambda>d. dm_ruleId d = r) detectionCatalog"
proof -
  have "(case omap_get (foldl group_detection acc cat) r of None \<Rightarrow> [] | Some xs \<Rightarrow> xs) =
        (case omap_get acc r of None \<Rightarrow> [] | Some xs \<Rightarrow> xs) @ filter (\<lambda>d. dm_ruleId d = r) cat"
    for acc cat
    by (induction cat arbitrary: acc) (simp_all add: group_detection_lookup)
  from this [of "[]"] show ?thesis by (simp add: detections_of_rule_def detectionByRule_def)
qed

lemma ids_foldl_add_detection:
  "set (map dm_id (foldl add_detection acc ds)) = set (map dm_id acc) \<union> dm_id ` set ds"
  by (induction ds arbitrary: acc) (auto simp: add_detection_def)

lemma distinct_foldl_add_detection:
  "distinct (map dm_id acc) \<Longrightarrow> distinct (map dm_id (foldl add_detection acc ds))"
  by (induction ds arbitrary: acc) (auto simp: add_detection_def)

lemma ids_detectionsForRules_aux:
  "set (map dm_id (foldl (foldl add_detection) acc dss)) =
   set (map dm_id acc) \<union> (\<Union>ds \<in> set dss. dm_id ` set ds)"
  by (induction dss arbitrary: acc) (auto simp: ids_foldl_add_detection simp del: set_map)

lemma ids_detectionsForRules:
  "dm_id ` set (detectionsForRules ruleIds) =
   dm_id ` {d \<in> set detectionCatalog. dm_ruleId d \<in> set ruleIds}"
  using ids_detectionsForRules_aux [of "[]" "map detections_of_rule ruleIds"]
  by (auto simp: detectionsForRules_def detections_of_rule_filter)

lemma distinct_detectionsForRules: "distinct (map dm_id (detectionsForRules ruleIds))"
proof -
  have "distinct (map dm_id acc) \<Longrightarrow> distinct (map dm_id (foldl (foldl add_detection) acc dss))" for acc dss
    by (induction dss arbitrary: acc) (auto simp: distinct_foldl_add_detection)
  then show ?thesis by (simp add: detectionsForRules_def)
qed

lemma detectionsForRules_Nil [simp]: "detectionsForRules [] = []"
  by (simp add: detectionsForRules_def)

end
