(* ===== verification/Json.thy ===== *)
theory Json
  imports Types
begin

text \<open>
  \<open>JSON.stringify\<close> on the values of \<open>Types.json\<close>, compact form: the serialization the policy rules
  search, the MCP framing writes and the audit chain hashes. Control characters, the quote and the
  backslash are escaped as ECMAScript does; every other code unit is copied.
\<close>

definition hex_char :: "nat \<Rightarrow> char" where
  "hex_char n = ''0123456789abcdef'' ! n"

definition json_escape :: "char \<Rightarrow> string" where
  "json_escape c =
     (if c = CHR 0x22 then [CHR 0x5C, CHR 0x22]
      else if c = CHR 0x5C then [CHR 0x5C, CHR 0x5C]
      else if c = CHR 0x08 then [CHR 0x5C, CHR ''b'']
      else if c = CHR 0x09 then [CHR 0x5C, CHR ''t'']
      else if c = CHR 0x0A then [CHR 0x5C, CHR ''n'']
      else if c = CHR 0x0C then [CHR 0x5C, CHR ''f'']
      else if c = CHR 0x0D then [CHR 0x5C, CHR ''r'']
      else if (of_char c :: nat) < 32 then
        [CHR 0x5C, CHR ''u'', CHR ''0'', CHR ''0'', hex_char (of_char c div 16), hex_char (of_char c mod 16)]
      else [c])"

definition json_quote :: "string \<Rightarrow> string" where
  "json_quote s = CHR 0x22 # concat (map json_escape s) @ [CHR 0x22]"

fun json_stringify :: "json \<Rightarrow> string" where
  "json_stringify JNull = ''null''"
| "json_stringify (JBool b) = (if b then ''true'' else ''false'')"
| "json_stringify (JNum lexeme) = lexeme"
| "json_stringify (JStr s) = json_quote s"
| "json_stringify (JArr xs) = ''['' @ js_join '','' (map json_stringify xs) @ '']''"
| "json_stringify (JObj members) =
     ''{'' @ js_join '','' (map (\<lambda>m. json_quote (fst m) @ '':'' @ json_stringify (snd m)) members) @ ''}''"

text \<open>Every string found anywhere in a value, in the order \<open>Object.values\<close> visits them.\<close>

fun json_strings :: "json \<Rightarrow> string list" where
  "json_strings (JStr s) = [s]"
| "json_strings (JArr xs) = concat (map json_strings xs)"
| "json_strings (JObj members) = concat (map (\<lambda>m. json_strings (snd m)) members)"
| "json_strings _ = []"

text \<open>A serialized value never holds a raw newline, so one frame is one line.\<close>

lemma json_escape_no_newline: "CHR 0x0A \<notin> set (json_escape c)"
proof -
  have hex: "hex_char n \<noteq> CHR 0x0A" if "n < 16" for n
  proof -
    have "hex_char n \<in> set ''0123456789abcdef''"
      unfolding hex_char_def by (rule nth_mem) (use that in \<open>simp add: numeral_eq_Suc\<close>)
    then show ?thesis by auto
  qed
  have "of_char c < (16 * 16 :: nat)" by simp
  then have "of_char c div 16 < (16 :: nat)" by (rule less_mult_imp_div_less)
  with hex [THEN not_sym] show ?thesis by (simp add: json_escape_def)
qed

lemma json_quote_no_newline: "CHR 0x0A \<notin> set (json_quote s)"
  by (auto simp: json_quote_def json_escape_no_newline)

lemma set_js_join: "c \<in> set (js_join sep xs) \<Longrightarrow> c \<in> set sep \<or> (\<exists>x \<in> set xs. c \<in> set x)"
  by (induction sep xs rule: js_join.induct) auto

fun json_lexemes_ok :: "json \<Rightarrow> bool" where
  "json_lexemes_ok (JNum l) = (l \<noteq> [] \<and> list_all (ch_in ''0123456789+-.eE'') l)"
| "json_lexemes_ok (JArr xs) = list_all json_lexemes_ok xs"
| "json_lexemes_ok (JObj members) = list_all (\<lambda>m. json_lexemes_ok (snd m)) members"
| "json_lexemes_ok _ = True"

lemma json_lexeme_no_newline: "list_all (ch_in ''0123456789+-.eE'') l \<Longrightarrow> CHR 0x0A \<notin> set l"
proof -
  assume l: "list_all (ch_in ''0123456789+-.eE'') l"
  have "\<not> ch_in ''0123456789+-.eE'' CHR 0x0A" by (simp add: ch_in_def)
  with l show ?thesis by (auto simp: list_all_iff)
qed

lemma json_stringify_no_newline:
  "json_lexemes_ok v \<Longrightarrow> CHR 0x0A \<notin> set (json_stringify v)"
proof (induction v rule: json_stringify.induct)
  case (3 lexeme)
  then show ?case by (simp add: json_lexeme_no_newline)
next
  case (5 xs)
  then have "\<forall>x \<in> set xs. CHR 0x0A \<notin> set (json_stringify x)" by (simp add: list_all_iff)
  then show ?case by (auto dest!: set_js_join)
next
  case (6 members)
  then have "\<forall>m \<in> set members. CHR 0x0A \<notin> set (json_stringify (snd m))" by (simp add: list_all_iff)
  then show ?case using json_quote_no_newline by (fastforce dest!: set_js_join)
qed (simp_all add: json_quote_no_newline)

end
