(* ===== verification/Sliding_Window.thy ===== *)
theory Sliding_Window
  imports Prelude Complex_Main "HOL-Library.Multiset"
begin

text \<open>
  The interface of a sliding-window limiter, shared by the flood guard's rate buckets and cost budgets
  and by the fleet's agent budgets: a store of timestamped, weighted entries, operations that may grant
  something against it, and a cap. From two laws -- an operation keeps what is still inside the window
  and records what it grants, and it grants only what fits under the cap -- follows that in \<^emph>\<open>every\<close>
  window, not just the ones ending at an operation, the total granted stays under the cap.
\<close>

subsection \<open>Windows of timestamped weights\<close>

definition live :: "int \<Rightarrow> int \<Rightarrow> (int \<times> rat) multiset \<Rightarrow> (int \<times> rat) multiset" where
  "live window now M = filter_mset (\<lambda>e. fst e > now - window) M"

definition in_window :: "int \<Rightarrow> int \<Rightarrow> (int \<times> rat) multiset \<Rightarrow> (int \<times> rat) multiset" where
  "in_window window t M = filter_mset (\<lambda>e. t - window < fst e \<and> fst e \<le> t) M"

definition total :: "(int \<times> rat) multiset \<Rightarrow> rat" where
  "total M = sum_mset (image_mset snd M)"

lemma total_simps [simp]: "total {#} = 0" "total (M + N) = total M + total N" "total (add_mset e M) = snd e + total M"
  by (simp_all add: total_def)

lemma total_nonneg: "(\<And>e. e \<in># M \<Longrightarrow> 0 \<le> snd e) \<Longrightarrow> 0 \<le> total M"
  by (induction M) auto

lemma total_mono:
  assumes "M \<subseteq># N" "\<And>e. e \<in># N \<Longrightarrow> 0 \<le> snd e"
  shows "total M \<le> total N"
proof -
  from assms(1) obtain K where "N = M + K" by (metis mset_subset_eq_exists_conv)
  moreover from this assms(2) have "0 \<le> total K" by (intro total_nonneg) auto
  ultimately show ?thesis by simp
qed

lemma live_mono: "M \<subseteq># N \<Longrightarrow> live w now M \<subseteq># live w now N"
  by (simp add: live_def multiset_filter_mono)

lemma live_live: "now \<le> now' \<Longrightarrow> live w now' (live w now M) = live w now' M"
  unfolding live_def filter_filter_mset by (rule filter_mset_cong) auto

lemma live_later: "now \<le> now' \<Longrightarrow> live w now' M \<subseteq># live w now M"
  unfolding live_def by (rule filter_mset_mono_strong) auto

lemma live_simps [simp]: "live w now {#} = {#}" "live w now (M + N) = live w now M + live w now N"
  by (simp_all add: live_def)

lemma in_window_simps [simp]: "in_window w t {#} = {#}" "in_window w t (M + N) = in_window w t M + in_window w t N"
  by (simp_all add: in_window_def)

text \<open>Entries that weigh one each: a count.\<close>

definition unit_entries :: "int multiset \<Rightarrow> (int \<times> rat) multiset" where
  "unit_entries M = image_mset (\<lambda>t. (t, 1)) M"

lemma total_unit_entries: "total (unit_entries M) = of_nat (size M)"
  by (induction M) (auto simp: unit_entries_def)

lemma live_unit_entries: "live w now (unit_entries M) = unit_entries (filter_mset (\<lambda>t. t > now - w) M)"
  by (simp add: live_def unit_entries_def filter_mset_image_mset comp_def)

lemma unit_entries_mono: "M \<subseteq># N \<Longrightarrow> unit_entries M \<subseteq># unit_entries N"
  by (simp add: unit_entries_def image_mset_subseteq_mono)

lemma in_window_unit_entries:
  "in_window w t (unit_entries (mset ts)) = unit_entries (mset (filter (\<lambda>n. t - w < n \<and> n \<le> t) ts))"
  by (simp add: in_window_def unit_entries_def filter_mset_image_mset comp_def)

subsection \<open>The interface\<close>

locale window_limiter =
  fixes window :: int
    and entries :: "'s \<Rightarrow> (int \<times> rat) multiset"
    and good :: "'s \<Rightarrow> bool"
    and allowed_op :: "'op \<Rightarrow> bool"
    and step :: "'op \<Rightarrow> 's \<Rightarrow> 's"
    and time :: "'op \<Rightarrow> int"
    and grant :: "'op \<Rightarrow> 's \<Rightarrow> rat option"
    and cap :: rat
  assumes cap_nonneg: "0 \<le> cap"
    and good_step: "good s \<Longrightarrow> allowed_op oper \<Longrightarrow> good (step oper s)"
    and weights: "good s \<Longrightarrow> e \<in># entries s \<Longrightarrow> 0 \<le> snd e"
    and keeps: "good s \<Longrightarrow> allowed_op oper \<Longrightarrow>
          live window (time oper) (entries s) + (case grant oper s of None \<Rightarrow> {#} | Some w \<Rightarrow> {#(time oper, w)#})
            \<subseteq># entries (step oper s)"
    and within: "good s \<Longrightarrow> allowed_op oper \<Longrightarrow> grant oper s = Some w \<Longrightarrow>
          total (live window (time oper) (entries s)) + w \<le> cap"
begin

fun grants :: "'op list \<Rightarrow> 's \<Rightarrow> (int \<times> rat) list" where
  "grants [] s = []"
| "grants (oper # ops) s =
     (case grant oper s of None \<Rightarrow> [] | Some w \<Rightarrow> [(time oper, w)]) @ grants ops (step oper s)"

lemma step_keeps_live:
  assumes "good s" "allowed_op oper" "live window (time oper) H \<subseteq># entries s" "time oper \<le> now"
  shows "live window now H \<subseteq># entries (step oper s)"
proof -
  have "live window (time oper) H = live window (time oper) (live window (time oper) H)"
    by (simp add: live_live)
  also have "\<dots> \<subseteq># live window (time oper) (entries s)" using assms(3) by (rule live_mono)
  also have "\<dots> \<subseteq># entries (step oper s)" using keeps [OF assms(1,2)] by (meson mset_subset_eq_add_left subset_mset.order_trans)
  finally show ?thesis using live_later [OF assms(4)] subset_mset.order_trans by blast
qed

lemma step_keeps_grant:
  assumes "good s" "allowed_op oper" "live window (time oper) H \<subseteq># entries s" "time oper \<le> now"
    and "grant oper s = Some w"
  shows "live window now (add_mset (time oper, w) H) \<subseteq># entries (step oper s)"
proof -
  have "live window (time oper) H = live window (time oper) (live window (time oper) H)"
    by (simp add: live_live)
  also have "\<dots> \<subseteq># live window (time oper) (entries s)" using assms(3) by (rule live_mono)
  finally have "live window (time oper) H + {#(time oper, w)#} \<subseteq># live window (time oper) (entries s) + {#(time oper, w)#}"
    by simp
  also have "\<dots> \<subseteq># entries (step oper s)" using keeps [OF assms(1,2)] assms(5) by simp
  finally have "add_mset (time oper, w) (live window (time oper) H) \<subseteq># entries (step oper s)" by simp
  moreover have "live window now (add_mset (time oper, w) H) \<subseteq># add_mset (time oper, w) (live window (time oper) H)"
    using live_later [OF assms(4), of window H] by (auto simp: live_def intro: subset_mset.order_trans)
  ultimately show ?thesis using subset_mset.order_trans by blast
qed

lemma in_window_live: "(\<And>e. e \<in># H \<Longrightarrow> fst e \<le> now) \<Longrightarrow> now \<le> t \<Longrightarrow> in_window window t H \<subseteq># live window now H"
  unfolding in_window_def live_def by (rule filter_mset_mono_strong) auto

lemma window_bound_from:
  assumes "good s" "list_all allowed_op ops" "sorted (map time ops)"
    and "\<And>oper e. oper \<in> set ops \<Longrightarrow> e \<in># H \<Longrightarrow> fst e \<le> time oper"
    and "\<And>oper. oper \<in> set ops \<Longrightarrow> live window (time oper) H \<subseteq># entries s"
    and "\<And>t. total (in_window window t H) \<le> cap"
  shows "total (in_window window t (H + mset (grants ops s))) \<le> cap"
  using assms
proof (induction ops arbitrary: s H)
  case (Cons oper ops)
  have good': "good (step oper s)" using Cons.prems(1,2) good_step by simp
  have later: "time oper \<le> time o'" if "o' \<in> set ops" for o' using Cons.prems(3) that by simp
  have liveH: "live window (time oper) H \<subseteq># entries s" using Cons.prems(5) by simp
  have ok: "allowed_op oper" using Cons.prems(2) by simp
  show ?case
  proof (cases "grant oper s")
    case None
    have "total (in_window window t (H + mset (grants ops (step oper s)))) \<le> cap"
    proof (rule Cons.IH [OF good'])
      show "live window (time o') H \<subseteq># entries (step oper s)" if "o' \<in> set ops" for o'
        using step_keeps_live [OF Cons.prems(1) ok liveH later [OF that]] .
    qed (use Cons.prems in auto)
    with None show ?thesis by simp
  next
    case (Some w)
    let ?H = "add_mset (time oper, w) H"
    have bound: "total (in_window window t' ?H) \<le> cap" for t'
    proof (cases "t' < time oper")
      case True
      then have "in_window window t' ?H = in_window window t' H" by (simp add: in_window_def)
      with Cons.prems(6) show ?thesis by simp
    next
      case False
      have H: "fst e \<le> time oper" if "e \<in># H" for e using Cons.prems(4) [of oper e] that by simp
      have "in_window window t' ?H \<subseteq># live window (time oper) ?H"
      proof (rule in_window_live)
        show "fst e \<le> time oper" if "e \<in># ?H" for e using that H by (cases "e \<in># H") auto
      qed (use False in simp)
      also have "\<dots> \<subseteq># add_mset (time oper, w) (live window (time oper) H)" by (simp add: live_def)
      also have "\<dots> = add_mset (time oper, w) (live window (time oper) (live window (time oper) H))"
        by (simp add: live_live)
      also have "\<dots> \<subseteq># add_mset (time oper, w) (live window (time oper) (entries s))"
        using live_mono [OF liveH] by simp
      finally have sub: "in_window window t' ?H \<subseteq># add_mset (time oper, w) (live window (time oper) (entries s))" .
      have wts: "0 \<le> snd e" if "e \<in># add_mset (time oper, w) (live window (time oper) (entries s))" for e
      proof -
        have "e \<in># entries (step oper s)"
          using keeps [OF Cons.prems(1) ok] that Some by (simp add: mset_subset_eqD)
        with weights good' show ?thesis by blast
      qed
      from total_mono [OF sub wts] have "total (in_window window t' ?H) \<le> w + total (live window (time oper) (entries s))"
        by simp
      also have "\<dots> \<le> cap" using within [OF Cons.prems(1) ok Some] by simp
      finally show ?thesis .
    qed
    have "total (in_window window t (?H + mset (grants ops (step oper s)))) \<le> cap"
    proof (rule Cons.IH [OF good'])
      show "live window (time o') ?H \<subseteq># entries (step oper s)" if "o' \<in> set ops" for o'
        using step_keeps_grant [OF Cons.prems(1) ok liveH later [OF that] Some] .
      show "fst e \<le> time o'" if "o' \<in> set ops" "e \<in># ?H" for o' e
        using that later [OF that(1)] Cons.prems(4) [of o' e] by auto
    qed (use Cons.prems bound in auto)
    with Some show ?thesis by simp
  qed
qed simp

text \<open>The bound, from any good state.\<close>

lemma window_bound:
  assumes "good s" "list_all allowed_op ops" "sorted (map time ops)"
  shows "total (in_window window t (mset (grants ops s))) \<le> cap"
  using window_bound_from [OF assms, of "{#}" t] cap_nonneg by simp

end

end
