(* ===== verification/Policy_Engine.thy ===== *)
theory Policy_Engine
  imports Detections
begin

text \<open>
  The policy engine of \<open>src/policy/engine.ts\<close>: immutable versioned snapshots of a rule set, the
  evaluation of a context against one, and the operations that swap the snapshot in force. A
  rule's matcher may throw; a thrown matcher is \<open>None\<close> and the rule is skipped.
\<close>

subsection \<open>Rules and snapshots\<close>

record rule_actor_scope =
  rs_channelIds :: "string list option"
  rs_userIds :: "string list option"
  rs_roleIds :: "string list option"

record rule_subject_scope =
  rs_agentIds :: "string list option"
  rs_sessionIds :: "string list option"

record rule_scope =
  rs_actor :: "rule_actor_scope option"
  rs_subject :: "rule_subject_scope option"
  rs_executionModes :: "execution_mode list option"

record policy_rule =
  ru_id :: string
  ru_description :: string
  ru_plane :: "plane option" \<comment> \<open>\<open>None\<close> is the plane \<open>all\<close>\<close>
  ru_match :: "agent_context \<Rightarrow> bool option"
  ru_decision :: decision
  ru_riskLevel :: risk_level
  ru_reason :: string
  ru_scope :: "rule_scope option"

record policy_snapshot =
  ps_version :: nat
  ps_defaultDecision :: decision
  ps_rules :: "policy_rule list"

subsection \<open>Evaluation\<close>

definition some_nonempty :: "'a list option \<Rightarrow> bool" where
  "some_nonempty xs = (case xs of None \<Rightarrow> False | Some ys \<Rightarrow> ys \<noteq> [])"

definition isHighRiskFlow :: "agent_context \<Rightarrow> bool" where
  "isHighRiskFlow ctx =
     ((case cx_flow ctx of None \<Rightarrow> False
       | Some fl \<Rightarrow> js_opt_true (fl_highRisk fl) \<or> js_opt_true (fl_crossesBoundary fl)
                  \<or> fl_direction fl = Egress \<or> some_nonempty (fl_labels fl))
      \<or> (case cx_provenance ctx of None \<Rightarrow> False
         | Some tags \<Rightarrow> list_ex (\<lambda>e. pt_trustLabel e \<noteq> Trusted \<and> some_nonempty (pt_labels e)) tags))"

definition fires :: "agent_context \<Rightarrow> policy_rule \<Rightarrow> bool" where
  "fires ctx rule = (ru_match rule ctx = Some True)"

text \<open>\<open>matched.reduce((best, rule) => order[rule] > order[best] ? rule : best)\<close>\<close>

fun reduce_best :: "(policy_rule \<Rightarrow> nat) \<Rightarrow> policy_rule \<Rightarrow> policy_rule list \<Rightarrow> policy_rule" where
  "reduce_best order best [] = best"
| "reduce_best order best (rule # rest) =
     reduce_best order (if order rule > order best then rule else best) rest"

definition evaluateAgainst :: "policy_rule list \<Rightarrow> decision \<Rightarrow> agent_context \<Rightarrow> policy_result" where
  "evaluateAgainst rules defaultDecision ctx =
     (let highRiskFlow = isHighRiskFlow ctx in
      case filter (fires ctx) rules of
        [] \<Rightarrow> \<lparr>pr_decision = defaultDecision,
               pr_riskLevel = (if highRiskFlow then High else Low),
               pr_matchedRules = [],
               pr_reasons = [''Default decision: '' @ decision_str defaultDecision],
               pr_requiresApproval = False,
               pr_highRiskFlow = highRiskFlow,
               pr_detections = []\<rparr>
      | first # rest \<Rightarrow>
         (let decision = ru_decision (reduce_best (\<lambda>r. DECISION_ORDER (ru_decision r)) first rest);
              riskLevel = ru_riskLevel (reduce_best (\<lambda>r. RISK_ORDER (ru_riskLevel r)) first rest);
              matchedRules = map ru_id (first # rest)
          in \<lparr>pr_decision = decision,
              pr_riskLevel = (if highRiskFlow \<and> riskLevel = Low then Medium else riskLevel),
              pr_matchedRules = matchedRules,
              pr_reasons = map ru_reason (first # rest),
              pr_requiresApproval = (decision = Approve),
              pr_highRiskFlow = highRiskFlow,
              pr_detections = detectionsForRules matchedRules\<rparr>))"

definition createSnapshot :: "nat \<Rightarrow> policy_rule list \<Rightarrow> decision \<Rightarrow> policy_snapshot" where
  "createSnapshot version rules defaultDecision =
     \<lparr>ps_version = version, ps_defaultDecision = defaultDecision, ps_rules = rules\<rparr>"

definition evaluate :: "policy_snapshot \<Rightarrow> agent_context \<Rightarrow> policy_result" where
  "evaluate snap = evaluateAgainst (ps_rules snap) (ps_defaultDecision snap)"

subsection \<open>The engine's operations\<close>

definition newEngine :: "policy_rule list \<Rightarrow> decision \<Rightarrow> policy_snapshot" where
  "newEngine rules defaultDecision = createSnapshot 1 rules defaultDecision"

definition addRule :: "policy_rule \<Rightarrow> policy_snapshot \<Rightarrow> policy_snapshot" where
  "addRule rule cur = createSnapshot (ps_version cur + 1) (ps_rules cur @ [rule]) (ps_defaultDecision cur)"

definition replaceRules :: "policy_rule list \<Rightarrow> policy_snapshot \<Rightarrow> policy_snapshot" where
  "replaceRules rules cur = createSnapshot (ps_version cur + 1) rules (ps_defaultDecision cur)"

definition setDefaultDecision :: "decision \<Rightarrow> policy_snapshot \<Rightarrow> policy_snapshot" where
  "setDefaultDecision defaultDecision cur =
     (if defaultDecision = ps_defaultDecision cur then cur
      else createSnapshot (ps_version cur + 1) (ps_rules cur) defaultDecision)"

inductive engine_step :: "policy_snapshot \<Rightarrow> policy_snapshot \<Rightarrow> bool" where
  add: "engine_step cur (addRule rule cur)"
| replace: "engine_step cur (replaceRules rules cur)"
| set_default: "engine_step cur (setDefaultDecision d cur)"

text \<open>The snapshots that have been in force, latest first.\<close>

inductive engine_history :: "policy_snapshot list \<Rightarrow> bool" where
  start: "engine_history [newEngine rules d]"
| swap: "engine_history (cur # past) \<Longrightarrow> engine_step cur next \<Longrightarrow> engine_history (next # cur # past)"

inductive_cases engine_stepE: "engine_step cur next"
inductive_cases engine_history_ConsE: "engine_history (cur # past)"

subsection \<open>The reduction computes the strongest element\<close>

lemma reduce_best_decision:
  "ru_decision (reduce_best (\<lambda>r. DECISION_ORDER (ru_decision r)) b rs)
     = fold (\<lambda>y acc. stronger DECISION_ORDER acc y) (map ru_decision rs) (ru_decision b)"
  by (induction rs arbitrary: b) (simp_all add: stronger_def)

lemma reduce_best_risk:
  "ru_riskLevel (reduce_best (\<lambda>r. RISK_ORDER (ru_riskLevel r)) b rs)
     = fold (\<lambda>y acc. stronger RISK_ORDER acc y) (map ru_riskLevel rs) (ru_riskLevel b)"
  by (induction rs arbitrary: b) (simp_all add: stronger_def)

lemma evaluateAgainst_Nil:
  "filter (fires ctx) rules = [] \<Longrightarrow>
   evaluateAgainst rules d ctx =
     \<lparr>pr_decision = d, pr_riskLevel = (if isHighRiskFlow ctx then High else Low), pr_matchedRules = [],
      pr_reasons = [''Default decision: '' @ decision_str d], pr_requiresApproval = False,
      pr_highRiskFlow = isHighRiskFlow ctx, pr_detections = []\<rparr>"
  by (simp add: evaluateAgainst_def Let_def)

lemma pr_matchedRules_eval [simp]:
  "pr_matchedRules (evaluateAgainst rules d ctx) = map ru_id (filter (fires ctx) rules)"
  by (simp add: evaluateAgainst_def Let_def split: list.split)

lemma pr_highRiskFlow_eval [simp]: "pr_highRiskFlow (evaluateAgainst rules d ctx) = isHighRiskFlow ctx"
  by (simp add: evaluateAgainst_def Let_def split: list.split)

lemma pr_detections_eval [simp]:
  "pr_detections (evaluateAgainst rules d ctx) = detectionsForRules (map ru_id (filter (fires ctx) rules))"
  by (simp add: evaluateAgainst_def Let_def split: list.split)

lemma pr_decision_eval:
  assumes "filter (fires ctx) rules = r # rs"
  shows "pr_decision (evaluateAgainst rules d ctx)
       = fold (\<lambda>y acc. stronger DECISION_ORDER acc y) (map ru_decision rs) (ru_decision r)"
  using assms by (simp add: evaluateAgainst_def Let_def reduce_best_decision)

lemma pr_risk_eval:
  assumes "filter (fires ctx) rules = r # rs"
  shows "pr_riskLevel (evaluateAgainst rules d ctx) =
    (let m = fold (\<lambda>y acc. stronger RISK_ORDER acc y) (map ru_riskLevel rs) (ru_riskLevel r)
     in if isHighRiskFlow ctx \<and> m = Low then Medium else m)"
  using assms by (simp add: evaluateAgainst_def Let_def reduce_best_risk)

text \<open>What a set of fired rules decides depends on the set alone.\<close>

lemma decision_char:
  assumes "r \<in> set rules" "fires ctx r"
  shows "ru_decision r \<le> pr_decision (evaluateAgainst rules d ctx)"
    and "\<exists>r' \<in> set rules. fires ctx r' \<and> ru_decision r' = pr_decision (evaluateAgainst rules d ctx)"
proof -
  obtain x xs where f: "filter (fires ctx) rules = x # xs"
    using assms by (cases "filter (fires ctx) rules") (auto simp: filter_empty_conv)
  have mem: "set (x # xs) = {r \<in> set rules. fires ctx r}"
    using f by (metis set_filter)
  show "ru_decision r \<le> pr_decision (evaluateAgainst rules d ctx)"
    unfolding pr_decision_eval [OF f] less_eq_decision_def
    by (rule decisions.fold_stronger_ge) (use assms mem in auto)
  have "pr_decision (evaluateAgainst rules d ctx) \<in> insert (ru_decision x) (set (map ru_decision xs))"
    unfolding pr_decision_eval [OF f] by (rule decisions.fold_stronger_mem)
  then show "\<exists>r' \<in> set rules. fires ctx r' \<and> ru_decision r' = pr_decision (evaluateAgainst rules d ctx)"
    using mem by auto
qed

lemma decision_mono:
  assumes "set (filter (fires ctx) rules) \<subseteq> set (filter (fires ctx) rules')"
    and "filter (fires ctx) rules \<noteq> []"
  shows "pr_decision (evaluateAgainst rules d ctx) \<le> pr_decision (evaluateAgainst rules' d' ctx)"
proof -
  obtain r where "r \<in> set rules" "fires ctx r" using assms(2) by (auto simp: filter_empty_conv)
  then obtain r' where "r' \<in> set rules" "fires ctx r'"
      "ru_decision r' = pr_decision (evaluateAgainst rules d ctx)"
    using decision_char(2) by blast
  moreover from this assms(1) have "r' \<in> set rules'" by auto
  ultimately show ?thesis using decision_char(1) [of r' rules' ctx d'] by simp
qed

lemma deny_iff:
  "filter (fires ctx) rules \<noteq> [] \<Longrightarrow>
   pr_decision (evaluateAgainst rules d ctx) = Deny \<longleftrightarrow> (\<exists>r \<in> set rules. fires ctx r \<and> ru_decision r = Deny)"
  by (metis (mono_tags, lifting) Deny_le_iff decision_char filter_False)

lemma deny_fired: "r \<in> set rules \<Longrightarrow> fires ctx r \<Longrightarrow> ru_decision r = Deny \<Longrightarrow>
    pr_decision (evaluateAgainst rules d ctx) = Deny"
  using decision_char(1) [of r rules ctx d] by simp

subsection \<open>The interface the clients of an engine rely on\<close>

text \<open>
  The MCP gates and egress enforcement call \<open>engine.evaluate(ctx)\<close> and read the result. They
  rely on a result without matched rules carrying no detection and asking for no approval, on
  approval being asked for exactly when the matched rules decide so, on one reason per matched
  rule, and on detections being listed once.
\<close>

locale decision_engine =
  fixes eval :: "agent_context \<Rightarrow> policy_result"
  assumes unmatched_no_detection: "pr_matchedRules (eval ctx) = [] \<Longrightarrow> pr_detections (eval ctx) = []"
    and approval_iff: "pr_requiresApproval (eval ctx) \<longleftrightarrow>
          pr_matchedRules (eval ctx) \<noteq> [] \<and> pr_decision (eval ctx) = Approve"
    and reason_per_rule: "pr_matchedRules (eval ctx) \<noteq> [] \<Longrightarrow>
          length (pr_reasons (eval ctx)) = length (pr_matchedRules (eval ctx))"
    and distinct_detections: "distinct (map dm_id (pr_detections (eval ctx)))"

interpretation engine: decision_engine "evaluate snap" for snap
proof
  show "pr_requiresApproval (evaluate snap ctx) \<longleftrightarrow>
          pr_matchedRules (evaluate snap ctx) \<noteq> [] \<and> pr_decision (evaluate snap ctx) = Approve" for ctx
    by (simp add: evaluate_def evaluateAgainst_def Let_def split: list.split)
  show "length (pr_reasons (evaluate snap ctx)) = length (pr_matchedRules (evaluate snap ctx))"
    if "pr_matchedRules (evaluate snap ctx) \<noteq> []" for ctx
    using that by (simp add: evaluate_def evaluateAgainst_def Let_def split: list.splits)
qed (simp_all add: evaluate_def distinct_detectionsForRules)

subsection \<open>Histories\<close>

lemma engine_step_version:
  "engine_step cur next \<Longrightarrow> next = cur \<or> ps_version next = Suc (ps_version cur)"
  by (auto elim!: engine_stepE simp: addRule_def replaceRules_def setDefaultDecision_def createSnapshot_def)

lemma engine_history_versions:
  "engine_history h \<Longrightarrow> \<forall>s \<in> set h. 1 \<le> ps_version s \<and> ps_version s \<le> ps_version (hd h)
      \<and> (ps_version s = ps_version (hd h) \<longrightarrow> s = hd h)"
proof (induction rule: engine_history.induct)
  case (start rules d)
  then show ?case by (simp add: newEngine_def createSnapshot_def)
next
  case (swap cur past nxt)
  from engine_step_version [OF swap.hyps(2)] swap.IH show ?case by fastforce
qed

lemma engine_history_tail: "engine_history (cur # past) \<Longrightarrow> past \<noteq> [] \<Longrightarrow> engine_history past"
  by (auto elim: engine_history_ConsE)

lemma engine_history_same_version:
  "engine_history h \<Longrightarrow> s \<in> set h \<Longrightarrow> t \<in> set h \<Longrightarrow> ps_version s = ps_version t \<Longrightarrow> s = t"
proof (induction h)
  case (Cons cur past)
  have *: "past \<noteq> [] \<Longrightarrow> engine_history past" using Cons.prems(1) engine_history_tail by blast
  have "\<forall>s \<in> set (cur # past). ps_version s = ps_version cur \<longrightarrow> s = cur"
    using engine_history_versions [OF Cons.prems(1)] by simp
  with Cons * show ?case by (metis list.distinct(1) list.set_cases set_ConsD)
qed simp

subsection \<open>What an evaluation decides\<close>

abbreviation fired :: "agent_context \<Rightarrow> policy_rule list \<Rightarrow> policy_rule set" where
  "fired ctx rules \<equiv> {r \<in> set rules. fires ctx r}"

definition bump_risk :: "agent_context \<Rightarrow> risk_level \<Rightarrow> risk_level" where
  "bump_risk ctx m = (if isHighRiskFlow ctx \<and> m = Low then Medium else m)"

lemma bump_risk_mono: "m \<le> n \<Longrightarrow> bump_risk ctx m \<le> bump_risk ctx n"
  by (cases m; cases n) (auto simp: bump_risk_def less_eq_risk_level_def)

lemma fired_filter: "set (filter (fires ctx) rules) = fired ctx rules"
  by auto

lemma strongest_decision:
  assumes "filter (fires ctx) rules \<noteq> []"
  shows "pr_decision (evaluateAgainst rules d ctx) = Max (ru_decision ` fired ctx rules)"
proof (rule Max_eqI [symmetric])
  obtain r where "r \<in> fired ctx rules" using assms by (auto simp: filter_empty_conv)
  then show "pr_decision (evaluateAgainst rules d ctx) \<in> ru_decision ` fired ctx rules"
    using decision_char(2) [of r rules ctx d] by force
qed (auto intro: decision_char(1))

lemma strongest_risk:
  assumes "filter (fires ctx) rules \<noteq> []"
  shows "pr_riskLevel (evaluateAgainst rules d ctx) = bump_risk ctx (Max (ru_riskLevel ` fired ctx rules))"
proof -
  obtain x xs where f: "filter (fires ctx) rules = x # xs" using assms by (cases "filter (fires ctx) rules") auto
  have mem: "fired ctx rules = set (x # xs)" using f by (metis fired_filter)
  let ?m = "fold (\<lambda>y acc. stronger RISK_ORDER acc y) (map ru_riskLevel xs) (ru_riskLevel x)"
  have "Max (ru_riskLevel ` fired ctx rules) = ?m"
  proof (rule Max_eqI)
    show "?m \<in> ru_riskLevel ` fired ctx rules"
      using risks.fold_stronger_mem [of "map ru_riskLevel xs" "ru_riskLevel x"] mem by simp
    show "y \<le> ?m" if "y \<in> ru_riskLevel ` fired ctx rules" for y
      unfolding less_eq_risk_level_def by (rule risks.fold_stronger_ge) (use that mem in auto)
  qed simp
  with pr_risk_eval [OF f, of d] show ?thesis by (simp add: bump_risk_def Let_def)
qed

lemma approval_decided:
  "filter (fires ctx) rules \<noteq> [] \<Longrightarrow> pr_requiresApproval (evaluateAgainst rules d ctx) =
     (pr_decision (evaluateAgainst rules d ctx) = Approve)"
  by (simp add: evaluateAgainst_def Let_def split: list.split)

lemma evaluate_fired_cong:
  assumes "set rules = set rules'"
  shows "pr_decision (evaluateAgainst rules d ctx) = pr_decision (evaluateAgainst rules' d ctx)"
    and "pr_riskLevel (evaluateAgainst rules d ctx) = pr_riskLevel (evaluateAgainst rules' d ctx)"
    and "pr_requiresApproval (evaluateAgainst rules d ctx) = pr_requiresApproval (evaluateAgainst rules' d ctx)"
proof -
  consider (none) "filter (fires ctx) rules = []" "filter (fires ctx) rules' = []"
    | (some) "filter (fires ctx) rules \<noteq> []" "filter (fires ctx) rules' \<noteq> []"
    using assms by (auto simp: filter_empty_conv)
  then have "pr_decision (evaluateAgainst rules d ctx) = pr_decision (evaluateAgainst rules' d ctx)
    \<and> pr_riskLevel (evaluateAgainst rules d ctx) = pr_riskLevel (evaluateAgainst rules' d ctx)
    \<and> pr_requiresApproval (evaluateAgainst rules d ctx) = pr_requiresApproval (evaluateAgainst rules' d ctx)"
  proof cases
    case none
    then show ?thesis by (simp add: evaluateAgainst_Nil)
  next
    case some
    then show ?thesis by (simp add: strongest_decision strongest_risk approval_decided assms)
  qed
  then show "pr_decision (evaluateAgainst rules d ctx) = pr_decision (evaluateAgainst rules' d ctx)"
    "pr_riskLevel (evaluateAgainst rules d ctx) = pr_riskLevel (evaluateAgainst rules' d ctx)"
    "pr_requiresApproval (evaluateAgainst rules d ctx) = pr_requiresApproval (evaluateAgainst rules' d ctx)"
    by simp_all
qed

subsection \<open>Properties\<close>

definition sample_ctx :: agent_context where
  "sample_ctx = \<lparr>cx_agentId = ''agent-1'', cx_sessionId = Some ''s1'', cx_plane = Network, cx_action = ''fetch'',
     cx_payload = [], cx_metadata = None, cx_actor = None, cx_control = None, cx_provenance = None, cx_flow = None\<rparr>"

definition sample_rule :: "string \<Rightarrow> decision \<Rightarrow> risk_level \<Rightarrow> policy_rule" where
  "sample_rule i d r = \<lparr>ru_id = i, ru_description = [], ru_plane = None, ru_match = (\<lambda>ctx. Some (cx_plane ctx = Network)),
     ru_decision = d, ru_riskLevel = r, ru_reason = i, ru_scope = None\<rparr>"

lemma sample_fires: "fires sample_ctx (sample_rule i d r)"
  by (simp add: fires_def sample_rule_def sample_ctx_def)

text \<open>C1: when any rule fires, the decision is the strongest decision among the fired rules and the risk
  the highest risk among them (a low risk is lifted to medium on a high-risk flow), the fired rules'
  ids and reasons are reported in rule order, and approval is required exactly for an approve.\<close>

theorem evaluation_takes_the_strongest:
  assumes "\<exists>r \<in> set rules. fires ctx r"
  shows "pr_decision (evaluateAgainst rules d ctx) = Max (ru_decision ` {r \<in> set rules. fires ctx r})
    \<and> pr_riskLevel (evaluateAgainst rules d ctx) =
          (let m = Max (ru_riskLevel ` {r \<in> set rules. fires ctx r})
           in if isHighRiskFlow ctx \<and> m = Low then Medium else m)
    \<and> pr_matchedRules (evaluateAgainst rules d ctx) = map ru_id (filter (fires ctx) rules)
    \<and> pr_reasons (evaluateAgainst rules d ctx) = map ru_reason (filter (fires ctx) rules)
    \<and> (pr_requiresApproval (evaluateAgainst rules d ctx) \<longleftrightarrow> pr_decision (evaluateAgainst rules d ctx) = Approve)"
proof (intro conjI)
  have ne: "filter (fires ctx) rules \<noteq> []" using assms by (simp add: filter_empty_conv)
  show "pr_decision (evaluateAgainst rules d ctx) = Max (ru_decision ` {r \<in> set rules. fires ctx r})"
    by (rule strongest_decision [OF ne])
  show "pr_riskLevel (evaluateAgainst rules d ctx) = (let m = Max (ru_riskLevel ` {r \<in> set rules. fires ctx r})
           in if isHighRiskFlow ctx \<and> m = Low then Medium else m)"
    by (simp add: strongest_risk [OF ne] bump_risk_def Let_def)
  show "pr_reasons (evaluateAgainst rules d ctx) = map ru_reason (filter (fires ctx) rules)"
    using ne by (simp add: evaluateAgainst_def Let_def split: list.split)
qed (use assms in \<open>simp_all add: approval_decided filter_empty_conv\<close>)

theorem evaluation_takes_the_strongest_witness:
  "pr_decision (evaluateAgainst [sample_rule ''a'' Allow Low, sample_rule ''b'' Deny High, sample_rule ''c'' Redact Critical]
      Allow sample_ctx) = Deny"
proof -
  let ?rules = "[sample_rule ''a'' Allow Low, sample_rule ''b'' Deny High, sample_rule ''c'' Redact Critical]"
  have "\<exists>r \<in> set ?rules. fires sample_ctx r" by (simp add: sample_fires)
  note evaluation_takes_the_strongest [OF this, of Allow, THEN conjunct1]
  also have "{r \<in> set ?rules. fires sample_ctx r} = set ?rules" by (auto simp: sample_fires)
  also have "Max (ru_decision ` set ?rules) = Deny"
    by (rule Max_eqI) (auto simp: sample_rule_def)
  finally show ?thesis .
qed

text \<open>The outcome is a function of the set of rules: neither the order of the rules nor repeating one
  changes the decision, the risk or whether approval is required.\<close>

theorem rule_order_is_irrelevant:
  assumes "set rules = set rules'"
  shows "pr_decision (evaluateAgainst rules d ctx) = pr_decision (evaluateAgainst rules' d ctx)
       \<and> pr_riskLevel (evaluateAgainst rules d ctx) = pr_riskLevel (evaluateAgainst rules' d ctx)
       \<and> pr_requiresApproval (evaluateAgainst rules d ctx) = pr_requiresApproval (evaluateAgainst rules' d ctx)"
  using evaluate_fired_cong [OF assms] by simp

theorem rule_order_is_irrelevant_witness:
  "pr_decision (evaluateAgainst [sample_rule ''a'' Allow Low, sample_rule ''b'' Approve High] Deny sample_ctx)
   = pr_decision (evaluateAgainst [sample_rule ''b'' Approve High, sample_rule ''a'' Allow Low] Deny sample_ctx)"
  by (rule rule_order_is_irrelevant [THEN conjunct1]) auto

text \<open>Once a rule fires for a context, adding a rule at run time can only strengthen the decision and
  raise the risk for it, and never drops an id from the matched rules.\<close>

theorem adding_a_rule_never_weakens:
  assumes "pr_matchedRules (evaluate snap ctx) \<noteq> []"
  shows "pr_decision (evaluate snap ctx) \<le> pr_decision (evaluate (addRule rule snap) ctx)
       \<and> pr_riskLevel (evaluate snap ctx) \<le> pr_riskLevel (evaluate (addRule rule snap) ctx)
       \<and> prefix (pr_matchedRules (evaluate snap ctx)) (pr_matchedRules (evaluate (addRule rule snap) ctx))"
proof -
  have ne: "filter (fires ctx) (ps_rules snap) \<noteq> []" using assms by (simp add: evaluate_def)
  then have ne': "filter (fires ctx) (ps_rules snap @ [rule]) \<noteq> []" by simp
  have sub: "fired ctx (ps_rules snap) \<subseteq> fired ctx (ps_rules snap @ [rule])" by auto
  have nonempty: "fired ctx (ps_rules snap) \<noteq> {}" using ne by (auto simp: filter_empty_conv)
  have "Max (ru_decision ` fired ctx (ps_rules snap)) \<le> Max (ru_decision ` fired ctx (ps_rules snap @ [rule]))"
    "Max (ru_riskLevel ` fired ctx (ps_rules snap)) \<le> Max (ru_riskLevel ` fired ctx (ps_rules snap @ [rule]))"
    using sub nonempty by (auto intro!: Max_mono)
  with bump_risk_mono show ?thesis
    by (simp add: evaluate_def addRule_def createSnapshot_def strongest_decision [OF ne] strongest_decision [OF ne']
        strongest_risk [OF ne] strongest_risk [OF ne'])
qed

theorem adding_a_rule_never_weakens_witness:
  "Redact \<le> pr_decision (evaluate (addRule (sample_rule ''b'' Allow Low)
      (newEngine [sample_rule ''a'' Redact Low] Deny)) sample_ctx)"
proof -
  let ?snap = "newEngine [sample_rule ''a'' Redact Low] Deny"
  have e: "evaluate ?snap sample_ctx = evaluateAgainst [sample_rule ''a'' Redact Low] Deny sample_ctx"
    by (simp add: evaluate_def newEngine_def createSnapshot_def)
  have "pr_matchedRules (evaluate ?snap sample_ctx) \<noteq> []" by (simp add: e sample_fires)
  from adding_a_rule_never_weakens [OF this, THEN conjunct1, of "sample_rule ''b'' Allow Low"]
  show ?thesis by (simp add: e evaluateAgainst_def Let_def sample_fires) (simp add: sample_rule_def)
qed

text \<open>A version names one rule set: of the snapshots that have been in force, two with the same
  version are the same snapshot, so a verdict that records a version can be replayed.\<close>

theorem version_names_one_ruleset:
  assumes "engine_history h" "s \<in> set h" "t \<in> set h" "ps_version s = ps_version t"
  shows "s = t"
  by (rule engine_history_same_version [OF assms])

theorem version_names_one_ruleset_witness:
  "addRule (sample_rule ''a'' Deny Low) (newEngine [] Deny) = replaceRules [sample_rule ''a'' Deny Low] (newEngine [] Deny)"
proof -
  let ?s = "addRule (sample_rule ''a'' Deny Low) (newEngine [] Deny)"
  have "engine_history [?s, newEngine [] Deny]" by (intro engine_history.intros engine_step.intros)
  from version_names_one_ruleset [OF this, of ?s ?s] show ?thesis
    by (simp add: addRule_def replaceRules_def newEngine_def createSnapshot_def)
qed

end
