(* ===== verification/Network_Ssrf.thy ===== *)
theory Network_Ssrf
  imports Detections
begin

text \<open>
  The network plane of \<open>src/planes/network/ssrf.ts\<close>: the canonical form of a hostname, the tests
  for private hostnames and addresses, and the inspection of a request against an egress policy.
  The WHATWG URL parser is the argument \<open>parse_url\<close>; \<open>None\<close> is the exception it throws. The
  regular expressions are sequences of character classes (\<open>cls_prefix\<close> of the prelude).
\<close>

subsection \<open>The pattern tables\<close>

definition IPV4_PRIVATE_PATTERNS :: "(char \<Rightarrow> bool) list list" where
  "IPV4_PRIVATE_PATTERNS =
     [lit ''127.'',
      lit ''10.'',
      lit ''192.168.'',
      lit ''172.'' @ [(=) CHR ''1'', ch_in ''6789'', (=) CHR ''.''],
      lit ''172.'' @ [(=) CHR ''2'', ch_digit, (=) CHR ''.''],
      lit ''172.'' @ [(=) CHR ''3'', ch_in ''01'', (=) CHR ''.''],
      lit ''169.254.'',
      lit ''100.6'' @ [ch_in ''456789'', (=) CHR ''.''],
      lit ''100.'' @ [ch_in ''789'', ch_digit, (=) CHR ''.''],
      lit ''100.1'' @ [ch_in ''01'', ch_digit, (=) CHR ''.''],
      lit ''100.12'' @ [ch_in ''01234567'', (=) CHR ''.''],
      lit ''0.'',
      lit ''255.'']"

definition matches_v4 :: "string \<Rightarrow> bool" where
  "matches_v4 host = list_ex (\<lambda>p. cls_prefix p host) IPV4_PRIVATE_PATTERNS"

definition IPV6_PRIVATE_PREFIXES :: "(char \<Rightarrow> bool) list list" where
  "IPV6_PRIVATE_PREFIXES =
     (let f = ch_in ''fF''; e = ch_in ''eE'' in
      [[f, ch_in ''cC'', ch_hex, ch_hex, (=) CHR '':''],
       [f, ch_in ''dD'', ch_hex, ch_hex, (=) CHR '':''],
       [f, e, (=) CHR ''8'', ch_hex, (=) CHR '':''],
       [f, e, (=) CHR ''9'', ch_hex, (=) CHR '':''],
       [f, e, ch_in ''aA'', ch_hex, (=) CHR '':''],
       [f, e, ch_in ''bB'', ch_hex, (=) CHR '':'']])"

definition matches_v6 :: "string \<Rightarrow> bool" where
  "matches_v6 host = (host = ''::1'' \<or> host = ''::'' \<or> list_ex (\<lambda>p. cls_prefix p host) IPV6_PRIVATE_PREFIXES)"

definition PRIVATE_HOSTNAMES :: "string list" where
  "PRIVATE_HOSTNAMES = [''localhost'', ''broadcasthost'', ''ip6-localhost'', ''ip6-loopback'']"

definition METADATA_HOSTS :: "string list" where
  "METADATA_HOSTS = [''169.254.169.254'', ''metadata.google.internal'', ''metadata.google.com'']"

definition SUSPICIOUS_INTERNAL_SUFFIXES :: "string list" where
  "SUSPICIOUS_INTERNAL_SUFFIXES = [''.internal'', ''.local'', ''.localhost'']"

subsection \<open>Hostnames\<close>

text \<open>The root dot goes only when at least two characters stay and the last of them is no dot.\<close>

definition strip_root_dot :: "string \<Rightarrow> string" where
  "strip_root_dot s =
     (if 3 \<le> length s \<and> last s = CHR ''.'' \<and> last (butlast s) \<noteq> CHR ''.''
         \<and> list_all (\<lambda>c. c \<noteq> CHR 0x0A \<and> c \<noteq> CHR 0x0D) (butlast (butlast s))
      then butlast s else s)"

definition strip_brackets :: "string \<Rightarrow> string" where
  "strip_brackets s =
     (if prefix ''['' s \<and> suffix '']'' s then butlast (tl s) else s)"

definition normalizeHostname :: "string \<Rightarrow> string" where
  "normalizeHostname hostname = strip_root_dot (strip_brackets (js_lower (js_trim hostname)))"

subsection \<open>IPv4 inside IPv6\<close>

text \<open>\<open>parseInt(group, 16)\<close> on a string of hexadecimal digits.\<close>

definition hex_digits :: "(char \<times> int) list" where
  "hex_digits =
     [(CHR ''0'', 0), (CHR ''1'', 1), (CHR ''2'', 2), (CHR ''3'', 3), (CHR ''4'', 4), (CHR ''5'', 5),
      (CHR ''6'', 6), (CHR ''7'', 7), (CHR ''8'', 8), (CHR ''9'', 9), (CHR ''a'', 10), (CHR ''A'', 10),
      (CHR ''b'', 11), (CHR ''B'', 11), (CHR ''c'', 12), (CHR ''C'', 12), (CHR ''d'', 13), (CHR ''D'', 13),
      (CHR ''e'', 14), (CHR ''E'', 14), (CHR ''f'', 15), (CHR ''F'', 15)]"

definition digit_value :: "char \<Rightarrow> int" where
  "digit_value c = (case omap_get hex_digits c of None \<Rightarrow> 0 | Some v \<Rightarrow> v)"

definition parse_hex :: "string \<Rightarrow> int" where
  "parse_hex s = foldl (\<lambda>acc c. 16 * acc + digit_value c) 0 s"

definition is_dotted_quad :: "string \<Rightarrow> bool" where
  "is_dotted_quad s = (let parts = js_split CHR ''.'' s in
     length parts = 4 \<and> list_all (\<lambda>p. 1 \<le> length p \<and> length p \<le> 3 \<and> list_all ch_digit p) parts)"

definition is_hex_group :: "string \<Rightarrow> bool" where
  "is_hex_group g = (1 \<le> length g \<and> length g \<le> 4 \<and> list_all ch_hex g)"

definition dotted :: "int \<Rightarrow> int \<Rightarrow> int \<Rightarrow> int \<Rightarrow> string" where
  "dotted a b c d = show_int a @ ''.'' @ show_int b @ ''.'' @ show_int c @ ''.'' @ show_int d"

definition embedded_charset :: "char \<Rightarrow> bool" where
  "embedded_charset c = (ch_hex c \<or> c = CHR ''.'' \<or> c = CHR '':'')"

text \<open>
  The tail the expression captures: \<open>ffff:\<close> is skipped where something is left after it.
\<close>

definition embedded_tail :: "string \<Rightarrow> string option" where
  "embedded_tail hostname =
     (if \<not> prefix ''::'' hostname then None
      else let r = drop 2 hostname; r' = drop 5 r in
        if js_lower (take 5 r) = ''ffff:'' \<and> r' \<noteq> [] \<and> list_all embedded_charset r' then Some r'
        else if r \<noteq> [] \<and> list_all embedded_charset r then Some r
        else None)"

definition embeddedIpv4 :: "string \<Rightarrow> string option" where
  "embeddedIpv4 hostname =
     (case embedded_tail hostname of
        None \<Rightarrow> None
      | Some t \<Rightarrow>
          if is_dotted_quad t then Some t
          else (let groups = js_split CHR '':'' t in
            if length groups > 2 \<or> \<not> list_all is_hex_group groups then None
            else (let words = map parse_hex groups;
                      high = (if length words = 2 then words ! 0 else 0);
                      low = (if length words = 2 then words ! 1 else words ! 0)
                  in Some (dotted (high div 256) (high mod 256) (low div 256) (low mod 256)))))"

subsection \<open>Private targets\<close>

definition isPrivateHostname :: "string \<Rightarrow> bool" where
  "isPrivateHostname hostname =
     (let host = normalizeHostname hostname in
      host \<in> set PRIVATE_HOSTNAMES \<or> list_ex (\<lambda>s. suffix s host) SUSPICIOUS_INTERNAL_SUFFIXES)"

definition isPrivateIp :: "string \<Rightarrow> bool" where
  "isPrivateIp hostname =
     (let host = normalizeHostname hostname in
      matches_v4 host \<or> matches_v6 host
      \<or> (case embeddedIpv4 host of None \<Rightarrow> False | Some m \<Rightarrow> matches_v4 m))"

subsection \<open>Requests and policies\<close>

record url_parts =
  ur_hostname :: string
  ur_protocol :: string \<comment> \<open>with its trailing colon\<close>
  ur_port :: string \<comment> \<open>empty for the scheme's default port\<close>
  ur_username :: string
  ur_password :: string

definition extractHostname :: "(string \<Rightarrow> url_parts option) \<Rightarrow> string \<Rightarrow> string option" where
  "extractHostname parse_url u = map_option (\<lambda>p. normalizeHostname (ur_hostname p)) (parse_url u)"

record egress_policy =
  ep_defaultDeny :: bool
  ep_allowPrivateRanges :: bool
  ep_allowedHosts :: "string list"
  ep_allowedSchemes :: "string list"
  ep_allowedPorts :: "int list"
  ep_enabled :: bool

record egress_patch = \<comment> \<open>a \<open>Partial<EgressPolicy>\<close>\<close>
  pp_defaultDeny :: "bool option"
  pp_allowPrivateRanges :: "bool option"
  pp_allowedHosts :: "string list option"
  pp_allowedSchemes :: "string list option"
  pp_allowedPorts :: "int list option"
  pp_enabled :: "bool option"

definition DEFAULT_EGRESS_POLICY :: egress_policy where
  "DEFAULT_EGRESS_POLICY =
     \<lparr>ep_defaultDeny = True, ep_allowPrivateRanges = False, ep_allowedHosts = [],
      ep_allowedSchemes = [''https''], ep_allowedPorts = [443], ep_enabled = True\<rparr>"

definition or_else :: "'a option \<Rightarrow> 'a \<Rightarrow> 'a" where
  "or_else x d = (case x of None \<Rightarrow> d | Some y \<Rightarrow> y)"

definition effective_policy :: "egress_patch \<Rightarrow> egress_policy" where
  "effective_policy p = (let d = DEFAULT_EGRESS_POLICY in
     \<lparr>ep_defaultDeny = or_else (pp_defaultDeny p) (ep_defaultDeny d),
      ep_allowPrivateRanges = or_else (pp_allowPrivateRanges p) (ep_allowPrivateRanges d),
      ep_allowedHosts = or_else (pp_allowedHosts p) (ep_allowedHosts d),
      ep_allowedSchemes = or_else (pp_allowedSchemes p) (ep_allowedSchemes d),
      ep_allowedPorts = or_else (pp_allowedPorts p) (ep_allowedPorts d),
      ep_enabled = or_else (pp_enabled p) (ep_enabled d)\<rparr>)"

record network_inspection =
  ni_allowed :: bool
  ni_reason :: string
  ni_riskLevel :: risk_level
  ni_ssrf :: bool
  ni_privateRange :: bool
  ni_blockedCategory :: "string option"
  ni_egressDenied :: bool

definition parse_decimal :: "string \<Rightarrow> int" where
  "parse_decimal s = foldl (\<lambda>acc c. 10 * acc + digit_value c) 0 s"

definition getPort :: "url_parts \<Rightarrow> int" where
  "getPort u =
     (if ur_port u \<noteq> [] then parse_decimal (ur_port u)
      else if ur_protocol u = ''https:'' then 443
      else if ur_protocol u = ''http:'' then 80 else -1)"

definition makeDenied :: "string \<Rightarrow> risk_level \<Rightarrow> string \<Rightarrow> bool \<Rightarrow> bool \<Rightarrow> bool \<Rightarrow> network_inspection" where
  "makeDenied reason riskLevel blockedCategory privateRange ssrf egressDenied =
     \<lparr>ni_allowed = False, ni_reason = reason, ni_riskLevel = riskLevel, ni_ssrf = ssrf,
      ni_privateRange = privateRange, ni_blockedCategory = Some blockedCategory,
      ni_egressDenied = egressDenied\<rparr>"

definition makeAllowed :: "string \<Rightarrow> bool \<Rightarrow> network_inspection" where
  "makeAllowed reason privateRange =
     \<lparr>ni_allowed = True, ni_reason = reason, ni_riskLevel = (if privateRange then Medium else Low),
      ni_ssrf = False, ni_privateRange = privateRange, ni_blockedCategory = None,
      ni_egressDenied = False\<rparr>"

definition inspect_url :: "url_parts \<Rightarrow> egress_policy \<Rightarrow> network_inspection" where
  "inspect_url u pol =
     (let hostname = normalizeHostname (ur_hostname u);
          scheme = js_lower (butlast (ur_protocol u));
          port = getPort u;
          privateRange = isPrivateHostname hostname \<or> isPrivateIp hostname
      in if hostname \<in> set METADATA_HOSTS then
           makeDenied (''Cloud metadata endpoint blocked: '' @ hostname) Critical ''cloud-metadata'' True True True
         else if privateRange \<and> \<not> ep_allowPrivateRanges pol then
           makeDenied (''Private or local target blocked: '' @ hostname) Critical ''private-target'' True True True
         else if ur_username u \<noteq> [] \<or> ur_password u \<noteq> [] then
           makeDenied ''URLs with embedded credentials are blocked'' High ''embedded-credentials'' False False True
         else if scheme \<notin> set (ep_allowedSchemes pol) then
           makeDenied (''Scheme blocked by egress policy: '' @ scheme) High ''blocked-scheme'' False False True
         else if port \<notin> set (ep_allowedPorts pol) then
           makeDenied (''Port blocked by egress policy: '' @ show_int port) High ''blocked-port'' False False True
         else if list_ex (\<lambda>e. normalizeHostname e = hostname) (ep_allowedHosts pol) then
           makeAllowed ''Host is in the configured egress allowlist'' privateRange
         else if ep_defaultDeny pol \<and> hostname \<noteq> [] then
           makeDenied (''Host is not allowlisted by egress policy: '' @ hostname)
             (if privateRange then Critical else High) ''default-deny-egress'' privateRange privateRange True
         else makeAllowed ''Request passes network inspection'' privateRange)"

definition inspectNetworkRequest ::
  "(string \<Rightarrow> url_parts option) \<Rightarrow> string \<Rightarrow> egress_patch \<Rightarrow> network_inspection" where
  "inspectNetworkRequest parse_url u patch =
     (case parse_url u of
        None \<Rightarrow> makeDenied ''Malformed URL'' High ''invalid-url'' False False False
      | Some parsed \<Rightarrow> inspect_url parsed (effective_policy patch))"

subsection \<open>Which IPv4 addresses are private\<close>

definition cidr_private :: "int \<Rightarrow> int \<Rightarrow> bool" where
  "cidr_private a b =
     (a \<in> {0, 10, 127, 255} \<or> (a = 192 \<and> b = 168) \<or> (a = 169 \<and> b = 254)
      \<or> (a = 172 \<and> 16 \<le> b \<and> b \<le> 31) \<or> (a = 100 \<and> 64 \<le> b \<and> b \<le> 127))"

lemma digit_class:
  assumes "d < 10"
  shows "CHR ''.'' \<noteq> digit_char d" "digit_char d \<noteq> CHR ''.''"
    "digit_char d = CHR ''1'' \<longleftrightarrow> d = 1" "digit_char d = CHR ''2'' \<longleftrightarrow> d = 2"
    "digit_char d = CHR ''3'' \<longleftrightarrow> d = 3" "digit_char d = CHR ''6'' \<longleftrightarrow> d = 6"
    "CHR ''1'' = digit_char d \<longleftrightarrow> d = 1" "CHR ''2'' = digit_char d \<longleftrightarrow> d = 2"
    "CHR ''3'' = digit_char d \<longleftrightarrow> d = 3" "CHR ''6'' = digit_char d \<longleftrightarrow> d = 6"
    "ch_in ''6789'' (digit_char d) \<longleftrightarrow> 6 \<le> d" "ch_in ''01'' (digit_char d) \<longleftrightarrow> d \<le> 1"
    "ch_in ''456789'' (digit_char d) \<longleftrightarrow> 4 \<le> d" "ch_in ''789'' (digit_char d) \<longleftrightarrow> 7 \<le> d"
    "ch_in ''01234567'' (digit_char d) \<longleftrightarrow> d \<le> 7" "ch_digit (digit_char d)"
  by (rule digit_cases [OF assms]; simp add: digit_char_def ch_in_def ch_digit_def)+

lemma dot_not_digit: "CHR ''.'' \<notin> set (show_nat n)" "CHR '':'' \<notin> set (show_nat n)"
proof -
  have "d < 10 \<Longrightarrow> CHR '':'' \<noteq> digit_char d" for d
    by (erule digit_cases) (simp_all add: digit_char_def)
  then show "CHR ''.'' \<notin> set (show_nat n)" "CHR '':'' \<notin> set (show_nat n)"
    using show_nat_digits [of _ n] digit_class(1) by blast+
qed

lemma label_match:
  assumes "l = show_nat n @ ''.''"
  shows "cls_prefix (lit l @ qs) (show_nat a @ CHR ''.'' # rest) \<longleftrightarrow> a = n \<and> cls_prefix qs rest"
proof -
  have "prefix (show_nat n @ [CHR ''.'']) (show_nat a @ CHR ''.'' # rest) \<longleftrightarrow> a = n"
    using prefix_label [OF dot_not_digit(1) dot_not_digit(1), of n "[]" a rest] show_nat_inj by auto
  then show ?thesis
    by (auto simp: assms cls_prefix_append cls_prefix_lit)
qed

lemma label_match':
  assumes "l = show_nat n @ ''.''"
  shows "cls_prefix (lit l) (show_nat a @ CHR ''.'' # rest) \<longleftrightarrow> a = n"
  using label_match [OF assms, of "[]"] by simp

lemma octet_shape:
  assumes "(b :: nat) < 256"
  obtains (one) "b < 10" "show_nat b = [digit_char b]"
  | (two) x y where "b = 10 * x + y" "1 \<le> x" "x < 10" "y < 10" "show_nat b = [digit_char x, digit_char y]"
  | (three) x y z where "b = 100 * x + 10 * y + z" "1 \<le> x" "x < 10" "y < 10" "z < 10"
      "show_nat b = [digit_char x, digit_char y, digit_char z]"
proof -
  have e: "b = 10 * (b div 10) + b mod 10" "b div 10 = 10 * (b div 100) + b div 10 mod 10"
    using div_mult_mod_eq [of b 10] div_mult_mod_eq [of "b div 10" 10]
    by (simp_all add: div_mult2_eq [symmetric])
  have m: "b mod 10 < 10" "b div 10 mod 10 < 10" by simp_all
  consider "b < 10" | "10 \<le> b" "b < 100" | "100 \<le> b" by linarith
  then show ?thesis
  proof cases
    case 1
    then show ?thesis using one show_nat_1 by blast
  next
    case 2
    then have "1 \<le> b div 10" "b div 10 < 10" by simp_all
    then show ?thesis using two [of "b div 10" "b mod 10"] show_nat_2 [of b] e(1) m 2 by blast
  next
    case 3
    then have "1 \<le> b div 100" "b div 100 < 10" using assms by simp_all
    moreover have "b = 100 * (b div 100) + 10 * (b div 10 mod 10) + b mod 10" using e by linarith
    moreover have "b < 1000" using assms by simp
    ultimately show ?thesis
      using three [of "b div 100" "b div 10 mod 10" "b mod 10"] show_nat_3 [of b] m 3 by blast
  qed
qed

text \<open>A two-digit and a three-digit label between dots, under one class per digit.\<close>

lemma two_class_label:
  assumes "(b :: nat) < 256" "\<not> p CHR ''.''" "\<not> q CHR ''.''"
    and "\<And>d. d < 10 \<Longrightarrow> p (digit_char d) \<longleftrightarrow> P d" "\<And>d. d < 10 \<Longrightarrow> q (digit_char d) \<longleftrightarrow> Q d"
    and "\<And>n. n < 10 \<Longrightarrow> \<not> R n" "\<And>n. 100 \<le> n \<Longrightarrow> \<not> R n"
    and "\<And>x y. 1 \<le> x \<Longrightarrow> x < 10 \<Longrightarrow> y < 10 \<Longrightarrow> R (10 * x + y) \<longleftrightarrow> P x \<and> Q y"
  shows "cls_prefix [p, q, (=) CHR ''.''] (show_nat b @ CHR ''.'' # r) \<longleftrightarrow> R b"
  using assms(1) by (cases b rule: octet_shape) (simp_all add: assms(2-) digit_class(1))

lemma three_class_label:
  assumes "(b :: nat) < 256" "\<not> p CHR ''.''" "\<not> q CHR ''.''" "\<not> s CHR ''.''"
    and "\<And>d. d < 10 \<Longrightarrow> p (digit_char d) \<longleftrightarrow> P d" "\<And>d. d < 10 \<Longrightarrow> q (digit_char d) \<longleftrightarrow> Q d"
    and "\<And>d. d < 10 \<Longrightarrow> s (digit_char d) \<longleftrightarrow> S d"
    and "\<And>n. n < 100 \<Longrightarrow> \<not> R n"
    and "\<And>x y z. 1 \<le> x \<Longrightarrow> x < 10 \<Longrightarrow> y < 10 \<Longrightarrow> z < 10 \<Longrightarrow> R (100 * x + 10 * y + z) \<longleftrightarrow> P x \<and> Q y \<and> S z"
  shows "cls_prefix [p, q, s, (=) CHR ''.''] (show_nat b @ CHR ''.'' # r) \<longleftrightarrow> R b"
  using assms(1) by (cases b rule: octet_shape) (simp_all add: assms(2-) digit_class(1))

lemma ch_in_dot: "CHR ''.'' \<notin> set cs \<Longrightarrow> \<not> ch_in cs CHR ''.''" "\<not> ch_digit CHR ''.''"
  by (simp_all add: ch_in_def ch_digit_def)

lemma range_16_19:
  "(b :: nat) < 256 \<Longrightarrow> cls_prefix [(=) CHR ''1'', ch_in ''6789'', (=) CHR ''.''] (show_nat b @ CHR ''.'' # r) \<longleftrightarrow> 16 \<le> b \<and> b \<le> 19"
  by (rule two_class_label [where P = "\<lambda>d. d = 1" and Q = "\<lambda>d. 6 \<le> d"]) (simp_all add: digit_class ch_in_dot, arith+)

lemma range_20_29:
  "(b :: nat) < 256 \<Longrightarrow> cls_prefix [(=) CHR ''2'', ch_digit, (=) CHR ''.''] (show_nat b @ CHR ''.'' # r) \<longleftrightarrow> 20 \<le> b \<and> b \<le> 29"
  by (rule two_class_label [where P = "\<lambda>d. d = 2" and Q = "\<lambda>d. True"]) (simp_all add: digit_class ch_in_dot, arith+)

lemma range_30_31:
  "(b :: nat) < 256 \<Longrightarrow> cls_prefix [(=) CHR ''3'', ch_in ''01'', (=) CHR ''.''] (show_nat b @ CHR ''.'' # r) \<longleftrightarrow> 30 \<le> b \<and> b \<le> 31"
  by (rule two_class_label [where P = "\<lambda>d. d = 3" and Q = "\<lambda>d. d \<le> 1"]) (simp_all add: digit_class ch_in_dot, arith+)

lemma range_64_69:
  "(b :: nat) < 256 \<Longrightarrow> cls_prefix [(=) CHR ''6'', ch_in ''456789'', (=) CHR ''.''] (show_nat b @ CHR ''.'' # r) \<longleftrightarrow> 64 \<le> b \<and> b \<le> 69"
  by (rule two_class_label [where P = "\<lambda>d. d = 6" and Q = "\<lambda>d. 4 \<le> d"]) (simp_all add: digit_class ch_in_dot, arith+)

lemma range_70_99:
  "(b :: nat) < 256 \<Longrightarrow> cls_prefix [ch_in ''789'', ch_digit, (=) CHR ''.''] (show_nat b @ CHR ''.'' # r) \<longleftrightarrow> 70 \<le> b \<and> b \<le> 99"
  by (rule two_class_label [where P = "\<lambda>d. 7 \<le> d" and Q = "\<lambda>d. True"]) (simp_all add: digit_class ch_in_dot, arith+)

lemma range_100_119:
  "(b :: nat) < 256 \<Longrightarrow> cls_prefix [(=) CHR ''1'', ch_in ''01'', ch_digit, (=) CHR ''.''] (show_nat b @ CHR ''.'' # r) \<longleftrightarrow> 100 \<le> b \<and> b \<le> 119"
  by (rule three_class_label [where P = "\<lambda>d. d = 1" and Q = "\<lambda>d. d \<le> 1" and S = "\<lambda>d. True"]) (simp_all add: digit_class ch_in_dot, arith+)

lemma range_120_127:
  "(b :: nat) < 256 \<Longrightarrow> cls_prefix [(=) CHR ''1'', (=) CHR ''2'', ch_in ''01234567'', (=) CHR ''.''] (show_nat b @ CHR ''.'' # r) \<longleftrightarrow> 120 \<le> b \<and> b \<le> 127"
proof (rule three_class_label [where P = "\<lambda>d. d = 1" and Q = "\<lambda>d. d = 2" and S = "\<lambda>d. d \<le> 7"])
  fix x y z :: nat
  assume "1 \<le> x" "x < 10" "y < 10" "z < 10"
  then show "(120 \<le> 100 * x + 10 * y + z \<and> 100 * x + 10 * y + z \<le> 127) \<longleftrightarrow> x = 1 \<and> y = 2 \<and> z \<le> 7"
    by (cases "x = 1"; cases "y = 2"; cases "y < 2") auto
qed (simp_all add: digit_class ch_in_dot)

lemmas range_match = range_16_19 range_20_29 range_30_31 range_64_69 range_70_99 range_100_119 range_120_127

lemma octet_label_127: "''127.'' = show_nat 127 @ ''.''"
  by (simp add: show_nat_3 digit_char_def)

lemma octet_label_10: "''10.'' = show_nat 10 @ ''.''"
  by (simp add: show_nat_2 digit_char_def)

lemma octet_label_192: "''192.'' = show_nat 192 @ ''.''"
  by (simp add: show_nat_3 digit_char_def)

lemma octet_label_168: "''168.'' = show_nat 168 @ ''.''"
  by (simp add: show_nat_3 digit_char_def)

lemma octet_label_172: "''172.'' = show_nat 172 @ ''.''"
  by (simp add: show_nat_3 digit_char_def)

lemma octet_label_169: "''169.'' = show_nat 169 @ ''.''"
  by (simp add: show_nat_3 digit_char_def)

lemma octet_label_254: "''254.'' = show_nat 254 @ ''.''"
  by (simp add: show_nat_3 digit_char_def)

lemma octet_label_100: "''100.'' = show_nat 100 @ ''.''"
  by (simp add: show_nat_3 digit_char_def)

lemma octet_label_0: "''0.'' = show_nat 0 @ ''.''"
  by (simp add: show_nat_1 digit_char_def)

lemma octet_label_255: "''255.'' = show_nat 255 @ ''.''"
  by (simp add: show_nat_3 digit_char_def)

lemmas octet_labels =
  octet_label_127 octet_label_10 octet_label_192 octet_label_168 octet_label_172 octet_label_169 octet_label_254 octet_label_100 octet_label_0 octet_label_255

lemmas octet_match = octet_labels [THEN label_match] octet_labels [THEN label_match']

lemma v4_patterns_split:
  "IPV4_PRIVATE_PATTERNS =
     [lit ''127.'', lit ''10.'', lit ''192.'' @ lit ''168.'',
      lit ''172.'' @ [(=) CHR ''1'', ch_in ''6789'', (=) CHR ''.''],
      lit ''172.'' @ [(=) CHR ''2'', ch_digit, (=) CHR ''.''],
      lit ''172.'' @ [(=) CHR ''3'', ch_in ''01'', (=) CHR ''.''],
      lit ''169.'' @ lit ''254.'',
      lit ''100.'' @ [(=) CHR ''6'', ch_in ''456789'', (=) CHR ''.''],
      lit ''100.'' @ [ch_in ''789'', ch_digit, (=) CHR ''.''],
      lit ''100.'' @ [(=) CHR ''1'', ch_in ''01'', ch_digit, (=) CHR ''.''],
      lit ''100.'' @ [(=) CHR ''1'', (=) CHR ''2'', ch_in ''01234567'', (=) CHR ''.''],
      lit ''0.'', lit ''255.'']"
  by (simp add: IPV4_PRIVATE_PATTERNS_def lit_def)

lemma matches_v4_dotted:
  assumes "0 \<le> a" "0 \<le> b" "b < 256" "0 \<le> c" "0 \<le> d"
  shows "matches_v4 (dotted a b c d) \<longleftrightarrow> cidr_private a b"
proof -
  define A B where AB: "A = nat a" "B = nat b"
  define r where "r = show_nat (nat c) @ CHR ''.'' # show_nat (nat d)"
  have B: "B < 256" using assms AB by simp
  have dot: "dotted a b c d = show_nat A @ CHR ''.'' # show_nat B @ CHR ''.'' # r"
    using assms by (simp add: dotted_def show_int_def AB r_def)
  have one: "list_ex (\<lambda>p. cls_prefix p (show_nat A @ CHR ''.'' # show_nat B @ CHR ''.'' # r)) IPV4_PRIVATE_PATTERNS \<longleftrightarrow>
     A = 127 \<or> A = 10 \<or> (A = 192 \<and> B = 168) \<or> (A = 172 \<and> (16 \<le> B \<and> B \<le> 19))
     \<or> (A = 172 \<and> (20 \<le> B \<and> B \<le> 29)) \<or> (A = 172 \<and> (30 \<le> B \<and> B \<le> 31)) \<or> (A = 169 \<and> B = 254)
     \<or> (A = 100 \<and> (64 \<le> B \<and> B \<le> 69)) \<or> (A = 100 \<and> (70 \<le> B \<and> B \<le> 99))
     \<or> (A = 100 \<and> (100 \<le> B \<and> B \<le> 119)) \<or> (A = 100 \<and> (120 \<le> B \<and> B \<le> 127)) \<or> A = 0 \<or> A = 255"
    unfolding v4_patterns_split list_ex_Cons_iff list_ex_Nil_iff
      octet_match range_match [OF B] simp_thms by (rule TrueI)
  have ranges: "(16 \<le> B \<and> B \<le> 31) \<longleftrightarrow> (16 \<le> B \<and> B \<le> 19) \<or> (20 \<le> B \<and> B \<le> 29) \<or> (30 \<le> B \<and> B \<le> 31)"
    "(64 \<le> B \<and> B \<le> 127) \<longleftrightarrow> (64 \<le> B \<and> B \<le> 69) \<or> (70 \<le> B \<and> B \<le> 99) \<or> (100 \<le> B \<and> B \<le> 119) \<or> (120 \<le> B \<and> B \<le> 127)"
    by linarith+
  have two: "cidr_private (int A) (int B) \<longleftrightarrow>
     A = 127 \<or> A = 10 \<or> (A = 192 \<and> B = 168) \<or> (A = 172 \<and> (16 \<le> B \<and> B \<le> 31))
     \<or> (A = 169 \<and> B = 254) \<or> (A = 100 \<and> (64 \<le> B \<and> B \<le> 127)) \<or> A = 0 \<or> A = 255"
    unfolding cidr_private_def by (simp, blast)
  have "matches_v4 (dotted a b c d) \<longleftrightarrow> cidr_private (int A) (int B)"
    unfolding matches_v4_def dot one two ranges conj_disj_distribL disj_assoc by (rule refl)
  also have "\<dots> \<longleftrightarrow> cidr_private a b" using assms(1,2) AB by simp
  finally show ?thesis .
qed

subsection \<open>Hostnames that are already canonical\<close>

lemma norm_fixed:
  assumes "s \<noteq> []" "\<And>c. c \<in> set s \<Longrightarrow> \<not> js_space c \<and> lower_char c = c" "hd s \<noteq> CHR ''[''" "last s \<noteq> CHR ''.''"
  shows "normalizeHostname s = s"
proof -
  have dw: "dropWhile js_space s = s" using assms(1,2) by (cases s) auto
  have "dropWhile js_space (rev s) = rev s"
    using assms(1,2) by (cases "rev s") (auto simp: rev_eq_Cons_iff)
  with dw have "js_trim s = s" by (simp add: js_trim_def)
  moreover have "js_lower s = s" using assms(2) by (simp add: js_lower_def map_idI)
  moreover have "\<not> prefix ''['' s" using assms(1,3) by (cases s) auto
  ultimately show ?thesis
    using assms(4) by (simp add: normalizeHostname_def strip_brackets_def strip_root_dot_def)
qed

lemma norm_trim_free:
  assumes "s \<noteq> []" "\<And>c. c \<in> set s \<Longrightarrow> \<not> js_space c" "hd s = CHR '':''" "last s \<noteq> CHR ''.''"
    "lower_char (last s) \<noteq> CHR ''.''"
  shows "normalizeHostname s = js_lower s"
proof -
  have dw: "dropWhile js_space s = s" using assms(1,2) by (cases s) auto
  have "dropWhile js_space (rev s) = rev s"
    using assms(1,2) by (cases "rev s") (auto simp: rev_eq_Cons_iff)
  with dw have "js_trim s = s" by (simp add: js_trim_def)
  moreover have "lower_char CHR '':'' = CHR '':''" by code_simp
  then have "\<not> prefix ''['' (js_lower s)" using assms(1,3) by (cases s) (auto simp: js_lower_Cons)
  moreover have "last (js_lower s) \<noteq> CHR ''.''" using assms(1,5) by (simp add: js_lower_def last_map)
  ultimately show ?thesis
    using assms(4) by (simp add: normalizeHostname_def strip_brackets_def strip_root_dot_def)
qed

lemma digit_plain: "d < 10 \<Longrightarrow> \<not> js_space (digit_char d) \<and> lower_char (digit_char d) = digit_char d
    \<and> digit_char d \<noteq> CHR ''['' \<and> digit_char d \<noteq> CHR ''.'' \<and> digit_char d \<noteq> CHR '':''
    \<and> \<not> ch_in ''fF'' (digit_char d)"
  by (erule digit_cases; code_simp)

lemma hex_lower: "ch_hex c \<Longrightarrow> digit_value (lower_char c) = digit_value c \<and> ch_hex (lower_char c)
    \<and> \<not> js_space c \<and> c \<noteq> CHR ''.'' \<and> c \<noteq> CHR '':'' \<and> lower_char c \<noteq> CHR ''.'' \<and> lower_char c \<noteq> CHR '':''
    \<and> 0 \<le> digit_value c \<and> digit_value c \<le> 15"
  unfolding ch_hex_def ch_in_def
  by (simp only: set_simps insert_iff empty_iff simp_thms, elim disjE; simp only:; code_simp)

lemma dotted_nat:
  "0 \<le> a \<Longrightarrow> 0 \<le> b \<Longrightarrow> 0 \<le> c \<Longrightarrow> 0 \<le> d \<Longrightarrow> dotted a b c d =
    show_nat (nat a) @ ''.'' @ show_nat (nat b) @ ''.'' @ show_nat (nat c) @ ''.'' @ show_nat (nat d)"
  by (simp add: dotted_def show_int_def)

lemma show_nat_plain: "c \<in> set (show_nat n) \<Longrightarrow> \<not> js_space c \<and> lower_char c = c
    \<and> c \<noteq> CHR ''['' \<and> c \<noteq> CHR ''.'' \<and> c \<noteq> CHR '':'' \<and> \<not> ch_in ''fF'' c"
  by (drule show_nat_digits, elim exE conjE, simp only: digit_plain, simp)

lemma dotted_head: "hd (dotted a b c d) \<in> set (show_int a)" "dotted a b c d \<noteq> []"
  by (simp_all add: dotted_def show_int_def)

lemma normalize_dotted:
  assumes "0 \<le> a" "0 \<le> b" "0 \<le> c" "0 \<le> d"
  shows "normalizeHostname (dotted a b c d) = dotted a b c d"
proof (rule norm_fixed)
  have dot: "\<not> js_space CHR ''.'' \<and> lower_char CHR ''.'' = CHR ''.''" by code_simp
  show "\<not> js_space ch \<and> lower_char ch = ch" if "ch \<in> set (dotted a b c d)" for ch
    using that dot show_nat_plain by (auto simp: dotted_nat [OF assms])
  show "hd (dotted a b c d) \<noteq> CHR ''[''"
    using dotted_head(1) [of a b c d] show_nat_plain assms by (auto simp: show_int_def)
  have "last (dotted a b c d) = last (show_nat (nat d))"
    by (simp add: dotted_nat [OF assms])
  then show "last (dotted a b c d) \<noteq> CHR ''.''"
    using show_nat_plain last_in_set [OF show_nat_ne, of "nat d"] by metis
qed (simp add: dotted_head)

lemma not_v6_head:
  assumes "s \<noteq> []" "\<not> ch_in ''fF'' (hd s)" "hd s \<noteq> CHR '':''"
  shows "\<not> matches_v6 s" "embeddedIpv4 s = None"
  using assms by (cases s; simp add: matches_v6_def IPV6_PRIVATE_PREFIXES_def embeddedIpv4_def embedded_tail_def Let_def)+

lemma isPrivateIp_dotted:
  assumes "0 \<le> a" "0 \<le> b" "b < 256" "0 \<le> c" "0 \<le> d"
  shows "isPrivateIp (dotted a b c d) \<longleftrightarrow> cidr_private a b"
proof -
  have "hd (dotted a b c d) \<in> set (show_nat (nat a))"
    using dotted_head(1) [of a b c d] assms(1) by (simp add: show_int_def)
  with show_nat_plain have h: "\<not> ch_in ''fF'' (hd (dotted a b c d))" "hd (dotted a b c d) \<noteq> CHR '':''"
    by blast+
  show ?thesis
    using assms matches_v4_dotted [OF assms] not_v6_head [OF dotted_head(2) h]
    by (simp add: isPrivateIp_def normalize_dotted)
qed

subsection \<open>IPv4 addresses embedded in IPv6 ones\<close>

lemma parse_hex_bound:
  assumes "list_all ch_hex g"
  shows "0 \<le> parse_hex g \<and> parse_hex g < 16 ^ length g"
proof -
  have "0 \<le> foldl (\<lambda>acc c. 16 * acc + digit_value c) acc g
      \<and> foldl (\<lambda>acc c. 16 * acc + digit_value c) acc g < (acc + 1) * 16 ^ length g"
    if "0 \<le> acc" for acc :: int
    using assms that
  proof (induction g arbitrary: acc)
    case (Cons c g)
    then have c: "0 \<le> digit_value c" "digit_value c \<le> 15" using hex_lower by auto
    from Cons.prems c have "0 \<le> 16 * acc + digit_value c" by simp
    with Cons.IH [OF _ this] Cons.prems(1) have
      ih: "0 \<le> foldl (\<lambda>acc c. 16 * acc + digit_value c) (16 * acc + digit_value c) g"
      "foldl (\<lambda>acc c. 16 * acc + digit_value c) (16 * acc + digit_value c) g
         < (16 * acc + digit_value c + 1) * 16 ^ length g" by simp_all
    have "(16 * acc + digit_value c + 1) * 16 ^ length g \<le> (16 * acc + 16) * (16 :: int) ^ length g"
      using c by (intro mult_right_mono) simp_all
    also have "(16 * acc + 16) * (16 :: int) ^ length g = (acc + 1) * 16 ^ length (c # g)" by simp
    finally have "foldl (\<lambda>acc c. 16 * acc + digit_value c) (16 * acc + digit_value c) g
        < (acc + 1) * 16 ^ length (c # g)" by (rule less_le_trans [OF ih(2)])
    with ih(1) show ?case unfolding foldl_Cons by (rule conjI)
  qed simp
  from this [of 0] show ?thesis by (simp add: parse_hex_def)
qed

lemma parse_hex_lower: "list_all ch_hex g \<Longrightarrow> parse_hex (js_lower g) = parse_hex g"
proof -
  have "list_all ch_hex g \<Longrightarrow> foldl (\<lambda>acc c. 16 * acc + digit_value c) acc (js_lower g)
      = foldl (\<lambda>acc c. 16 * acc + digit_value c) acc g" for acc
    by (induction g arbitrary: acc) (simp_all add: js_lower_Cons hex_lower)
  then show "list_all ch_hex g \<Longrightarrow> parse_hex (js_lower g) = parse_hex g" by (simp add: parse_hex_def)
qed

lemma js_split_no_sep: "sep \<notin> set x \<Longrightarrow> js_split sep x = [x]"
  by (induction x) auto

lemma js_split_two: "sep \<notin> set x \<Longrightarrow> js_split sep (x @ sep # y) = x # js_split sep y"
  by (induction x) auto

lemma hex_group_lower: "is_hex_group g \<Longrightarrow> is_hex_group (js_lower g)"
  by (auto simp: is_hex_group_def js_lower_def list_all_iff hex_lower)

lemma hex_no_sep: "is_hex_group g \<Longrightarrow> CHR '':'' \<notin> set g \<and> CHR ''.'' \<notin> set g"
  using hex_lower by (auto simp: is_hex_group_def list_all_iff)

lemma embedded_pair:
  assumes "is_hex_group g" "is_hex_group h"
  shows "embeddedIpv4 (''::ffff:'' @ g @ '':'' @ h) =
    Some (dotted (parse_hex g div 256) (parse_hex g mod 256) (parse_hex h div 256) (parse_hex h mod 256))"
proof -
  have low: "js_lower ''ffff:'' = ''ffff:''" by code_simp
  have cs: "list_all embedded_charset (g @ CHR '':'' # h)"
    using assms by (auto simp: is_hex_group_def embedded_charset_def list_all_iff)
  have ne: "g @ CHR '':'' # h \<noteq> []" by simp
  have tail: "embedded_tail (''::ffff:'' @ g @ '':'' @ h) = Some (g @ CHR '':'' # h)"
    using low cs by (simp add: embedded_tail_def Let_def)
  have split: "js_split CHR '':'' (g @ CHR '':'' # h) = [g, h]"
    using assms hex_no_sep by (simp add: js_split_two js_split_no_sep)
  have "CHR ''.'' \<notin> set (g @ CHR '':'' # h)" using assms hex_no_sep by auto
  then have "\<not> is_dotted_quad (g @ CHR '':'' # h)"
    by (simp add: is_dotted_quad_def js_split_no_sep)
  with assms show ?thesis
    unfolding embeddedIpv4_def tail by (simp add: split Let_def)
qed

lemma isPrivateIp_mapped:
  assumes "is_hex_group g" "is_hex_group h"
  shows "isPrivateIp (''::ffff:'' @ g @ '':'' @ h) \<longleftrightarrow> cidr_private (parse_hex g div 256) (parse_hex g mod 256)"
proof -
  let ?s = "''::ffff:'' @ g @ '':'' @ h"
  let ?t = "''::ffff:'' @ js_lower g @ '':'' @ js_lower h"
  have plain: "\<not> js_space CHR '':'' \<and> \<not> js_space CHR ''f'' \<and> js_lower ''::ffff:'' = ''::ffff:'' \<and> js_lower '':'' = '':''"
    by code_simp
  have gh: "\<not> js_space c" "c \<noteq> CHR ''.''" "lower_char c \<noteq> CHR ''.''" if "c \<in> set g \<union> set h" for c
    using that assms hex_lower by (auto simp: is_hex_group_def list_all_iff)
  have hne: "h \<noteq> []" using assms(2) by (auto simp: is_hex_group_def)
  then have last: "last ?s \<in> set h" by simp
  have norm: "normalizeHostname ?s = ?t"
  proof -
    have "normalizeHostname ?s = js_lower ?s"
      by (rule norm_trim_free) (use plain gh last in auto)
    then show ?thesis using plain by (simp only: js_lower_append)
  qed
  have emb: "embeddedIpv4 ?t = Some (dotted (parse_hex g div 256) (parse_hex g mod 256) (parse_hex h div 256) (parse_hex h mod 256))"
    using embedded_pair [OF hex_group_lower hex_group_lower, OF assms] assms
    by (simp add: parse_hex_lower is_hex_group_def)
  have pos: "0 \<le> parse_hex g" "0 \<le> parse_hex h"
    using assms parse_hex_bound by (auto simp: is_hex_group_def)
  have "\<not> matches_v4 ?t" by (simp add: matches_v4_def IPV4_PRIVATE_PATTERNS_def lit_def)
  moreover have "\<not> matches_v6 ?t"
    by (simp add: matches_v6_def IPV6_PRIVATE_PREFIXES_def Let_def ch_in_def)
  ultimately show ?thesis
    unfolding isPrivateIp_def Let_def norm emb using pos by (simp add: matches_v4_dotted)
qed

subsection \<open>Properties\<close>

text \<open>C26: a dotted IPv4 address is classified private exactly when it lies in one of the ranges
  0/8, 10/8, 127/8, 255/8, 169.254/16, 192.168/16, 172.16/12 and 100.64/10: the regular
  expressions are equivalent to the CIDR blocks they stand for.\<close>

theorem private_ipv4_is_cidr:
  assumes "a \<in> {0..255}" "b \<in> {0..255}" "c \<in> {0..255}" "d \<in> {0..255}"
  shows "isPrivateIp (dotted a b c d) \<longleftrightarrow> cidr_private a b"
  by (rule isPrivateIp_dotted) (use assms in auto)

theorem private_ipv4_is_cidr_witness:
  "isPrivateIp (dotted 100 64 0 1) \<and> \<not> isPrivateIp (dotted 100 128 0 1)"
  using private_ipv4_is_cidr [of 100 64 0 1] private_ipv4_is_cidr [of 100 128 0 1]
  by (simp add: cidr_private_def)

text \<open>An IPv4-mapped IPv6 address, in the hexadecimal form the URL parser writes, is private
  exactly when the IPv4 address in its low 32 bits is: \<open>::ffff:7f00:1\<close> does not slip past.\<close>

theorem mapped_ipv6_classified_by_ipv4:
  assumes "is_hex_group g" "is_hex_group h"
  shows "isPrivateIp (''::ffff:'' @ g @ '':'' @ h) \<longleftrightarrow>
         isPrivateIp (dotted (parse_hex g div 256) (parse_hex g mod 256) (parse_hex h div 256) (parse_hex h mod 256))"
proof -
  have "list_all ch_hex g" "list_all ch_hex h" using assms by (simp_all add: is_hex_group_def)
  then have "0 \<le> parse_hex g" "0 \<le> parse_hex h" using parse_hex_bound by blast+
  then show ?thesis
    unfolding isPrivateIp_mapped [OF assms] by (simp add: isPrivateIp_dotted)
qed

theorem mapped_ipv6_classified_by_ipv4_witness: "isPrivateIp ''::ffff:7f00:1''"
proof -
  have "is_hex_group ''7f00''" "is_hex_group ''1''" by code_simp+
  from mapped_ipv6_classified_by_ipv4 [OF this]
  have "isPrivateIp ''::ffff:7f00:1'' = isPrivateIp (dotted (parse_hex ''7f00'' div 256) (parse_hex ''7f00'' mod 256)
      (parse_hex ''1'' div 256) (parse_hex ''1'' mod 256))" by simp
  also have "parse_hex ''7f00'' = 32512" by code_simp
  also have "parse_hex ''1'' = 1" by code_simp
  also have "isPrivateIp (dotted (32512 div 256) (32512 mod 256) (1 div 256) (1 mod 256))"
    by (simp add: isPrivateIp_dotted cidr_private_def)
  finally show ?thesis by simp
qed

text \<open>A request for a cloud metadata host is refused, at critical risk, whatever the egress
  policy allows and however the host is spelled.\<close>

theorem metadata_always_denied:
  assumes "parse_url u = Some parsed" "normalizeHostname (ur_hostname parsed) \<in> set METADATA_HOSTS"
  shows "\<not> ni_allowed (inspectNetworkRequest parse_url u patch)
       \<and> ni_riskLevel (inspectNetworkRequest parse_url u patch) = Critical
       \<and> ni_blockedCategory (inspectNetworkRequest parse_url u patch) = Some ''cloud-metadata''"
  using assms by (simp add: inspectNetworkRequest_def inspect_url_def makeDenied_def Let_def)

definition sample_patch :: egress_patch where
  "sample_patch = \<lparr>pp_defaultDeny = None, pp_allowPrivateRanges = Some True, pp_allowedHosts = Some [''a.io''],
     pp_allowedSchemes = None, pp_allowedPorts = None, pp_enabled = None\<rparr>"

definition sample_url :: "string \<Rightarrow> url_parts" where
  "sample_url h = \<lparr>ur_hostname = h, ur_protocol = ''https:'', ur_port = [], ur_username = [], ur_password = []\<rparr>"

theorem metadata_always_denied_witness:
  "\<not> ni_allowed (inspectNetworkRequest (\<lambda>h. Some (sample_url h)) ''Metadata.Google.Com.'' sample_patch)"
proof -
  have "normalizeHostname (ur_hostname (sample_url ''Metadata.Google.Com.'')) \<in> set METADATA_HOSTS" by code_simp
  then show ?thesis by (intro conjunct1 [OF metadata_always_denied]) (rule refl)
qed

text \<open>C35: what an allowed request has passed: the URL parsed, the host is no metadata endpoint, it is
  private only where private ranges are allowed, no credentials are embedded, scheme and port are
  allowlisted, and the host is allowlisted unless the policy does not deny by default (or the URL
  has no host).\<close>

theorem allowed_request_passed_every_gate:
  assumes "ni_allowed (inspectNetworkRequest parse_url u patch)"
  shows "\<exists>p. parse_url u = Some p \<and> (let host = normalizeHostname (ur_hostname p); pol = effective_policy patch in
      host \<notin> set METADATA_HOSTS
      \<and> (isPrivateHostname host \<or> isPrivateIp host \<longrightarrow> ep_allowPrivateRanges pol)
      \<and> ur_username p = [] \<and> ur_password p = []
      \<and> js_lower (butlast (ur_protocol p)) \<in> set (ep_allowedSchemes pol)
      \<and> getPort p \<in> set (ep_allowedPorts pol)
      \<and> ((\<exists>e \<in> set (ep_allowedHosts pol). normalizeHostname e = host) \<or> \<not> ep_defaultDeny pol \<or> host = []))"
  using assms
  by (auto simp: inspectNetworkRequest_def inspect_url_def makeDenied_def makeAllowed_def Let_def list_ex_iff
      split: option.splits if_splits)

theorem allowed_request_passed_every_gate_witness:
  "getPort (sample_url ''a.io'') \<in> set (ep_allowedPorts (effective_policy sample_patch))"
proof -
  have "ni_allowed (inspectNetworkRequest (\<lambda>h. Some (sample_url h)) ''a.io'' sample_patch)" by code_simp
  from allowed_request_passed_every_gate [OF this] show ?thesis by (auto simp: Let_def)
qed

text \<open>A refusal always names a category, and every category has a detection the audit trail can
  carry; an allowed request names none.\<close>

theorem every_refusal_has_a_detection:
  "ni_allowed (inspectNetworkRequest parse_url u patch) \<longleftrightarrow>
   detectionForBlockedCategory (ni_blockedCategory (inspectNetworkRequest parse_url u patch)) = None"
  by (auto simp: inspectNetworkRequest_def inspect_url_def makeDenied_def makeAllowed_def Let_def
      detectionForBlockedCategory_def inspectionDetections_def omap_get_def split: option.split)

end
