(* ===== verification/Policy_Rules.thy ===== *)
theory Policy_Rules
  imports Policy_Engine Network_Ssrf Json
begin

text \<open>
  The built-in rules of \<open>src/policy/rules.ts\<close> and the helpers their matchers call. A matcher is a
  pure function of the context; the DLP scanner and the URL parser it consults are the fields of
  \<open>scanners\<close>. The list \<open>builtinRules\<close> has the source's order, cut into the groups it is written in.
\<close>

subsection \<open>What the matchers consult\<close>

record dlp_location =
  dl_type :: string
  dl_start :: int

record dlp_result =
  dl_secretTypes :: "string list"
  dl_piiTypes :: "string list"
  dl_redactedText :: "string option"
  dl_locations :: "dlp_location list"

definition dl_containsSecrets :: "dlp_result \<Rightarrow> bool" where
  "dl_containsSecrets r = (dl_secretTypes r \<noteq> [])"

definition dl_containsPII :: "dlp_result \<Rightarrow> bool" where
  "dl_containsPII r = (dl_piiTypes r \<noteq> [])"

record scanners =
  sc_scanText :: "string \<Rightarrow> dlp_result"
  sc_parseUrl :: "string \<Rightarrow> url_parts option"

subsection \<open>Helpers\<close>

definition payloadContains :: "(string \<times> json) list \<Rightarrow> string list \<Rightarrow> bool" where
  "payloadContains payload keys =
     (let serialized = js_lower (json_stringify (JObj payload)) in
      list_ex (\<lambda>key. js_includes serialized (js_lower key)) keys)"

definition payloadText :: "(string \<times> json) list \<Rightarrow> string" where
  "payloadText payload = js_join [CHR 0x0A] (json_strings (JObj payload))"

definition contentDlpScan :: "scanners \<Rightarrow> agent_context \<Rightarrow> dlp_result" where
  "contentDlpScan sc ctx = sc_scanText sc (payloadText (cx_payload ctx))"

definition provenance_some :: "agent_context \<Rightarrow> (provenance_tag \<Rightarrow> bool) \<Rightarrow> bool" where
  "provenance_some ctx P = (case cx_provenance ctx of None \<Rightarrow> False | Some tags \<Rightarrow> list_ex P tags)"

definition provenanceHasTrust :: "agent_context \<Rightarrow> trust_label \<Rightarrow> bool" where
  "provenanceHasTrust ctx t = provenance_some ctx (\<lambda>e. pt_trustLabel e = t)"

definition provenanceHasSource :: "agent_context \<Rightarrow> prov_source \<Rightarrow> bool" where
  "provenanceHasSource ctx s = provenance_some ctx (\<lambda>e. pt_source e = s)"

definition has_label :: "flow_label list option \<Rightarrow> flow_label \<Rightarrow> bool" where
  "has_label labels l = (case labels of None \<Rightarrow> False | Some ls \<Rightarrow> l \<in> set ls)"

definition flow_direction_is :: "agent_context \<Rightarrow> flow_direction \<Rightarrow> bool" where
  "flow_direction_is ctx d = (case cx_flow ctx of None \<Rightarrow> False | Some fl \<Rightarrow> fl_direction fl = d)"

definition hasFlowLabel :: "agent_context \<Rightarrow> flow_label \<Rightarrow> bool" where
  "hasFlowLabel ctx l =
     ((case cx_flow ctx of None \<Rightarrow> False | Some fl \<Rightarrow> has_label (fl_labels fl) l)
      \<or> provenance_some ctx (\<lambda>e. has_label (pt_labels e) l))"

text \<open>\<open>payload["url"] ?? payload["target"] ?? payload["href"]\<close>: a \<open>null\<close> member falls through.\<close>

definition payload_member :: "(string \<times> json) list \<Rightarrow> string \<Rightarrow> json option" where
  "payload_member payload k = (case omap_get payload k of Some JNull \<Rightarrow> None | v \<Rightarrow> v)"

definition extractHostFromPayload :: "scanners \<Rightarrow> (string \<times> json) list \<Rightarrow> string option" where
  "extractHostFromPayload sc payload =
     (let url = (case payload_member payload ''url'' of Some v \<Rightarrow> Some v
                 | None \<Rightarrow> (case payload_member payload ''target'' of Some v \<Rightarrow> Some v
                            | None \<Rightarrow> payload_member payload ''href''))
      in case url of Some (JStr s) \<Rightarrow> extractHostname (sc_parseUrl sc) s | _ \<Rightarrow> None)"

definition actionIncludes :: "agent_context \<Rightarrow> string list \<Rightarrow> bool" where
  "actionIncludes ctx fragments =
     (let action = js_lower (cx_action ctx) in list_ex (js_includes action) fragments)"

definition isCommunicationChannelRequest :: "agent_context \<Rightarrow> bool" where
  "isCommunicationChannelRequest ctx =
     (case cx_actor ctx of None \<Rightarrow> False | Some a \<Rightarrow> truthy (ac_channelId a))"

definition isCommunicationChannelContentEgress :: "agent_context \<Rightarrow> bool" where
  "isCommunicationChannelContentEgress ctx =
     (isCommunicationChannelRequest ctx \<and> cx_plane ctx = Content \<and> flow_direction_is ctx Egress)"

definition channelContentContainsSecret :: "scanners \<Rightarrow> agent_context \<Rightarrow> bool" where
  "channelContentContainsSecret sc ctx =
     (hasFlowLabel ctx SecretMaterial \<or> dl_containsSecrets (contentDlpScan sc ctx))"

definition channelContentContainsPII :: "scanners \<Rightarrow> agent_context \<Rightarrow> bool" where
  "channelContentContainsPII sc ctx = (hasFlowLabel ctx Pii \<or> dl_containsPII (contentDlpScan sc ctx))"

definition isFilesystemMutationAction :: "agent_context \<Rightarrow> bool" where
  "isFilesystemMutationAction ctx =
     (cx_plane ctx = Tool \<and>
      actionIncludes ctx
        [''write_file'', ''write'', ''create'', ''update'', ''patch'', ''delete'', ''remove'', ''unlink'',
         ''mkdir'', ''move'', ''rename'', ''chmod'', ''chown'', ''install''])"

definition sensitiveFragments :: "string list" where
  "sensitiveFragments =
     [''secret'', ''credential'', ''password'', ''token'', ''api_key'', ''apikey'', ''private key'',
      ''private_key'', ''.env'', ''id_rsa'', ''ssh'', ''vault'', ''keychain'']"

definition isSensitiveDataAccessAction :: "agent_context \<Rightarrow> bool" where
  "isSensitiveDataAccessAction ctx =
     (if cx_plane ctx = Identity then
        actionIncludes ctx sensitiveFragments \<or> payloadContains (cx_payload ctx) sensitiveFragments
      else if cx_plane ctx = Tool then
        actionIncludes ctx [''read_file'', ''cat'', ''open'', ''get'', ''read'']
          \<and> payloadContains (cx_payload ctx) sensitiveFragments
      else cx_plane ctx \<noteq> Content \<and> (hasFlowLabel ctx CredentialAccess \<or> hasFlowLabel ctx SecretMaterial))"

definition isMutatingToolAction :: "agent_context \<Rightarrow> bool" where
  "isMutatingToolAction ctx =
     (cx_plane ctx = Tool \<and>
      actionIncludes ctx
        [''shell'', ''bash'', ''exec'', ''run_command'', ''terminal'', ''write'', ''create'', ''update'', ''post'',
         ''put'', ''delete'', ''remove'', ''unlink'', ''upload'', ''install'', ''deploy''])"

definition isExternalActionPlane :: "agent_context \<Rightarrow> bool" where
  "isExternalActionPlane ctx = (cx_plane ctx \<in> set [Network, Tool, Browser, Identity, Governance])"

definition executionMode :: "agent_context \<Rightarrow> execution_mode" where
  "executionMode ctx = (case cx_control ctx of None \<Rightarrow> NormalMode | Some c \<Rightarrow> ct_executionMode c)"

definition executionModeIs :: "agent_context \<Rightarrow> execution_mode \<Rightarrow> bool" where
  "executionModeIs ctx mode = (executionMode ctx = mode)"

definition isMcpAction :: "agent_context \<Rightarrow> bool" where
  "isMcpAction ctx = prefix ''mcp:'' (cx_action ctx)"

definition mcpMarker :: "agent_context \<Rightarrow> string \<Rightarrow> bool" where
  "mcpMarker ctx marker = (metadata_at ctx marker = Some ''true'')"

subsection \<open>The rules\<close>

definition builtin :: "string \<Rightarrow> string \<Rightarrow> plane option \<Rightarrow> (agent_context \<Rightarrow> bool) \<Rightarrow> decision \<Rightarrow> risk_level
    \<Rightarrow> string \<Rightarrow> policy_rule" where
  "builtin rid description plane match decision riskLevel reason =
     \<lparr>ru_id = rid, ru_description = description, ru_plane = plane, ru_match = (\<lambda>ctx. Some (match ctx)),
      ru_decision = decision, ru_riskLevel = riskLevel, ru_reason = reason, ru_scope = None\<rparr>"

definition channelControlRules :: "scanners \<Rightarrow> policy_rule list" where
  "channelControlRules sc =
    [builtin ''channel:deny-filesystem-mutation''
       ''Deny filesystem mutation requested from a human communication channel'' (Some Tool)
       (\<lambda>ctx. isCommunicationChannelRequest ctx \<and> isFilesystemMutationAction ctx) Deny Critical
       ''Communication-channel users cannot mutate the agent filesystem'',
     builtin ''channel:deny-sensitive-data-access''
       ''Deny sensitive data access requested from a human communication channel'' None
       (\<lambda>ctx. isCommunicationChannelRequest ctx \<and> isSensitiveDataAccessAction ctx) Deny Critical
       ''Communication-channel users cannot access secrets or credentials through the agent'',
     builtin ''channel:deny-sensitive-content-egress''
       ''Deny outbound communication-channel replies containing secrets or credential material'' (Some Content)
       (\<lambda>ctx. isCommunicationChannelContentEgress ctx \<and> channelContentContainsSecret sc ctx) Deny Critical
       ''Communication-channel replies cannot contain secrets or credential material'',
     builtin ''channel:redact-pii-content-egress''
       ''Redact outbound communication-channel replies containing PII'' (Some Content)
       (\<lambda>ctx. isCommunicationChannelContentEgress ctx \<and> channelContentContainsPII sc ctx) Redact High
       ''Communication-channel replies containing PII must be redacted before delivery'',
     builtin ''control:deny-external-actions-answer-only''
       ''Deny external or privileged actions when the control plane is in answer-only mode'' None
       (\<lambda>ctx. executionModeIs ctx AnswerOnly \<and> isExternalActionPlane ctx) Deny Critical
       ''Control plane is in answer-only mode; external execution is disabled'',
     builtin ''control:deny-mutations-read-only''
       ''Deny mutating tool actions when the control plane is in read-only mode'' (Some Tool)
       (\<lambda>ctx. executionModeIs ctx ReadOnly \<and> isMutatingToolAction ctx) Deny High
       ''Control plane is in read-only mode; mutating tool execution is disabled'']"

definition networkToolRules :: "scanners \<Rightarrow> policy_rule list" where
  "networkToolRules sc =
    [builtin ''net:block-ssrf-private'' ''Block requests targeting private, local, or loopback ranges'' (Some Network)
       (\<lambda>ctx. cx_plane ctx = Network \<and>
          (case extractHostFromPayload sc (cx_payload ctx) of
             None \<Rightarrow> False | Some host \<Rightarrow> host \<noteq> [] \<and> (isPrivateHostname host \<or> isPrivateIp host)))
       Deny Critical ''Request targets a private or local network address'',
     builtin ''net:block-metadata-endpoint'' ''Block access to cloud metadata endpoints'' (Some Network)
       (\<lambda>ctx. cx_plane ctx = Network \<and>
          (case extractHostFromPayload sc (cx_payload ctx) of
             None \<Rightarrow> False
           | Some host \<Rightarrow> host \<in> set [''169.254.169.254'', ''metadata.google.internal'', ''metadata.google.com'']))
       Deny Critical ''Request targets a cloud metadata endpoint'',
     builtin ''net:approve-untrusted-egress'' ''Require approval for egress initiated from untrusted content''
       (Some Network)
       (\<lambda>ctx. cx_plane ctx = Network \<and> flow_direction_is ctx Egress \<and> provenanceHasTrust ctx Untrusted)
       Approve High ''Untrusted provenance is attempting network egress'',
     builtin ''tool:require-approval-shell''
       ''Require human approval before executing shell or terminal commands'' (Some Tool)
       (\<lambda>ctx. cx_plane ctx = Tool \<and>
          actionIncludes ctx [''shell'', ''bash'', ''exec'', ''run_command'', ''terminal''])
       Approve High ''Shell execution requires human approval'',
     builtin ''tool:require-approval-file-delete'' ''Require approval before deleting files'' (Some Tool)
       (\<lambda>ctx. cx_plane ctx = Tool \<and> actionIncludes ctx [''delete'', ''remove'', ''unlink''])
       Approve High ''File deletion requires human approval'',
     builtin ''tool:approve-manifest-drift'' ''Require re-approval when a tool or MCP manifest drifts'' (Some Tool)
       (\<lambda>ctx. cx_plane ctx = Tool \<and>
          (hasFlowLabel ctx ManifestDrift
           \<or> payloadContains (cx_payload ctx) [''requiresReapproval'', ''manifest drift'']))
       Approve Critical ''Tool or MCP manifest changed from approved state'',
     builtin ''tool:flag-write-operations'' ''Flag write or mutating tool operations as medium risk'' (Some Tool)
       (\<lambda>ctx. cx_plane ctx = Tool \<and> actionIncludes ctx [''write'', ''create'', ''update'', ''post'', ''put''])
       Allow Medium ''Write operation flagged for audit'']"

definition contentPlaneRules :: "policy_rule list" where
  "contentPlaneRules =
    [builtin ''content:block-secret-exfil''
       ''Block content containing detected secrets from reaching external channels'' (Some Content)
       (\<lambda>ctx. cx_plane ctx = Content \<and>
          payloadContains (cx_payload ctx) [''PRIVATE KEY'', ''BEGIN RSA'', ''AKIA'', ''ghp_'', ''sk-'', ''xoxb-''] \<and>
          (flow_direction_is ctx Egress \<or> hasFlowLabel ctx SecretMaterial))
       Deny Critical ''Content contains potential secrets and is attempting a risky flow'',
     builtin ''content:redact-pii'' ''Redact PII patterns from content on high-risk flows'' (Some Content)
       (\<lambda>ctx. cx_plane ctx = Content \<and>
          payloadContains (cx_payload ctx) [''ssn'', ''social security'', ''credit card'', ''passport''] \<and>
          (flow_direction_is ctx Egress \<or> hasFlowLabel ctx Pii))
       Redact High ''Content contains potential PII on a risky flow'',
     builtin ''content:approve-untrusted-derived-egress''
       ''Require approval when untrusted web/email/tool output content drives external egress'' (Some Content)
       (\<lambda>ctx. cx_plane ctx = Content \<and> flow_direction_is ctx Egress \<and>
          (provenanceHasSource ctx Web \<or> provenanceHasSource ctx Email \<or> provenanceHasSource ctx ToolOutput) \<and>
          (provenanceHasTrust ctx Untrusted \<or> provenanceHasTrust ctx Derived))
       Approve High ''Untrusted or derived external content is driving outbound content flow'',
     builtin ''identity:flag-credential-access'' ''Flag any action accessing credential stores'' (Some Identity)
       (\<lambda>ctx. cx_plane ctx = Identity \<and>
          (payloadContains (cx_payload ctx)
             [''keychain'', ''vault'', ''secret'', ''credential'', ''password'', ''token''] \<or>
           js_includes (js_lower (cx_action ctx)) ''credential'' \<or>
           js_includes (js_lower (cx_action ctx)) ''secret'' \<or>
           hasFlowLabel ctx CredentialAccess))
       Approve Critical ''Credential or secret access requires human approval'',
     builtin ''browser:block-form-submit-payment'' ''Block browser actions that submit payment forms'' (Some Browser)
       (\<lambda>ctx. cx_plane ctx = Browser \<and>
          payloadContains (cx_payload ctx) [''payment'', ''checkout'', ''credit card'', ''billing''] \<and>
          (js_includes (js_lower (cx_action ctx)) ''submit'' \<or> hasFlowLabel ctx Payment))
       Deny Critical ''Payment form submission blocked and requires explicit human action'',
     builtin ''browser:require-approval-oauth''
       ''Require approval before completing OAuth authorization flows'' (Some Browser)
       (\<lambda>ctx. cx_plane ctx = Browser \<and>
          payloadContains (cx_payload ctx) [''oauth'', ''authorize'', ''grant_access'', ''allow_access''])
       Approve High ''OAuth authorization requires human approval'',
     builtin ''governance:deny-watchdog-timeout''
       ''Deny governance actions when the watchdog kill switch is engaged'' (Some Governance)
       (\<lambda>ctx. cx_plane ctx = Governance \<and>
          (hasFlowLabel ctx WatchdogTimeout \<or> payloadContains (cx_payload ctx) [''killSwitchEngaged'']))
       Deny Critical ''Watchdog kill switch engaged; governance changes are blocked'',
     builtin ''governance:log-all'' ''Emit audit signal for all governance-plane actions'' (Some Governance)
       (\<lambda>ctx. cx_plane ctx = Governance) Allow Low ''Governance action logged'']"

definition mcpRules :: "scanners \<Rightarrow> policy_rule list" where
  "mcpRules sc =
    [builtin ''mcp:deny-tool-poisoning''
       ''Deny MCP frames whose advertised tool metadata carries injected instructions'' (Some Tool)
       (\<lambda>ctx. cx_plane ctx = Tool \<and> isMcpAction ctx \<and> mcpMarker ctx ''mcpToolPoisoned'')
       Deny Critical ''MCP tool metadata carries instructions to the model rather than a description'',
     builtin ''mcp:approve-tool-drift''
       ''Require re-approval when an MCP server's advertised tool inventory changes'' (Some Tool)
       (\<lambda>ctx. cx_plane ctx = Tool \<and> isMcpAction ctx \<and>
          (mcpMarker ctx ''mcpToolDrift'' \<or> hasFlowLabel ctx ManifestDrift))
       Approve High ''MCP server advertised a tool inventory that differs from the approved set'',
     builtin ''mcp:redact-input-secret'' ''Redact credential material found in outbound MCP tool arguments''
       (Some Tool)
       (\<lambda>ctx. cx_plane ctx = Tool \<and> isMcpAction ctx \<and>
          (mcpMarker ctx ''mcpInputSecret'' \<or> dl_containsSecrets (contentDlpScan sc ctx)))
       Redact High ''MCP tool arguments contain credential material that must not reach the server'',
     builtin ''mcp:deny-input-injection'' ''Deny MCP tool calls whose arguments carry injected instructions''
       (Some Tool)
       (\<lambda>ctx. cx_plane ctx = Tool \<and> isMcpAction ctx \<and> mcpMarker ctx ''mcpInputInjection'')
       Deny High ''MCP tool arguments carry injected instructions aimed at the server'',
     builtin ''mcp:deny-response-injection''
       ''Deny MCP tool output that carries injected instructions back to the agent'' (Some Content)
       (\<lambda>ctx. cx_plane ctx = Content \<and> isMcpAction ctx \<and> mcpMarker ctx ''mcpResponseInjection'' \<and>
          provenanceHasSource ctx ToolOutput)
       Deny Critical ''MCP tool output carries instructions aimed at the agent'',
     builtin ''mcp:redact-response-secret'' ''Redact credential material returned by an MCP server'' (Some Content)
       (\<lambda>ctx. cx_plane ctx = Content \<and> isMcpAction ctx \<and>
          (mcpMarker ctx ''mcpResponseSecret'' \<or> dl_containsSecrets (contentDlpScan sc ctx)))
       Redact High ''MCP tool output contains credential material and must be redacted before the agent reads it'']"

definition egressFleetRules :: "policy_rule list" where
  "egressFleetRules =
    [builtin ''net:deny-egress-not-allowlisted''
       ''Deny proxied egress to a host outside the configured allowlist in strict enforcement mode'' (Some Network)
       (\<lambda>ctx. cx_plane ctx = Network \<and> metadata_at ctx ''enforcementMode'' = Some ''strict'' \<and>
          metadata_at ctx ''egressAllowlisted'' = Some ''false'')
       Deny High ''Destination host is not in the configured egress allowlist'',
     builtin ''net:deny-egress-port-not-allowlisted''
       ''Deny proxied egress to a port outside the configured allowlist in strict enforcement mode'' (Some Network)
       (\<lambda>ctx. cx_plane ctx = Network \<and> metadata_at ctx ''enforcementMode'' = Some ''strict'' \<and>
          metadata_at ctx ''egressPortAllowlisted'' = Some ''false'')
       Deny High ''Destination port is not in the configured egress port allowlist'',
     builtin ''fleet:deny-undeclared-agent''
       ''Deny proxied egress that no declared fleet agent claims, when the fleet is closed'' (Some Network)
       (\<lambda>ctx. cx_plane ctx = Network \<and> metadata_at ctx ''fleetUnmatched'' = Some ''deny'' \<and>
          metadata_at ctx ''agentDeclared'' = Some ''false'' \<and> metadata_at ctx ''agentIdentityRefusal'' = None)
       Deny High ''No declared fleet agent claims this connection and the fleet is configured to refuse those'',
     builtin ''fleet:deny-refused-agent-identity''
       ''Deny proxied egress presenting a withdrawn fleet credential, or claiming an identity whose proof exists and was not shown''
       (Some Network)
       (\<lambda>ctx. cx_plane ctx = Network \<and> metadata_at ctx ''agentIdentityRefusal'' \<noteq> None \<and>
          metadata_at ctx ''agentIdentityOrigin'' \<noteq> Some ''operator-configuration'')
       Deny High ''The fleet identity this connection claimed was refused'',
     builtin ''fleet:deny-unconfigured-agent-identity''
       ''Deny proxied egress from an agent that cannot satisfy the fleet's configured minimum binding tier''
       (Some Network)
       (\<lambda>ctx. cx_plane ctx = Network \<and> metadata_at ctx ''agentIdentityOrigin'' = Some ''operator-configuration'')
       Deny Medium ''This agent cannot satisfy the fleet's configured minimum binding tier'',
     builtin ''fleet:deny-agent-budget-exhausted''
       ''Deny proxied egress from an agent that has spent its configured request or byte budget'' (Some Network)
       (\<lambda>ctx. cx_plane ctx = Network \<and> metadata_at ctx ''enforcementMode'' \<noteq> Some ''monitor'' \<and>
          metadata_at ctx ''agentBudgetExhausted'' = Some ''true'')
       Deny Medium ''Agent has spent its configured egress budget for the current window'']"

definition markerRules :: "policy_rule list" where
  "markerRules =
    [builtin ''governance:lockdown'' ''Deny any action attempted while the operator lockdown is engaged''
       (Some Governance)
       (\<lambda>ctx. metadata_at ctx ''lockdownActive'' = Some ''true'')
       Deny Critical ''Operator lockdown is engaged; all gated activity is stopped'',
     builtin ''identity:deny-decoy-triggered'' ''Deny any flow in which a planted decoy token was observed''
       (Some Identity)
       (\<lambda>ctx. cx_plane ctx = Identity \<and>
          (cx_action ctx = ''decoy:triggered'' \<or> metadata_at ctx ''decoyTriggered'' = Some ''true''))
       Deny Critical ''A decoy token that is never legitimately used appeared in inspected content'',
     builtin ''content:deny-spill-file-write''
       ''Deny credential material written to a filesystem path under spill watch'' (Some Content)
       (\<lambda>ctx. cx_plane ctx = Content \<and> cx_action ctx = ''spill:file-write'' \<and>
          truthy (metadata_at ctx ''secretTypes''))
       Deny High ''Credential material was written to a watched filesystem path'',
     builtin ''net:deny-proxy-request-secret''
       ''Deny a proxied plaintext HTTP request whose path, headers, or body carry credential material'' (Some Network)
       (\<lambda>ctx. cx_plane ctx = Network \<and> metadata_at ctx ''contentDirection'' = Some ''request'' \<and>
          truthy (metadata_at ctx ''contentSecretTypes''))
       Deny Critical ''Proxied request carries credential material out to the destination'',
     builtin ''net:deny-proxy-request-injection''
       ''Deny a proxied plaintext HTTP request carrying prompt-injection patterns'' (Some Network)
       (\<lambda>ctx. cx_plane ctx = Network \<and> metadata_at ctx ''contentDirection'' = Some ''request'' \<and>
          truthy (metadata_at ctx ''contentInjectionPatterns''))
       Deny High ''Proxied request carries injected instructions'',
     builtin ''net:deny-proxy-response-injection''
       ''Deny a proxied plaintext HTTP response carrying prompt-injection patterns'' (Some Network)
       (\<lambda>ctx. cx_plane ctx = Network \<and> metadata_at ctx ''contentDirection'' = Some ''response'' \<and>
          truthy (metadata_at ctx ''contentInjectionPatterns''))
       Deny High ''Proxied response carries injected instructions back to the agent'',
     builtin ''net:flag-proxy-response-secret''
       ''Record credential material observed in a proxied plaintext HTTP response body'' (Some Network)
       (\<lambda>ctx. cx_plane ctx = Network \<and> metadata_at ctx ''contentDirection'' = Some ''response'' \<and>
          truthy (metadata_at ctx ''contentSecretTypes''))
       Allow High ''Proxied response carries credential material into the agent's context'']"

definition builtinRules :: "scanners \<Rightarrow> policy_rule list" where
  "builtinRules sc = channelControlRules sc @ networkToolRules sc @ contentPlaneRules @ mcpRules sc
     @ egressFleetRules @ markerRules"

subsection \<open>Firing a built-in rule\<close>

lemma builtin_simps [simp]:
  "ru_id (builtin i desc pl m d r reason) = i"
  "ru_decision (builtin i desc pl m d r reason) = d"
  "ru_riskLevel (builtin i desc pl m d r reason) = r"
  "ru_reason (builtin i desc pl m d r reason) = reason"
  "fires ctx (builtin i desc pl m d r reason) = m ctx"
  by (simp_all add: builtin_def fires_def)

lemma critical_fired:
  assumes "r \<in> set rules" "fires ctx r" "ru_riskLevel r = Critical"
  shows "pr_riskLevel (evaluateAgainst rules d ctx) = Critical"
proof -
  have ne: "filter (fires ctx) rules \<noteq> []" using assms by (auto simp: filter_empty_conv)
  have "Max (ru_riskLevel ` fired ctx rules) = Critical"
    by (rule Max_eqI) (use assms in \<open>auto intro: rev_image_eqI\<close>)
  then show ?thesis by (simp add: strongest_risk [OF ne] bump_risk_def)
qed

lemma critical_deny_fired:
  "\<exists>r \<in> set rules. fires ctx r \<and> ru_decision r = Deny \<and> ru_riskLevel r = Critical \<Longrightarrow>
   pr_decision (evaluateAgainst rules d ctx) = Deny \<and> pr_riskLevel (evaluateAgainst rules d ctx) = Critical"
  using deny_fired critical_fired by blast

lemma set_builtinRules:
  "set (builtinRules sc) = set (channelControlRules sc) \<union> set (networkToolRules sc) \<union> set contentPlaneRules
     \<union> set (mcpRules sc) \<union> set egressFleetRules \<union> set markerRules"
  by (auto simp: builtinRules_def)

lemma external_plane_iff: "isExternalActionPlane ctx \<longleftrightarrow> cx_plane ctx \<noteq> Content"
  by (cases "cx_plane ctx") (simp_all add: isExternalActionPlane_def)

subsection \<open>Properties\<close>

definition no_dlp :: dlp_result where
  "no_dlp = \<lparr>dl_secretTypes = [], dl_piiTypes = [], dl_redactedText = None, dl_locations = []\<rparr>"

definition sample_scanners :: scanners where
  "sample_scanners = \<lparr>sc_scanText = (\<lambda>s. no_dlp), sc_parseUrl = (\<lambda>u. Some (sample_url u))\<rparr>"

text \<open>No two built-in rules share an id, and every rule of the MCP, egress, fleet, decoy, spill and
  lockdown groups names at least one detection in the catalog the audit trail draws from.\<close>

theorem builtin_rules_identified:
  "distinct (map ru_id (builtinRules sc))
   \<and> set (map ru_id (mcpRules sc @ egressFleetRules @ markerRules)) \<subseteq> set (map dm_ruleId detectionCatalog)"
proof
  show "distinct (map ru_id (builtinRules sc))"
    by (simp add: builtinRules_def channelControlRules_def networkToolRules_def contentPlaneRules_def mcpRules_def
        egressFleetRules_def markerRules_def)
  show "set (map ru_id (mcpRules sc @ egressFleetRules @ markerRules)) \<subseteq> set (map dm_ruleId detectionCatalog)"
    by (simp add: mcpRules_def egressFleetRules_def markerRules_def detectionCatalog_def detectionCatalog_1_def
        detectionCatalog_2_def detectionCatalog_3_def)
qed

text \<open>The control modes hold whatever else is configured: with the built-in rules installed, an agent
  in answer-only mode is denied every action outside the content plane, at critical risk, and an agent
  in read-only mode is denied every mutating tool action.\<close>

theorem execution_modes_enforced:
  assumes "set (builtinRules sc) \<subseteq> set rules"
    and "(executionMode ctx = AnswerOnly \<and> cx_plane ctx \<noteq> Content) \<or> (executionMode ctx = ReadOnly \<and> isMutatingToolAction ctx)"
  shows "pr_decision (evaluateAgainst rules d ctx) = Deny
       \<and> (executionMode ctx = AnswerOnly \<longrightarrow> pr_riskLevel (evaluateAgainst rules d ctx) = Critical)"
  using assms(2)
proof
  assume m: "executionMode ctx = AnswerOnly \<and> cx_plane ctx \<noteq> Content"
  have "\<exists>r \<in> set (channelControlRules sc). fires ctx r \<and> ru_decision r = Deny \<and> ru_riskLevel r = Critical"
    using m by (simp add: channelControlRules_def executionModeIs_def external_plane_iff)
  with assms set_builtinRules critical_deny_fired [of rules ctx d] show ?thesis by blast
next
  assume m: "executionMode ctx = ReadOnly \<and> isMutatingToolAction ctx"
  have "\<exists>r \<in> set (channelControlRules sc). fires ctx r \<and> ru_decision r = Deny"
    using m by (simp add: channelControlRules_def executionModeIs_def)
  with assms set_builtinRules deny_fired [of _ rules ctx d] m show ?thesis by force
qed

definition answer_only_ctx :: agent_context where
  "answer_only_ctx = sample_ctx\<lparr>cx_control := Some \<lparr>ct_executionMode = AnswerOnly, ct_reason = None, ct_enforcedBy = None\<rparr>\<rparr>"

theorem execution_modes_enforced_witness:
  "pr_decision (evaluateAgainst (sample_rule ''a'' Allow Low # builtinRules sample_scanners) Allow answer_only_ctx) = Deny"
proof -
  have "executionMode answer_only_ctx = AnswerOnly \<and> cx_plane answer_only_ctx \<noteq> Content"
    by (simp add: answer_only_ctx_def executionMode_def sample_ctx_def)
  then show ?thesis
    by (intro execution_modes_enforced [where sc = sample_scanners, THEN conjunct1] disjI1) (rule set_subset_Cons)
qed

text \<open>Server-side request forgery is stopped on the network plane: a URL in the payload whose host is
  private, however the rest of the rule set reads, is denied at critical risk.\<close>

theorem private_target_denied:
  assumes "set (builtinRules sc) \<subseteq> set rules" "cx_plane ctx = Network"
    and "extractHostFromPayload sc (cx_payload ctx) = Some host" "host \<noteq> []"
    and "isPrivateHostname host \<or> isPrivateIp host"
  shows "pr_decision (evaluateAgainst rules d ctx) = Deny \<and> pr_riskLevel (evaluateAgainst rules d ctx) = Critical"
proof -
  have "\<exists>r \<in> set (networkToolRules sc). fires ctx r \<and> ru_decision r = Deny \<and> ru_riskLevel r = Critical"
    using assms(2-) by (auto simp: networkToolRules_def)
  with assms(1) set_builtinRules critical_deny_fired [of rules ctx d] show ?thesis by blast
qed

theorem private_target_denied_witness:
  "pr_decision (evaluateAgainst (builtinRules sample_scanners) Allow
     (sample_ctx\<lparr>cx_payload := [(''url'', JStr ''127.0.0.1'')]\<rparr>)) = Deny"
proof -
  have "extractHostFromPayload sample_scanners [(''url'', JStr ''127.0.0.1'')] = Some ''127.0.0.1''" by code_simp
  moreover have "isPrivateIp ''127.0.0.1''" by code_simp
  ultimately show ?thesis
    by (intro private_target_denied [where sc = sample_scanners and host = "''127.0.0.1''", THEN conjunct1])
       (simp_all add: sample_ctx_def)
qed

text \<open>The lockdown marker overrides every plane, every rule and the default: a context carrying it is
  denied at critical risk.\<close>

theorem lockdown_marker_denies:
  assumes "set (builtinRules sc) \<subseteq> set rules" "metadata_at ctx ''lockdownActive'' = Some ''true''"
  shows "pr_decision (evaluateAgainst rules d ctx) = Deny \<and> pr_riskLevel (evaluateAgainst rules d ctx) = Critical
       \<and> ''governance:lockdown'' \<in> set (pr_matchedRules (evaluateAgainst rules d ctx))"
proof -
  have r: "\<exists>r \<in> set markerRules. ru_id r = ''governance:lockdown'' \<and> fires ctx r \<and> ru_decision r = Deny
      \<and> ru_riskLevel r = Critical"
    using assms(2) by (simp add: markerRules_def)
  with assms(1) set_builtinRules critical_deny_fired [of rules ctx d]
  have "pr_decision (evaluateAgainst rules d ctx) = Deny \<and> pr_riskLevel (evaluateAgainst rules d ctx) = Critical"
    by blast
  moreover have "''governance:lockdown'' \<in> ru_id ` fired ctx rules"
  proof -
    from r obtain rule where "rule \<in> set markerRules" "ru_id rule = ''governance:lockdown''" "fires ctx rule" by blast
    moreover from this assms(1) set_builtinRules have "rule \<in> set rules" by blast
    ultimately show ?thesis by (metis (mono_tags, lifting) image_eqI mem_Collect_eq)
  qed
  ultimately show ?thesis by simp
qed

definition locked_ctx :: agent_context where
  "locked_ctx = sample_ctx\<lparr>cx_plane := Content, cx_metadata := Some [(''lockdownActive'', ''true'')]\<rparr>"

theorem lockdown_marker_denies_witness:
  "pr_decision (evaluateAgainst (builtinRules sample_scanners) Allow locked_ctx) = Deny"
proof -
  have "metadata_at locked_ctx ''lockdownActive'' = Some ''true''"
    by (simp add: locked_ctx_def metadata_at_def omap_get_def)
  then show ?thesis by (rule lockdown_marker_denies [OF subset_refl, THEN conjunct1])
qed

end
