(* ===== verification/Policy_Loader.thy ===== *)
theory Policy_Loader
  imports Policy_Rules
begin

text \<open>
  Declarative rules: \<open>src/policy/loader.ts\<close> (the schema, the matcher a rule compiles to, the shape
  check, the reported scope, compilation) and \<open>src/policy/scoped-rules.ts\<close> (the catalog item a scoped
  rule is shown as). Parsing YAML into the schema's shape is the function \<open>parse\<close> of the model.
\<close>

subsection \<open>The schema\<close>

record action_match =
  am_equals :: "string list option"
  am_includes :: "string list option"

record payload_match =
  pm_includes :: "string list option"
  pm_hasKeys :: "string list option"

record flow_match =
  fm_direction :: "flow_direction option"
  fm_labels :: "flow_label list option"
  fm_highRisk :: "bool option"
  fm_crossesBoundary :: "bool option"

record provenance_match =
  vm_source :: "prov_source list option"
  vm_trustLabel :: "trust_label list option"

record actor_match =
  km_channelId :: "string list option"
  km_userId :: "string list option"
  km_roleId :: "string list option"

record subject_match =
  sm_agentId :: "string list option"
  sm_sessionId :: "string list option"

record control_match =
  cm_executionMode :: "execution_mode list option"

record rule_match =
  rm_hostnameEquals :: bool \<comment> \<open>\<open>type === "hostname-equals"\<close>, the one type there is\<close>
  rm_values :: "string list option"
  rm_action :: "action_match option"
  rm_payload :: "payload_match option"
  rm_flow :: "flow_match option"
  rm_provenance :: "provenance_match option"
  rm_actor :: "actor_match option"
  rm_subject :: "subject_match option"
  rm_control :: "control_match option"

record declarative_rule =
  dr_id :: string
  dr_description :: string
  dr_plane :: "plane option" \<comment> \<open>\<open>None\<close> is the plane \<open>all\<close>\<close>
  dr_match :: rule_match
  dr_decision :: decision
  dr_riskLevel :: risk_level
  dr_reason :: string
  dr_enabled :: "bool option"

record policy_file =
  pf_version :: "string option"
  pf_rules :: "declarative_rule list"

datatype policy_error =
    Unreadable
  | NotAPolicy
  | NoMatcher string
  | NoHostValues string
  | PrivateHosts string "string list"

definition has_matcher :: "rule_match \<Rightarrow> bool" where
  "has_matcher m = (rm_hostnameEquals m \<or> rm_action m \<noteq> None \<or> rm_payload m \<noteq> None \<or> rm_flow m \<noteq> None
     \<or> rm_provenance m \<noteq> None \<or> rm_actor m \<noteq> None \<or> rm_subject m \<noteq> None \<or> rm_control m \<noteq> None)"

subsection \<open>The matcher a rule compiles to\<close>

definition serializedPayload :: "(string \<times> json) list \<Rightarrow> string" where
  "serializedPayload payload = js_lower (json_stringify (JObj payload))"

definition payloadHasKeys :: "(string \<times> json) list \<Rightarrow> string list \<Rightarrow> bool" where
  "payloadHasKeys payload keys = list_ex (\<lambda>k. k \<in> set (omap_keys payload)) keys"

definition hostnameMatches :: "scanners \<Rightarrow> agent_context \<Rightarrow> string list \<Rightarrow> bool" where
  "hostnameMatches sc ctx vals =
     (case extractHostFromPayload sc (cx_payload ctx) of
        None \<Rightarrow> False
      | Some host \<Rightarrow> host \<noteq> [] \<and> list_ex (\<lambda>v. js_lower host = js_lower v) vals)"

text \<open>\<open>if (expected?.length && !ok(expected)) return false\<close>\<close>

definition unless_expected :: "'a list option \<Rightarrow> ('a list \<Rightarrow> bool) \<Rightarrow> bool" where
  "unless_expected expected ok = (case expected of None \<Rightarrow> True | Some xs \<Rightarrow> xs = [] \<or> ok xs)"

text \<open>\<open>expected.includes(actual)\<close> behind \<open>if (!actual) return false\<close>\<close>

definition truthy_in :: "string option \<Rightarrow> string list \<Rightarrow> bool" where
  "truthy_in actual expected = (case actual of None \<Rightarrow> False | Some a \<Rightarrow> a \<noteq> [] \<and> a \<in> set expected)"

definition list_or_none :: "('a \<Rightarrow> 'b list option) \<Rightarrow> 'a option \<Rightarrow> 'b list" where
  "list_or_none f x = (case x of None \<Rightarrow> [] | Some y \<Rightarrow> (case f y of None \<Rightarrow> [] | Some zs \<Rightarrow> zs))"

definition opt_bind :: "'a option \<Rightarrow> ('a \<Rightarrow> 'b option) \<Rightarrow> 'b option" where
  "opt_bind x f = (case x of None \<Rightarrow> None | Some y \<Rightarrow> f y)"

definition buildMatch :: "scanners \<Rightarrow> declarative_rule \<Rightarrow> agent_context \<Rightarrow> bool" where
  "buildMatch sc rule ctx =
    (let m = dr_match rule; action = js_lower (cx_action ctx) in
      (dr_plane rule = None \<or> dr_plane rule = Some (cx_plane ctx))
      \<and> (\<not> rm_hostnameEquals m \<or>
          (case rm_values m of None \<Rightarrow> False | Some vs \<Rightarrow> vs \<noteq> [] \<and> hostnameMatches sc ctx vs))
      \<and> unless_expected (opt_bind (rm_action m) am_equals) (\<lambda>vs. action \<in> set (map js_lower vs))
      \<and> unless_expected (opt_bind (rm_action m) am_includes)
          (\<lambda>vs. list_ex (\<lambda>v. js_includes action (js_lower v)) vs)
      \<and> unless_expected (opt_bind (rm_payload m) pm_includes)
          (\<lambda>vs. list_ex (\<lambda>v. js_includes (serializedPayload (cx_payload ctx)) (js_lower v)) vs)
      \<and> unless_expected (opt_bind (rm_payload m) pm_hasKeys) (payloadHasKeys (cx_payload ctx))
      \<and> (case opt_bind (rm_flow m) fm_direction of None \<Rightarrow> True | Some d \<Rightarrow> flow_direction_is ctx d)
      \<and> unless_expected (opt_bind (rm_flow m) fm_labels)
          (\<lambda>ls. list_all (\<lambda>l. l \<in> set (list_or_none fl_labels (cx_flow ctx))) ls)
      \<and> (case opt_bind (rm_flow m) fm_highRisk of None \<Rightarrow> True
          | Some b \<Rightarrow> opt_bind (cx_flow ctx) fl_highRisk = Some b)
      \<and> (case opt_bind (rm_flow m) fm_crossesBoundary of None \<Rightarrow> True
          | Some b \<Rightarrow> opt_bind (cx_flow ctx) fl_crossesBoundary = Some b)
      \<and> unless_expected (opt_bind (rm_provenance m) vm_source)
          (\<lambda>ss. list_ex (provenanceHasSource ctx) ss)
      \<and> unless_expected (opt_bind (rm_provenance m) vm_trustLabel)
          (\<lambda>ts. list_ex (provenanceHasTrust ctx) ts)
      \<and> unless_expected (opt_bind (rm_actor m) km_channelId) (truthy_in (opt_bind (cx_actor ctx) ac_channelId))
      \<and> unless_expected (opt_bind (rm_actor m) km_userId) (truthy_in (opt_bind (cx_actor ctx) ac_userId))
      \<and> unless_expected (opt_bind (rm_actor m) km_roleId)
          (list_ex (\<lambda>r. r \<in> set (list_or_none ac_roleIds (cx_actor ctx))))
      \<and> unless_expected (opt_bind (rm_subject m) sm_agentId) (\<lambda>ids. cx_agentId ctx \<in> set ids)
      \<and> unless_expected (opt_bind (rm_subject m) sm_sessionId) (truthy_in (cx_sessionId ctx))
      \<and> unless_expected (opt_bind (rm_control m) cm_executionMode) (\<lambda>ms. executionMode ctx \<in> set ms))"

subsection \<open>Shape check, scope and compilation\<close>

definition private_value :: "string \<Rightarrow> bool" where
  "private_value v = (isPrivateHostname (js_lower v) \<or> isPrivateIp (js_lower v))"

definition validateDeclarativeRuleShape :: "declarative_rule \<Rightarrow> policy_error option" where
  "validateDeclarativeRuleShape rule =
     (if rm_hostnameEquals (dr_match rule) then
        (case rm_values (dr_match rule) of
           None \<Rightarrow> Some (NoHostValues (dr_id rule))
         | Some [] \<Rightarrow> Some (NoHostValues (dr_id rule))
         | Some vs \<Rightarrow> (let bad = filter private_value vs in
             if bad \<noteq> [] then Some (PrivateHosts (dr_id rule) bad) else None))
      else None)"

definition buildRuleScope :: "declarative_rule \<Rightarrow> rule_scope option" where
  "buildRuleScope rule =
     (let m = dr_match rule;
          actor = \<lparr>rs_channelIds = opt_bind (rm_actor m) km_channelId, rs_userIds = opt_bind (rm_actor m) km_userId,
                   rs_roleIds = opt_bind (rm_actor m) km_roleId\<rparr>;
          subject = \<lparr>rs_agentIds = opt_bind (rm_subject m) sm_agentId,
                     rs_sessionIds = opt_bind (rm_subject m) sm_sessionId\<rparr>;
          modes = opt_bind (rm_control m) cm_executionMode;
          scope_actor = (if some_nonempty (rs_channelIds actor) \<or> some_nonempty (rs_userIds actor)
                            \<or> some_nonempty (rs_roleIds actor) then Some actor else None);
          scope_subject = (if some_nonempty (rs_agentIds subject) \<or> some_nonempty (rs_sessionIds subject)
                           then Some subject else None);
          scope_control = (if some_nonempty modes then modes else None)
      in if scope_actor \<noteq> None \<or> scope_subject \<noteq> None \<or> scope_control \<noteq> None
         then Some \<lparr>rs_actor = scope_actor, rs_subject = scope_subject, rs_executionModes = scope_control\<rparr>
         else None)"

fun first_error :: "('a \<Rightarrow> policy_error option) \<Rightarrow> 'a list \<Rightarrow> policy_error option" where
  "first_error f [] = None"
| "first_error f (x # xs) = (case f x of Some e \<Rightarrow> Some e | None \<Rightarrow> first_error f xs)"

text \<open>The refinement \<open>PolicyFileSchema.parse\<close> applies to every rule.\<close>

definition schema_refine :: "declarative_rule \<Rightarrow> policy_error option" where
  "schema_refine rule = (if has_matcher (dr_match rule) then None else Some (NoMatcher (dr_id rule)))"

definition validatePolicyFile :: "policy_file \<Rightarrow> policy_error + policy_file" where
  "validatePolicyFile file =
     (case first_error schema_refine (pf_rules file) of
        Some e \<Rightarrow> Inl e
      | None \<Rightarrow> (case first_error validateDeclarativeRuleShape (pf_rules file) of
                   Some e \<Rightarrow> Inl e | None \<Rightarrow> Inr file))"

definition parseDeclarativePolicyFile :: "(string \<Rightarrow> policy_file option) \<Rightarrow> string \<Rightarrow> policy_error + policy_file" where
  "parseDeclarativePolicyFile parse raw =
     (case parse raw of None \<Rightarrow> Inl NotAPolicy | Some file \<Rightarrow> validatePolicyFile file)"

definition compileRule :: "scanners \<Rightarrow> declarative_rule \<Rightarrow> policy_rule" where
  "compileRule sc rule =
     \<lparr>ru_id = dr_id rule, ru_description = dr_description rule, ru_plane = dr_plane rule,
      ru_match = (\<lambda>ctx. Some (buildMatch sc rule ctx)), ru_decision = dr_decision rule,
      ru_riskLevel = dr_riskLevel rule, ru_reason = dr_reason rule, ru_scope = buildRuleScope rule\<rparr>"

definition compileDeclarativePolicyRules :: "scanners \<Rightarrow> policy_file \<Rightarrow> policy_error + policy_rule list" where
  "compileDeclarativePolicyRules sc file =
     (let live = filter (\<lambda>r. dr_enabled r \<noteq> Some False) (pf_rules file) in
      case first_error validateDeclarativeRuleShape live of
        Some e \<Rightarrow> Inl e | None \<Rightarrow> Inr (map (compileRule sc) live))"

subsection \<open>The catalog item of a scoped rule\<close>

record catalog_item =
  ci_id :: string
  ci_description :: string
  ci_plane :: "plane option"
  ci_decision :: decision
  ci_riskLevel :: risk_level
  ci_reason :: string
  ci_enabled :: bool
  ci_scopeSummary :: string
  ci_actionSummary :: string
  ci_actorChannelIds :: "string list"
  ci_actorUserIds :: "string list"
  ci_actorRoleIds :: "string list"
  ci_subjectAgentIds :: "string list"
  ci_subjectSessionIds :: "string list"
  ci_executionModes :: "execution_mode list"
  ci_actionIncludes :: "string list"
  ci_actionEquals :: "string list"

definition listOrEmpty :: "string list option \<Rightarrow> string list" where
  "listOrEmpty values = (case values of None \<Rightarrow> [] | Some vs \<Rightarrow> filter (\<lambda>v. v \<noteq> []) vs)"

fun mode_str :: "execution_mode \<Rightarrow> string" where
  "mode_str NormalMode = ''normal''"
| "mode_str ReadOnly = ''read_only''"
| "mode_str AnswerOnly = ''answer_only''"

definition segment :: "string \<Rightarrow> string list option \<Rightarrow> string list" where
  "segment label values = (case values of None \<Rightarrow> [] | Some [] \<Rightarrow> [] | Some vs \<Rightarrow> [label @ js_join '', '' vs])"

definition summarizeScope :: "declarative_rule \<Rightarrow> string" where
  "summarizeScope rule =
     (let scope = buildRuleScope rule;
          actor = opt_bind scope rs_actor;
          subject = opt_bind scope rs_subject;
          segments =
            segment [] (opt_bind subject rs_agentIds)
            @ segment ''in '' (opt_bind actor rs_channelIds)
            @ segment ''roles '' (opt_bind actor rs_roleIds)
            @ segment ''mode '' (map_option (map mode_str) (opt_bind scope rs_executionModes))
            @ segment ''sessions '' (opt_bind subject rs_sessionIds)
            @ segment ''users '' (opt_bind actor rs_userIds)
      in if segments \<noteq> [] then js_join [CHR '' '', CHR 0xB7, CHR '' ''] segments else ''Scoped guardrail'')"

definition summarizeActions :: "declarative_rule \<Rightarrow> string" where
  "summarizeActions rule =
     (let includes = listOrEmpty (opt_bind (rm_action (dr_match rule)) am_includes);
          equals = listOrEmpty (opt_bind (rm_action (dr_match rule)) am_equals)
      in if includes \<noteq> [] then ''Action contains '' @ js_join '', '' includes
         else if equals \<noteq> [] then ''Action equals '' @ js_join '', '' equals
         else (case dr_plane rule of None \<Rightarrow> ''all'' | Some p \<Rightarrow> plane_str p) @ '' plane scoped rule'')"

definition isScopedDeclarativeRule :: "declarative_rule \<Rightarrow> bool" where
  "isScopedDeclarativeRule rule =
     (let m = dr_match rule in rm_actor m \<noteq> None \<or> rm_subject m \<noteq> None \<or> rm_control m \<noteq> None)"

definition buildScopedRuleCatalogItem :: "declarative_rule \<Rightarrow> catalog_item" where
  "buildScopedRuleCatalogItem rule =
     (let m = dr_match rule in
      \<lparr>ci_id = dr_id rule, ci_description = dr_description rule, ci_plane = dr_plane rule,
       ci_decision = dr_decision rule, ci_riskLevel = dr_riskLevel rule, ci_reason = dr_reason rule,
       ci_enabled = (dr_enabled rule \<noteq> Some False),
       ci_scopeSummary = summarizeScope rule, ci_actionSummary = summarizeActions rule,
       ci_actorChannelIds = listOrEmpty (opt_bind (rm_actor m) km_channelId),
       ci_actorUserIds = listOrEmpty (opt_bind (rm_actor m) km_userId),
       ci_actorRoleIds = listOrEmpty (opt_bind (rm_actor m) km_roleId),
       ci_subjectAgentIds = listOrEmpty (opt_bind (rm_subject m) sm_agentId),
       ci_subjectSessionIds = listOrEmpty (opt_bind (rm_subject m) sm_sessionId),
       ci_executionModes = (case opt_bind (rm_control m) cm_executionMode of None \<Rightarrow> [] | Some ms \<Rightarrow> ms),
       ci_actionIncludes = listOrEmpty (opt_bind (rm_action m) am_includes),
       ci_actionEquals = listOrEmpty (opt_bind (rm_action m) am_equals)\<rparr>)"

subsection \<open>Lemmas\<close>

lemma first_error_None: "first_error f xs = None \<longleftrightarrow> (\<forall>x \<in> set xs. f x = None)"
  by (induction f xs rule: first_error.induct) (auto split: option.split)

lemma opt_bind_simps [simp]: "opt_bind None f = None" "opt_bind (Some y) f = f y"
  by (simp_all add: opt_bind_def)

lemma opt_bind_Some: "opt_bind x f = Some z \<longleftrightarrow> (\<exists>y. x = Some y \<and> f y = Some z)"
  by (cases x) simp_all

lemma unless_expected_simps [simp]: "unless_expected None ok" "unless_expected (Some xs) ok \<longleftrightarrow> xs = [] \<or> ok xs"
  by (simp_all add: unless_expected_def)

lemma some_nonempty_simps [simp]: "\<not> some_nonempty None" "some_nonempty (Some xs) \<longleftrightarrow> xs \<noteq> []"
  by (simp_all add: some_nonempty_def)

lemma js_space_lower [simp]: "js_space (lower_char c) = js_space c"
proof -
  have "list_all (\<lambda>c. \<not> js_space c) lower_chars" "list_all (\<lambda>c. \<not> js_space c) upper_chars"
    by (simp_all add: lower_chars_def upper_chars_def js_space_def)
  then show ?thesis
    using lower_char_table [of c] lower_char_fixed [of c] by (auto simp: list_all_iff)
qed

lemma js_trim_lower: "js_lower (js_trim (js_lower s)) = js_lower (js_trim s)"
  by (simp add: js_trim_def js_lower_def dropWhile_map rev_map comp_def)

lemma normalizeHostname_lower [simp]: "normalizeHostname (js_lower h) = normalizeHostname h"
  by (simp add: normalizeHostname_def js_trim_lower)

lemma private_value_iff: "private_value v \<longleftrightarrow> isPrivateHostname v \<or> isPrivateIp v"
  by (simp add: private_value_def isPrivateHostname_def isPrivateIp_def)

lemma private_value_lower_cong: "js_lower v = js_lower w \<Longrightarrow> private_value v = private_value w"
  by (simp add: private_value_def)

lemma validate_None:
  "validateDeclarativeRuleShape rule = None \<longleftrightarrow>
     (rm_hostnameEquals (dr_match rule) \<longrightarrow>
        (\<exists>vs. rm_values (dr_match rule) = Some vs \<and> vs \<noteq> [] \<and> (\<forall>v \<in> set vs. \<not> private_value v)))"
  by (auto simp: validateDeclarativeRuleShape_def Let_def filter_empty_conv split: option.split list.split)

lemma compile_Inr:
  "compileDeclarativePolicyRules sc file = Inr rules \<longleftrightarrow>
     rules = map (compileRule sc) (filter (\<lambda>r. dr_enabled r \<noteq> Some False) (pf_rules file))
     \<and> (\<forall>r \<in> set (pf_rules file). dr_enabled r \<noteq> Some False \<longrightarrow> validateDeclarativeRuleShape r = None)"
proof (cases "first_error validateDeclarativeRuleShape (filter (\<lambda>r. dr_enabled r \<noteq> Some False) (pf_rules file))")
  case None
  then have "\<forall>r \<in> set (pf_rules file). dr_enabled r \<noteq> Some False \<longrightarrow> validateDeclarativeRuleShape r = None"
    by (simp add: first_error_None)
  with None show ?thesis by (auto simp: compileDeclarativePolicyRules_def)
next
  case (Some e)
  then have "\<not> (\<forall>r \<in> set (pf_rules file). dr_enabled r \<noteq> Some False \<longrightarrow> validateDeclarativeRuleShape r = None)"
    using first_error_None [of validateDeclarativeRuleShape "filter (\<lambda>r. dr_enabled r \<noteq> Some False) (pf_rules file)"]
    by auto
  with Some show ?thesis by (simp add: compileDeclarativePolicyRules_def)
qed

lemma schema_refine_None [simp]: "schema_refine rule = None \<longleftrightarrow> has_matcher (dr_match rule)"
  by (simp add: schema_refine_def)

lemma validatePolicyFile_Inr:
  "validatePolicyFile file = Inr f \<longleftrightarrow> f = file
     \<and> (\<forall>r \<in> set (pf_rules file). has_matcher (dr_match r))
     \<and> (\<forall>r \<in> set (pf_rules file). validateDeclarativeRuleShape r = None)"
proof -
  have "validatePolicyFile file = Inr f \<longleftrightarrow> f = file \<and> first_error schema_refine (pf_rules file) = None
      \<and> first_error validateDeclarativeRuleShape (pf_rules file) = None"
    by (auto simp: validatePolicyFile_def split: option.split)
  then show ?thesis by (simp add: first_error_None)
qed

text \<open>The scope a compiled rule reports, read as a condition on the context.\<close>

definition in_scope :: "rule_scope option \<Rightarrow> agent_context \<Rightarrow> bool" where
  "in_scope scope ctx = (case scope of None \<Rightarrow> True | Some s \<Rightarrow>
     (case rs_actor s of None \<Rightarrow> True | Some a \<Rightarrow>
        unless_expected (rs_channelIds a) (truthy_in (opt_bind (cx_actor ctx) ac_channelId))
        \<and> unless_expected (rs_userIds a) (truthy_in (opt_bind (cx_actor ctx) ac_userId))
        \<and> unless_expected (rs_roleIds a) (list_ex (\<lambda>r. r \<in> set (list_or_none ac_roleIds (cx_actor ctx)))))
     \<and> (case rs_subject s of None \<Rightarrow> True | Some a \<Rightarrow>
        unless_expected (rs_agentIds a) (\<lambda>ids. cx_agentId ctx \<in> set ids)
        \<and> unless_expected (rs_sessionIds a) (truthy_in (cx_sessionId ctx)))
     \<and> unless_expected (rs_executionModes s) (\<lambda>ms. executionMode ctx \<in> set ms))"

lemma unless_expected_empty: "\<not> some_nonempty xs \<Longrightarrow> unless_expected xs ok"
  by (auto simp: some_nonempty_def unless_expected_def split: option.splits)

lemma in_scope_buildRuleScope:
  "in_scope (buildRuleScope rule) ctx \<longleftrightarrow>
    (let m = dr_match rule in
     unless_expected (opt_bind (rm_actor m) km_channelId) (truthy_in (opt_bind (cx_actor ctx) ac_channelId))
      \<and> unless_expected (opt_bind (rm_actor m) km_userId) (truthy_in (opt_bind (cx_actor ctx) ac_userId))
      \<and> unless_expected (opt_bind (rm_actor m) km_roleId)
          (list_ex (\<lambda>r. r \<in> set (list_or_none ac_roleIds (cx_actor ctx))))
      \<and> unless_expected (opt_bind (rm_subject m) sm_agentId) (\<lambda>ids. cx_agentId ctx \<in> set ids)
      \<and> unless_expected (opt_bind (rm_subject m) sm_sessionId) (truthy_in (cx_sessionId ctx))
      \<and> unless_expected (opt_bind (rm_control m) cm_executionMode) (\<lambda>ms. executionMode ctx \<in> set ms))"
  unfolding in_scope_def buildRuleScope_def Let_def
  by (simp add: unless_expected_empty)

lemma fires_compileRule [simp]: "fires ctx (compileRule sc rule) \<longleftrightarrow> buildMatch sc rule ctx"
  by (simp add: fires_def compileRule_def)

definition unscoped :: "declarative_rule \<Rightarrow> declarative_rule" where
  "unscoped rule = rule\<lparr>dr_match := (dr_match rule)\<lparr>rm_actor := None, rm_subject := None, rm_control := None\<rparr>\<rparr>"

lemma buildMatch_scope:
  "buildMatch sc rule ctx \<longleftrightarrow> buildMatch sc (unscoped rule) ctx \<and> in_scope (buildRuleScope rule) ctx"
  unfolding in_scope_buildRuleScope buildMatch_def unscoped_def Let_def by auto

lemma hostname_rule_host:
  assumes "validateDeclarativeRuleShape rule = None" "rm_hostnameEquals (dr_match rule)" "buildMatch sc rule ctx"
  shows "\<exists>host. extractHostFromPayload sc (cx_payload ctx) = Some host \<and> \<not> private_value host"
proof -
  from assms(1,2) obtain vs where vs: "rm_values (dr_match rule) = Some vs" "\<forall>v \<in> set vs. \<not> private_value v"
    by (auto simp: validate_None)
  with assms(2,3) have "hostnameMatches sc ctx vs" by (simp add: buildMatch_def Let_def)
  then obtain host v where "extractHostFromPayload sc (cx_payload ctx) = Some host" "v \<in> set vs" "js_lower host = js_lower v"
    by (auto simp: hostnameMatches_def list_ex_iff split: option.splits)
  with vs(2) private_value_lower_cong show ?thesis by blast
qed

subsection \<open>Properties\<close>

definition no_match :: rule_match where
  "no_match = \<lparr>rm_hostnameEquals = False, rm_values = None, rm_action = None, rm_payload = None, rm_flow = None,
     rm_provenance = None, rm_actor = None, rm_subject = None, rm_control = None\<rparr>"

definition allow_host_rule :: "string \<Rightarrow> declarative_rule" where
  "allow_host_rule h = \<lparr>dr_id = ''custom:allow'', dr_description = [], dr_plane = Some Network,
     dr_match = no_match\<lparr>rm_hostnameEquals := True, rm_values := Some [h]\<rparr>, dr_decision = Allow, dr_riskLevel = Low,
     dr_reason = [], dr_enabled = None\<rparr>"

text \<open>C34: a hostname rule an operator loads can only ever fire for a public host: if the file compiles and
  an enabled hostname rule of it fires, the request's host is neither a private hostname nor a private address,
  whatever case or form the rule's value was written in.\<close>

theorem hostname_rules_never_reach_private_hosts:
  assumes "compileDeclarativePolicyRules sc file = Inr rules" "rule \<in> set (pf_rules file)"
    and "dr_enabled rule \<noteq> Some False" "rm_hostnameEquals (dr_match rule)" "fires ctx (compileRule sc rule)"
  shows "\<exists>host. extractHostFromPayload sc (cx_payload ctx) = Some host
       \<and> \<not> isPrivateHostname host \<and> \<not> isPrivateIp host"
proof -
  from assms(1-3) have "validateDeclarativeRuleShape rule = None" by (simp add: compile_Inr)
  from hostname_rule_host [OF this assms(4)] assms(5) show ?thesis by (simp add: private_value_iff)
qed

theorem hostname_rules_never_reach_private_hosts_witness: "\<not> isPrivateIp ''a.io''"
proof -
  let ?file = "\<lparr>pf_version = None, pf_rules = [allow_host_rule ''A.io'']\<rparr>"
  let ?ctx = "sample_ctx\<lparr>cx_payload := [(''url'', JStr ''a.io'')]\<rparr>"
  have pub: "\<not> private_value ''A.io''" by code_simp
  have c: "compileDeclarativePolicyRules sample_scanners ?file = Inr [compileRule sample_scanners (allow_host_rule ''A.io'')]"
    using pub by (simp add: compile_Inr validate_None) (simp add: allow_host_rule_def)
  have x: "extractHostFromPayload sample_scanners (cx_payload ?ctx) = Some ''a.io''" by code_simp
  have l: "js_lower ''a.io'' = js_lower ''A.io''" by code_simp
  have m: "fires ?ctx (compileRule sample_scanners (allow_host_rule ''A.io''))"
    using x l by (simp add: buildMatch_def Let_def allow_host_rule_def no_match_def hostnameMatches_def sample_ctx_def)
  from hostname_rules_never_reach_private_hosts [OF c, of "allow_host_rule ''A.io''" ?ctx] x m show ?thesis
    by (simp add: allow_host_rule_def)
qed

text \<open>The scope a compiled rule reports is the scope it enforces: it fires exactly when the context is
  in the reported scope and the rule without its actor, subject and control matchers fires.\<close>

theorem reported_scope_is_enforced:
  "fires ctx (compileRule sc rule) \<longleftrightarrow>
   in_scope (ru_scope (compileRule sc rule)) ctx \<and> fires ctx (compileRule sc (unscoped rule))"
  using buildMatch_scope [of sc rule ctx] by (auto simp: compileRule_def fires_def)

end
