(* ===== verification/Policy_Runtime.thy ===== *)
theory Policy_Runtime
  imports Policy_Loader
begin

text \<open>
  \<open>FileBackedPolicyRuntime\<close> of \<open>src/policy/runtime.ts\<close>: the declarative policy in force, reloads of
  the file behind it, rule upserts and the debounced watcher. The file's bytes are the argument
  \<open>disk\<close> (\<open>None\<close> when it cannot be read); the YAML reader and writer and SHA-256 are the fields of
  \<open>runtime_env\<close>.
\<close>

subsection \<open>State\<close>

record runtime_env =
  re_scanners :: scanners
  re_parse :: "string \<Rightarrow> policy_file option"
  re_dump :: "policy_file \<Rightarrow> string"
  re_sha256 :: "string \<Rightarrow> string"
  re_watch :: bool

record policy_runtime =
  rt_rules :: "policy_rule list"
  rt_file :: policy_file
  rt_hash :: string
  rt_watching :: bool
  rt_timer :: bool

record reload_result =
  rr_reloaded :: bool
  rr_rules :: "policy_rule list"
  rr_definitions :: "declarative_rule list"
  rr_hash :: string
  rr_error :: "policy_error option"

definition NO_POLICY_FILE_HASH :: string where
  "NO_POLICY_FILE_HASH = ''absent''"

definition defaultPolicyFile :: policy_file where
  "defaultPolicyFile = \<lparr>pf_version = Some ''1'', pf_rules = []\<rparr>"

subsection \<open>Operations\<close>

definition loadPolicy :: "runtime_env \<Rightarrow> string \<Rightarrow> policy_error + policy_file \<times> policy_rule list" where
  "loadPolicy env raw =
     (case parseDeclarativePolicyFile (re_parse env) raw of
        Inl e \<Rightarrow> Inl e
      | Inr file \<Rightarrow> (case compileDeclarativePolicyRules (re_scanners env) file of
                      Inl e \<Rightarrow> Inl e | Inr rules \<Rightarrow> Inr (file, rules)))"

definition newRuntime :: "runtime_env \<Rightarrow> string option \<Rightarrow> policy_error + policy_runtime" where
  "newRuntime env disk =
     (case disk of
        None \<Rightarrow> Inl Unreadable
      | Some raw \<Rightarrow> (case loadPolicy env raw of
          Inl e \<Rightarrow> Inl e
        | Inr (file, rules) \<Rightarrow> Inr \<lparr>rt_rules = rules, rt_file = file, rt_hash = re_sha256 env raw,
                                    rt_watching = False, rt_timer = False\<rparr>))"

definition refused :: "policy_runtime \<Rightarrow> string \<Rightarrow> policy_error \<Rightarrow> reload_result" where
  "refused rt hash e = \<lparr>rr_reloaded = False, rr_rules = rt_rules rt, rr_definitions = pf_rules (rt_file rt),
     rr_hash = hash, rr_error = Some e\<rparr>"

definition reload :: "runtime_env \<Rightarrow> string option \<Rightarrow> policy_runtime \<Rightarrow> policy_runtime \<times> reload_result" where
  "reload env disk rt =
     (case disk of
        None \<Rightarrow> (rt, refused rt NO_POLICY_FILE_HASH Unreadable)
      | Some raw \<Rightarrow>
          (let hash = re_sha256 env raw in
           case loadPolicy env raw of
             Inl e \<Rightarrow> (rt, refused rt hash e)
           | Inr (file, rules) \<Rightarrow>
               (rt\<lparr>rt_file := file, rt_rules := rules, rt_hash := hash\<rparr>,
                \<lparr>rr_reloaded = True, rr_rules = rules, rr_definitions = pf_rules file, rr_hash = hash,
                 rr_error = None\<rparr>)))"

fun replace_or_push :: "declarative_rule \<Rightarrow> declarative_rule list \<Rightarrow> declarative_rule list" where
  "replace_or_push rule [] = [rule]"
| "replace_or_push rule (item # items) =
     (if dr_id item = dr_id rule then rule # items else item # replace_or_push rule items)"

definition upserted :: "declarative_rule \<Rightarrow> policy_file \<Rightarrow> policy_file" where
  "upserted rule current =
     \<lparr>pf_version = Some (case pf_version current of None \<Rightarrow> ''1'' | Some v \<Rightarrow> v),
      pf_rules = replace_or_push rule (pf_rules current)\<rparr>"

definition writeDeclarativePolicyFile :: "runtime_env \<Rightarrow> policy_file \<Rightarrow> policy_error + string" where
  "writeDeclarativePolicyFile env file =
     (case validatePolicyFile file of Inl e \<Rightarrow> Inl e | Inr f \<Rightarrow> Inr (re_dump env f))"

definition currentPolicy :: "runtime_env \<Rightarrow> string option \<Rightarrow> policy_error + policy_file" where
  "currentPolicy env disk =
     (case disk of None \<Rightarrow> Inr defaultPolicyFile | Some raw \<Rightarrow> parseDeclarativePolicyFile (re_parse env) raw)"

definition upsertDeclarativeRule ::
  "runtime_env \<Rightarrow> declarative_rule \<Rightarrow> string option \<Rightarrow> policy_runtime
     \<Rightarrow> string option \<times> policy_runtime \<times> reload_result" where
  "upsertDeclarativeRule env rule disk rt =
     (case currentPolicy env disk of
        Inl e \<Rightarrow> (disk, rt, refused rt (rt_hash rt) e)
      | Inr current \<Rightarrow>
          (case writeDeclarativePolicyFile env (upserted rule current) of
             Inl e \<Rightarrow> (disk, rt, refused rt (rt_hash rt) e)
           | Inr written \<Rightarrow> (Some written, reload env (Some written) rt)))"

definition start_watch :: "runtime_env \<Rightarrow> policy_runtime \<Rightarrow> policy_runtime" where
  "start_watch env rt = (if \<not> re_watch env \<or> rt_watching rt then rt else rt\<lparr>rt_watching := True\<rparr>)"

definition file_event :: "policy_runtime \<Rightarrow> policy_runtime" where \<comment> \<open>re-arms the debounce timer\<close>
  "file_event rt = (if rt_watching rt then rt\<lparr>rt_timer := True\<rparr> else rt)"

definition timer_fires :: "runtime_env \<Rightarrow> string option \<Rightarrow> policy_runtime \<Rightarrow> policy_runtime" where
  "timer_fires env disk rt = (if rt_timer rt then fst (reload env disk (rt\<lparr>rt_timer := False\<rparr>)) else rt)"

definition stop_watch :: "policy_runtime \<Rightarrow> policy_runtime" where
  "stop_watch rt = rt\<lparr>rt_timer := False, rt_watching := False\<rparr>"

subsection \<open>Runs\<close>

text \<open>The states a runtime can be in, beside a file anyone may rewrite at any time.\<close>

inductive runtime_run :: "runtime_env \<Rightarrow> string option \<Rightarrow> policy_runtime \<Rightarrow> bool" for env where
  boot: "newRuntime env disk = Inr rt \<Longrightarrow> runtime_run env disk rt"
| edit: "runtime_run env disk rt \<Longrightarrow> runtime_run env disk' rt"
| reload: "runtime_run env disk rt \<Longrightarrow> runtime_run env disk (fst (reload env disk rt))"
| upsert: "runtime_run env disk rt \<Longrightarrow> upsertDeclarativeRule env rule disk rt = (disk', rt', res)
     \<Longrightarrow> runtime_run env disk' rt'"
| start: "runtime_run env disk rt \<Longrightarrow> runtime_run env disk (start_watch env rt)"
| event: "runtime_run env disk rt \<Longrightarrow> runtime_run env disk (file_event rt)"
| timer: "runtime_run env disk rt \<Longrightarrow> runtime_run env disk (timer_fires env disk rt)"
| stop: "runtime_run env disk rt \<Longrightarrow> runtime_run env disk (stop_watch rt)"

inductive_cases runtime_runE: "runtime_run env disk rt"

text \<open>Rules, declarative view and hash all come from one read of one valid file.\<close>

definition runtime_ok :: "runtime_env \<Rightarrow> policy_runtime \<Rightarrow> bool" where
  "runtime_ok env rt \<longleftrightarrow>
     (\<exists>raw. loadPolicy env raw = Inr (rt_file rt, rt_rules rt) \<and> rt_hash rt = re_sha256 env raw)"

lemma runtime_ok_newRuntime: "newRuntime env disk = Inr rt \<Longrightarrow> runtime_ok env rt"
  by (auto simp: newRuntime_def runtime_ok_def split: option.splits sum.splits prod.splits)

lemma runtime_ok_reload: "runtime_ok env rt \<Longrightarrow> runtime_ok env (fst (reload env disk rt))"
  by (auto simp: reload_def runtime_ok_def Let_def split: option.splits sum.splits prod.splits)

lemma runtime_ok_flags [simp]:
  "runtime_ok env (rt\<lparr>rt_timer := b\<rparr>) = runtime_ok env rt"
  "runtime_ok env (rt\<lparr>rt_watching := b\<rparr>) = runtime_ok env rt"
  by (simp_all add: runtime_ok_def)

lemma runtime_ok_upsert:
  "runtime_ok env rt \<Longrightarrow> upsertDeclarativeRule env rule disk rt = (disk', rt', res) \<Longrightarrow> runtime_ok env rt'"
  using runtime_ok_reload [of env rt disk']
  by (auto simp: upsertDeclarativeRule_def split: sum.splits)

lemma runtime_ok_run: "runtime_run env disk rt \<Longrightarrow> runtime_ok env rt"
  by (induction rule: runtime_run.induct)
    (auto simp: runtime_ok_newRuntime runtime_ok_reload runtime_ok_upsert start_watch_def file_event_def
      timer_fires_def stop_watch_def)

lemma compile_valid:
  "validatePolicyFile file = Inr file \<Longrightarrow> compileDeclarativePolicyRules sc file =
     Inr (map (compileRule sc) (filter (\<lambda>r. dr_enabled r \<noteq> Some False) (pf_rules file)))"
  unfolding compile_Inr validatePolicyFile_Inr by simp

lemma loadPolicy_Inr:
  "loadPolicy env raw = Inr (file, rules) \<longleftrightarrow>
     re_parse env raw = Some file \<and> validatePolicyFile file = Inr file
     \<and> rules = map (compileRule (re_scanners env)) (filter (\<lambda>r. dr_enabled r \<noteq> Some False) (pf_rules file))"
proof (cases "re_parse env raw")
  case (Some f)
  show ?thesis
  proof (cases "validatePolicyFile f")
    case (Inr f')
    then have "f' = f" by (simp add: validatePolicyFile_Inr)
    with Inr Some compile_valid [of f "re_scanners env"] show ?thesis
      by (auto simp: loadPolicy_def parseDeclarativePolicyFile_def)
  qed (use Some in \<open>auto simp: loadPolicy_def parseDeclarativePolicyFile_def\<close>)
qed (simp add: loadPolicy_def parseDeclarativePolicyFile_def)

lemma reload_refused: "\<not> rr_reloaded (snd (reload env disk rt)) \<Longrightarrow> fst (reload env disk rt) = rt"
  by (auto simp: reload_def Let_def split: option.splits sum.splits)

lemma filter_replace_or_push:
  "filter (\<lambda>r. dr_id r \<noteq> dr_id rule) (replace_or_push rule rules) = filter (\<lambda>r. dr_id r \<noteq> dr_id rule) rules"
  by (induction rule rules rule: replace_or_push.induct) auto

lemma replace_or_push_mem [simp]: "rule \<in> set (replace_or_push rule rules)"
  by (induction rule rules rule: replace_or_push.induct) auto

lemma ids_replace_or_push:
  "map dr_id (replace_or_push rule rules) =
     (if dr_id rule \<in> dr_id ` set rules then map dr_id rules else map dr_id rules @ [dr_id rule])"
  by (induction rule rules rule: replace_or_push.induct) auto

lemma upsert_accepted:
  assumes "currentPolicy env disk = Inr current" "validatePolicyFile (upserted rule current) = Inr (upserted rule current)"
    and "re_parse env (re_dump env (upserted rule current)) = Some (upserted rule current)"
  shows "upsertDeclarativeRule env rule disk rt =
    (let file = upserted rule current; raw = re_dump env file;
         rules = map (compileRule (re_scanners env)) (filter (\<lambda>r. dr_enabled r \<noteq> Some False) (pf_rules file)) in
     (Some raw, rt\<lparr>rt_file := file, rt_rules := rules, rt_hash := re_sha256 env raw\<rparr>,
      \<lparr>rr_reloaded = True, rr_rules = rules, rr_definitions = pf_rules file, rr_hash = re_sha256 env raw,
       rr_error = None\<rparr>))"
proof -
  have l: "loadPolicy env (re_dump env (upserted rule current)) = Inr (upserted rule current,
      map (compileRule (re_scanners env)) (filter (\<lambda>r. dr_enabled r \<noteq> Some False) (pf_rules (upserted rule current))))"
    using assms(2,3) by (simp add: loadPolicy_Inr)
  show ?thesis
    by (simp add: upsertDeclarativeRule_def writeDeclarativePolicyFile_def reload_def assms(1,2) l Let_def)
qed

lemma upsert_rejected:
  "\<not> rr_reloaded (snd (snd (upsertDeclarativeRule env rule disk rt))) \<Longrightarrow>
     fst (snd (upsertDeclarativeRule env rule disk rt)) = rt"
  using reload_refused
  by (auto simp: upsertDeclarativeRule_def refused_def split: sum.splits)

subsection \<open>Properties\<close>

definition sample_env :: "policy_file \<Rightarrow> runtime_env" where
  "sample_env file = \<lparr>re_scanners = sample_scanners, re_parse = (\<lambda>raw. if raw = ''bad'' then None else Some file),
     re_dump = (\<lambda>f. ''dumped''), re_sha256 = (\<lambda>raw. ''sha256:'' @ raw), re_watch = True\<rparr>"

definition sample_file :: policy_file where
  "sample_file = \<lparr>pf_version = Some ''1'', pf_rules = [allow_host_rule ''a.io'']\<rparr>"

definition sample_runtime :: policy_runtime where
  "sample_runtime = \<lparr>rt_rules = [compileRule sample_scanners (allow_host_rule ''a.io'')], rt_file = sample_file,
     rt_hash = ''sha256:good'', rt_watching = False, rt_timer = False\<rparr>"

lemma sample_file_valid: "validatePolicyFile sample_file = Inr sample_file"
  by code_simp

lemma sample_boot: "newRuntime (sample_env sample_file) (Some ''good'') = Inr sample_runtime"
proof -
  have "loadPolicy (sample_env sample_file) ''good''
     = Inr (sample_file, [compileRule sample_scanners (allow_host_rule ''a.io'')])"
    unfolding loadPolicy_Inr by (simp add: sample_file_valid sample_env_def) (simp add: sample_file_def allow_host_rule_def)
  then show ?thesis by (simp add: newRuntime_def sample_runtime_def) (simp add: sample_env_def)
qed

text \<open>C25: the rules in force, the declarative view an operator is shown and the recorded hash always
  describe the same bytes: in every state a runtime can reach, under any edits of the file, reloads,
  upserts and watcher events, all three come from one read of one valid policy file.\<close>

theorem runtime_views_agree:
  assumes "runtime_run env disk rt"
  shows "\<exists>raw. re_parse env raw = Some (rt_file rt) \<and> validatePolicyFile (rt_file rt) = Inr (rt_file rt)
       \<and> rt_hash rt = re_sha256 env raw
       \<and> rt_rules rt = map (compileRule (re_scanners env))
            (filter (\<lambda>r. dr_enabled r \<noteq> Some False) (pf_rules (rt_file rt)))"
  using runtime_ok_run [OF assms] by (auto simp: runtime_ok_def loadPolicy_Inr)

theorem runtime_views_agree_witness:
  "\<exists>raw. rt_hash sample_runtime = re_sha256 (sample_env sample_file) raw"
proof -
  have "runtime_run (sample_env sample_file) (Some ''bad'')
      (fst (reload (sample_env sample_file) (Some ''bad'') sample_runtime))"
    by (intro runtime_run.reload runtime_run.edit [OF runtime_run.boot [OF sample_boot]])
  then have "runtime_run (sample_env sample_file) (Some ''bad'') sample_runtime"
    by (simp add: reload_def loadPolicy_def parseDeclarativePolicyFile_def sample_env_def)
  from runtime_views_agree [OF this] show ?thesis by blast
qed

text \<open>C37: a refused reload or upsert changes no rule, no declarative view and no hash in force, and its
  result shows the rules still in force.\<close>

theorem refused_change_is_no_change:
  assumes "reload env disk rt = (rt', res) \<or> upsertDeclarativeRule env rule disk rt = (disk', rt', res)"
    and "\<not> rr_reloaded res"
  shows "rt' = rt \<and> rr_rules res = rt_rules rt \<and> rr_definitions res = pf_rules (rt_file rt) \<and> rr_error res \<noteq> None"
proof -
  have "reload env d rt = (rt', res) \<Longrightarrow> ?thesis" for d
    using assms(2) by (auto simp: reload_def refused_def Let_def split: option.splits sum.splits)
  moreover have "upsertDeclarativeRule env rule disk rt = (disk', rt', res) \<Longrightarrow> ?thesis"
    using assms(2) calculation by (auto simp: upsertDeclarativeRule_def refused_def split: sum.splits)
  ultimately show ?thesis using assms(1) by blast
qed

theorem refused_change_is_no_change_witness:
  "fst (reload (sample_env sample_file) (Some ''bad'') sample_runtime) = sample_runtime"
proof -
  have "\<not> rr_reloaded (snd (reload (sample_env sample_file) (Some ''bad'') sample_runtime))"
    by (simp add: reload_def loadPolicy_def parseDeclarativePolicyFile_def sample_env_def refused_def)
  from refused_change_is_no_change [OF _ this, THEN conjunct1] show ?thesis by (metis prod.collapse)
qed

text \<open>An accepted upsert puts the rule in force and touches nothing else: when the writer's output reads
  back, the file holds the rule, every rule with another id keeps its place and content, the ids are those
  there were with the new one appended if it was missing, and the rule is compiled unless disabled.\<close>

theorem upsert_replaces_one_rule:
  assumes "currentPolicy env disk = Inr current" "validatePolicyFile (upserted rule current) = Inr (upserted rule current)"
    and "re_parse env (re_dump env (upserted rule current)) = Some (upserted rule current)"
  shows "\<exists>disk' rt' res. upsertDeclarativeRule env rule disk rt = (disk', rt', res) \<and> rr_reloaded res
       \<and> rule \<in> set (pf_rules (rt_file rt'))
       \<and> filter (\<lambda>r. dr_id r \<noteq> dr_id rule) (pf_rules (rt_file rt')) = filter (\<lambda>r. dr_id r \<noteq> dr_id rule) (pf_rules current)
       \<and> map dr_id (pf_rules (rt_file rt')) = (if dr_id rule \<in> dr_id ` set (pf_rules current)
            then map dr_id (pf_rules current) else map dr_id (pf_rules current) @ [dr_id rule])
       \<and> (compileRule (re_scanners env) rule \<in> set (rt_rules rt') \<or> dr_enabled rule = Some False)
       \<and> currentPolicy env disk' = Inr (rt_file rt')"
  using upsert_accepted [OF assms, of rt] assms(2,3)
  by (auto simp: Let_def upserted_def filter_replace_or_push ids_replace_or_push currentPolicy_def
      parseDeclarativePolicyFile_def)

theorem upsert_replaces_one_rule_witness:
  "\<exists>disk' rt' res. upsertDeclarativeRule (sample_env sample_file) (allow_host_rule ''a.io'') None sample_runtime
      = (disk', rt', res) \<and> rr_reloaded res"
proof -
  have u: "upserted (allow_host_rule ''a.io'') defaultPolicyFile = sample_file"
    by (simp add: upserted_def defaultPolicyFile_def sample_file_def)
  have "currentPolicy (sample_env sample_file) None = Inr defaultPolicyFile" by (simp add: currentPolicy_def)
  from upsert_replaces_one_rule [OF this, of "allow_host_rule ''a.io''" sample_runtime]
  show ?thesis by (simp add: u sample_file_valid) (auto simp: sample_env_def)
qed

end
