(* ===== verification/Approval.thy ===== *)
theory Approval
  imports Policy_Engine
begin

text \<open>
  The approval gate of \<open>src/approval/\<close>: \<open>gate.ts\<close> (requests, responses, timeouts, restoring after a
  restart), \<open>store.ts\<close> (the queue file) and \<open>notifier.ts\<close> (the webhook payloads). An operation that
  reads the clock takes the time as \<open>now\<close>, one that draws a UUID takes it as \<open>rid\<close>. The timers armed
  with \<open>setTimeout\<close>, the promises resolved and the payloads posted are part of the state.
\<close>

subsection \<open>Data\<close>

datatype verdict = Approved | Denied | TimedOut

datatype approval_mode = AutoMode | AlwaysMode | NeverMode

record approval_request =
  aq_context :: agent_context
  aq_policyResult :: policy_result
  aq_timeoutMs :: "int option"

record approval_response =
  as_requestId :: string
  as_decision :: verdict
  as_approvedBy :: "string option"
  as_note :: "string option"
  as_timestamp :: string

record persisted_pending =
  pp_requestId :: string
  pp_request :: approval_request
  pp_createdAt :: int
  pp_expiresAt :: int

record persisted_decision =
  pd_requestId :: string
  pd_request :: approval_request
  pd_response :: approval_response
  pd_createdAt :: int

record pending_approval =
  pa_entry :: persisted_pending
  pa_resolve :: bool \<comment> \<open>whether a caller of this process awaits the response\<close>

record notification_approval =
  na_agentId :: string
  na_sessionId :: "string option"
  na_plane :: string
  na_action :: string
  na_riskLevel :: risk_level
  na_requiresApproval :: bool
  na_matchedRules :: "string list"
  na_reasons :: "string list"

record notification =
  no_resolved :: bool \<comment> \<open>\<open>approval.resolved\<close> or \<open>approval.pending\<close>\<close>
  no_requestId :: string
  no_manual :: bool
  no_timestamp :: string
  no_approval :: notification_approval
  no_response :: "approval_response option"

text \<open>The queue file: missing, not JSON, or an object whose members may not be arrays.\<close>

datatype store_file =
    NoFile
  | Corrupt
  | StoreFile "persisted_pending list option" "persisted_decision list option"

record approval_env =
  ae_file :: bool \<comment> \<open>\<open>backend\<close> is \<open>file\<close> and a path is set\<close>
  ae_webhook :: bool
  ae_iso :: "int \<Rightarrow> string"

record approval_gate =
  ag_mode :: approval_mode
  ag_defaultTimeoutMs :: int
  ag_pending :: "(string \<times> pending_approval) list"
  ag_history :: "persisted_decision list"
  ag_disk :: store_file
  ag_timers :: "persisted_pending list"
  ag_answers :: "(string \<times> approval_response) list"
  ag_sent :: "notification list"

subsection \<open>Store and notifier\<close>

definition load :: "approval_env \<Rightarrow> store_file \<Rightarrow> (persisted_pending list \<times> persisted_decision list) option" where
  "load env disk =
     (if \<not> ae_file env then Some ([], [])
      else case disk of
        NoFile \<Rightarrow> Some ([], [])
      | Corrupt \<Rightarrow> None
      | StoreFile pending history \<Rightarrow>
          Some (case pending of None \<Rightarrow> [] | Some ps \<Rightarrow> ps, case history of None \<Rightarrow> [] | Some hs \<Rightarrow> hs))"

definition save :: "approval_env \<Rightarrow> persisted_pending list \<Rightarrow> persisted_decision list \<Rightarrow> store_file \<Rightarrow> store_file" where
  "save env pending history disk = (if ae_file env then StoreFile (Some pending) (Some history) else disk)"

definition clear_store :: "approval_env \<Rightarrow> store_file \<Rightarrow> store_file" where
  "clear_store env disk = (if ae_file env then NoFile else disk)"

definition approval_payload :: "approval_request \<Rightarrow> notification_approval" where
  "approval_payload req =
     \<lparr>na_agentId = cx_agentId (aq_context req), na_sessionId = cx_sessionId (aq_context req),
      na_plane = plane_str (cx_plane (aq_context req)), na_action = cx_action (aq_context req),
      na_riskLevel = pr_riskLevel (aq_policyResult req),
      na_requiresApproval = pr_requiresApproval (aq_policyResult req),
      na_matchedRules = pr_matchedRules (aq_policyResult req), na_reasons = pr_reasons (aq_policyResult req)\<rparr>"

definition send :: "approval_env \<Rightarrow> notification \<Rightarrow> approval_gate \<Rightarrow> approval_gate" where
  "send env payload g = (if ae_webhook env then g\<lparr>ag_sent := ag_sent g @ [payload]\<rparr> else g)"

definition notifyPending ::
  "approval_env \<Rightarrow> int \<Rightarrow> string \<Rightarrow> approval_request \<Rightarrow> bool \<Rightarrow> approval_gate \<Rightarrow> approval_gate" where
  "notifyPending env now rid req manual =
     send env \<lparr>no_resolved = False, no_requestId = rid, no_manual = manual, no_timestamp = ae_iso env now,
               no_approval = approval_payload req, no_response = None\<rparr>"

definition notifyResolved ::
  "approval_env \<Rightarrow> int \<Rightarrow> string \<Rightarrow> approval_request \<Rightarrow> approval_response \<Rightarrow> bool \<Rightarrow> approval_gate \<Rightarrow> approval_gate" where
  "notifyResolved env now rid req response manual =
     send env \<lparr>no_resolved = True, no_requestId = rid, no_manual = manual, no_timestamp = ae_iso env now,
               no_approval = approval_payload req, no_response = Some response\<rparr>"

subsection \<open>The gate\<close>

definition getPersistedPending :: "approval_gate \<Rightarrow> persisted_pending list" where
  "getPersistedPending g = sort_key (\<lambda>p. - pp_createdAt p) (map (\<lambda>e. pa_entry (snd e)) (ag_pending g))"

definition persistState :: "approval_env \<Rightarrow> approval_gate \<Rightarrow> approval_gate" where
  "persistState env g = g\<lparr>ag_disk := save env (getPersistedPending g) (ag_history g) (ag_disk g)\<rparr>"

definition makeResponse ::
  "approval_env \<Rightarrow> int \<Rightarrow> string \<Rightarrow> verdict \<Rightarrow> string option \<Rightarrow> string option \<Rightarrow> approval_response" where
  "makeResponse env now rid decision approvedBy note =
     \<lparr>as_requestId = rid, as_decision = decision, as_approvedBy = approvedBy, as_note = note,
      as_timestamp = ae_iso env now\<rparr>"

definition recordDecision ::
  "approval_env \<Rightarrow> string \<Rightarrow> approval_request \<Rightarrow> approval_response \<Rightarrow> int \<Rightarrow> approval_gate \<Rightarrow> approval_gate" where
  "recordDecision env rid req response createdAt g =
     persistState env
       (g\<lparr>ag_history := take 100 (\<lparr>pd_requestId = rid, pd_request = req, pd_response = response,
                                 pd_createdAt = createdAt\<rparr> # ag_history g)\<rparr>)"

definition timeout_note :: "persisted_pending \<Rightarrow> string" where
  "timeout_note p = ''Timed out after '' @ show_int (pp_expiresAt p - pp_createdAt p) @ ''ms''"

definition createPendingEntry :: "persisted_pending \<Rightarrow> bool \<Rightarrow> approval_gate \<Rightarrow> approval_gate" where
  "createPendingEntry p awaited g =
     g\<lparr>ag_timers := ag_timers g @ [p],
       ag_pending := omap_put (pp_requestId p) \<lparr>pa_entry = p, pa_resolve = awaited\<rparr> (ag_pending g)\<rparr>"

definition resolve_entry :: "pending_approval \<Rightarrow> approval_response \<Rightarrow> approval_gate \<Rightarrow> approval_gate" where
  "resolve_entry entry response g =
     (if pa_resolve entry then g\<lparr>ag_answers := ag_answers g @ [(as_requestId response, response)]\<rparr> else g)"

definition autoApprove ::
  "approval_env \<Rightarrow> int \<Rightarrow> string \<Rightarrow> approval_request \<Rightarrow> string \<Rightarrow> approval_gate
     \<Rightarrow> approval_gate \<times> approval_response option" where
  "autoApprove env now rid req note g =
     (let response = makeResponse env now rid Approved (Some ''agentwall-auto'') (Some note) in
      (notifyResolved env now rid req response False (recordDecision env rid req response now g), Some response))"

definition enqueue :: "approval_env \<Rightarrow> int \<Rightarrow> string \<Rightarrow> approval_request \<Rightarrow> int \<Rightarrow> approval_gate \<Rightarrow> approval_gate" where
  "enqueue env now rid req timeoutMs g =
     persistState env (createPendingEntry
       \<lparr>pp_requestId = rid, pp_request = req, pp_createdAt = now, pp_expiresAt = now + timeoutMs\<rparr> True g)"

text \<open>The second component is the response an automatic approval carries; \<open>None\<close> is a promise that is
  still pending.\<close>

definition request ::
  "approval_env \<Rightarrow> int \<Rightarrow> string \<Rightarrow> approval_request \<Rightarrow> approval_gate \<Rightarrow> approval_gate \<times> approval_response option" where
  "request env now rid req g =
     (let timeoutMs = (case aq_timeoutMs req of None \<Rightarrow> ag_defaultTimeoutMs g | Some t \<Rightarrow> t) in
      if ag_mode g = NeverMode then autoApprove env now rid req ''Auto-approved (mode=never)'' g
      else if ag_mode g = AutoMode \<and> \<not> pr_requiresApproval (aq_policyResult req)
        then autoApprove env now rid req ''Auto-approved by policy'' g
      else (enqueue env now rid req timeoutMs (notifyPending env now rid req True g), None))"

definition respond ::
  "approval_env \<Rightarrow> int \<Rightarrow> string \<Rightarrow> bool \<Rightarrow> string option \<Rightarrow> string option \<Rightarrow> approval_gate
     \<Rightarrow> approval_gate \<times> approval_response option" where
  "respond env now rid approve approvedBy note g =
     (case omap_get (ag_pending g) rid of
        None \<Rightarrow> (g, None)
      | Some entry \<Rightarrow>
          (let p = pa_entry entry;
               g1 = g\<lparr>ag_timers := remove1 p (ag_timers g), ag_pending := omap_del rid (ag_pending g)\<rparr>;
               response = makeResponse env now rid (if approve then Approved else Denied) approvedBy note;
               g2 = recordDecision env rid (pp_request p) response (pp_createdAt p) g1;
               g3 = notifyResolved env now rid (pp_request p) response True g2
           in (resolve_entry entry response g3, Some response)))"

text \<open>The timer armed for \<open>p\<close> fires.\<close>

definition approval_timer_fires ::
  "approval_env \<Rightarrow> int \<Rightarrow> persisted_pending \<Rightarrow> approval_gate \<Rightarrow> approval_gate" where
  "approval_timer_fires env now p g =
     (let g0 = g\<lparr>ag_timers := remove1 p (ag_timers g)\<rparr> in
      case omap_get (ag_pending g) (pp_requestId p) of
        None \<Rightarrow> g0
      | Some entry \<Rightarrow>
          (let g1 = g0\<lparr>ag_pending := omap_del (pp_requestId p) (ag_pending g0)\<rparr>;
               response = makeResponse env now (pp_requestId p) TimedOut None (Some (timeout_note p));
               g2 = recordDecision env (pp_requestId p) (pp_request p) response (pp_createdAt p) g1;
               g3 = notifyResolved env now (pp_requestId p) (pp_request p) response True g2
           in resolve_entry entry response g3))"

definition restore_one :: "approval_env \<Rightarrow> int \<Rightarrow> persisted_pending \<Rightarrow> approval_gate \<Rightarrow> approval_gate" where
  "restore_one env now p g =
     (if pp_expiresAt p \<le> now then
        recordDecision env (pp_requestId p) (pp_request p)
          (makeResponse env now (pp_requestId p) TimedOut None (Some (timeout_note p))) (pp_createdAt p) g
      else createPendingEntry p False g)"

definition restorePersistedState :: "approval_env \<Rightarrow> int \<Rightarrow> approval_gate \<Rightarrow> approval_gate option" where
  "restorePersistedState env now g =
     (case load env (ag_disk g) of
        None \<Rightarrow> None
      | Some (pending, history) \<Rightarrow>
          Some (persistState env (fold (restore_one env now) pending (g\<lparr>ag_history := take 100 history\<rparr>))))"

definition newGate :: "approval_env \<Rightarrow> approval_mode \<Rightarrow> int \<Rightarrow> int \<Rightarrow> store_file \<Rightarrow> approval_gate option" where
  "newGate env mode defaultTimeoutMs now disk =
     restorePersistedState env now
       \<lparr>ag_mode = mode, ag_defaultTimeoutMs = defaultTimeoutMs, ag_pending = [], ag_history = [], ag_disk = disk,
        ag_timers = [], ag_answers = [], ag_sent = []\<rparr>"

definition setMode :: "approval_mode \<Rightarrow> approval_gate \<Rightarrow> approval_gate" where
  "setMode mode g = g\<lparr>ag_mode := mode\<rparr>"

definition close :: "approval_gate \<Rightarrow> approval_gate" where
  "close g = g\<lparr>ag_timers := [], ag_pending := []\<rparr>"

definition listPending :: "approval_gate \<Rightarrow> (string \<times> string \<times> string option \<times> string \<times> string \<times> int) list" where
  "listPending g = map (\<lambda>e. let p = pa_entry (snd e); ctx = aq_context (pp_request p) in
     (pp_requestId p, cx_agentId ctx, cx_sessionId ctx, cx_action ctx, plane_str (cx_plane ctx), pp_createdAt p))
     (ag_pending g)"

definition getPendingRequest :: "string \<Rightarrow> approval_gate \<Rightarrow> approval_request option" where
  "getPendingRequest rid g = map_option (\<lambda>e. pp_request (pa_entry e)) (omap_get (ag_pending g) rid)"

record decision_record =
  de_requestId :: string
  de_createdAt :: string
  de_resolvedAt :: string
  de_decision :: verdict
  de_approvedBy :: "string option"
  de_note :: "string option"
  de_agentId :: string
  de_plane :: string
  de_action :: string
  de_sessionId :: "string option"

definition getHistory :: "approval_env \<Rightarrow> nat \<Rightarrow> approval_gate \<Rightarrow> decision_record list" where
  "getHistory env limit g = map (\<lambda>d. let ctx = aq_context (pd_request d); r = pd_response d in
     \<lparr>de_requestId = pd_requestId d, de_createdAt = ae_iso env (pd_createdAt d), de_resolvedAt = as_timestamp r,
      de_decision = as_decision r, de_approvedBy = as_approvedBy r, de_note = as_note r,
      de_agentId = cx_agentId ctx, de_plane = plane_str (cx_plane ctx), de_action = cx_action ctx,
      de_sessionId = cx_sessionId ctx\<rparr>) (take limit (ag_history g))"

subsection \<open>Runs\<close>

text \<open>
  The states a gate can reach from an empty queue, with the ids issued so far and the decisions made,
  latest first. UUIDs are fresh. A restart reads the queue file the previous process left.
\<close>

definition expired :: "int \<Rightarrow> persisted_pending \<Rightarrow> bool" where
  "expired now p = (pp_expiresAt p \<le> now)"

definition stored_pending :: "approval_env \<Rightarrow> store_file \<Rightarrow> persisted_pending list" where
  "stored_pending env disk = (case load env disk of None \<Rightarrow> [] | Some (ps, hs) \<Rightarrow> ps)"

definition decided_by :: "string \<Rightarrow> approval_response option \<Rightarrow> (string \<times> verdict) list" where
  "decided_by rid res = (case res of None \<Rightarrow> [] | Some r \<Rightarrow> [(rid, as_decision r)])"

inductive gate_run :: "approval_env \<Rightarrow> approval_gate \<Rightarrow> string list \<Rightarrow> (string \<times> verdict) list \<Rightarrow> bool" for env where
  boot: "newGate env mode t now NoFile = Some g \<Longrightarrow> gate_run env g [] []"
| ask: "gate_run env g is ds \<Longrightarrow> rid \<notin> set is \<Longrightarrow> request env now rid req g = (g', res) \<Longrightarrow>
     gate_run env g' (rid # is) (decided_by rid res @ ds)"
| answer: "gate_run env g is ds \<Longrightarrow> respond env now rid approve approvedBy note g = (g', res) \<Longrightarrow>
     gate_run env g' is (decided_by rid res @ ds)"
| expire: "gate_run env g is ds \<Longrightarrow> p \<in> set (ag_timers g) \<Longrightarrow>
     gate_run env (approval_timer_fires env now p g) is ((pp_requestId p, TimedOut) # ds)"
| mode: "gate_run env g is ds \<Longrightarrow> gate_run env (setMode m g) is ds"
| restart: "gate_run env g is ds \<Longrightarrow> newGate env m t now (ag_disk g) = Some g' \<Longrightarrow>
     gate_run env g' is
       (rev (map (\<lambda>p. (pp_requestId p, TimedOut)) (filter (expired now) (stored_pending env (ag_disk g)))) @ ds)"

definition pending_list :: "approval_gate \<Rightarrow> persisted_pending list" where
  "pending_list g = map (\<lambda>e. pa_entry (snd e)) (ag_pending g)"

definition keys_match :: "approval_gate \<Rightarrow> bool" where
  "keys_match g = (\<forall>e \<in> set (ag_pending g). pp_requestId (pa_entry (snd e)) = fst e)"

definition synced :: "approval_env \<Rightarrow> approval_gate \<Rightarrow> bool" where
  "synced env g = (if ae_file env then ag_disk g = StoreFile (Some (getPersistedPending g)) (Some (ag_history g))
     else ag_disk g = NoFile)"

definition ids :: "approval_gate \<Rightarrow> string list" where
  "ids g = map fst (ag_pending g)"

subsection \<open>Lemmas on the parts\<close>

lemma take_append_take: "take n (xs @ take n ys) = take n (xs @ ys)"
  by (simp add: min_def)

lemma take_Cons_take: "take n (x # take n ys) = take n (x # ys)"
  using take_append_take [of n "[x]" ys] by simp

lemma omap_put_fresh: "k \<notin> fst ` set m \<Longrightarrow> omap_put k v m = m @ [(k, v)]"
  by (induction k v m rule: omap_put.induct) auto

lemma getPersistedPending_list: "getPersistedPending g = sort_key (\<lambda>p. - pp_createdAt p) (pending_list g)"
  by (simp add: getPersistedPending_def pending_list_def)

lemma send_simps [simp]:
  "ag_pending (send env n g) = ag_pending g" "ag_history (send env n g) = ag_history g"
  "ag_timers (send env n g) = ag_timers g" "ag_disk (send env n g) = ag_disk g" "ag_mode (send env n g) = ag_mode g"
  "ag_answers (send env n g) = ag_answers g"
  by (simp_all add: send_def)

lemma resolve_entry_simps [simp]:
  "ag_pending (resolve_entry e r g) = ag_pending g" "ag_history (resolve_entry e r g) = ag_history g"
  "ag_timers (resolve_entry e r g) = ag_timers g" "ag_disk (resolve_entry e r g) = ag_disk g"
  "ag_mode (resolve_entry e r g) = ag_mode g"
  by (simp_all add: resolve_entry_def)

lemma persistState_simps [simp]:
  "ag_pending (persistState env g) = ag_pending g" "ag_history (persistState env g) = ag_history g"
  "ag_timers (persistState env g) = ag_timers g" "ag_mode (persistState env g) = ag_mode g"
  "ag_answers (persistState env g) = ag_answers g"
  "ag_disk (persistState env g) = save env (getPersistedPending g) (ag_history g) (ag_disk g)"
  by (simp_all add: persistState_def)

lemma recordDecision_simps [simp]:
  "ag_pending (recordDecision env rid req r t g) = ag_pending g"
  "ag_timers (recordDecision env rid req r t g) = ag_timers g"
  "ag_answers (recordDecision env rid req r t g) = ag_answers g"
  "ag_mode (recordDecision env rid req r t g) = ag_mode g"
  "ag_history (recordDecision env rid req r t g) =
     take 100 (\<lparr>pd_requestId = rid, pd_request = req, pd_response = r, pd_createdAt = t\<rparr> # ag_history g)"
  by (simp_all add: recordDecision_def)

lemma createPendingEntry_simps [simp]:
  "ag_history (createPendingEntry p b g) = ag_history g" "ag_disk (createPendingEntry p b g) = ag_disk g"
  "ag_timers (createPendingEntry p b g) = ag_timers g @ [p]" "ag_mode (createPendingEntry p b g) = ag_mode g"
  "ag_answers (createPendingEntry p b g) = ag_answers g"
  "ag_pending (createPendingEntry p b g) =
     omap_put (pp_requestId p) \<lparr>pa_entry = p, pa_resolve = b\<rparr> (ag_pending g)"
  by (simp_all add: createPendingEntry_def)

lemma getPersistedPending_cong: "ag_pending g = ag_pending h \<Longrightarrow> getPersistedPending g = getPersistedPending h"
  by (simp add: getPersistedPending_def)

lemma synced_cong:
  "ag_pending g = ag_pending h \<Longrightarrow> ag_history g = ag_history h \<Longrightarrow> ag_disk g = ag_disk h \<Longrightarrow> synced env g = synced env h"
  by (simp add: synced_def getPersistedPending_def)

lemma ag_disk_recordDecision:
  "ag_disk (recordDecision env rid req r t g) =
     save env (getPersistedPending g) (ag_history (recordDecision env rid req r t g)) (ag_disk g)"
  by (simp add: recordDecision_def getPersistedPending_def)

lemma makeResponse_simps [simp]:
  "as_requestId (makeResponse env now rid d b n) = rid" "as_decision (makeResponse env now rid d b n) = d"
  by (simp_all add: makeResponse_def)

text \<open>What restoring does to the parts of the state.\<close>

definition timed_out :: "approval_env \<Rightarrow> int \<Rightarrow> persisted_pending \<Rightarrow> persisted_decision" where
  "timed_out env now p =
     \<lparr>pd_requestId = pp_requestId p, pd_request = pp_request p,
      pd_response = makeResponse env now (pp_requestId p) TimedOut None (Some (timeout_note p)),
      pd_createdAt = pp_createdAt p\<rparr>"

lemma restore_fold:
  assumes "distinct (map pp_requestId ps)" "set (map pp_requestId ps) \<inter> set (ids g) = {}"
  shows "ag_pending (fold (restore_one env now) ps g) =
      ag_pending g @ map (\<lambda>p. (pp_requestId p, \<lparr>pa_entry = p, pa_resolve = False\<rparr>)) (filter (\<lambda>p. \<not> expired now p) ps)
    \<and> ag_timers (fold (restore_one env now) ps g) = ag_timers g @ filter (\<lambda>p. \<not> expired now p) ps
    \<and> (length (ag_history g) \<le> 100 \<longrightarrow> ag_history (fold (restore_one env now) ps g) =
         take 100 (rev (map (timed_out env now) (filter (expired now) ps)) @ ag_history g))
    \<and> (\<not> ae_file env \<longrightarrow> ag_disk (fold (restore_one env now) ps g) = ag_disk g)"
  using assms
proof (induction ps arbitrary: g)
  case (Cons p ps)
  let ?g = "restore_one env now p g"
  have pend: "ag_pending ?g = (if expired now p then ag_pending g
      else ag_pending g @ [(pp_requestId p, \<lparr>pa_entry = p, pa_resolve = False\<rparr>)])"
    using Cons.prems by (simp add: restore_one_def expired_def omap_put_fresh ids_def)
  then have "set (map pp_requestId ps) \<inter> set (ids ?g) = {}"
    using Cons.prems by (auto simp: ids_def)
  with Cons.IH [of ?g] Cons.prems have IH:
    "ag_pending (fold (restore_one env now) ps ?g) =
      ag_pending ?g @ map (\<lambda>p. (pp_requestId p, \<lparr>pa_entry = p, pa_resolve = False\<rparr>)) (filter (\<lambda>p. \<not> expired now p) ps)"
    "ag_timers (fold (restore_one env now) ps ?g) = ag_timers ?g @ filter (\<lambda>p. \<not> expired now p) ps"
    "length (ag_history ?g) \<le> 100 \<longrightarrow> ag_history (fold (restore_one env now) ps ?g) =
         take 100 (rev (map (timed_out env now) (filter (expired now) ps)) @ ag_history ?g)"
    "\<not> ae_file env \<longrightarrow> ag_disk (fold (restore_one env now) ps ?g) = ag_disk ?g"
    by simp_all
  have "ag_timers ?g = (if expired now p then ag_timers g else ag_timers g @ [p])"
    by (simp add: restore_one_def expired_def)
  moreover have "ag_history ?g = (if expired now p then take 100 (timed_out env now p # ag_history g) else ag_history g)"
    by (simp add: restore_one_def expired_def timed_out_def)
  moreover have "\<not> ae_file env \<longrightarrow> ag_disk ?g = ag_disk g"
    by (simp add: restore_one_def ag_disk_recordDecision save_def)
  ultimately show ?case using IH pend by (simp add: take_append_take del: take_append take_Cons_numeral)
qed simp

text \<open>The invariant of a gate.\<close>

definition gate_ok :: "approval_env \<Rightarrow> approval_gate \<Rightarrow> string list \<Rightarrow> (string \<times> verdict) list \<Rightarrow> bool" where
  "gate_ok env g is ds \<longleftrightarrow>
     keys_match g \<and> distinct (ids g) \<and> mset (ag_timers g) = mset (pending_list g) \<and> synced env g
     \<and> distinct (map fst ds) \<and> set (map fst ds) \<inter> set (ids g) = {} \<and> set (map fst ds) \<union> set (ids g) \<subseteq> set is
     \<and> length (ag_history g) \<le> 100
     \<and> (ae_file env \<longrightarrow> map (\<lambda>d. (pd_requestId d, as_decision (pd_response d))) (ag_history g) = take 100 ds)"

lemma ids_pending_list: "keys_match g \<Longrightarrow> map pp_requestId (pending_list g) = ids g"
  by (auto simp: keys_match_def pending_list_def ids_def)

lemma distinct_pending_list: "gate_ok env g is ds \<Longrightarrow> distinct (pending_list g)"
  using ids_pending_list by (metis distinct_map gate_ok_def)

text \<open>Deciding a pending request: what \<open>respond\<close> and a timeout have in common.\<close>

lemma gate_ok_decide:
  assumes ok: "gate_ok env g is ds" and e: "omap_get (ag_pending g) rid = Some e"
    and pend: "ag_pending g' = omap_del rid (ag_pending g)"
    and timers: "ag_timers g' = remove1 (pa_entry e) (ag_timers g)"
    and hist: "ag_history g' = take 100 (d # ag_history g)"
      "pd_requestId d = rid" "as_decision (pd_response d) = v"
    and disk: "ag_disk g' = save env (getPersistedPending g') (ag_history g') (ag_disk g)"
  shows "gate_ok env g' is ((rid, v) # ds)"
proof -
  from e have mem: "(rid, e) \<in> set (ag_pending g)" by (simp add: omap_get_def map_of_SomeD)
  have km: "keys_match g" and dist: "distinct (ids g)" using ok by (simp_all add: gate_ok_def)
  have rid: "pp_requestId (pa_entry e) = rid" using mem km by (force simp: keys_match_def)
  have ids': "ids g' = removeAll rid (ids g)" by (simp add: ids_def pend fst_omap_del)
  have pl: "pending_list g' = filter (\<lambda>p. pp_requestId p \<noteq> rid) (pending_list g)"
    using km unfolding pending_list_def pend omap_del_def filter_map comp_def keys_match_def
    by (intro arg_cong [where f = "map _"] filter_cong) auto
  have "filter (\<lambda>p. pp_requestId p \<noteq> rid) (pending_list g) = remove1 (pa_entry e) (pending_list g)"
  proof -
    have "distinct (map pp_requestId (pending_list g))" using ids_pending_list [OF km] dist by simp
    moreover have "pa_entry e \<in> set (pending_list g)" using mem by (force simp: pending_list_def)
    ultimately show ?thesis unfolding rid [symmetric]
      by (subst distinct_remove1_removeAll) (auto simp: distinct_map removeAll_filter_not_eq inj_on_def intro!: filter_cong)
  qed
  then have "mset (ag_timers g') = mset (pending_list g')"
    using ok by (simp add: pl timers gate_ok_def)
  moreover have "synced env g'" using disk ok by (simp add: synced_def save_def gate_ok_def)
  moreover have "keys_match g'" using km by (simp add: keys_match_def pend omap_del_mem)
  moreover have "rid \<in> set (ids g)" using mem by (force simp: ids_def)
  moreover have "map (\<lambda>d. (pd_requestId d, as_decision (pd_response d))) (ag_history g') = take 100 ((rid, v) # ds)"
    if "ae_file env"
    using that ok hist by (simp add: gate_ok_def take_map [symmetric] take_Cons')
  ultimately show ?thesis
    using ok hist by (auto simp: gate_ok_def ids' distinct_removeAll)
qed

lemma gate_ok_respond:
  assumes "gate_ok env g is ds" "respond env now rid approve approvedBy note g = (g', res)"
  shows "gate_ok env g' is (decided_by rid res @ ds)"
proof (cases "omap_get (ag_pending g) rid")
  case None
  with assms show ?thesis by (simp add: respond_def decided_by_def)
next
  case (Some e)
  let ?r = "makeResponse env now rid (if approve then Approved else Denied) approvedBy note"
  have res: "res = Some ?r" using assms(2) Some by (auto simp: respond_def Let_def)
  have "gate_ok env g' is ((rid, as_decision ?r) # ds)"
    by (rule gate_ok_decide [OF assms(1) Some,
          where d = "\<lparr>pd_requestId = rid, pd_request = pp_request (pa_entry e), pd_response = ?r,
                      pd_createdAt = pp_createdAt (pa_entry e)\<rparr>"])
       (use assms(2) Some in \<open>auto simp: respond_def Let_def notifyResolved_def ag_disk_recordDecision
          intro!: arg_cong3 [where f = "save env"] getPersistedPending_cong\<close>)
  then show ?thesis by (simp add: res decided_by_def)
qed

lemma timer_entry:
  assumes "gate_ok env g is ds" "p \<in> set (ag_timers g)"
  shows "\<exists>b. omap_get (ag_pending g) (pp_requestId p) = Some \<lparr>pa_entry = p, pa_resolve = b\<rparr>"
proof -
  have "p \<in> set (pending_list g)" using assms by (metis gate_ok_def mset_eq_setD)
  then obtain k e where "(k, e) \<in> set (ag_pending g)" "p = pa_entry e" by (auto simp: pending_list_def)
  moreover from this assms(1) have "k = pp_requestId p" by (auto simp: gate_ok_def keys_match_def)
  ultimately have "omap_get (ag_pending g) (pp_requestId p) = Some e"
    using assms(1) by (simp add: omap_get_def gate_ok_def ids_def)
  with \<open>p = pa_entry e\<close> show ?thesis by (cases e) auto
qed

lemma gate_ok_timer:
  assumes "gate_ok env g is ds" "p \<in> set (ag_timers g)"
  shows "gate_ok env (approval_timer_fires env now p g) is ((pp_requestId p, TimedOut) # ds)"
proof -
  obtain b where e: "omap_get (ag_pending g) (pp_requestId p) = Some \<lparr>pa_entry = p, pa_resolve = b\<rparr>"
    using timer_entry [OF assms] by blast
  show ?thesis
    by (rule gate_ok_decide [OF assms(1) e, where d = "timed_out env now p"])
       (use e in \<open>auto simp: approval_timer_fires_def timed_out_def Let_def notifyResolved_def ag_disk_recordDecision
          intro!: arg_cong3 [where f = "save env"] getPersistedPending_cong\<close>)
qed

lemma gate_ok_auto:
  assumes ok: "gate_ok env g is ds" and "rid \<notin> set is" and "autoApprove env now rid req note g = (g', res)"
  shows "gate_ok env g' (rid # is) (decided_by rid res @ ds)"
proof -
  let ?r = "makeResponse env now rid Approved (Some ''agentwall-auto'') (Some note)"
  let ?g1 = "recordDecision env rid req ?r now g"
  have g': "ag_pending g' = ag_pending g" "ag_timers g' = ag_timers g"
    "ag_history g' = ag_history ?g1" "ag_disk g' = ag_disk ?g1" and res: "res = Some ?r"
    using assms(3) by (auto simp: autoApprove_def Let_def notifyResolved_def simp del: recordDecision_simps(5))
  have "map (\<lambda>d. (pd_requestId d, as_decision (pd_response d))) (ag_history g') = take 100 ((rid, Approved) # ds)"
    if "ae_file env"
    using that ok by (simp add: g' gate_ok_def take_map [symmetric] take_Cons')
  moreover have "synced env g'"
    using ok g' by (auto simp: synced_def gate_ok_def ag_disk_recordDecision save_def getPersistedPending_def
        simp del: recordDecision_simps(5))
  moreover have "pending_list g' = pending_list g" "ids g' = ids g" "keys_match g' = keys_match g"
    by (simp_all add: pending_list_def ids_def keys_match_def g')
  ultimately show ?thesis
    using ok assms(2) by (auto simp: gate_ok_def res decided_by_def g')
qed

lemma gate_ok_enqueue:
  assumes ok: "gate_ok env g is ds" and "rid \<notin> set is"
  shows "gate_ok env (enqueue env now rid req t (notifyPending env now rid req True g)) (rid # is) ds"
proof -
  let ?p = "\<lparr>pp_requestId = rid, pp_request = req, pp_createdAt = now, pp_expiresAt = now + t\<rparr>"
  let ?g = "enqueue env now rid req t (notifyPending env now rid req True g)"
  have "rid \<notin> set (ids g)" using assms by (auto simp: gate_ok_def)
  then have pend: "ag_pending ?g = ag_pending g @ [(rid, \<lparr>pa_entry = ?p, pa_resolve = True\<rparr>)]"
    by (simp add: enqueue_def notifyPending_def omap_put_fresh ids_def)
  have rest: "ag_timers ?g = ag_timers g @ [?p]" "ag_history ?g = ag_history g"
    by (simp_all add: enqueue_def notifyPending_def)
  have "synced env ?g"
    using ok by (auto simp: synced_def gate_ok_def save_def enqueue_def notifyPending_def getPersistedPending_def)
  with ok assms(2) pend rest show ?thesis
    by (auto simp: gate_ok_def pending_list_def ids_def keys_match_def)
qed

lemma gate_ok_request:
  assumes "gate_ok env g is ds" "rid \<notin> set is" "request env now rid req g = (g', res)"
  shows "gate_ok env g' (rid # is) (decided_by rid res @ ds)"
  using assms gate_ok_auto [OF assms(1,2)] gate_ok_enqueue [OF assms(1,2)]
  by (auto simp: request_def Let_def decided_by_def split: if_splits option.splits)

lemma newGate_parts:
  assumes "newGate env m t now disk = Some g'" "load env disk = Some (ps, hs)" "distinct (map pp_requestId ps)"
  shows "ag_pending g' = map (\<lambda>p. (pp_requestId p, \<lparr>pa_entry = p, pa_resolve = False\<rparr>)) (filter (\<lambda>p. \<not> expired now p) ps)
    \<and> ag_timers g' = filter (\<lambda>p. \<not> expired now p) ps
    \<and> ag_history g' = take 100 (rev (map (timed_out env now) (filter (expired now) ps)) @ hs)
    \<and> (if ae_file env then ag_disk g' = StoreFile (Some (getPersistedPending g')) (Some (ag_history g'))
       else ag_disk g' = disk)"
proof -
  define g0 where "g0 = \<lparr>ag_mode = m, ag_defaultTimeoutMs = t, ag_pending = [], ag_history = take 100 hs,
      ag_disk = disk, ag_timers = [], ag_answers = [], ag_sent = []\<rparr>"
  have g': "g' = persistState env (fold (restore_one env now) ps g0)"
    using assms(1,2) by (simp add: newGate_def restorePersistedState_def g0_def)
  have "set (map pp_requestId ps) \<inter> set (ids g0) = {}" by (simp add: ids_def g0_def)
  note fold = restore_fold [OF assms(3) this, of env now]
  have g0: "ag_pending g0 = []" "ag_timers g0 = []" "ag_history g0 = take 100 hs" "ag_disk g0 = disk"
    by (simp_all add: g0_def)
  have "getPersistedPending g' = getPersistedPending (fold (restore_one env now) ps g0)"
    by (rule getPersistedPending_cong) (simp add: g')
  with fold show ?thesis by (simp add: g' g0 save_def take_append_take del: take_append)
qed

lemma mset_getPersistedPending [simp]: "mset (getPersistedPending g) = mset (pending_list g)"
  by (simp add: getPersistedPending_list)

lemma map_timed_out [simp]:
  "map ((\<lambda>d. (pd_requestId d, as_decision (pd_response d))) \<circ> timed_out env now) ps = map (\<lambda>p. (pp_requestId p, TimedOut)) ps"
  by (simp add: timed_out_def)

text \<open>A gate whose pending entries are those of a list of saved requests.\<close>

lemma gate_ok_restart:
  assumes ok: "gate_ok env g is ds" and new: "newGate env m t now (ag_disk g) = Some g'"
  shows "gate_ok env g' is
     (rev (map (\<lambda>p. (pp_requestId p, TimedOut)) (filter (expired now) (stored_pending env (ag_disk g)))) @ ds)"
proof (cases "ae_file env")
  case False
  then have "load env (ag_disk g) = Some ([], [])" by (simp add: load_def)
  from newGate_parts [OF new this] False this ok show ?thesis
    by (auto simp: gate_ok_def keys_match_def ids_def pending_list_def synced_def stored_pending_def)
next
  case True
  let ?ps = "getPersistedPending g"
  have l: "load env (ag_disk g) = Some (?ps, ag_history g)" using True ok by (simp add: load_def gate_ok_def synced_def)
  have "mset (map pp_requestId ?ps) = mset (ids g)"
    using ids_pending_list [of g] ok by (simp add: gate_ok_def) (metis mset_map)
  then have dist: "distinct (map pp_requestId ?ps)" and sub: "pp_requestId ` set ?ps = set (ids g)"
    using ok by (metis gate_ok_def mset_eq_imp_distinct_iff, metis list.set_map mset_eq_setD)
  note parts = newGate_parts [OF new l dist]
  have ids': "ids g' = map pp_requestId (filter (\<lambda>p. \<not> expired now p) ?ps)"
    and pl: "pending_list g' = filter (\<lambda>p. \<not> expired now p) ?ps"
    using parts by (simp_all add: ids_def pending_list_def comp_def)
  have stored: "stored_pending env (ag_disk g) = ?ps" by (simp add: stored_pending_def l)
  let ?ds = "rev (map (\<lambda>p. (pp_requestId p, TimedOut)) (filter (expired now) ?ps)) @ ds"
  have "map (\<lambda>d. (pd_requestId d, as_decision (pd_response d))) (ag_history g')
      = take 100 (rev (map (\<lambda>p. (pp_requestId p, TimedOut)) (filter (expired now) ?ps)) @ take 100 ds)"
    using parts ok True by (simp add: gate_ok_def take_map [symmetric] rev_map [symmetric])
  then have hist: "map (\<lambda>d. (pd_requestId d, as_decision (pd_response d))) (ag_history g') = take 100 ?ds"
    by (simp add: take_append_take del: take_append)
  have d1: "map fst (map (\<lambda>p. (pp_requestId p, TimedOut)) xs) = map pp_requestId xs" for xs
    by simp
  have inj: "inj_on pp_requestId (set ?ps)" using dist by (simp add: distinct_map)
  have dr: "distinct (map pp_requestId (rev (filter (expired now) ?ps)))"
    by (simp only: rev_map [symmetric] distinct_rev distinct_map_filter [OF dist])
  have m1: "map fst ?ds = map pp_requestId (rev (filter (expired now) ?ps)) @ map fst ds"
    by (simp add: rev_map)
  have s1: "set (map pp_requestId (rev (filter (expired now) ?ps))) \<subseteq> set (ids g)"
    "set (ids g') \<subseteq> set (ids g)" unfolding ids' sub [symmetric] by auto
  have okd: "distinct (map fst ds)" "set (map fst ds) \<inter> set (ids g) = {}" "set (map fst ds) \<union> set (ids g) \<subseteq> set is"
    using ok unfolding gate_ok_def by blast+
  have "distinct (map fst ?ds)"
    unfolding m1 distinct_append using dr okd s1 by blast
  moreover have "set (map pp_requestId (rev (filter (expired now) ?ps))) \<inter> set (ids g') = {}"
    using inj unfolding ids' by (auto simp: inj_on_def)
  then have "set (map fst ?ds) \<inter> set (ids g') = {}"
    unfolding m1 set_append using okd s1 by blast
  moreover have "set (map fst ?ds) \<union> set (ids g') \<subseteq> set is"
    unfolding m1 set_append using okd s1 by blast
  moreover have "keys_match g'" using parts by (auto simp: keys_match_def)
  moreover have "synced env g'" using parts True by (simp add: synced_def)
  moreover have "distinct (ids g')" using dist by (simp add: ids' distinct_map_filter)
  ultimately show ?thesis
    using parts hist pl unfolding stored gate_ok_def by simp
qed

lemma gate_ok_boot: "newGate env m t now NoFile = Some g \<Longrightarrow> gate_ok env g [] []"
proof -
  assume new: "newGate env m t now NoFile = Some g"
  have "load env NoFile = Some ([], [])" by (simp add: load_def)
  from newGate_parts [OF new this] show ?thesis
    by (auto simp: gate_ok_def keys_match_def ids_def pending_list_def synced_def split: if_splits)
qed

lemma gate_ok_mode: "gate_ok env g is ds \<Longrightarrow> gate_ok env (setMode m g) is ds"
  by (simp add: gate_ok_def setMode_def keys_match_def ids_def pending_list_def synced_def getPersistedPending_def)

lemma gate_run_ok: "gate_run env g is ds \<Longrightarrow> gate_ok env g is ds"
  by (induction rule: gate_run.induct)
    (auto intro: gate_ok_boot gate_ok_request gate_ok_respond gate_ok_timer gate_ok_mode gate_ok_restart)

subsection \<open>Properties\<close>

definition sample_result :: "bool \<Rightarrow> policy_result" where
  "sample_result approval = \<lparr>pr_decision = (if approval then Approve else Allow), pr_riskLevel = High, pr_matchedRules = [],
     pr_reasons = [], pr_requiresApproval = approval, pr_highRiskFlow = False, pr_detections = []\<rparr>"

definition sample_request :: "bool \<Rightarrow> approval_request" where
  "sample_request approval = \<lparr>aq_context = sample_ctx, aq_policyResult = sample_result approval, aq_timeoutMs = None\<rparr>"

definition approval_sample_env :: approval_env where
  "approval_sample_env = \<lparr>ae_file = True, ae_webhook = True, ae_iso = show_int\<rparr>"

definition booted :: approval_gate where
  "booted = \<lparr>ag_mode = AutoMode, ag_defaultTimeoutMs = 5, ag_pending = [], ag_history = [],
     ag_disk = StoreFile (Some []) (Some []), ag_timers = [], ag_answers = [], ag_sent = []\<rparr>"

definition asked :: approval_gate where
  "asked = fst (request approval_sample_env 10 ''id-1'' (sample_request True) booted)"

lemma booted_run: "gate_run approval_sample_env booted [] []"
proof -
  have "newGate approval_sample_env AutoMode 5 0 NoFile = Some booted"
    by (simp add: newGate_def restorePersistedState_def load_def booted_def persistState_def save_def
        approval_sample_env_def getPersistedPending_def)
  then show ?thesis by (rule gate_run.boot)
qed

lemma asked_parts:
  "ag_pending asked = [(''id-1'', \<lparr>pa_entry = \<lparr>pp_requestId = ''id-1'', pp_request = sample_request True,
     pp_createdAt = 10, pp_expiresAt = 15\<rparr>, pa_resolve = True\<rparr>)]"
  "ag_timers asked = [\<lparr>pp_requestId = ''id-1'', pp_request = sample_request True, pp_createdAt = 10, pp_expiresAt = 15\<rparr>]"
  "ag_disk asked = StoreFile (Some [\<lparr>pp_requestId = ''id-1'', pp_request = sample_request True, pp_createdAt = 10,
     pp_expiresAt = 15\<rparr>]) (Some [])"
proof -
  have m: "ag_mode booted = AutoMode" "pr_requiresApproval (aq_policyResult (sample_request True))"
    "aq_timeoutMs (sample_request True) = None" "ae_file approval_sample_env" "ag_pending booted = []"
    "ag_timers booted = []" "ag_history booted = []" "ag_defaultTimeoutMs booted = 5"
    by (simp_all add: booted_def sample_request_def sample_result_def approval_sample_env_def)
  show "ag_pending asked = [(''id-1'', \<lparr>pa_entry = \<lparr>pp_requestId = ''id-1'', pp_request = sample_request True,
     pp_createdAt = 10, pp_expiresAt = 15\<rparr>, pa_resolve = True\<rparr>)]"
  "ag_timers asked = [\<lparr>pp_requestId = ''id-1'', pp_request = sample_request True, pp_createdAt = 10, pp_expiresAt = 15\<rparr>]"
  "ag_disk asked = StoreFile (Some [\<lparr>pp_requestId = ''id-1'', pp_request = sample_request True, pp_createdAt = 10,
     pp_expiresAt = 15\<rparr>]) (Some [])"
    by (simp_all add: asked_def request_def m enqueue_def notifyPending_def save_def getPersistedPending_def)
qed

lemma asked_run: "gate_run approval_sample_env asked [''id-1''] []"
proof -
  have "request approval_sample_env 10 ''id-1'' (sample_request True) booted = (asked, None)"
    unfolding asked_def by (simp add: request_def booted_def sample_request_def sample_result_def)
  from gate_run.ask [OF booted_run _ this] show ?thesis by (simp add: decided_by_def)
qed



text \<open>The modes mean what they say: a request is approved on the spot exactly in mode \<open>never\<close>, or in mode
  \<open>auto\<close> when the policy does not require approval; otherwise it is queued under its id with the deadline
  \<open>now + timeout\<close> and a timer, no decision is recorded, and the caller's promise stays open.\<close>

theorem request_follows_mode:
  "if ag_mode g = NeverMode \<or> ag_mode g = AutoMode \<and> \<not> pr_requiresApproval (aq_policyResult req)
   then map_option as_decision (snd (request env now rid req g)) = Some Approved
     \<and> ag_pending (fst (request env now rid req g)) = ag_pending g
     \<and> pd_requestId (hd (ag_history (fst (request env now rid req g)))) = rid
   else snd (request env now rid req g) = None
     \<and> ag_history (fst (request env now rid req g)) = ag_history g
     \<and> ag_answers (fst (request env now rid req g)) = ag_answers g
     \<and> (let p = \<lparr>pp_requestId = rid, pp_request = req, pp_createdAt = now,
           pp_expiresAt = now + (case aq_timeoutMs req of None \<Rightarrow> ag_defaultTimeoutMs g | Some t \<Rightarrow> t)\<rparr>
        in omap_get (ag_pending (fst (request env now rid req g))) rid = Some \<lparr>pa_entry = p, pa_resolve = True\<rparr>
           \<and> p \<in> set (ag_timers (fst (request env now rid req g))))"
  by (auto simp: request_def autoApprove_def notifyResolved_def enqueue_def notifyPending_def Let_def)

text \<open>No approval is lost by a restart: with the file store, every request pending when the process stops
  is, in the gate the next process builds from the file, either pending with the same content and an armed
  timer or, if its deadline has passed, recorded as timed out -- never approved.\<close>

theorem restart_keeps_pending:
  assumes "gate_run env g issued decided" "ae_file env" "newGate env mode t now (ag_disk g) = Some g'"
    and "omap_get (ag_pending g) rid = Some e" "length (ag_pending g) \<le> 100"
  shows "if pp_expiresAt (pa_entry e) > now
     then omap_get (ag_pending g') rid = Some \<lparr>pa_entry = pa_entry e, pa_resolve = False\<rparr> \<and> pa_entry e \<in> set (ag_timers g')
     else omap_get (ag_pending g') rid = None
       \<and> (\<exists>d \<in> set (ag_history g'). pd_requestId d = rid \<and> as_decision (pd_response d) = TimedOut)"
proof -
  let ?ps = "getPersistedPending g"
  note ok = gate_run_ok [OF assms(1)]
  then have l: "load env (ag_disk g) = Some (?ps, ag_history g)"
    using assms(2) by (simp add: load_def gate_ok_def synced_def)
  have m: "mset (map pp_requestId ?ps) = mset (ids g)"
    using ids_pending_list [of g] ok by (simp add: gate_ok_def) (metis mset_map)
  then have dist: "distinct (map pp_requestId ?ps)"
    using ok by (metis gate_ok_def mset_eq_imp_distinct_iff)
  have len: "length ?ps \<le> 100" using assms(5) by (simp add: getPersistedPending_list pending_list_def)
  have "(rid, e) \<in> set (ag_pending g)" using assms(4) by (simp add: omap_get_def map_of_SomeD)
  then have rid: "pp_requestId (pa_entry e) = rid" and mem: "pa_entry e \<in> set ?ps"
    using ok by (force simp: gate_ok_def keys_match_def, force simp: getPersistedPending_list pending_list_def)
  note parts = newGate_parts [OF assms(3) l dist]
  have look: "map_of (map (\<lambda>p. (pp_requestId p, f p)) (filter P ?ps)) rid
      = (if P (pa_entry e) then Some (f (pa_entry e)) else None)" for P and f :: "_ \<Rightarrow> pending_approval"
  proof -
    have inj: "inj_on pp_requestId (set ?ps)" using dist by (simp add: distinct_map)
    have "distinct (map fst (map (\<lambda>p. (pp_requestId p, f p)) (filter P ?ps)))"
      using dist by (simp add: comp_def distinct_map_filter)
    then show ?thesis
      using mem rid inj by (auto simp: map_of_eq_None_iff inj_on_def intro!: map_of_is_SomeI)
  qed
  show ?thesis
  proof (cases "pp_expiresAt (pa_entry e) > now")
    case True
    then show ?thesis using parts mem look by (simp add: omap_get_def expired_def)
  next
    case False
    then have "timed_out env now (pa_entry e) \<in> set (rev (map (timed_out env now) (filter (expired now) ?ps)))"
      using mem by (simp add: expired_def)
    moreover have "length (filter (expired now) ?ps) \<le> 100" using len length_filter_le order_trans by blast
    ultimately have "timed_out env now (pa_entry e) \<in> set (ag_history g')" using parts by simp
    with False show ?thesis using parts look rid
      by (auto simp: omap_get_def expired_def timed_out_def intro!: bexI [of _ "timed_out env now (pa_entry e)"])
  qed
qed

theorem restart_keeps_pending_witness:
  "\<exists>g'. newGate approval_sample_env AutoMode 5 12 (ag_disk asked) = Some g' \<and> omap_has (ag_pending g') ''id-1''"
proof -
  obtain g' where g': "newGate approval_sample_env AutoMode 5 12 (ag_disk asked) = Some g'"
    by (simp add: newGate_def restorePersistedState_def asked_parts load_def approval_sample_env_def)
  from restart_keeps_pending [OF asked_run _ g', of "''id-1''"] g' show ?thesis
    by (simp add: asked_parts approval_sample_env_def)
qed



end
