(* ===== verification/Lockdown.thy ===== *)
theory Lockdown
  imports Types Complex_Main "HOL-Library.List_Lexorder" "HOL-Library.Char_ord"
begin

text \<open>
  The global emergency stop of \<open>src/runtime/lockdown.ts\<close>: one hold per source, engaged and released
  per source, the signal toggle, the polled sentinel file and the audit record of every transition.
  The module's variables are the record \<open>lockdown\<close>; \<open>ld_log\<close> collects the calls of \<open>emit\<close>. Strings
  are compared code unit by code unit, as \<open>Array.prototype.sort\<close> does.
\<close>

subsection \<open>State\<close>

definition DEFAULT_LOCKDOWN_POLL_INTERVAL_MS :: int where
  "DEFAULT_LOCKDOWN_POLL_INTERVAL_MS = 1000"

record hold =
  hl_since :: string
  hl_reason :: "string option"

record lockdown_state =
  ls_active :: bool
  ls_sources :: "string list"
  ls_since :: "string option"
  ls_reason :: "string option"

record lockdown =
  ld_holds :: "(string \<times> hold) list"
  ld_periodSince :: "string option"
  ld_sentinelPath :: "string option"
  ld_timer :: "int option" \<comment> \<open>the period of the armed sentinel poll\<close>
  ld_pollInterval :: int
  ld_handler :: bool
  ld_log :: "(agent_context \<times> policy_result) list"

record init_options =
  io_sentinelPath :: "string option"
  io_configActive :: "bool option"
  io_pollIntervalMs :: "rat option" \<comment> \<open>\<open>None\<close> also when it is not finite\<close>

definition initial_lockdown :: lockdown where
  "initial_lockdown = \<lparr>ld_holds = [], ld_periodSince = None, ld_sentinelPath = None, ld_timer = None,
     ld_pollInterval = DEFAULT_LOCKDOWN_POLL_INTERVAL_MS, ld_handler = False, ld_log = []\<rparr>"

subsection \<open>Reading the state\<close>

definition normalizeSource :: "string \<Rightarrow> string" where
  "normalizeSource source = (let trimmed = js_trim source in if trimmed = [] then ''unspecified'' else trimmed)"

fun first_reason :: "(string \<times> hold) list \<Rightarrow> string option" where
  "first_reason [] = None"
| "first_reason ((k, h) # hs) = (case hl_reason h of Some r \<Rightarrow> Some r | None \<Rightarrow> first_reason hs)"

definition lockdownState :: "lockdown \<Rightarrow> lockdown_state" where
  "lockdownState l =
     (let sources = sort (omap_keys (ld_holds l)) in
      \<lparr>ls_active = (sources \<noteq> []), ls_sources = sources, ls_since = ld_periodSince l,
       ls_reason = first_reason (ld_holds l)\<rparr>)"

subsection \<open>The audit record of a transition\<close>

definition bool_str :: "bool \<Rightarrow> string" where
  "bool_str b = (if b then ''true'' else ''false'')"

definition record_transition :: "bool \<Rightarrow> string \<Rightarrow> string option \<Rightarrow> lockdown \<Rightarrow> lockdown" where
  "record_transition engaged source reason l =
     (let state = lockdownState l;
          verb = (if engaged then ''engaged'' else ''released'');
          quoted = [CHR 0x27] @ source @ [CHR 0x27];
          reasons = (case reason of
              None \<Rightarrow> [''Lockdown '' @ verb @ '' by source '' @ quoted]
            | Some r \<Rightarrow> [''Lockdown '' @ verb @ '' by source '' @ quoted @ '': '' @ r])
            @ (if \<not> engaged \<and> ls_active state
               then [''Lockdown remains engaged, held by: '' @ js_join '', '' (ls_sources state)] else []);
          metadata = [(''lockdownSource'', source), (''lockdownActive'', bool_str (ls_active state)),
             (''lockdownHolders'', if ls_sources state \<noteq> [] then js_join '','' (ls_sources state) else ''none'')]
            @ (case reason of None \<Rightarrow> [] | Some r \<Rightarrow> [(''lockdownReason'', r)])
            @ (case ls_since state of None \<Rightarrow> [] | Some s \<Rightarrow> [(''lockdownSince'', s)]);
          ctx = \<lparr>cx_agentId = ''agentwall'', cx_sessionId = Some ''agentwall:lockdown'', cx_plane = Governance,
             cx_action = (if engaged then ''lockdown:engage'' else ''lockdown:release''),
             cx_payload = [(''source'', JStr source),
               (''reason'', case reason of None \<Rightarrow> JNull | Some r \<Rightarrow> JStr r),
               (''active'', JBool (ls_active state)), (''holders'', JArr (map JStr (ls_sources state))),
               (''since'', case ls_since state of None \<Rightarrow> JNull | Some s \<Rightarrow> JStr s)],
             cx_metadata = Some metadata, cx_actor = None, cx_control = None, cx_provenance = None,
             cx_flow = Some \<lparr>fl_direction = Internal, fl_channel = None, fl_target = Some ''agentwall-control-plane'',
               fl_labels = None, fl_crossesBoundary = None, fl_highRisk = Some (ls_active state)\<rparr>\<rparr>;
          result = \<lparr>pr_decision = (if ls_active state then Deny else Allow),
             pr_riskLevel = (if ls_active state then Critical else Low), pr_matchedRules = [], pr_reasons = reasons,
             pr_requiresApproval = False, pr_highRiskFlow = ls_active state, pr_detections = []\<rparr>
      in l\<lparr>ld_log := ld_log l @ [(ctx, result)]\<rparr>)"

subsection \<open>Engaging and releasing\<close>

definition engageLockdown :: "string \<Rightarrow> string \<Rightarrow> string option \<Rightarrow> lockdown \<Rightarrow> lockdown" where
  "engageLockdown now source reason l =
     (let key = normalizeSource source in
      if omap_has (ld_holds l) key then l
      else record_transition True key reason
        (l\<lparr>ld_holds := omap_put key \<lparr>hl_since = now, hl_reason = reason\<rparr> (ld_holds l),
           ld_periodSince := (case ld_periodSince l of None \<Rightarrow> Some now | Some s \<Rightarrow> Some s)\<rparr>))"

definition releaseLockdown :: "string \<Rightarrow> lockdown \<Rightarrow> lockdown" where
  "releaseLockdown source l =
     (let key = normalizeSource source in
      case omap_get (ld_holds l) key of
        None \<Rightarrow> l
      | Some h \<Rightarrow>
          (let remaining = omap_del key (ld_holds l) in
           record_transition False key (hl_reason h)
             (l\<lparr>ld_holds := remaining,
                ld_periodSince := (if remaining = [] then None else ld_periodSince l)\<rparr>)))"

definition toggleFromSignal :: "string \<Rightarrow> lockdown \<Rightarrow> lockdown" where
  "toggleFromSignal now l =
     (if omap_has (ld_holds l) ''signal'' then releaseLockdown ''signal'' l
      else engageLockdown now ''signal'' (Some ''SIGUSR1 received'') l)"

text \<open>\<open>existsSync\<close> answers \<open>Some present\<close>, or throws (\<open>None\<close>).\<close>

definition pollSentinel :: "string \<Rightarrow> bool option \<Rightarrow> lockdown \<Rightarrow> lockdown" where
  "pollSentinel now exists l =
     (case ld_sentinelPath l of
        None \<Rightarrow> l
      | Some path \<Rightarrow>
          (case exists of
             None \<Rightarrow> l
           | Some present \<Rightarrow>
               if present \<and> \<not> omap_has (ld_holds l) ''sentinel''
               then engageLockdown now ''sentinel'' (Some (''sentinel file present at '' @ path)) l
               else if \<not> present \<and> omap_has (ld_holds l) ''sentinel'' then releaseLockdown ''sentinel'' l
               else l))"

definition trimmedOrUndefined :: "string option \<Rightarrow> string option" where
  "trimmedOrUndefined value =
     (case value of None \<Rightarrow> None | Some v \<Rightarrow> (let t = js_trim v in if t = [] then None else Some t))"

definition initLockdown ::
  "string \<Rightarrow> string option \<Rightarrow> bool option \<Rightarrow> init_options \<Rightarrow> lockdown \<Rightarrow> lockdown" where
  "initLockdown now env_path exists opts l =
     (let l1 = (if io_configActive opts = Some True
                then engageLockdown now ''config'' (Some ''engaged by configuration at start-up'') l else l);
          l2 = l1\<lparr>ld_handler := True\<rparr>;
          l3 = (case io_pollIntervalMs opts of
                  None \<Rightarrow> l2
                | Some ms \<Rightarrow> if ms > 0 then l2\<lparr>ld_pollInterval := max 1 \<lfloor>ms\<rfloor>\<rparr> else l2);
          requested = (case trimmedOrUndefined (io_sentinelPath opts) of
              Some p \<Rightarrow> Some p
            | None \<Rightarrow> (case trimmedOrUndefined env_path of Some p \<Rightarrow> Some p | None \<Rightarrow> ld_sentinelPath l3))
      in case requested of
           None \<Rightarrow> l3
         | Some path \<Rightarrow>
             (let l4 = pollSentinel now exists (l3\<lparr>ld_sentinelPath := Some path, ld_timer := None\<rparr>)
              in l4\<lparr>ld_timer := Some (ld_pollInterval l4)\<rparr>))"

definition resetLockdown :: "lockdown \<Rightarrow> lockdown" where \<comment> \<open>for tests only\<close>
  "resetLockdown l = initial_lockdown\<lparr>ld_log := ld_log l\<rparr>"

subsection \<open>Runs\<close>

datatype lockdown_op =
    EngageOp string "string option"
  | ReleaseOp string
  | SignalOp
  | PollOp "bool option"
  | InitOp "string option" "bool option" init_options

fun apply_op :: "string \<times> lockdown_op \<Rightarrow> lockdown \<Rightarrow> lockdown" where
  "apply_op (now, EngageOp source reason) l = engageLockdown now source reason l"
| "apply_op (now, ReleaseOp source) l = releaseLockdown source l"
| "apply_op (now, SignalOp) l = (if ld_handler l then toggleFromSignal now l else l)"
| "apply_op (now, PollOp exists) l = (if ld_timer l \<noteq> None then pollSentinel now exists l else l)"
| "apply_op (now, InitOp env_path exists opts) l = initLockdown now env_path exists opts l"

definition lockdown_run :: "(string \<times> lockdown_op) list \<Rightarrow> lockdown \<Rightarrow> lockdown" where
  "lockdown_run ops l = fold apply_op ops l"

text \<open>The sources that hold the stop, and whether an operation comes through a source's own channel as a
  release.\<close>

definition holders :: "lockdown \<Rightarrow> string set" where
  "holders l = set (omap_keys (ld_holds l))"

fun releases :: "string \<Rightarrow> lockdown_op \<Rightarrow> bool" where
  "releases s (ReleaseOp source) = (normalizeSource source = s)"
| "releases s SignalOp = (s = ''signal'')"
| "releases s (PollOp exists) = (s = ''sentinel'' \<and> exists = Some False)"
| "releases s (InitOp env_path exists opts) = (s = ''sentinel'' \<and> exists = Some False)"
| "releases s (EngageOp source reason) = False"

subsection \<open>Lemmas\<close>

lemma record_transition_simps [simp]:
  "ld_holds (record_transition e s r l) = ld_holds l"
  "ld_periodSince (record_transition e s r l) = ld_periodSince l"
  "ld_sentinelPath (record_transition e s r l) = ld_sentinelPath l"
  "ld_timer (record_transition e s r l) = ld_timer l"
  "ld_pollInterval (record_transition e s r l) = ld_pollInterval l"
  "ld_handler (record_transition e s r l) = ld_handler l"
  by (simp_all add: record_transition_def Let_def)

lemma ls_active_iff: "ls_active (lockdownState l) \<longleftrightarrow> holders l \<noteq> {}"
  by (simp add: lockdownState_def holders_def Let_def flip: set_empty)

lemma set_ls_sources: "set (ls_sources (lockdownState l)) = holders l"
  by (simp add: lockdownState_def holders_def Let_def)

lemma holders_has: "s \<in> holders l \<longleftrightarrow> omap_has (ld_holds l) s"
  by (simp add: holders_def om.keys_get)

lemma holders_flags [simp]:
  "holders (l\<lparr>ld_handler := b\<rparr>) = holders l" "holders (l\<lparr>ld_pollInterval := i\<rparr>) = holders l"
  "holders (l\<lparr>ld_sentinelPath := p\<rparr>) = holders l" "holders (l\<lparr>ld_timer := t\<rparr>) = holders l"
  "holders (record_transition e s r l) = holders l"
  by (simp_all add: holders_def)

lemma holders_engage [simp]: "holders (engageLockdown now source reason l) = insert (normalizeSource source) (holders l)"
  by (auto simp: engageLockdown_def Let_def holders_def om.keys_put om.keys_get)

lemma holders_release [simp]: "holders (releaseLockdown source l) = holders l - {normalizeSource source}"
proof -
  have "holders l - {k} = holders l" if "omap_get (ld_holds l) k = None" for k
    using that by (auto simp: holders_has)
  then show ?thesis
    by (auto simp: releaseLockdown_def Let_def holders_def om.keys_del split: option.split)
qed

lemma normalize_builtin [simp]:
  "normalizeSource ''signal'' = ''signal''" "normalizeSource ''sentinel'' = ''sentinel''"
  "normalizeSource ''config'' = ''config''" "normalizeSource ''api'' = ''api''"
  by code_simp+

lemma holders_toggle:
  "holders (toggleFromSignal now l) =
     (if ''signal'' \<in> holders l then holders l - {''signal''} else insert ''signal'' (holders l))"
  by (simp add: toggleFromSignal_def holders_has)

lemma holders_poll:
  "holders (pollSentinel now exists l) =
     (case ld_sentinelPath l of None \<Rightarrow> holders l
      | Some path \<Rightarrow> (case exists of None \<Rightarrow> holders l
         | Some present \<Rightarrow> if present then insert ''sentinel'' (holders l) else holders l - {''sentinel''}))"
  by (auto simp: pollSentinel_def holders_has split: option.split)

lemma releases_frame:
  assumes "s \<in> holders l" "\<not> releases s op"
  shows "s \<in> holders (apply_op (now, op) l)"
proof (cases op)
  case SignalOp
  with assms show ?thesis by (auto simp: holders_toggle)
next
  case (PollOp exists)
  with assms show ?thesis by (auto simp: holders_poll split: option.split)
next
  case (InitOp env_path exists opts)
  with assms show ?thesis
    by (auto simp: initLockdown_def Let_def holders_poll split: option.split)
qed (use assms in auto)

text \<open>The invariant: a period is open exactly while something holds the stop, and the last audit record
  states the posture in force.\<close>

definition lockdown_ok :: "lockdown \<Rightarrow> bool" where
  "lockdown_ok l \<longleftrightarrow> omap_wf (ld_holds l) \<and> (ld_periodSince l = None \<longleftrightarrow> ld_holds l = [])
     \<and> (if ld_log l = [] then ld_holds l = []
        else pr_decision (snd (last (ld_log l))) = (if ld_holds l = [] then Allow else Deny)
           \<and> pr_riskLevel (snd (last (ld_log l))) = (if ld_holds l = [] then Low else Critical))"

lemma lockdown_ok_record:
  assumes "omap_wf (ld_holds l)" "ld_periodSince l = None \<longleftrightarrow> ld_holds l = []"
  shows "lockdown_ok (record_transition e s r l)"
proof -
  have a: "ls_active (lockdownState l) \<longleftrightarrow> ld_holds l \<noteq> []"
    by (simp add: ls_active_iff holders_def omap_keys_def)
  have "ld_log (record_transition e s r l) \<noteq> []"
    "pr_decision (snd (last (ld_log (record_transition e s r l)))) = (if ls_active (lockdownState l) then Deny else Allow)"
    "pr_riskLevel (snd (last (ld_log (record_transition e s r l)))) = (if ls_active (lockdownState l) then Critical else Low)"
    by (simp_all add: record_transition_def Let_def)
  with assms a show ?thesis by (simp add: lockdown_ok_def)
qed

lemma omap_wf_small [simp]: "omap_wf []" "omap_wf [p]"
  by (simp_all add: omap_wf_def)

lemma lockdown_ok_engage: "lockdown_ok l \<Longrightarrow> lockdown_ok (engageLockdown now source reason l)"
  unfolding engageLockdown_def Let_def
  by (auto intro!: lockdown_ok_record simp: om.wf_put lockdown_ok_def [of l] split: option.split)

lemma lockdown_ok_release: "lockdown_ok l \<Longrightarrow> lockdown_ok (releaseLockdown source l)"
  unfolding releaseLockdown_def Let_def
  by (auto intro!: lockdown_ok_record simp: om.wf_del lockdown_ok_def [of l] split: option.split)

lemma lockdown_ok_flags [simp]:
  "lockdown_ok (l\<lparr>ld_handler := b\<rparr>) = lockdown_ok l" "lockdown_ok (l\<lparr>ld_pollInterval := i\<rparr>) = lockdown_ok l"
  "lockdown_ok (l\<lparr>ld_sentinelPath := p\<rparr>) = lockdown_ok l" "lockdown_ok (l\<lparr>ld_timer := t\<rparr>) = lockdown_ok l"
  by (simp_all add: lockdown_ok_def)

lemma lockdown_ok_poll: "lockdown_ok l \<Longrightarrow> lockdown_ok (pollSentinel now exists l)"
  by (auto simp: pollSentinel_def lockdown_ok_engage lockdown_ok_release split: option.split)

lemma lockdown_ok_toggle: "lockdown_ok l \<Longrightarrow> lockdown_ok (toggleFromSignal now l)"
  by (simp add: toggleFromSignal_def lockdown_ok_engage lockdown_ok_release)

lemma lockdown_ok_init: "lockdown_ok l \<Longrightarrow> lockdown_ok (initLockdown now env_path exists opts l)"
  by (auto simp: initLockdown_def Let_def lockdown_ok_engage lockdown_ok_poll split: option.split)

lemma lockdown_ok_op: "lockdown_ok l \<Longrightarrow> lockdown_ok (apply_op (now, op) l)"
  by (cases op) (simp_all add: lockdown_ok_engage lockdown_ok_release lockdown_ok_poll lockdown_ok_toggle lockdown_ok_init)

lemma lockdown_ok_run: "lockdown_ok l \<Longrightarrow> lockdown_ok (lockdown_run ops l)"
  unfolding lockdown_run_def by (induction ops arbitrary: l) (auto simp: lockdown_ok_op)

lemma lockdown_ok_initial: "lockdown_ok initial_lockdown"
  by (simp add: lockdown_ok_def initial_lockdown_def om.wf_empty)

subsection \<open>Properties\<close>


text \<open>Whoever engaged the stop is the only one who can release it: through any run of operations in which
  none comes through a source's own release channel, the source keeps its hold and the stop stays active.\<close>

theorem hold_survives_other_channels:
  assumes "s \<in> holders l" "\<forall>(now, op) \<in> set ops. \<not> releases s op"
  shows "s \<in> holders (lockdown_run ops l) \<and> ls_active (lockdownState (lockdown_run ops l))"
proof -
  have "s \<in> holders (lockdown_run ops l)"
    using assms unfolding lockdown_run_def
  proof (induction ops arbitrary: l)
    case (Cons o1 ops)
    obtain now op where "o1 = (now, op)" by (cases o1)
    with Cons releases_frame [of s l op now] show ?case by simp
  qed simp
  then show ?thesis by (auto simp: ls_active_iff)
qed

theorem hold_survives_other_channels_witness:
  "ls_active (lockdownState (lockdown_run [(''t1'', ReleaseOp '' api ''), (''t2'', SignalOp), (''t3'', SignalOp)]
     (engageLockdown ''t0'' ''config'' None initial_lockdown)))"
proof -
  have api: "normalizeSource '' api '' = ''api''" by code_simp
  have "''config'' \<in> holders (engageLockdown ''t0'' ''config'' None initial_lockdown)" by simp
  from hold_survives_other_channels [OF this, of "[(''t1'', ReleaseOp '' api ''), (''t2'', SignalOp), (''t3'', SignalOp)]"]
  show ?thesis by (simp add: api)
qed

text \<open>In every reachable state the public \<open>since\<close> is present exactly while the stop is active, and the
  last audit record states the posture in force: deny at critical risk while anything holds the stop, even
  when the transition was a release, allow at low risk otherwise; with no record nothing was ever held.\<close>

theorem audit_states_the_posture:
  "(ls_since (lockdownState (lockdown_run ops initial_lockdown)) \<noteq> None
      \<longleftrightarrow> ls_active (lockdownState (lockdown_run ops initial_lockdown)))
   \<and> (let l = lockdown_run ops initial_lockdown in
       if ld_log l = [] then \<not> ls_active (lockdownState l)
       else pr_decision (snd (last (ld_log l))) = (if ls_active (lockdownState l) then Deny else Allow)
          \<and> pr_riskLevel (snd (last (ld_log l))) = (if ls_active (lockdownState l) then Critical else Low))"
proof -
  have a: "ls_active (lockdownState l) \<longleftrightarrow> ld_holds l \<noteq> []" for l
    by (simp add: ls_active_iff holders_def omap_keys_def)
  have "lockdown_ok (lockdown_run ops initial_lockdown)"
    by (intro lockdown_ok_run lockdown_ok_initial)
  then show ?thesis
    unfolding a lockdown_ok_def Let_def by (auto simp: lockdownState_def Let_def split: if_splits)
qed

text \<open>Engaging a source that already holds the stop changes nothing at all: no second audit record, and
  neither the start of the period nor the recorded reason moves.\<close>

theorem reengage_is_a_noop:
  assumes "normalizeSource source \<in> holders l"
  shows "engageLockdown now source reason l = l"
  using assms by (auto simp: engageLockdown_def holders_has)

theorem reengage_is_a_noop_witness:
  "engageLockdown ''t1'' ''api'' (Some ''again'') (engageLockdown ''t0'' ''api'' None initial_lockdown)
   = engageLockdown ''t0'' ''api'' None initial_lockdown"
  by (rule reengage_is_a_noop) simp

end
