(* ===== verification/Flood_Guard.thy ===== *)
theory Flood_Guard
  imports Approval Sliding_Window "HOL-Library.List_Lexorder" "HOL-Library.Char_ord"
begin

text \<open>
  The runtime flood guard of \<open>src/runtime/floodguard.ts\<close>: per-session and per-actor rate buckets, the
  hourly cost budget, queue caps, shield mode, session overrides and the telemetry every decision
  leaves. Times are integers (milliseconds); multipliers, units and pressures are rationals, where the
  program computes with binary floating point. Decisions are steps of the state \<open>flood_guard\<close>.
\<close>

subsection \<open>Configuration and state\<close>

record shield_config =
  sh_requestRateMultiplier :: "rat option"
  sh_toolActionRateMultiplier :: "rat option"
  sh_approvalRequestRateMultiplier :: "rat option"
  sh_approvalResponseRateMultiplier :: "rat option"
  sh_maxPendingGlobalMultiplier :: "rat option"
  sh_maxPendingSessionMultiplier :: "rat option"
  sh_costBudgetMultiplier :: "rat option"
  sh_defaultDurationMs :: "int option"
  sh_queuePriorityPressureThreshold :: "rat option"

record cost_weights =
  cw_evaluateBase :: rat
  cw_approvalRequest :: rat
  cw_approvalRequiresManual :: rat
  cw_toolActionMultiplier :: rat
  cw_highRiskMultiplier :: rat
  cw_criticalRiskMultiplier :: rat

record guard_config =
  gg_enabled :: bool
  gg_requestPerMinutePerSession :: rat
  gg_toolActionPerMinutePerSession :: rat
  gg_approvalRequestsPerMinutePerSession :: rat
  gg_approvalResponsesPerMinutePerActor :: rat
  gg_maxPendingApprovalsGlobal :: rat
  gg_maxPendingApprovalsPerSession :: rat
  gg_costBudgetPerHourPerSession :: rat
  gg_shield :: "shield_config option"
  gg_costWeights :: cost_weights

record check_result =
  gc_allowed :: bool
  gc_reason :: "string option"
  gc_retryAfterMs :: "int option"

datatype guard_category = RequestCat | ToolCat | ApprovalRequestCat | ApprovalResponseCat | QueueCat | CostCat | ModeCat

datatype guard_mode = Normal | Shield

datatype guard_detail =
    NoDetail
  | ShieldDetail "string option"
  | ActionDetail string
  | UnitsDetail rat
  | PriorityDetail int int int int
  | GlobalDetail int int
  | SessionDetail int int
  | PressureDetail rat

record guard_event =
  ge_timestamp :: string
  ge_category :: guard_category
  ge_key :: string
  ge_sessionId :: "string option"
  ge_actor :: "string option"
  ge_riskLevel :: "risk_level option"
  ge_allowed :: bool
  ge_blockedReason :: "string option"
  ge_retryAfterMs :: "int option"
  ge_pressure :: rat
  ge_blockedCount :: nat
  ge_mode :: guard_mode
  ge_detail :: guard_detail

record bucket =
  bk_ts :: "int list"
  bk_blocked :: nat

record budget =
  bd_events :: "(int \<times> rat) list"
  bd_blocked :: nat

record session_override =
  so_multiplier :: rat
  so_expiresAt :: int

record recent_block =
  rb_timestamp :: string
  rb_category :: guard_category
  rb_reason :: string
  rb_sessionId :: "string option"
  rb_actor :: "string option"
  rb_pressure :: rat

record pressure_row =
  pw_name :: string
  pw_pressure :: rat
  pw_blocked :: nat

record override_row =
  ov_sessionId :: string
  ov_expiresAt :: string
  ov_multiplier :: rat

record guard_telemetry =
  te_mode :: guard_mode
  te_shieldUntil :: "string option"
  te_blockedTotal :: nat
  te_blockedByCategory :: "(guard_category \<times> nat) list"
  te_pressureByCategory :: "(guard_category \<times> rat) list"
  te_pressureBySession :: "pressure_row list"
  te_pressureByActor :: "pressure_row list"
  te_recentBlocks :: "recent_block list"
  te_sessionOverrides :: "override_row list"

record flood_guard =
  fg_buckets :: "(string \<times> bucket) list"
  fg_budgets :: "(string \<times> budget) list"
  fg_overrides :: "(string \<times> session_override) list"
  fg_shieldUntil :: int
  fg_telemetry :: guard_telemetry
  fg_events :: "guard_event list" \<comment> \<open>what the telemetry sink was called with\<close>

definition new_flood_guard :: flood_guard where
  "new_flood_guard = \<lparr>fg_buckets = [], fg_budgets = [], fg_overrides = [], fg_shieldUntil = 0,
     fg_telemetry = \<lparr>te_mode = Normal, te_shieldUntil = None, te_blockedTotal = 0, te_blockedByCategory = [],
       te_pressureByCategory = [], te_pressureBySession = [], te_pressureByActor = [], te_recentBlocks = [],
       te_sessionOverrides = []\<rparr>, fg_events = []\<rparr>"

text \<open>\<open>Math.round\<close> (halves round up) and \<open>Number(x.toFixed(2))\<close>.\<close>

definition js_round :: "rat \<Rightarrow> int" where
  "js_round x = \<lfloor>x + 1 / 2\<rfloor>"

definition fixed2 :: "rat \<Rightarrow> rat" where
  "fixed2 x = (if x < 0 then - (of_int \<lfloor>- x * 100 + 1 / 2\<rfloor> / 100) else of_int \<lfloor>x * 100 + 1 / 2\<rfloor> / 100)"

definition SESSION_FALLBACK :: string where "SESSION_FALLBACK = ''unknown:default''"
definition ACTOR_FALLBACK :: string where "ACTOR_FALLBACK = ''unknown-actor''"
definition MIN_LIMIT :: int where "MIN_LIMIT = 1"

subsection \<open>Telemetry\<close>

definition bump_row :: "string \<Rightarrow> rat \<Rightarrow> bool \<Rightarrow> pressure_row list \<Rightarrow> pressure_row list" where
  "bump_row name pressure allowed rows =
     (let next = (if list_ex (\<lambda>r. pw_name r = name) rows
        then map (\<lambda>r. if pw_name r = name
               then r\<lparr>pw_pressure := max (pw_pressure r) (fixed2 pressure),
                      pw_blocked := (if allowed then pw_blocked r else pw_blocked r + 1)\<rparr> else r) rows
        else rows @ [\<lparr>pw_name = name, pw_pressure = fixed2 pressure, pw_blocked = (if allowed then 0 else 1)\<rparr>])
      in take 16 (sort_key (\<lambda>r. - pw_pressure r) (sort_key (\<lambda>r. - int (pw_blocked r)) next)))"

definition count_of :: "('k \<times> 'v) list \<Rightarrow> 'k \<Rightarrow> 'v \<Rightarrow> 'v" where
  "count_of m k dflt = (case omap_get m k of None \<Rightarrow> dflt | Some v \<Rightarrow> v)"

definition telemetry_event :: "guard_event \<Rightarrow> guard_telemetry \<Rightarrow> guard_telemetry" where
  "telemetry_event ev t =
     (let t1 = t\<lparr>te_mode := ge_mode ev\<rparr>;
          t2 = (case ge_detail ev of
                  ShieldDetail (Some u) \<Rightarrow> if u \<noteq> [] then t1\<lparr>te_shieldUntil := Some u\<rparr> else t1
                | _ \<Rightarrow> t1);
          t3 = t2\<lparr>te_pressureByCategory := omap_put (ge_category ev)
                 (max (count_of (te_pressureByCategory t2) (ge_category ev) 0) (fixed2 (ge_pressure ev)))
                 (te_pressureByCategory t2)\<rparr>;
          t4 = (if ge_allowed ev then t3
                else t3\<lparr>te_blockedTotal := te_blockedTotal t3 + 1,
                  te_blockedByCategory := omap_put (ge_category ev)
                     (count_of (te_blockedByCategory t3) (ge_category ev) 0 + 1) (te_blockedByCategory t3),
                  te_recentBlocks := take 20 (\<lparr>rb_timestamp = ge_timestamp ev, rb_category = ge_category ev,
                     rb_reason = (case ge_blockedReason ev of None \<Rightarrow> ''Runtime guard blocked request'' | Some r \<Rightarrow> r),
                     rb_sessionId = ge_sessionId ev, rb_actor = ge_actor ev,
                     rb_pressure = fixed2 (ge_pressure ev)\<rparr> # te_recentBlocks t3)\<rparr>);
          t5 = (case ge_sessionId ev of
                  Some s \<Rightarrow> if s \<noteq> [] then t4\<lparr>te_pressureBySession :=
                    bump_row s (ge_pressure ev) (ge_allowed ev) (te_pressureBySession t4)\<rparr> else t4
                | None \<Rightarrow> t4)
      in (case ge_actor ev of
            Some a \<Rightarrow> if a \<noteq> [] then t5\<lparr>te_pressureByActor :=
              bump_row a (ge_pressure ev) (ge_allowed ev) (te_pressureByActor t5)\<rparr> else t5
          | None \<Rightarrow> t5))"

definition emitTelemetry :: "guard_event \<Rightarrow> flood_guard \<Rightarrow> flood_guard" where
  "emitTelemetry ev g =
     g\<lparr>fg_telemetry := telemetry_event ev (fg_telemetry g), fg_events := fg_events g @ [ev]\<rparr>"

subsection \<open>Shield mode, overrides and limits\<close>

definition getMode :: "int \<Rightarrow> flood_guard \<Rightarrow> guard_mode" where
  "getMode now g = (if fg_shieldUntil g > now then Shield else Normal)"

definition shield_until_str :: "(int \<Rightarrow> string) \<Rightarrow> int \<Rightarrow> flood_guard \<Rightarrow> string option" where
  "shield_until_str to_iso now g = (if fg_shieldUntil g > now then Some (to_iso (fg_shieldUntil g)) else None)"

definition shield_opt :: "guard_config \<Rightarrow> (shield_config \<Rightarrow> 'a option) \<Rightarrow> 'a option" where
  "shield_opt cfg f = (case gg_shield cfg of None \<Rightarrow> None | Some s \<Rightarrow> f s)"

definition setShieldMode ::
  "(int \<Rightarrow> string) \<Rightarrow> guard_config \<Rightarrow> bool \<Rightarrow> int \<Rightarrow> int option \<Rightarrow> flood_guard
     \<Rightarrow> flood_guard \<times> (guard_mode \<times> string option)" where
  "setShieldMode to_iso cfg enabled now durationMs g =
     (let ttl = (case durationMs of Some d \<Rightarrow> d
                 | None \<Rightarrow> (case shield_opt cfg sh_defaultDurationMs of Some d \<Rightarrow> d | None \<Rightarrow> 600000));
          g1 = g\<lparr>fg_shieldUntil := (if enabled then now + max 30000 ttl else 0)\<rparr>;
          g2 = emitTelemetry \<lparr>ge_timestamp = to_iso now, ge_category = ModeCat, ge_key = ''floodguard:mode'',
                 ge_sessionId = None, ge_actor = None, ge_riskLevel = None, ge_allowed = True, ge_blockedReason = None,
                 ge_retryAfterMs = None, ge_pressure = 0, ge_blockedCount = 0, ge_mode = getMode now g1,
                 ge_detail = ShieldDetail (shield_until_str to_iso now g1)\<rparr> g1
      in (g2, (getMode now g2, shield_until_str to_iso now g2)))"

definition setSessionOverride ::
  "(int \<Rightarrow> string) \<Rightarrow> string \<Rightarrow> rat \<Rightarrow> int \<Rightarrow> int \<Rightarrow> flood_guard \<Rightarrow> (flood_guard \<times> override_row) option" where
  "setSessionOverride to_iso sessionId multiplier now durationMs g =
     (let normalized = js_trim sessionId in
      if normalized = [] then None
      else (let m = max (1 / 2) (min 3 multiplier); expiresAt = now + max 60000 durationMs in
        Some (g\<lparr>fg_overrides := omap_put normalized \<lparr>so_multiplier = m, so_expiresAt = expiresAt\<rparr> (fg_overrides g)\<rparr>,
              \<lparr>ov_sessionId = normalized, ov_expiresAt = to_iso expiresAt, ov_multiplier = fixed2 m\<rparr>)))"

definition clearSessionOverride :: "string \<Rightarrow> flood_guard \<Rightarrow> flood_guard \<times> bool" where
  "clearSessionOverride sessionId g =
     (g\<lparr>fg_overrides := omap_del (js_trim sessionId) (fg_overrides g)\<rparr>, omap_has (fg_overrides g) (js_trim sessionId))"

definition cleanupSessionOverrides :: "int \<Rightarrow> flood_guard \<Rightarrow> flood_guard" where
  "cleanupSessionOverrides now g = g\<lparr>fg_overrides := filter (\<lambda>(s, ov). \<not> so_expiresAt ov \<le> now) (fg_overrides g)\<rparr>"

definition getTelemetrySnapshot :: "(int \<Rightarrow> string) \<Rightarrow> int \<Rightarrow> flood_guard \<Rightarrow> flood_guard \<times> guard_telemetry" where
  "getTelemetrySnapshot to_iso now g =
     (let g1 = cleanupSessionOverrides now g;
          t = (fg_telemetry g)\<lparr>te_mode := getMode now g, te_shieldUntil := shield_until_str to_iso now g,
            te_sessionOverrides := sort_key ov_expiresAt (map (\<lambda>(s, ov).
              \<lparr>ov_sessionId = s, ov_expiresAt = to_iso (so_expiresAt ov), ov_multiplier = fixed2 (so_multiplier ov)\<rparr>)
              (fg_overrides g1))\<rparr>
      in (g1\<lparr>fg_telemetry := t\<rparr>,
          t\<lparr>te_pressureBySession := take 8 (te_pressureBySession t),
            te_pressureByActor := take 8 (te_pressureByActor t),
            te_recentBlocks := take 8 (te_recentBlocks t),
            te_sessionOverrides := take 8 (te_sessionOverrides t)\<rparr>))"

definition adjustLimit :: "rat \<Rightarrow> rat option \<Rightarrow> int \<Rightarrow> flood_guard \<Rightarrow> int" where
  "adjustLimit base shieldMultiplier now g =
     (if getMode now g \<noteq> Shield then max MIN_LIMIT (js_round base)
      else max MIN_LIMIT (js_round (base * (case shieldMultiplier of None \<Rightarrow> 1 / 2 | Some m \<Rightarrow> m))))"

definition getSessionOverride :: "string \<Rightarrow> int \<Rightarrow> flood_guard \<Rightarrow> flood_guard \<times> session_override option" where
  "getSessionOverride sessionId now g =
     (let g1 = cleanupSessionOverrides now g in (g1, omap_get (fg_overrides g1) sessionId))"

definition getSessionLimit :: "string \<Rightarrow> rat \<Rightarrow> rat option \<Rightarrow> int \<Rightarrow> flood_guard \<Rightarrow> flood_guard \<times> int" where
  "getSessionLimit sessionId base shieldMultiplier now g =
     (let adjusted = adjustLimit base shieldMultiplier now g;
          (g1, ov) = getSessionOverride sessionId now g
      in case ov of
           None \<Rightarrow> (g1, adjusted)
         | Some ov \<Rightarrow> (g1, max MIN_LIMIT (js_round (of_int adjusted * so_multiplier ov))))"

definition getSessionId :: "string option \<Rightarrow> string \<Rightarrow> string" where
  "getSessionId sessionId agentId =
     (case sessionId of
        Some s \<Rightarrow> if js_trim s \<noteq> [] then s
                  else if js_trim agentId \<noteq> [] then agentId @ '':default'' else SESSION_FALLBACK
      | None \<Rightarrow> if js_trim agentId \<noteq> [] then agentId @ '':default'' else SESSION_FALLBACK)"

subsection \<open>Buckets and budgets\<close>

record window_outcome =
  wo_allowed :: bool
  wo_retryAfterMs :: "int option"
  wo_pressure :: rat
  wo_blockedCount :: nat

definition bucket_of :: "string \<Rightarrow> flood_guard \<Rightarrow> bucket" where
  "bucket_of key g = count_of (fg_buckets g) key \<lparr>bk_ts = [], bk_blocked = 0\<rparr>"

definition budget_of :: "string \<Rightarrow> flood_guard \<Rightarrow> budget" where
  "budget_of key g = count_of (fg_budgets g) key \<lparr>bd_events = [], bd_blocked = 0\<rparr>"

text \<open>A limit is at least 1, so a full bucket has a first timestamp; \<open>None\<close> would be \<open>NaN\<close>.\<close>

definition consumeWithinWindow :: "string \<Rightarrow> int \<Rightarrow> int \<Rightarrow> int \<Rightarrow> flood_guard \<Rightarrow> flood_guard \<times> window_outcome" where
  "consumeWithinWindow key now windowMs limit g =
     (let b0 = bucket_of key g;
          b = b0\<lparr>bk_ts := filter (\<lambda>t. t > now - windowMs) (bk_ts b0)\<rparr>;
          used = length (bk_ts b);
          pressure = of_nat used / of_int (max limit 1)
      in if int used \<ge> limit then
           (let b' = b\<lparr>bk_blocked := bk_blocked b + 1\<rparr> in
            (g\<lparr>fg_buckets := omap_put key b' (fg_buckets g)\<rparr>,
             \<lparr>wo_allowed = False,
              wo_retryAfterMs = (case bk_ts b of [] \<Rightarrow> None | t # ts \<Rightarrow> Some (max 250 (windowMs - (now - t)))),
              wo_pressure = max 1 pressure, wo_blockedCount = bk_blocked b'\<rparr>))
         else
           (g\<lparr>fg_buckets := omap_put key (b\<lparr>bk_ts := bk_ts b @ [now]\<rparr>) (fg_buckets g)\<rparr>,
            \<lparr>wo_allowed = True, wo_retryAfterMs = None, wo_pressure = pressure, wo_blockedCount = bk_blocked b\<rparr>))"

definition consumeBudget :: "string \<Rightarrow> int \<Rightarrow> rat \<Rightarrow> int \<Rightarrow> flood_guard \<Rightarrow> flood_guard \<times> window_outcome" where
  "consumeBudget key now units budgetLimit g =
     (let r0 = budget_of key g;
          r = r0\<lparr>bd_events := filter (\<lambda>e. fst e > now - 3600000) (bd_events r0)\<rparr>;
          used = sum_list (map snd (bd_events r));
          pressure = used / of_int (max budgetLimit 1)
      in if used + units > of_int budgetLimit then
           (let r' = r\<lparr>bd_blocked := bd_blocked r + 1\<rparr> in
            (g\<lparr>fg_budgets := omap_put key r' (fg_budgets g)\<rparr>,
             \<lparr>wo_allowed = False,
              wo_retryAfterMs = Some (case bd_events r of [] \<Rightarrow> 60000 | e # es \<Rightarrow> max 1000 (3600000 - (now - fst e))),
              wo_pressure = max 1 pressure, wo_blockedCount = bd_blocked r'\<rparr>))
         else
           (g\<lparr>fg_budgets := omap_put key (r\<lparr>bd_events := bd_events r @ [(now, units)]\<rparr>) (fg_budgets g)\<rparr>,
            \<lparr>wo_allowed = True, wo_retryAfterMs = None, wo_pressure = pressure, wo_blockedCount = bd_blocked r\<rparr>))"

definition estimateEvaluateUnits :: "cost_weights \<Rightarrow> agent_context \<Rightarrow> rat" where
  "estimateEvaluateUnits w ctx =
     (let u0 = cw_evaluateBase w;
          u1 = (if cx_plane ctx = Tool then of_int (js_round (u0 * cw_toolActionMultiplier w)) else u0);
          risky = (case cx_flow ctx of None \<Rightarrow> False
             | Some fl \<Rightarrow> js_opt_true (fl_highRisk fl)
                 \<or> (case fl_labels fl of None \<Rightarrow> False | Some ls \<Rightarrow> ExternalEgress \<in> set ls \<or> DestructiveAction \<in> set ls));
          u2 = (if risky then of_int (js_round (u1 * cw_highRiskMultiplier w)) else u1)
      in max 1 u2)"

definition estimateApprovalRequestUnits :: "cost_weights \<Rightarrow> approval_request \<Rightarrow> bool \<Rightarrow> rat" where
  "estimateApprovalRequestUnits w req requiresManual =
     (let u0 = cw_approvalRequest w;
          u1 = (if requiresManual then u0 + cw_approvalRequiresManual w else u0);
          u2 = (if cx_plane (aq_context req) = Tool then of_int (js_round (u1 * cw_toolActionMultiplier w)) else u1);
          u3 = (if pr_riskLevel (aq_policyResult req) = High then of_int (js_round (u2 * cw_highRiskMultiplier w)) else u2);
          u4 = (if pr_riskLevel (aq_policyResult req) = Critical
                then of_int (js_round (u3 * cw_criticalRiskMultiplier w)) else u3)
      in max 1 u4)"

subsection \<open>The three decisions\<close>

definition allowed_result :: check_result where
  "allowed_result = \<lparr>gc_allowed = True, gc_reason = None, gc_retryAfterMs = None\<rparr>"

definition blocked_result :: "string \<Rightarrow> int option \<Rightarrow> check_result" where
  "blocked_result reason retry = \<lparr>gc_allowed = False, gc_reason = Some reason, gc_retryAfterMs = retry\<rparr>"

record event_head =
  eh_now :: int
  eh_category :: guard_category
  eh_key :: string
  eh_sessionId :: "string option"
  eh_actor :: "string option"
  eh_riskLevel :: "risk_level option"

definition allowed_event :: "(int \<Rightarrow> string) \<Rightarrow> event_head \<Rightarrow> window_outcome \<Rightarrow> guard_detail \<Rightarrow> flood_guard \<Rightarrow> flood_guard" where
  "allowed_event to_iso h r detail g = emitTelemetry
     \<lparr>ge_timestamp = to_iso (eh_now h), ge_category = eh_category h, ge_key = eh_key h, ge_sessionId = eh_sessionId h,
      ge_actor = eh_actor h, ge_riskLevel = eh_riskLevel h, ge_allowed = True, ge_blockedReason = None,
      ge_retryAfterMs = None, ge_pressure = wo_pressure r, ge_blockedCount = wo_blockedCount r,
      ge_mode = getMode (eh_now h) g, ge_detail = detail\<rparr> g"

definition block ::
  "(int \<Rightarrow> string) \<Rightarrow> event_head \<Rightarrow> string \<Rightarrow> int option \<Rightarrow> rat \<Rightarrow> nat \<Rightarrow> guard_detail \<Rightarrow> flood_guard
     \<Rightarrow> flood_guard \<times> check_result" where
  "block to_iso h reason retry pressure blockedCount detail g =
     (emitTelemetry
       \<lparr>ge_timestamp = to_iso (eh_now h), ge_category = eh_category h, ge_key = eh_key h, ge_sessionId = eh_sessionId h,
        ge_actor = eh_actor h, ge_riskLevel = eh_riskLevel h, ge_allowed = False, ge_blockedReason = Some reason,
        ge_retryAfterMs = retry, ge_pressure = pressure, ge_blockedCount = blockedCount,
        ge_mode = getMode (eh_now h) g, ge_detail = detail\<rparr> g,
      blocked_result reason retry)"

definition chargeBudget ::
  "(int \<Rightarrow> string) \<Rightarrow> guard_config \<Rightarrow> int \<Rightarrow> string \<Rightarrow> risk_level option \<Rightarrow> rat \<Rightarrow> flood_guard
     \<Rightarrow> flood_guard \<times> check_result" where
  "chargeBudget to_iso cfg now sessionId risk units g =
     (let h = \<lparr>eh_now = now, eh_category = CostCat, eh_key = ''session:'' @ sessionId, eh_sessionId = Some sessionId,
               eh_actor = None, eh_riskLevel = risk\<rparr>;
          (g1, limit) = getSessionLimit sessionId (gg_costBudgetPerHourPerSession cfg)
             (shield_opt cfg sh_costBudgetMultiplier) now g;
          (g2, r) = consumeBudget (''budget:session:'' @ sessionId) now units limit g1
      in if \<not> wo_allowed r then
           block to_iso h (''Cost budget exceeded for session '' @ sessionId) (wo_retryAfterMs r) (wo_pressure r)
             (wo_blockedCount r) (UnitsDetail units) g2
         else (allowed_event to_iso h r (UnitsDetail units) g2, allowed_result))"

definition evaluateTool ::
  "(int \<Rightarrow> string) \<Rightarrow> guard_config \<Rightarrow> agent_context \<Rightarrow> string \<Rightarrow> int \<Rightarrow> flood_guard \<Rightarrow> flood_guard \<times> check_result" where
  "evaluateTool to_iso cfg ctx sessionId now g =
     (if cx_plane ctx \<noteq> Tool then (g, allowed_result)
      else
       (let h = \<lparr>eh_now = now, eh_category = ToolCat, eh_key = sessionId @ '':'' @ cx_action ctx,
                 eh_sessionId = Some sessionId, eh_actor = None, eh_riskLevel = None\<rparr>;
            (g1, limit) = getSessionLimit sessionId (gg_toolActionPerMinutePerSession cfg)
               (shield_opt cfg sh_toolActionRateMultiplier) now g;
            (g2, r) = consumeWithinWindow (''eval:session:'' @ sessionId @ '':tool:'' @ cx_action ctx) now 60000 limit g1
        in if \<not> wo_allowed r then
             block to_iso h (''Tool action flood detected for '' @ cx_action ctx) (wo_retryAfterMs r) (wo_pressure r)
               (wo_blockedCount r) (ActionDetail (cx_action ctx)) g2
           else (allowed_event to_iso h r (ActionDetail (cx_action ctx)) g2, allowed_result)))"

definition evaluateRequest ::
  "(int \<Rightarrow> string) \<Rightarrow> guard_config \<Rightarrow> agent_context \<Rightarrow> int \<Rightarrow> flood_guard \<Rightarrow> flood_guard \<times> check_result" where
  "evaluateRequest to_iso cfg ctx now g =
     (if \<not> gg_enabled cfg then (g, allowed_result)
      else
       (let sessionId = getSessionId (cx_sessionId ctx) (cx_agentId ctx);
            h = \<lparr>eh_now = now, eh_category = RequestCat, eh_key = ''session:'' @ sessionId,
                 eh_sessionId = Some sessionId, eh_actor = None, eh_riskLevel = None\<rparr>;
            (g1, limit) = getSessionLimit sessionId (gg_requestPerMinutePerSession cfg)
               (shield_opt cfg sh_requestRateMultiplier) now g;
            (g2, r) = consumeWithinWindow (''eval:session:'' @ sessionId) now 60000 limit g1
        in if \<not> wo_allowed r then
             block to_iso h (''Request flood detected for session '' @ sessionId) (wo_retryAfterMs r) (wo_pressure r)
               (wo_blockedCount r) NoDetail g2
           else
            (let g3 = allowed_event to_iso h r NoDetail g2;
                 (g4, tool) = evaluateTool to_iso cfg ctx sessionId now g3
             in if \<not> gc_allowed tool then (g4, tool)
                else chargeBudget to_iso cfg now sessionId None (estimateEvaluateUnits (gg_costWeights cfg) ctx) g4)))"

definition approvalRequest ::
  "(int \<Rightarrow> string) \<Rightarrow> guard_config \<Rightarrow> approval_request \<Rightarrow> approval_mode \<Rightarrow> int \<Rightarrow> int \<Rightarrow> int \<Rightarrow> flood_guard
     \<Rightarrow> flood_guard \<times> check_result" where
  "approvalRequest to_iso cfg req mode pendingForSession pendingGlobal now g =
     (if \<not> gg_enabled cfg then (g, allowed_result)
      else
       (let sessionId = getSessionId (cx_sessionId (aq_context req)) (cx_agentId (aq_context req));
            risk = pr_riskLevel (aq_policyResult req);
            globalCap = adjustLimit (gg_maxPendingApprovalsGlobal cfg) (shield_opt cfg sh_maxPendingGlobalMultiplier) now g;
            (g1, sessionCap) = getSessionLimit sessionId (gg_maxPendingApprovalsPerSession cfg)
               (shield_opt cfg sh_maxPendingSessionMultiplier) now g;
            queuePressure = max (of_int pendingGlobal / of_int (max globalCap 1))
                                (of_int pendingForSession / of_int (max sessionCap 1)) :: rat;
            threshold = (case shield_opt cfg sh_queuePriorityPressureThreshold of None \<Rightarrow> 65 / 100 | Some t \<Rightarrow> t);
            queue = \<lparr>eh_now = now, eh_category = QueueCat, eh_key = ''session:'' @ sessionId,
                     eh_sessionId = Some sessionId, eh_actor = None, eh_riskLevel = Some risk\<rparr>
        in if getMode now g1 = Shield \<and> queuePressure \<ge> threshold \<and> \<not> (risk = High \<or> risk = Critical) then
             block to_iso queue (''Approval queue pressure prioritization engaged for session '' @ sessionId) (Some 5000)
               queuePressure 1 (PriorityDetail pendingGlobal pendingForSession globalCap sessionCap) g1
           else if pendingGlobal \<ge> globalCap then
             block to_iso (queue\<lparr>eh_key := ''global''\<rparr>)
               (''Approval queue flood detected (global pending '' @ show_int pendingGlobal @ '')'') (Some 5000)
               queuePressure 1 (GlobalDetail pendingGlobal globalCap) g1
           else if pendingForSession \<ge> sessionCap then
             block to_iso queue (''Approval queue flood detected for session '' @ sessionId) (Some 5000)
               queuePressure 1 (SessionDetail pendingForSession sessionCap) g1
           else
            (let h = queue\<lparr>eh_category := ApprovalRequestCat\<rparr>;
                 (g2, limit) = getSessionLimit sessionId (gg_approvalRequestsPerMinutePerSession cfg)
                    (shield_opt cfg sh_approvalRequestRateMultiplier) now g1;
                 (g3, burst) = consumeWithinWindow (''approval:req:session:'' @ sessionId) now 60000 limit g2
             in if \<not> wo_allowed burst then
                  block to_iso h (''Approval request flood detected for session '' @ sessionId) (wo_retryAfterMs burst)
                    (wo_pressure burst) (wo_blockedCount burst) NoDetail g3
                else
                 (let g4 = allowed_event to_iso h burst (PressureDetail queuePressure) g3;
                      requiresManual = (mode = AlwaysMode
                        \<or> mode = AutoMode \<and> pr_requiresApproval (aq_policyResult req));
                      units = estimateApprovalRequestUnits (gg_costWeights cfg) req requiresManual
                  in chargeBudget to_iso cfg now sessionId (Some risk) units g4))))"

definition approvalResponse ::
  "(int \<Rightarrow> string) \<Rightarrow> guard_config \<Rightarrow> string option \<Rightarrow> int \<Rightarrow> flood_guard \<Rightarrow> flood_guard \<times> check_result" where
  "approvalResponse to_iso cfg actorId now g =
     (if \<not> gg_enabled cfg then (g, allowed_result)
      else
       (let trimmed = (case actorId of None \<Rightarrow> [] | Some a \<Rightarrow> js_trim a);
            actor = (if trimmed = [] then ACTOR_FALLBACK else trimmed);
            h = \<lparr>eh_now = now, eh_category = ApprovalResponseCat, eh_key = ''actor:'' @ actor, eh_sessionId = None,
                 eh_actor = Some actor, eh_riskLevel = None\<rparr>;
            (g1, r) = consumeWithinWindow (''approval:resp:actor:'' @ actor) now 60000
               (adjustLimit (gg_approvalResponsesPerMinutePerActor cfg)
                  (shield_opt cfg sh_approvalResponseRateMultiplier) now g) g
        in if \<not> wo_allowed r then
             block to_iso h (''Approval response flood detected for actor '' @ actor) (wo_retryAfterMs r) (wo_pressure r)
               (wo_blockedCount r) NoDetail g1
           else (allowed_event to_iso h r NoDetail g1, allowed_result)))"

subsection \<open>Runs\<close>

datatype guard_op =
    EvaluateOp agent_context
  | ApprovalRequestOp approval_request approval_mode int int
  | ApprovalResponseOp "string option"
  | ShieldOp bool "int option"
  | OverrideOp string rat int
  | ClearOverrideOp string
  | SnapshotOp

fun guard_step :: "(int \<Rightarrow> string) \<Rightarrow> guard_config \<Rightarrow> int \<times> guard_op \<Rightarrow> flood_guard \<Rightarrow> flood_guard" where
  "guard_step to_iso cfg (now, EvaluateOp ctx) g = fst (evaluateRequest to_iso cfg ctx now g)"
| "guard_step to_iso cfg (now, ApprovalRequestOp req mode ps pg) g = fst (approvalRequest to_iso cfg req mode ps pg now g)"
| "guard_step to_iso cfg (now, ApprovalResponseOp actor) g = fst (approvalResponse to_iso cfg actor now g)"
| "guard_step to_iso cfg (now, ShieldOp enabled dur) g = fst (setShieldMode to_iso cfg enabled now dur g)"
| "guard_step to_iso cfg (now, OverrideOp sid m dur) g =
     (case setSessionOverride to_iso sid m now dur g of None \<Rightarrow> g | Some (g', row) \<Rightarrow> g')"
| "guard_step to_iso cfg (now, ClearOverrideOp sid) g = fst (clearSessionOverride sid g)"
| "guard_step to_iso cfg (now, SnapshotOp) g = fst (getTelemetrySnapshot to_iso now g)"

subsection \<open>Frame lemmas\<close>

lemma emitTelemetry_frame [simp]:
  "fg_buckets (emitTelemetry ev g) = fg_buckets g" "fg_budgets (emitTelemetry ev g) = fg_budgets g"
  "fg_overrides (emitTelemetry ev g) = fg_overrides g" "fg_shieldUntil (emitTelemetry ev g) = fg_shieldUntil g"
  by (simp_all add: emitTelemetry_def)

lemma cleanup_frame [simp]:
  "fg_buckets (cleanupSessionOverrides now g) = fg_buckets g" "fg_budgets (cleanupSessionOverrides now g) = fg_budgets g"
  "fg_shieldUntil (cleanupSessionOverrides now g) = fg_shieldUntil g"
  by (simp_all add: cleanupSessionOverrides_def)

lemma fst_getSessionLimit [simp]: "fst (getSessionLimit sid base m now g) = cleanupSessionOverrides now g"
  by (simp add: getSessionLimit_def getSessionOverride_def Let_def split: option.split)

lemma event_frame [simp]:
  "fg_buckets (allowed_event to_iso h r d g) = fg_buckets g" "fg_budgets (allowed_event to_iso h r d g) = fg_budgets g"
  "fg_overrides (allowed_event to_iso h r d g) = fg_overrides g"
  "fg_buckets (fst (block to_iso h reason retry p n d g)) = fg_buckets g"
  "fg_budgets (fst (block to_iso h reason retry p n d g)) = fg_budgets g"
  "fg_overrides (fst (block to_iso h reason retry p n d g)) = fg_overrides g"
  "gc_allowed (snd (block to_iso h reason retry p n d g)) = False"
  by (simp_all add: allowed_event_def block_def blocked_result_def)

lemma consume_frame [simp]:
  "fg_budgets (fst (consumeWithinWindow k now w l g)) = fg_budgets g"
  "fg_overrides (fst (consumeWithinWindow k now w l g)) = fg_overrides g"
  "fg_buckets (fst (consumeBudget k now u bl g)) = fg_buckets g"
  "fg_overrides (fst (consumeBudget k now u bl g)) = fg_overrides g"
  by (simp_all add: consumeWithinWindow_def consumeBudget_def Let_def)

lemma gc_allowed_result [simp]: "gc_allowed allowed_result"
  by (simp add: allowed_result_def)

lemma charge_frame [simp]:
  "fg_buckets (fst (chargeBudget to_iso cfg now sid risk units g)) = fg_buckets g"
  "fg_overrides (fst (chargeBudget to_iso cfg now sid risk units g)) = fg_overrides (cleanupSessionOverrides now g)"
  by (simp_all add: chargeBudget_def case_prod_unfold Let_def)

lemma no_override_cleanup:
  "omap_get (fg_overrides g) sid = None \<Longrightarrow> omap_get (fg_overrides (cleanupSessionOverrides now g)) sid = None"
  by (auto simp: cleanupSessionOverrides_def omap_get_def map_of_eq_None_iff)

text \<open>Without an override the limit in force is one of two numbers.\<close>

definition limit_cap :: "rat \<Rightarrow> rat option \<Rightarrow> int" where
  "limit_cap base m = max (max MIN_LIMIT (js_round base))
     (max MIN_LIMIT (js_round (base * (case m of None \<Rightarrow> 1 / 2 | Some x \<Rightarrow> x))))"

lemma snd_getSessionLimit_le:
  "omap_get (fg_overrides g) sid = None \<Longrightarrow> snd (getSessionLimit sid base m now g) \<le> limit_cap base m"
  using no_override_cleanup [of g sid now]
  by (auto simp: getSessionLimit_def getSessionOverride_def adjustLimit_def limit_cap_def Let_def)

lemma limit_cap_ge: "1 \<le> limit_cap base m"
  by (simp add: limit_cap_def MIN_LIMIT_def)

subsection \<open>Rate buckets\<close>

definition held :: "string \<Rightarrow> int multiset \<Rightarrow> flood_guard \<Rightarrow> bool" where
  "held k M g \<longleftrightarrow> M \<subseteq># mset (bk_ts (bucket_of k g))"

lemma held_cong: "fg_buckets g = fg_buckets g' \<Longrightarrow> held k M g = held k M g'"
  by (simp add: held_def bucket_of_def)

lemma held_filter:
  "M \<subseteq># mset ts \<Longrightarrow> \<forall>t \<in># M. P t \<Longrightarrow> M \<subseteq># mset (filter P ts)"
  by (metis filter_mset_eq_conv mset_filter multiset_filter_mono subset_mset.refl filter_mset_cong filter_mset_True)

lemma held_consume:
  assumes "held k M g" "\<forall>t \<in># M. t > now - w"
  shows "held k M (fst (consumeWithinWindow k' now w l g))"
    and "k' = k \<Longrightarrow> wo_allowed (snd (consumeWithinWindow k' now w l g)) \<Longrightarrow>
         held k (add_mset now M) (fst (consumeWithinWindow k' now w l g))"
proof -
  have "M \<subseteq># mset (filter (\<lambda>t. t > now - w) (bk_ts (bucket_of k g)))"
    using assms held_filter unfolding held_def by blast
  then show "held k M (fst (consumeWithinWindow k' now w l g))"
    and "k' = k \<Longrightarrow> wo_allowed (snd (consumeWithinWindow k' now w l g)) \<Longrightarrow>
         held k (add_mset now M) (fst (consumeWithinWindow k' now w l g))"
    using assms(1)
    by (auto simp: consumeWithinWindow_def held_def bucket_of_def count_of_def Let_def
        intro: subset_mset.order_trans)
qed

lemma wo_allowed_consume:
  "wo_allowed (snd (consumeWithinWindow k now w l g)) \<longleftrightarrow>
     int (length (filter (\<lambda>t. t > now - w) (bk_ts (bucket_of k g)))) < l"
  by (auto simp: consumeWithinWindow_def Let_def)

lemma held_evaluateTool:
  assumes "held k M g" "\<forall>t \<in># M. t > now - 60000"
  shows "held k M (fst (evaluateTool to_iso cfg ctx sid now g))"
proof -
  have "held k M (cleanupSessionOverrides now g)" using assms(1) held_cong [of g "cleanupSessionOverrides now g"] by simp
  from held_consume(1) [OF this assms(2)] show ?thesis
    using assms(1) by (simp add: evaluateTool_def case_prod_unfold Let_def held_def bucket_of_def)
qed

lemma held_evaluateRequest:
  assumes "held k M g" "\<forall>t \<in># M. t > now - 60000"
  shows "held k M (fst (evaluateRequest to_iso cfg ctx now g))"
    and "gg_enabled cfg \<Longrightarrow> k = ''eval:session:'' @ getSessionId (cx_sessionId ctx) (cx_agentId ctx) \<Longrightarrow>
      gc_allowed (snd (evaluateRequest to_iso cfg ctx now g)) \<Longrightarrow>
      held k (add_mset now M) (fst (evaluateRequest to_iso cfg ctx now g))"
proof -
  define sid where "sid = getSessionId (cx_sessionId ctx) (cx_agentId ctx)"
  define g1 where "g1 = cleanupSessionOverrides now g"
  define c where "c = consumeWithinWindow (''eval:session:'' @ sid) now 60000
      (snd (getSessionLimit sid (gg_requestPerMinutePerSession cfg) (shield_opt cfg sh_requestRateMultiplier) now g)) g1"
  have g1: "held k M g1" using assms(1) held_cong [of g g1] by (simp add: g1_def)
  have c: "held k M (fst c)" unfolding c_def by (rule held_consume(1) [OF g1 assms(2)])
  have c': "k = ''eval:session:'' @ sid \<Longrightarrow> wo_allowed (snd c) \<Longrightarrow> held k (add_mset now M) (fst c)"
    unfolding c_def by (rule held_consume(2) [OF g1 assms(2)]) simp_all
  have tool: "held k N (fst (evaluateTool to_iso cfg ctx sid now (allowed_event to_iso h r d (fst c))))"
    if "held k N (fst c)" "\<forall>t \<in># N. t > now - 60000" for N h r d
    by (rule held_evaluateTool) (use that held_cong [of "allowed_event to_iso h r d (fst c)" "fst c"] in auto)
  have ev: "evaluateRequest to_iso cfg ctx now g =
    (if \<not> gg_enabled cfg then (g, allowed_result)
     else let h = \<lparr>eh_now = now, eh_category = RequestCat, eh_key = ''session:'' @ sid,
                 eh_sessionId = Some sid, eh_actor = None, eh_riskLevel = None\<rparr> in
       if \<not> wo_allowed (snd c) then
         block to_iso h (''Request flood detected for session '' @ sid) (wo_retryAfterMs (snd c)) (wo_pressure (snd c))
               (wo_blockedCount (snd c)) NoDetail (fst c)
       else let t = evaluateTool to_iso cfg ctx sid now (allowed_event to_iso h (snd c) NoDetail (fst c)) in
         if \<not> gc_allowed (snd t) then t
         else chargeBudget to_iso cfg now sid None (estimateEvaluateUnits (gg_costWeights cfg) ctx) (fst t))"
    by (simp add: evaluateRequest_def case_prod_unfold Let_def c_def g1_def sid_def)
  show "held k M (fst (evaluateRequest to_iso cfg ctx now g))"
    unfolding ev Let_def using assms(1) c tool [OF c assms(2)] by (simp add: held_def bucket_of_def)
  show "held k (add_mset now M) (fst (evaluateRequest to_iso cfg ctx now g))"
    if "gg_enabled cfg" "k = ''eval:session:'' @ getSessionId (cx_sessionId ctx) (cx_agentId ctx)"
      "gc_allowed (snd (evaluateRequest to_iso cfg ctx now g))"
  proof -
    have "wo_allowed (snd c)" using that(1,3) unfolding ev Let_def by (auto split: if_splits)
    then have "held k (add_mset now M) (fst c)" using c' that(2) by (simp add: sid_def)
    moreover have "\<forall>t \<in># add_mset now M. t > now - 60000" using assms(2) by auto
    ultimately show ?thesis
      unfolding ev Let_def using that(1) \<open>wo_allowed (snd c)\<close> tool by (simp add: held_def bucket_of_def)
  qed
qed

lemma held_approvalRequest:
  assumes "held k M g" "\<forall>t \<in># M. t > now - 60000"
  shows "held k M (fst (approvalRequest to_iso cfg req mode ps pg now g))"
proof -
  have c: "held k M (cleanupSessionOverrides now (cleanupSessionOverrides now g))"
    using assms(1) by (simp add: held_def bucket_of_def)
  note held_consume(1) [OF c assms(2)]
  then show ?thesis
    using assms(1)
    by (simp add: approvalRequest_def case_prod_unfold Let_def held_def bucket_of_def)
qed

lemma held_approvalResponse:
  assumes "held k M g" "\<forall>t \<in># M. t > now - 60000"
  shows "held k M (fst (approvalResponse to_iso cfg actor now g))"
  using assms(1) held_consume(1) [OF assms]
  by (simp add: approvalResponse_def case_prod_unfold Let_def held_def bucket_of_def)

lemma setShieldMode_frame [simp]:
  "fg_buckets (fst (setShieldMode to_iso cfg e now d g)) = fg_buckets g"
  "fg_budgets (fst (setShieldMode to_iso cfg e now d g)) = fg_budgets g"
  "fg_overrides (fst (setShieldMode to_iso cfg e now d g)) = fg_overrides g"
  by (simp_all add: setShieldMode_def Let_def)

lemma snapshot_frame [simp]:
  "fg_buckets (fst (getTelemetrySnapshot to_iso now g)) = fg_buckets g"
  "fg_budgets (fst (getTelemetrySnapshot to_iso now g)) = fg_budgets g"
  "fg_overrides (fst (getTelemetrySnapshot to_iso now g)) = fg_overrides (cleanupSessionOverrides now g)"
  by (simp_all add: getTelemetrySnapshot_def Let_def)

lemma override_frame:
  "setSessionOverride to_iso sid m now d g = Some (g', row) \<Longrightarrow>
     fg_buckets g' = fg_buckets g \<and> fg_budgets g' = fg_budgets g
     \<and> fg_overrides g' = omap_put (js_trim sid) \<lparr>so_multiplier = max (1 / 2) (min 3 m), so_expiresAt = now + max 60000 d\<rparr>
          (fg_overrides g)"
  by (auto simp: setSessionOverride_def Let_def split: if_splits)

lemma clear_frame [simp]:
  "fg_buckets (fst (clearSessionOverride sid g)) = fg_buckets g"
  "fg_budgets (fst (clearSessionOverride sid g)) = fg_budgets g"
  "fg_overrides (fst (clearSessionOverride sid g)) = omap_del (js_trim sid) (fg_overrides g)"
  by (simp_all add: clearSessionOverride_def)

lemma held_step:
  assumes "held k M g" "\<forall>t \<in># M. t > now - 60000"
  shows "held k M (guard_step to_iso cfg (now, oper) g)"
proof (cases oper)
  case (OverrideOp sid m d)
  with assms show ?thesis
    by (auto simp: held_def bucket_of_def dest!: override_frame split: option.split)
qed (use assms held_evaluateRequest(1) held_approvalRequest held_approvalResponse in
      \<open>simp_all add: held_cong [of "fst (setShieldMode to_iso cfg b now d g)" g for b d]
         held_cong [of "fst (clearSessionOverride sid g)" g for sid]
         held_cong [of "fst (getTelemetrySnapshot to_iso now g)" g]\<close>)

subsection \<open>Overrides\<close>

fun raises_limit :: "string \<Rightarrow> guard_op \<Rightarrow> bool" where
  "raises_limit sid (OverrideOp s m d) = (js_trim s = sid)"
| "raises_limit sid _ = False"

definition no_override :: "string \<Rightarrow> flood_guard \<Rightarrow> bool" where
  "no_override sid g \<longleftrightarrow> omap_get (fg_overrides g) sid = None"

lemma no_override_simps [simp]:
  "no_override sid g \<Longrightarrow> no_override sid (cleanupSessionOverrides now g)"
  "no_override sid (emitTelemetry ev g) = no_override sid g"
  "no_override sid (allowed_event to_iso h r d g) = no_override sid g"
  "no_override sid (fst (block to_iso h reason retry p n d g)) = no_override sid g"
  "no_override sid (fst (consumeWithinWindow k now w l g)) = no_override sid g"
  "no_override sid (fst (consumeBudget k now u bl g)) = no_override sid g"
  by (simp_all add: no_override_def no_override_cleanup)

lemma no_override_charge [simp]:
  "no_override sid g \<Longrightarrow> no_override sid (fst (chargeBudget to_iso cfg now s risk units g))"
  by (simp add: no_override_def no_override_cleanup)

lemma no_override_tool [simp]:
  "no_override sid g \<Longrightarrow> no_override sid (fst (evaluateTool to_iso cfg ctx s now g))"
  by (simp add: evaluateTool_def case_prod_unfold Let_def)

lemma no_override_step:
  assumes "no_override sid g" "\<not> raises_limit sid oper"
  shows "no_override sid (guard_step to_iso cfg (now, oper) g)"
proof (cases oper)
  case (EvaluateOp ctx)
  with assms show ?thesis by (simp add: evaluateRequest_def case_prod_unfold Let_def)
next
  case (ApprovalRequestOp req mode ps pg)
  with assms show ?thesis by (simp add: approvalRequest_def case_prod_unfold Let_def)
next
  case (ApprovalResponseOp actor)
  with assms show ?thesis by (simp add: approvalResponse_def case_prod_unfold Let_def)
next
  case (OverrideOp s m d)
  with assms show ?thesis
    by (auto simp: no_override_def dest!: override_frame split: option.split)
qed (use assms in \<open>simp_all add: no_override_def no_override_cleanup\<close>)

subsection \<open>The request limiter\<close>

definition session_requests :: "string \<Rightarrow> flood_guard \<Rightarrow> (int \<times> rat) multiset" where
  "session_requests sid g = unit_entries (mset (bk_ts (bucket_of (''eval:session:'' @ sid) g)))"

fun request_grant :: "(int \<Rightarrow> string) \<Rightarrow> guard_config \<Rightarrow> string \<Rightarrow> int \<times> guard_op \<Rightarrow> flood_guard \<Rightarrow> rat option" where
  "request_grant to_iso cfg sid (now, EvaluateOp ctx) g =
     (if gg_enabled cfg \<and> getSessionId (cx_sessionId ctx) (cx_agentId ctx) = sid
         \<and> gc_allowed (snd (evaluateRequest to_iso cfg ctx now g)) then Some 1 else None)"
| "request_grant to_iso cfg sid _ g = None"

definition request_cap :: "guard_config \<Rightarrow> int" where
  "request_cap cfg = limit_cap (gg_requestPerMinutePerSession cfg) (shield_opt cfg sh_requestRateMultiplier)"

lemma evaluateRequest_granted:
  assumes "gg_enabled cfg" "gc_allowed (snd (evaluateRequest to_iso cfg ctx now g))"
    and "sid = getSessionId (cx_sessionId ctx) (cx_agentId ctx)"
  shows "int (length (filter (\<lambda>t. t > now - 60000) (bk_ts (bucket_of (''eval:session:'' @ sid) g))))
     < snd (getSessionLimit sid (gg_requestPerMinutePerSession cfg) (shield_opt cfg sh_requestRateMultiplier) now g)"
proof -
  have "wo_allowed (snd (consumeWithinWindow (''eval:session:'' @ sid) now 60000
      (snd (getSessionLimit sid (gg_requestPerMinutePerSession cfg) (shield_opt cfg sh_requestRateMultiplier) now g))
      (cleanupSessionOverrides now g)))"
    using assms by (auto simp: evaluateRequest_def case_prod_unfold Let_def split: if_splits)
  then show ?thesis by (simp add: wo_allowed_consume bucket_of_def)
qed

interpretation requests: window_limiter 60000 "session_requests sid" "no_override sid"
    "\<lambda>o'. \<not> raises_limit sid (snd o')" "guard_step to_iso cfg" fst "request_grant to_iso cfg sid"
    "of_int (request_cap cfg)" for sid to_iso cfg
proof
  let ?K = "''eval:session:'' @ sid"
  show "0 \<le> (of_int (request_cap cfg) :: rat)" using limit_cap_ge by (simp add: request_cap_def order_trans [OF zero_le_one])
  show "no_override sid (guard_step to_iso cfg oper g)" if "no_override sid g" "\<not> raises_limit sid (snd oper)" for g oper
    using no_override_step [of sid g "snd oper" to_iso cfg "fst oper"] that by simp
  show "0 \<le> snd e" if "e \<in># session_requests sid g" for e g
    using that by (auto simp: session_requests_def unit_entries_def)
  show "live 60000 (fst oper) (session_requests sid g)
      + (case request_grant to_iso cfg sid oper g of None \<Rightarrow> {#} | Some w \<Rightarrow> {#(fst oper, w)#})
      \<subseteq># session_requests sid (guard_step to_iso cfg oper g)" for g oper
  proof -
    obtain now gop where o': "oper = (now, gop)" by (cases oper)
    let ?M = "filter_mset (\<lambda>t. t > now - 60000) (mset (bk_ts (bucket_of ?K g)))"
    have M: "held ?K ?M g" "\<forall>t \<in># ?M. t > now - 60000" by (simp_all add: held_def)
    show ?thesis
    proof (cases "request_grant to_iso cfg sid oper g")
      case None
      from held_step [OF M, of to_iso cfg gop] have "unit_entries ?M \<subseteq># session_requests sid (guard_step to_iso cfg oper g)"
        by (simp add: session_requests_def held_def unit_entries_mono o')
      with None show ?thesis by (simp add: session_requests_def live_unit_entries o')
    next
      case (Some w)
      then obtain ctx where ctx: "gop = EvaluateOp ctx" "gg_enabled cfg" "w = 1"
          "getSessionId (cx_sessionId ctx) (cx_agentId ctx) = sid"
          "gc_allowed (snd (evaluateRequest to_iso cfg ctx now g))"
        unfolding o' by (cases gop) (auto split: if_splits)
      have "held ?K (add_mset now ?M) (guard_step to_iso cfg oper g)"
        using held_evaluateRequest(2) [OF M ctx(2) _ ctx(5)] ctx(1,4) by (simp add: o')
      then have "unit_entries (add_mset now ?M) \<subseteq># session_requests sid (guard_step to_iso cfg oper g)"
        by (simp add: session_requests_def held_def unit_entries_mono)
      with Some ctx show ?thesis by (simp add: session_requests_def live_unit_entries o') (simp add: unit_entries_def)
    qed
  qed
  show "total (live 60000 (fst oper) (session_requests sid g)) + w \<le> of_int (request_cap cfg)"
    if "no_override sid g" "request_grant to_iso cfg sid oper g = Some w" for g oper w
  proof -
    note granted = that(2)
    obtain now gop where o': "oper = (now, gop)" by (cases oper)
    obtain ctx where ctx: "gg_enabled cfg" "w = 1" "getSessionId (cx_sessionId ctx) (cx_agentId ctx) = sid"
        "gc_allowed (snd (evaluateRequest to_iso cfg ctx now g))"
      using granted unfolding o' by (cases gop) (auto split: if_splits)
    let ?n = "length (filter (\<lambda>t. t > now - 60000) (bk_ts (bucket_of ?K g)))"
    have "int ?n < request_cap cfg"
      using evaluateRequest_granted [OF ctx(1,4) ctx(3) [symmetric]] that(1)
        snd_getSessionLimit_le [of g sid "gg_requestPerMinutePerSession cfg" "shield_opt cfg sh_requestRateMultiplier" now]
      by (simp add: request_cap_def no_override_def)
    then have "of_int (int ?n + 1) \<le> (of_int (request_cap cfg) :: rat)" unfolding of_int_le_iff by simp
    moreover have "total (live 60000 now (session_requests sid g)) = of_nat ?n"
      by (simp add: session_requests_def live_unit_entries total_unit_entries mset_filter [symmetric] del: mset_filter)
    ultimately show ?thesis by (simp add: o' ctx(2))
  qed
qed

subsection \<open>The cost limiter\<close>

definition session_costs :: "string \<Rightarrow> flood_guard \<Rightarrow> (int \<times> rat) multiset" where
  "session_costs sid g = mset (bd_events (budget_of (''budget:session:'' @ sid) g))"

definition costs_ok :: "string \<Rightarrow> flood_guard \<Rightarrow> bool" where
  "costs_ok sid g \<longleftrightarrow> no_override sid g \<and> (\<forall>e \<in># session_costs sid g. 0 \<le> snd e)"

definition cost_cap :: "guard_config \<Rightarrow> int" where
  "cost_cap cfg = limit_cap (gg_costBudgetPerHourPerSession cfg) (shield_opt cfg sh_costBudgetMultiplier)"

fun cost_grant :: "(int \<Rightarrow> string) \<Rightarrow> guard_config \<Rightarrow> string \<Rightarrow> int \<times> guard_op \<Rightarrow> flood_guard \<Rightarrow> rat option" where
  "cost_grant to_iso cfg sid (now, EvaluateOp ctx) g =
     (if gg_enabled cfg \<and> getSessionId (cx_sessionId ctx) (cx_agentId ctx) = sid
         \<and> gc_allowed (snd (evaluateRequest to_iso cfg ctx now g))
      then Some (estimateEvaluateUnits (gg_costWeights cfg) ctx) else None)"
| "cost_grant to_iso cfg sid (now, ApprovalRequestOp req mode ps pg) g =
     (if gg_enabled cfg \<and> getSessionId (cx_sessionId (aq_context req)) (cx_agentId (aq_context req)) = sid
         \<and> gc_allowed (snd (approvalRequest to_iso cfg req mode ps pg now g))
      then Some (estimateApprovalRequestUnits (gg_costWeights cfg) req
             (mode = AlwaysMode \<or> mode = AutoMode \<and> pr_requiresApproval (aq_policyResult req))) else None)"
| "cost_grant to_iso cfg sid _ g = None"

lemma session_costs_cong: "fg_budgets g = fg_budgets g' \<Longrightarrow> session_costs sid g = session_costs sid g'"
  by (simp add: session_costs_def budget_of_def)

lemma units_pos: "1 \<le> estimateEvaluateUnits w ctx" "1 \<le> estimateApprovalRequestUnits w req b"
  by (simp_all add: estimateEvaluateUnits_def estimateApprovalRequestUnits_def Let_def)

lemma session_costs_consume:
  "session_costs sid (fst (consumeBudget (''budget:session:'' @ s) now units bl g)) =
     (if s = sid then live 3600000 now (session_costs sid g)
        + (if wo_allowed (snd (consumeBudget (''budget:session:'' @ s) now units bl g)) then {#(now, units)#} else {#})
      else session_costs sid g)"
  by (auto simp: consumeBudget_def session_costs_def budget_of_def count_of_def live_def Let_def)

lemma wo_allowed_budget:
  "wo_allowed (snd (consumeBudget (''budget:session:'' @ sid) now units bl g)) \<longleftrightarrow>
     total (live 3600000 now (session_costs sid g)) + units \<le> of_int bl"
proof -
  have "total (live 3600000 now (mset es)) = sum_list (map snd (filter (\<lambda>e. fst e > now - 3600000) es))" for es
    by (simp add: live_def total_def mset_filter [symmetric] sum_mset_sum_list [symmetric] del: mset_filter)
  then show ?thesis by (auto simp: consumeBudget_def session_costs_def Let_def)
qed

lemma charge_cases:
  fixes sid now g cfg
  defines "bound \<equiv> snd (getSessionLimit sid (gg_costBudgetPerHourPerSession cfg) (shield_opt cfg sh_costBudgetMultiplier) now g)"
  shows "session_costs s (fst (chargeBudget to_iso cfg now sid risk units g)) =
     (if s = sid then live 3600000 now (session_costs s g)
        + (if gc_allowed (snd (chargeBudget to_iso cfg now sid risk units g)) then {#(now, units)#} else {#})
      else session_costs s g)"
    and "gc_allowed (snd (chargeBudget to_iso cfg now sid risk units g)) \<longleftrightarrow>
      total (live 3600000 now (session_costs sid g)) + units \<le> of_int bound"
proof -
  define c where "c = consumeBudget (''budget:session:'' @ sid) now units bound (cleanupSessionOverrides now g)"
  have cost: "session_costs s' (cleanupSessionOverrides now g) = session_costs s' g" for s'
    by (rule session_costs_cong) simp
  have al: "gc_allowed (snd (chargeBudget to_iso cfg now sid risk units g)) = wo_allowed (snd c)"
    by (simp add: chargeBudget_def case_prod_unfold Let_def c_def bound_def)
  have "fg_budgets (fst (chargeBudget to_iso cfg now sid risk units g)) = fg_budgets (fst c)"
    by (simp add: chargeBudget_def case_prod_unfold Let_def c_def bound_def)
  then have "session_costs s (fst (chargeBudget to_iso cfg now sid risk units g)) = session_costs s (fst c)"
    by (rule session_costs_cong)
  then show "session_costs s (fst (chargeBudget to_iso cfg now sid risk units g)) =
     (if s = sid then live 3600000 now (session_costs s g)
        + (if gc_allowed (snd (chargeBudget to_iso cfg now sid risk units g)) then {#(now, units)#} else {#})
      else session_costs s g)"
    unfolding al unfolding c_def session_costs_consume cost by auto
  show "gc_allowed (snd (chargeBudget to_iso cfg now sid risk units g)) \<longleftrightarrow>
      total (live 3600000 now (session_costs sid g)) + units \<le> of_int bound"
    unfolding al unfolding c_def wo_allowed_budget cost ..
qed

text \<open>An evaluation or an approval request either leaves the budgets alone, and then is not admitted, or
  ends in exactly one charge.\<close>

lemma evaluateRequest_cases:
  obtains (none) "fg_budgets (fst (evaluateRequest to_iso cfg ctx now g)) = fg_budgets g"
      "\<not> gg_enabled cfg \<or> \<not> gc_allowed (snd (evaluateRequest to_iso cfg ctx now g))"
  | (charge) g' where "fg_budgets g' = fg_budgets g" "\<And>s. no_override s g \<Longrightarrow> no_override s g'"
      "evaluateRequest to_iso cfg ctx now g = chargeBudget to_iso cfg now (getSessionId (cx_sessionId ctx) (cx_agentId ctx))
         None (estimateEvaluateUnits (gg_costWeights cfg) ctx) g'"
proof -
  define sid where "sid = getSessionId (cx_sessionId ctx) (cx_agentId ctx)"
  define c where "c = consumeWithinWindow (''eval:session:'' @ sid) now 60000
      (snd (getSessionLimit sid (gg_requestPerMinutePerSession cfg) (shield_opt cfg sh_requestRateMultiplier) now g))
      (cleanupSessionOverrides now g)"
  define h where "h = \<lparr>eh_now = now, eh_category = RequestCat, eh_key = ''session:'' @ sid,
                 eh_sessionId = Some sid, eh_actor = None, eh_riskLevel = None\<rparr>"
  define t where "t = evaluateTool to_iso cfg ctx sid now (allowed_event to_iso h (snd c) NoDetail (fst c))"
  have ev: "evaluateRequest to_iso cfg ctx now g =
    (if \<not> gg_enabled cfg then (g, allowed_result)
     else if \<not> wo_allowed (snd c) then
         block to_iso h (''Request flood detected for session '' @ sid) (wo_retryAfterMs (snd c)) (wo_pressure (snd c))
               (wo_blockedCount (snd c)) NoDetail (fst c)
       else if \<not> gc_allowed (snd t) then t
         else chargeBudget to_iso cfg now sid None (estimateEvaluateUnits (gg_costWeights cfg) ctx) (fst t))"
    by (simp add: evaluateRequest_def case_prod_unfold Let_def c_def sid_def h_def t_def)
  have t: "fg_budgets (fst t) = fg_budgets g" "\<And>s. no_override s g \<Longrightarrow> no_override s (fst t)"
    by (simp_all add: t_def evaluateTool_def case_prod_unfold Let_def c_def)
  show ?thesis
  proof (cases "gg_enabled cfg \<and> wo_allowed (snd c) \<and> gc_allowed (snd t)")
    case True
    then show ?thesis using charge [of "fst t"] t ev by (simp add: sid_def)
  next
    case False
    then show ?thesis using none t(1) unfolding ev by (auto simp: c_def)
  qed
qed

lemma approvalRequest_cases:
  obtains (none) "fg_budgets (fst (approvalRequest to_iso cfg req mode ps pg now g)) = fg_budgets g"
      "\<not> gg_enabled cfg \<or> \<not> gc_allowed (snd (approvalRequest to_iso cfg req mode ps pg now g))"
  | (charge) g' where "fg_budgets g' = fg_budgets g" "\<And>s. no_override s g \<Longrightarrow> no_override s g'"
      "approvalRequest to_iso cfg req mode ps pg now g =
         chargeBudget to_iso cfg now (getSessionId (cx_sessionId (aq_context req)) (cx_agentId (aq_context req)))
         (Some (pr_riskLevel (aq_policyResult req))) (estimateApprovalRequestUnits (gg_costWeights cfg) req
             (mode = AlwaysMode \<or> mode = AutoMode \<and> pr_requiresApproval (aq_policyResult req))) g'"
proof -
  let ?r = "approvalRequest to_iso cfg req mode ps pg now g"
  have "(fg_budgets (fst ?r) = fg_budgets g \<and> (\<not> gg_enabled cfg \<or> \<not> gc_allowed (snd ?r)))
    \<or> (\<exists>g'. fg_budgets g' = fg_budgets g \<and> (\<forall>s. no_override s g \<longrightarrow> no_override s g') \<and>
        ?r = chargeBudget to_iso cfg now (getSessionId (cx_sessionId (aq_context req)) (cx_agentId (aq_context req)))
         (Some (pr_riskLevel (aq_policyResult req))) (estimateApprovalRequestUnits (gg_costWeights cfg) req
             (mode = AlwaysMode \<or> mode = AutoMode \<and> pr_requiresApproval (aq_policyResult req))) g')"
    unfolding approvalRequest_def Let_def case_prod_unfold fst_getSessionLimit
    by (split if_split)+ (simp, intro conjI impI disjI2 exI conjI; (rule refl | simp)?)
  then show ?thesis using none charge by blast
qed

lemma costs_evaluate:
  fixes ctx to_iso cfg now g
  assumes "no_override sid g"
  defines "sid' \<equiv> getSessionId (cx_sessionId ctx) (cx_agentId ctx)"
    and "r \<equiv> evaluateRequest to_iso cfg ctx now g" and "u \<equiv> estimateEvaluateUnits (gg_costWeights cfg) ctx"
  shows "session_costs sid (fst r) =
      (if gg_enabled cfg \<and> sid' = sid \<and> gc_allowed (snd r) then live 3600000 now (session_costs sid g) + {#(now, u)#}
       else if fg_budgets (fst r) = fg_budgets g \<or> sid' \<noteq> sid then session_costs sid g
       else live 3600000 now (session_costs sid g))
    \<and> (gg_enabled cfg \<and> sid' = sid \<and> gc_allowed (snd r) \<longrightarrow>
        total (live 3600000 now (session_costs sid g)) + u \<le> of_int (cost_cap cfg))"
proof (cases rule: evaluateRequest_cases [of to_iso cfg ctx now g])
  case none
  then show ?thesis using session_costs_cong [of "fst r" g sid] by (auto simp: r_def)
next
  case (charge g')
  have g': "session_costs s g' = session_costs s g" for s using charge(1) by (rule session_costs_cong)
  have "snd (getSessionLimit sid (gg_costBudgetPerHourPerSession cfg) (shield_opt cfg sh_costBudgetMultiplier) now g')
      \<le> cost_cap cfg"
    using charge(2) [OF assms(1)] snd_getSessionLimit_le by (simp add: cost_cap_def no_override_def)
  then have lim: "x \<le> of_int (snd (getSessionLimit sid (gg_costBudgetPerHourPerSession cfg)
      (shield_opt cfg sh_costBudgetMultiplier) now g')) \<Longrightarrow> x \<le> of_int (cost_cap cfg)" for x :: rat
    by (meson of_int_le_iff order_trans)
  have r: "r = chargeBudget to_iso cfg now sid' None u g'" using charge(3) by (simp add: r_def sid'_def u_def)
  show ?thesis
  proof (cases "gg_enabled cfg")
    case True
    then show ?thesis
      using charge_cases(1) [of sid to_iso cfg now sid' None u g'] charge_cases(2) [of to_iso cfg now sid' None u g']
        session_costs_cong [of "fst r" g sid]
      unfolding r [symmetric] g' by (auto intro: lim)
  next
    case False
    then have "r = (g, allowed_result)" by (simp add: r_def evaluateRequest_def)
    with False show ?thesis by simp
  qed
qed

lemma costs_approval:
  fixes req to_iso cfg mode ps pg now g
  assumes "no_override sid g"
  defines "sid' \<equiv> getSessionId (cx_sessionId (aq_context req)) (cx_agentId (aq_context req))"
    and "r \<equiv> approvalRequest to_iso cfg req mode ps pg now g"
    and "u \<equiv> estimateApprovalRequestUnits (gg_costWeights cfg) req
             (mode = AlwaysMode \<or> mode = AutoMode \<and> pr_requiresApproval (aq_policyResult req))"
  shows "session_costs sid (fst r) =
      (if gg_enabled cfg \<and> sid' = sid \<and> gc_allowed (snd r) then live 3600000 now (session_costs sid g) + {#(now, u)#}
       else if fg_budgets (fst r) = fg_budgets g \<or> sid' \<noteq> sid then session_costs sid g
       else live 3600000 now (session_costs sid g))
    \<and> (gg_enabled cfg \<and> sid' = sid \<and> gc_allowed (snd r) \<longrightarrow>
        total (live 3600000 now (session_costs sid g)) + u \<le> of_int (cost_cap cfg))"
proof (cases rule: approvalRequest_cases [of to_iso cfg req mode ps pg now g])
  case none
  then show ?thesis using session_costs_cong [of "fst r" g sid] by (auto simp: r_def)
next
  case (charge g')
  let ?risk = "Some (pr_riskLevel (aq_policyResult req))"
  have g': "session_costs s g' = session_costs s g" for s using charge(1) by (rule session_costs_cong)
  have "snd (getSessionLimit sid (gg_costBudgetPerHourPerSession cfg) (shield_opt cfg sh_costBudgetMultiplier) now g')
      \<le> cost_cap cfg"
    using charge(2) [OF assms(1)] snd_getSessionLimit_le by (simp add: cost_cap_def no_override_def)
  then have lim: "x \<le> of_int (snd (getSessionLimit sid (gg_costBudgetPerHourPerSession cfg)
      (shield_opt cfg sh_costBudgetMultiplier) now g')) \<Longrightarrow> x \<le> of_int (cost_cap cfg)" for x :: rat
    by (meson of_int_le_iff order_trans)
  have r: "r = chargeBudget to_iso cfg now sid' ?risk u g'" using charge(3) by (simp add: r_def sid'_def u_def)
  show ?thesis
  proof (cases "gg_enabled cfg")
    case True
    then show ?thesis
      using charge_cases(1) [of sid to_iso cfg now sid' ?risk u g'] charge_cases(2) [of to_iso cfg now sid' ?risk u g']
        session_costs_cong [of "fst r" g sid]
      unfolding r [symmetric] g' by (auto intro: lim)
  next
    case False
    then have "r = (g, allowed_result)" by (simp add: r_def approvalRequest_def)
    with False show ?thesis by simp
  qed
qed

text \<open>What one step does to a session's costs: it keeps what is inside the hour, adds what it grants, and
  adds nothing else.\<close>

lemma costs_step:
  assumes "no_override sid g"
  shows "live 3600000 (fst oper) (session_costs sid g)
      + (case cost_grant to_iso cfg sid oper g of None \<Rightarrow> {#} | Some w \<Rightarrow> {#(fst oper, w)#})
        \<subseteq># session_costs sid (guard_step to_iso cfg oper g)"
    and "session_costs sid (guard_step to_iso cfg oper g) \<subseteq># session_costs sid g
      + (case cost_grant to_iso cfg sid oper g of None \<Rightarrow> {#} | Some w \<Rightarrow> {#(fst oper, w)#})"
    and "cost_grant to_iso cfg sid oper g = Some w \<Longrightarrow>
      1 \<le> w \<and> total (live 3600000 (fst oper) (session_costs sid g)) + w \<le> of_int (cost_cap cfg)"
proof -
  obtain now gop where o': "oper = (now, gop)" by (cases oper)
  have sub: "live 3600000 now M \<subseteq># M" for M by (simp add: live_def)
  have frame: "session_costs sid (guard_step to_iso cfg oper g) = session_costs sid g"
    if "fg_budgets (guard_step to_iso cfg oper g) = fg_budgets g" using that by (rule session_costs_cong)
  show "live 3600000 (fst oper) (session_costs sid g)
      + (case cost_grant to_iso cfg sid oper g of None \<Rightarrow> {#} | Some w \<Rightarrow> {#(fst oper, w)#})
        \<subseteq># session_costs sid (guard_step to_iso cfg oper g)"
    and "session_costs sid (guard_step to_iso cfg oper g) \<subseteq># session_costs sid g
      + (case cost_grant to_iso cfg sid oper g of None \<Rightarrow> {#} | Some w \<Rightarrow> {#(fst oper, w)#})"
    and "cost_grant to_iso cfg sid oper g = Some w \<Longrightarrow>
      1 \<le> w \<and> total (live 3600000 (fst oper) (session_costs sid g)) + w \<le> of_int (cost_cap cfg)"
  proof (atomize (full), cases gop, goal_cases)
    case (1 ctx)
    then show ?case using costs_evaluate [OF assms, of to_iso cfg ctx now] sub units_pos(1) by (auto simp: o')
  next
    case (2 req mode ps pg)
    then show ?case using costs_approval [OF assms, of to_iso cfg req mode ps pg now] sub units_pos(2) by (auto simp: o')
  next
    case (3 actor)
    then show ?case using frame sub by (simp add: o' approvalResponse_def case_prod_unfold Let_def)
  next
    case (5 s m d)
    then have "fg_budgets (guard_step to_iso cfg oper g) = fg_budgets g"
      by (auto simp: o' dest!: override_frame split: option.split)
    from frame [OF this] sub 5 show ?case by (simp add: o' del: guard_step.simps)
  qed (use frame sub in \<open>simp_all add: o'\<close>)
qed

interpretation costs: window_limiter 3600000 "session_costs sid" "costs_ok sid"
    "\<lambda>o'. \<not> raises_limit sid (snd o')" "guard_step to_iso cfg" fst "cost_grant to_iso cfg sid"
    "of_int (cost_cap cfg)" for sid to_iso cfg
proof
  show "0 \<le> (of_int (cost_cap cfg) :: rat)" using limit_cap_ge by (simp add: cost_cap_def order_trans [OF zero_le_one])
  show "costs_ok sid (guard_step to_iso cfg oper g)" if "costs_ok sid g" "\<not> raises_limit sid (snd oper)" for g oper
  proof -
    have "no_override sid g" using that(1) by (simp add: costs_ok_def)
    note step = costs_step(2,3) [OF this, of to_iso cfg oper]
    have "0 \<le> snd e" if "e \<in># session_costs sid (guard_step to_iso cfg oper g)" for e
      using mset_subset_eqD [OF step(1) that] step(2) \<open>costs_ok sid g\<close>
      by (fastforce simp: costs_ok_def split: option.splits)
    with no_override_step [of sid g "snd oper" to_iso cfg "fst oper"] that show ?thesis by (simp add: costs_ok_def)
  qed
qed (auto simp: costs_ok_def costs_step)

subsection \<open>Waiting as told\<close>

lemma consume_bucket:
  "bk_ts (bucket_of k (fst (consumeWithinWindow k now w l g))) =
     filter (\<lambda>t. t > now - w) (bk_ts (bucket_of k g))
     @ (if wo_allowed (snd (consumeWithinWindow k now w l g)) then [now] else [])"
  by (simp add: consumeWithinWindow_def bucket_of_def count_of_def Let_def)

lemma consume_retry:
  assumes "\<not> wo_allowed (snd (consumeWithinWindow k now w l g))" "1 \<le> l"
  shows "\<exists>t ts. filter (\<lambda>t. t > now - w) (bk_ts (bucket_of k g)) = t # ts
     \<and> wo_retryAfterMs (snd (consumeWithinWindow k now w l g)) = Some (max 250 (w - (now - t)))"
proof -
  have full: "l \<le> int (length (filter (\<lambda>t. t > now - w) (bk_ts (bucket_of k g))))"
    using assms(1) by (simp add: wo_allowed_consume)
  with assms(2) obtain t ts where "filter (\<lambda>t. t > now - w) (bk_ts (bucket_of k g)) = t # ts"
    by (cases "filter (\<lambda>t. t > now - w) (bk_ts (bucket_of k g))") auto
  with full show ?thesis by (simp add: consumeWithinWindow_def Let_def)
qed

subsection \<open>Counting refusals\<close>

lemma blockedTotal_emit [simp]:
  "te_blockedTotal (fg_telemetry (emitTelemetry ev g)) =
     te_blockedTotal (fg_telemetry g) + (if ge_allowed ev then 0 else 1)"
  by (simp add: emitTelemetry_def telemetry_event_def Let_def split: guard_detail.split option.split)

lemma telemetry_frame [simp]:
  "fg_telemetry (cleanupSessionOverrides now g) = fg_telemetry g"
  "fg_telemetry (fst (consumeWithinWindow k now w l g)) = fg_telemetry g"
  "fg_telemetry (fst (consumeBudget k now u bl g)) = fg_telemetry g"
  by (simp_all add: cleanupSessionOverrides_def consumeWithinWindow_def consumeBudget_def Let_def)

definition refusals :: "flood_guard \<Rightarrow> nat" where
  "refusals g = te_blockedTotal (fg_telemetry g)"

lemma refusals_event [simp]:
  "refusals (allowed_event to_iso h r d g) = refusals g"
  "refusals (fst (block to_iso h reason retry p n d g)) = refusals g + 1"
  "refusals (cleanupSessionOverrides now g) = refusals g"
  "refusals (fst (consumeWithinWindow k now w l g)) = refusals g"
  "refusals (fst (consumeBudget k now u bl g)) = refusals g"
  by (simp_all add: refusals_def allowed_event_def block_def)

lemma refusals_charge [simp]:
  "refusals (fst (chargeBudget to_iso cfg now sid risk u g)) =
     refusals g + (if gc_allowed (snd (chargeBudget to_iso cfg now sid risk u g)) then 0 else 1)"
  by (simp add: chargeBudget_def case_prod_unfold Let_def)

lemma refusals_tool [simp]:
  "refusals (fst (evaluateTool to_iso cfg ctx sid now g)) =
     refusals g + (if gc_allowed (snd (evaluateTool to_iso cfg ctx sid now g)) then 0 else 1)"
  by (simp add: evaluateTool_def case_prod_unfold Let_def)

subsection \<open>Properties\<close>

text \<open>The times at which a session's evaluations were admitted, and the units it was charged.\<close>

primrec admitted_requests ::
  "(int \<Rightarrow> string) \<Rightarrow> guard_config \<Rightarrow> string \<Rightarrow> (int \<times> guard_op) list \<Rightarrow> flood_guard \<Rightarrow> int list" where
  "admitted_requests to_iso cfg sid [] g = []"
| "admitted_requests to_iso cfg sid (oper # ops) g =
     (if request_grant to_iso cfg sid oper g = None then [] else [fst oper])
     @ admitted_requests to_iso cfg sid ops (guard_step to_iso cfg oper g)"

primrec charged_units ::
  "(int \<Rightarrow> string) \<Rightarrow> guard_config \<Rightarrow> string \<Rightarrow> (int \<times> guard_op) list \<Rightarrow> flood_guard \<Rightarrow> (int \<times> rat) list" where
  "charged_units to_iso cfg sid [] g = []"
| "charged_units to_iso cfg sid (oper # ops) g =
     (case cost_grant to_iso cfg sid oper g of None \<Rightarrow> [] | Some u \<Rightarrow> [(fst oper, u)])
     @ charged_units to_iso cfg sid ops (guard_step to_iso cfg oper g)"

lemma request_grant_unit: "request_grant to_iso cfg sid oper g = Some w \<Longrightarrow> w = 1"
  by (cases "(to_iso, cfg, sid, oper, g)" rule: request_grant.cases) (auto split: if_splits)

lemma grants_admitted:
  "requests.grants to_iso cfg sid ops g = map (\<lambda>t. (t, 1)) (admitted_requests to_iso cfg sid ops g)"
  by (induction ops arbitrary: g) (auto simp: request_grant_unit split: option.split)

lemma grants_charged: "costs.grants to_iso cfg sid ops g = charged_units to_iso cfg sid ops g"
  by (induction ops arbitrary: g) (auto split: option.split)

lemma new_flood_guard_ok: "no_override sid new_flood_guard" "costs_ok sid new_flood_guard"
  by (simp_all add: no_override_def costs_ok_def new_flood_guard_def session_costs_def budget_of_def count_of_def)

text \<open>C24: a session is never evaluated more often than its configured rate: over any sequence of guard
  operations of any sessions with a monotone clock, in which no operator override is set for the session, at
  most \<open>request_cap\<close> of its requests are admitted in \<^emph>\<open>any\<close> minute, shield mode on or off.\<close>

theorem requests_per_minute_bounded:
  assumes "sorted (map fst ops)" "list_all (\<lambda>o'. \<not> raises_limit sid (snd o')) ops"
  shows "int (length (filter (\<lambda>n. t - 60000 < n \<and> n \<le> t) (admitted_requests to_iso cfg sid ops new_flood_guard)))
     \<le> request_cap cfg"
proof -
  let ?ts = "admitted_requests to_iso cfg sid ops new_flood_guard"
  have "total (in_window 60000 t (mset (requests.grants to_iso cfg sid ops new_flood_guard))) \<le> of_int (request_cap cfg)"
    by (rule requests.window_bound) (use assms new_flood_guard_ok in auto)
  also have "in_window 60000 t (mset (requests.grants to_iso cfg sid ops new_flood_guard))
      = unit_entries (mset (filter (\<lambda>n. t - 60000 < n \<and> n \<le> t) ?ts))"
    by (simp add: grants_admitted in_window_def unit_entries_def filter_mset_image_mset comp_def)
  also have "total \<dots> = of_int (int (length (filter (\<lambda>n. t - 60000 < n \<and> n \<le> t) ?ts)))"
    by (simp only: total_unit_entries size_mset of_int_of_nat_eq)
  finally show ?thesis by (simp only: of_int_le_iff)
qed

definition sample_guard :: guard_config where
  "sample_guard = \<lparr>gg_enabled = True, gg_requestPerMinutePerSession = 2, gg_toolActionPerMinutePerSession = 1,
     gg_approvalRequestsPerMinutePerSession = 5, gg_approvalResponsesPerMinutePerActor = 5,
     gg_maxPendingApprovalsGlobal = 10, gg_maxPendingApprovalsPerSession = 4, gg_costBudgetPerHourPerSession = 50,
     gg_shield = None, gg_costWeights = \<lparr>cw_evaluateBase = 1, cw_approvalRequest = 2, cw_approvalRequiresManual = 1,
       cw_toolActionMultiplier = 2, cw_highRiskMultiplier = 2, cw_criticalRiskMultiplier = 3\<rparr>\<rparr>"

lemma sample_caps: "request_cap sample_guard = 2" "cost_cap sample_guard = 50"
proof -
  have f: "\<lfloor>5 / 2 :: rat\<rfloor> = 2" "\<lfloor>3 / 2 :: rat\<rfloor> = 1" "\<lfloor>101 / 2 :: rat\<rfloor> = 50" "\<lfloor>51 / 2 :: rat\<rfloor> = 25"
    by (rule floor_unique; simp)+
  show "request_cap sample_guard = 2" "cost_cap sample_guard = 50"
    by (simp_all add: request_cap_def cost_cap_def limit_cap_def sample_guard_def shield_opt_def js_round_def
        MIN_LIMIT_def f)
qed

theorem requests_per_minute_bounded_witness:
  "length (filter (\<lambda>n. 5 - 60000 < n \<and> n \<le> 5) (admitted_requests show_int sample_guard ''s1''
     [(1, EvaluateOp sample_ctx), (2, EvaluateOp sample_ctx), (3, EvaluateOp sample_ctx)] new_flood_guard)) \<le> 2"
  using requests_per_minute_bounded [of "[(1, EvaluateOp sample_ctx), (2, EvaluateOp sample_ctx), (3, EvaluateOp sample_ctx)]"
      "''s1''" 5 show_int sample_guard] by (simp add: sample_caps)

text \<open>A session never spends more than its hourly cost budget: under the same conditions the units charged
  for its evaluations and approval requests in any hour add up to at most \<open>cost_cap\<close>.\<close>

theorem cost_per_hour_bounded:
  assumes "sorted (map fst ops)" "list_all (\<lambda>o'. \<not> raises_limit sid (snd o')) ops"
  shows "sum_list (map snd (filter (\<lambda>e. t - 3600000 < fst e \<and> fst e \<le> t)
       (charged_units to_iso cfg sid ops new_flood_guard))) \<le> of_int (cost_cap cfg)"
proof -
  have "total (in_window 3600000 t (mset (costs.grants to_iso cfg sid ops new_flood_guard))) \<le> of_int (cost_cap cfg)"
    by (rule costs.window_bound) (use assms new_flood_guard_ok in auto)
  then show ?thesis
    by (simp add: grants_charged in_window_def total_def mset_filter [symmetric] sum_mset_sum_list [symmetric] del: mset_filter)
qed

theorem cost_per_hour_bounded_witness:
  "sum_list (map snd (filter (\<lambda>e. 9 - 3600000 < fst e \<and> fst e \<le> 9)
     (charged_units show_int sample_guard ''s1'' [(1, EvaluateOp sample_ctx), (9, EvaluateOp sample_ctx)] new_flood_guard))) \<le> 50"
  using cost_per_hour_bounded [of "[(1, EvaluateOp sample_ctx), (9, EvaluateOp sample_ctx)]" "''s1''" 9 show_int sample_guard]
  by (simp add: sample_caps)

text \<open>The \<open>retryAfterMs\<close> of a refusal is honest: when a bucket that is exactly full refuses, the same request
  made \<open>retryAfterMs\<close> later, with nothing consumed in between and the same limit, is admitted.\<close>

theorem retry_after_is_enough:
  assumes "\<not> wo_allowed (snd (consumeWithinWindow k now w l g))" "1 \<le> l"
    and "int (length (filter (\<lambda>t. t > now - w) (bk_ts (bucket_of k g)))) = l"
  shows "\<exists>d. wo_retryAfterMs (snd (consumeWithinWindow k now w l g)) = Some d
     \<and> wo_allowed (snd (consumeWithinWindow k (now + d) w l (fst (consumeWithinWindow k now w l g))))"
proof -
  obtain t ts where f: "filter (\<lambda>t. t > now - w) (bk_ts (bucket_of k g)) = t # ts"
    and r: "wo_retryAfterMs (snd (consumeWithinWindow k now w l g)) = Some (max 250 (w - (now - t)))"
    using consume_retry [OF assms(1,2)] by blast
  let ?d = "max 250 (w - (now - t))"
  have "bk_ts (bucket_of k (fst (consumeWithinWindow k now w l g))) = t # ts"
    using assms(1) by (simp add: consume_bucket f)
  moreover have "filter (\<lambda>x. x > now + ?d - w) (t # ts) = filter (\<lambda>x. x > now + ?d - w) ts"
    by (simp add: max_def)
  ultimately have "int (length (filter (\<lambda>x. x > now + ?d - w)
      (bk_ts (bucket_of k (fst (consumeWithinWindow k now w l g)))))) \<le> int (length ts)"
    by (metis length_filter_le of_nat_le_iff)
  moreover have "int (length ts) < l" using assms(3) f by simp
  ultimately have "wo_allowed (snd (consumeWithinWindow k (now + ?d) w l (fst (consumeWithinWindow k now w l g))))"
    unfolding wo_allowed_consume by linarith
  with r show ?thesis by blast
qed

theorem retry_after_is_enough_witness:
  "wo_allowed (snd (consumeWithinWindow ''k'' 60001 60000 1
     (fst (consumeWithinWindow ''k'' 10 60000 1 (fst (consumeWithinWindow ''k'' 1 60000 1 new_flood_guard))))))"
proof -
  let ?g = "fst (consumeWithinWindow ''k'' 1 60000 1 new_flood_guard)"
  have g: "bk_ts (bucket_of ''k'' ?g) = [1]" by code_simp
  have r: "wo_retryAfterMs (snd (consumeWithinWindow ''k'' 10 60000 1 ?g)) = Some 59991" by code_simp
  from retry_after_is_enough [of "''k''" 10 60000 1 ?g] g r show ?thesis by (simp add: wo_allowed_consume)
qed

text \<open>Every refusal is counted exactly once in the telemetry, and nothing else is.\<close>

theorem refusals_counted_once:
  "refusals (fst (evaluateRequest to_iso cfg ctx now g)) =
     refusals g + (if gc_allowed (snd (evaluateRequest to_iso cfg ctx now g)) then 0 else 1)
   \<and> refusals (fst (approvalRequest to_iso cfg req mode ps pg now g)) =
     refusals g + (if gc_allowed (snd (approvalRequest to_iso cfg req mode ps pg now g)) then 0 else 1)
   \<and> refusals (fst (approvalResponse to_iso cfg actor now g)) =
     refusals g + (if gc_allowed (snd (approvalResponse to_iso cfg actor now g)) then 0 else 1)"
  by (intro conjI)
    (simp_all add: evaluateRequest_def approvalRequest_def approvalResponse_def case_prod_unfold Let_def)

text \<open>An override set for a session id with surrounding blanks never takes effect: it is stored under the
  trimmed id, while the limits of the session are looked up under the id as it came.\<close>

theorem padded_override_is_ineffective:
  assumes "js_trim sid \<noteq> sid" "no_override sid g" "setSessionOverride to_iso sid m now d g = Some (g', row)"
  shows "snd (getSessionLimit sid base shm now' g') = snd (getSessionLimit sid base shm now' g)"
proof -
  have "no_override sid g'" using override_frame [OF assms(3)] assms(1,2) by (simp add: no_override_def)
  moreover have "getMode now' g' = getMode now' g"
    using assms(3) by (auto simp: setSessionOverride_def getMode_def Let_def split: if_splits)
  ultimately show ?thesis
    using assms(2) no_override_cleanup [of g sid now'] no_override_cleanup [of g' sid now']
    by (simp add: getSessionLimit_def getSessionOverride_def no_override_def adjustLimit_def Let_def)
qed

theorem padded_override_is_ineffective_witness:
  "snd (getSessionLimit '' s'' 4 None 5 (fst (the (setSessionOverride show_int '' s'' 2 0 60000 new_flood_guard))))
   = snd (getSessionLimit '' s'' 4 None 5 new_flood_guard)"
proof -
  have t: "js_trim '' s'' = ''s''" by code_simp
  have "setSessionOverride show_int '' s'' 2 0 60000 new_flood_guard \<noteq> None"
    by (simp add: setSessionOverride_def t Let_def)
  then obtain g' row where s: "setSessionOverride show_int '' s'' 2 0 60000 new_flood_guard = Some (g', row)" by auto
  from padded_override_is_ineffective [OF _ new_flood_guard_ok(1) s, of 4 None 5] t show ?thesis by (simp add: s)
qed

definition tool_ctx :: agent_context where
  "tool_ctx = sample_ctx\<lparr>cx_sessionId := Some ''s'', cx_plane := Tool, cx_action := ''x''\<rparr>"

definition lookalike_ctx :: agent_context where
  "lookalike_ctx = sample_ctx\<lparr>cx_sessionId := Some ''s:tool:x''\<rparr>"

text \<open>Buckets are not separate per session: bucket keys are built by concatenation, so a session whose
  id is another session's id followed by \<open>:tool:\<close> and a tool name spends that session's tool allowance. Here
  one request of such a session makes the first tool call of the other one a flood.\<close>

theorem lookalike_session_drains_tool_bucket:
  "gc_allowed (snd (evaluateRequest show_int sample_guard tool_ctx 2 new_flood_guard))
   \<and> \<not> gc_allowed (snd (evaluateRequest show_int sample_guard tool_ctx 2
        (fst (evaluateRequest show_int sample_guard lookalike_ctx 1 new_flood_guard))))"
  by code_simp

end
