(* ===== verification/Fleet_Credentials.thy ===== *)
theory Fleet_Credentials
  imports Prelude Complex_Main
begin

text \<open>
  Issued credentials, \<open>src/fleet/credentials.ts\<close>: the state of a credential at an instant, the store
  behind a file another process may replace (bounded staleness, last good records), issuing,
  rotating with an overlap, revoking, and the durations the command line reads and prints. The clock,
  the file's stamp and bytes, JSON, SHA-256 and randomness are arguments; a digest is its hexadecimal
  string.
\<close>

subsection \<open>Data\<close>

definition MAX_OVERLAP_SECONDS :: int where "MAX_OVERLAP_SECONDS = 24 * 60 * 60"
definition DEFAULT_OVERLAP_SECONDS :: int where "DEFAULT_OVERLAP_SECONDS = 15 * 60"
definition RELOAD_CHECK_MS :: int where "RELOAD_CHECK_MS = 1000"

datatype credential_state = Active | Overlap | Expired | Revoked

record stored_credential =
  cr_agentId :: string
  cr_credentialId :: string
  cr_digest :: string
  cr_issuedAt :: string
  cr_expiresAt :: "string option"
  cr_revokedAt :: "string option"
  cr_revokedReason :: "string option"

record cred_env =
  ce_parseDate :: "string \<Rightarrow> int option" \<comment> \<open>\<open>None\<close> is \<open>NaN\<close>\<close>
  ce_iso :: "int \<Rightarrow> string"
  ce_sha256 :: "string \<Rightarrow> string"
  ce_parseFile :: "string \<Rightarrow> stored_credential list option"
  ce_dumpFile :: "string \<Rightarrow> stored_credential list \<Rightarrow> string"

record cred_store =
  cs_records :: "stored_credential list"
  cs_byDigest :: "(string \<times> stored_credential) list"
  cs_stamp :: "string option" \<comment> \<open>\<open>None\<close> is \<open>absent\<close>\<close>
  cs_lastCheck :: int
  cs_lastError :: bool
  cs_loadedOnce :: bool

text \<open>The file: its stamp and its bytes, or nothing there.\<close>

type_synonym cred_disk = "(string \<times> string) option"

datatype cred_error =
    StoreUnreadable
  | AlreadyActive string
  | UnsafeAgentId
  | BadOverlap
  | OverlapTooLong
  | NoActive
  | UnknownCredential
  | AlreadyRevoked
  | NothingToRevoke
  | NoFreshId

subsection \<open>Pure parts\<close>

definition credentialState :: "cred_env \<Rightarrow> int \<Rightarrow> stored_credential \<Rightarrow> credential_state" where
  "credentialState env now c =
     (if truthy (cr_revokedAt c) then Revoked
      else case cr_expiresAt c of
        None \<Rightarrow> Active
      | Some e \<Rightarrow> (case ce_parseDate env e of
          None \<Rightarrow> Expired | Some t \<Rightarrow> if t > now then Overlap else Expired))"

definition credential_safe_char :: "char \<Rightarrow> bool" where
  "credential_safe_char =
     ch_in ''ABCDEFGHIJKLMNOPQRSTUVWXYZabcdefghijklmnopqrstuvwxyz0123456789._-''"

definition mintCredential :: "cred_env \<Rightarrow> string \<Rightarrow> string \<Rightarrow> (string \<times> string) option" where
  "mintCredential env agentId token =
     (if agentId = [] \<or> \<not> list_all credential_safe_char agentId then None
      else (let secret = agentId @ '':'' @ token in Some (secret, ce_sha256 env secret)))"

definition indexByDigest :: "stored_credential list \<Rightarrow> (string \<times> stored_credential) list" where
  "indexByDigest records = foldl (\<lambda>index c. omap_put (cr_digest c) c index) [] records"

text \<open>Timestamps are the store's own, so they parse; one that does not counts as the epoch here.\<close>

definition newestFirst :: "cred_env \<Rightarrow> stored_credential list \<Rightarrow> stored_credential list" where
  "newestFirst env records =
     sort_key (\<lambda>c. - (case ce_parseDate env (cr_issuedAt c) of None \<Rightarrow> 0 | Some t \<Rightarrow> t)) records"

definition lookup_in ::
  "cred_env \<Rightarrow> int \<Rightarrow> (string \<times> stored_credential) list \<Rightarrow> string \<Rightarrow> (stored_credential \<times> credential_state) option" where
  "lookup_in env now index presented =
     (case omap_get index presented of None \<Rightarrow> None | Some c \<Rightarrow> Some (c, credentialState env now c))"

definition find_active :: "cred_env \<Rightarrow> int \<Rightarrow> string \<Rightarrow> stored_credential list \<Rightarrow> stored_credential option" where
  "find_active env now agentId records =
     find (\<lambda>c. cr_agentId c = agentId \<and> credentialState env now c = Active) records"

text \<open>\<open>freshCredentialId\<close> draws candidates until one is unused.\<close>

definition freshCredentialId :: "string list \<Rightarrow> stored_credential list \<Rightarrow> string option" where
  "freshCredentialId candidates records =
     find (\<lambda>i. \<not> list_ex (\<lambda>c. cr_credentialId c = i) records) candidates"

definition new_record :: "cred_env \<Rightarrow> int \<Rightarrow> string \<Rightarrow> string \<Rightarrow> string \<Rightarrow> stored_credential" where
  "new_record env now agentId credentialId digest =
     \<lparr>cr_agentId = agentId, cr_credentialId = credentialId, cr_digest = digest, cr_issuedAt = ce_iso env now,
      cr_expiresAt = None, cr_revokedAt = None, cr_revokedReason = None\<rparr>"

subsection \<open>The store and its file\<close>

definition reload_credentials :: "cred_env \<Rightarrow> int \<Rightarrow> cred_disk \<Rightarrow> cred_store \<Rightarrow> cred_store" where
  "reload_credentials env now disk cs =
     (let cs = cs\<lparr>cs_lastCheck := now\<rparr> in
      case disk of
        None \<Rightarrow>
          (if cs_loadedOnce cs then cs\<lparr>cs_stamp := None, cs_lastError := True\<rparr>
           else cs\<lparr>cs_records := [], cs_byDigest := [], cs_stamp := None, cs_lastError := False\<rparr>)
      | Some (stamp, bytes) \<Rightarrow>
          (case ce_parseFile env bytes of
             None \<Rightarrow> cs\<lparr>cs_lastError := True\<rparr>
           | Some parsed \<Rightarrow>
               (let records = newestFirst env parsed in
                cs\<lparr>cs_records := records, cs_byDigest := indexByDigest records, cs_stamp := Some stamp,
                   cs_lastError := False, cs_loadedOnce := True\<rparr>)))"

definition newStore :: "cred_env \<Rightarrow> int \<Rightarrow> cred_disk \<Rightarrow> cred_store" where
  "newStore env now disk = reload_credentials env now disk
     \<lparr>cs_records = [], cs_byDigest = [], cs_stamp = None, cs_lastCheck = 0, cs_lastError = False,
      cs_loadedOnce = False\<rparr>"

definition fileStamp :: "cred_disk \<Rightarrow> string option" where
  "fileStamp disk = map_option fst disk"

definition refresh :: "cred_env \<Rightarrow> int \<Rightarrow> cred_disk \<Rightarrow> cred_store \<Rightarrow> cred_store" where
  "refresh env now disk cs =
     (if now - cs_lastCheck cs < RELOAD_CHECK_MS then cs
      else (let cs = cs\<lparr>cs_lastCheck := now\<rparr> in
            if fileStamp disk = cs_stamp cs then cs else reload_credentials env now disk cs))"

definition list_credentials :: "cred_env \<Rightarrow> int \<Rightarrow> cred_disk \<Rightarrow> cred_store \<Rightarrow> cred_store \<times> stored_credential list" where
  "list_credentials env now disk cs = (let cs = refresh env now disk cs in (cs, cs_records cs))"

definition listFor :: "cred_env \<Rightarrow> int \<Rightarrow> cred_disk \<Rightarrow> string \<Rightarrow> cred_store \<Rightarrow> cred_store \<times> stored_credential list" where
  "listFor env now disk agentId cs =
     (let (cs, records) = list_credentials env now disk cs in (cs, filter (\<lambda>c. cr_agentId c = agentId) records))"

definition lookup ::
  "cred_env \<Rightarrow> int \<Rightarrow> cred_disk \<Rightarrow> string \<Rightarrow> cred_store \<Rightarrow> cred_store \<times> (stored_credential \<times> credential_state) option" where
  "lookup env now disk presented cs =
     (let cs = refresh env now disk cs in (cs, lookup_in env now (cs_byDigest cs) presented))"

text \<open>A write replaces the file; \<open>stamp\<close> is the one the new file gets.\<close>

definition write_credentials ::
  "cred_env \<Rightarrow> int \<Rightarrow> string \<Rightarrow> stored_credential list \<Rightarrow> cred_store \<Rightarrow> cred_disk \<times> cred_store" where
  "write_credentials env now stamp records cs =
     (let ordered = newestFirst env records in
      (Some (stamp, ce_dumpFile env (ce_iso env now) ordered),
       cs\<lparr>cs_records := ordered, cs_byDigest := indexByDigest ordered, cs_stamp := Some stamp, cs_lastCheck := now,
          cs_lastError := False, cs_loadedOnce := True\<rparr>))"

text \<open>What a mutator makes of the records it read: the new records, and what it returns.\<close>

definition issue_records ::
  "cred_env \<Rightarrow> int \<Rightarrow> string \<Rightarrow> string \<Rightarrow> string list \<Rightarrow> stored_credential list
     \<Rightarrow> cred_error + stored_credential list \<times> stored_credential \<times> string" where
  "issue_records env now agentId token candidates records =
     (case find_active env now agentId records of
        Some a \<Rightarrow> Inl (AlreadyActive (cr_credentialId a))
      | None \<Rightarrow> (case mintCredential env agentId token of
          None \<Rightarrow> Inl UnsafeAgentId
        | Some (secret, digest) \<Rightarrow> (case freshCredentialId candidates records of
            None \<Rightarrow> Inl NoFreshId
          | Some i \<Rightarrow> (let c = new_record env now agentId i digest in Inr (c # records, c, secret)))))"

definition rotate_records ::
  "cred_env \<Rightarrow> int \<Rightarrow> string \<Rightarrow> rat \<Rightarrow> string \<Rightarrow> string list \<Rightarrow> stored_credential list
     \<Rightarrow> cred_error + stored_credential list \<times> stored_credential \<times> stored_credential \<times> string" where
  "rotate_records env now agentId overlapSeconds token candidates records =
     (case find_active env now agentId records of
        None \<Rightarrow> Inl NoActive
      | Some active \<Rightarrow> (case mintCredential env agentId token of
          None \<Rightarrow> Inl UnsafeAgentId
        | Some (secret, digest) \<Rightarrow> (case freshCredentialId candidates records of
            None \<Rightarrow> Inl NoFreshId
          | Some i \<Rightarrow>
              (let previous = active\<lparr>cr_expiresAt := Some (ce_iso env (now + \<lfloor>overlapSeconds\<rfloor> * 1000))\<rparr>;
                   c = new_record env now agentId i digest;
                   next = map (\<lambda>r. if cr_credentialId r = cr_credentialId active then previous else r) records
               in Inr (c # next, previous, c, secret)))))"

definition revoked_record :: "cred_env \<Rightarrow> int \<Rightarrow> string option \<Rightarrow> stored_credential \<Rightarrow> stored_credential" where
  "revoked_record env now reason c =
     c\<lparr>cr_revokedAt := Some (ce_iso env now),
       cr_revokedReason := (case reason of None \<Rightarrow> None | Some r \<Rightarrow> let t = js_trim r in if t = [] then None else Some t)\<rparr>"

definition revoke_records ::
  "cred_env \<Rightarrow> int \<Rightarrow> string \<Rightarrow> string option \<Rightarrow> stored_credential list
     \<Rightarrow> cred_error + stored_credential list \<times> stored_credential" where
  "revoke_records env now credentialId reason records =
     (case find (\<lambda>c. cr_credentialId c = credentialId) records of
        None \<Rightarrow> Inl UnknownCredential
      | Some found \<Rightarrow>
          if truthy (cr_revokedAt found) then Inl AlreadyRevoked
          else (let revoked = revoked_record env now reason found in
                Inr (map (\<lambda>r. if cr_credentialId r = credentialId then revoked else r) records, revoked)))"

definition revoke_agent_records ::
  "cred_env \<Rightarrow> int \<Rightarrow> string \<Rightarrow> string option \<Rightarrow> stored_credential list
     \<Rightarrow> cred_error + stored_credential list \<times> stored_credential list" where
  "revoke_agent_records env now agentId reason records =
     (let targets = filter (\<lambda>c. cr_agentId c = agentId \<and> \<not> truthy (cr_revokedAt c)) records;
          ids = map cr_credentialId targets
      in if targets = [] then Inl NothingToRevoke
         else Inr (map (\<lambda>r. if cr_credentialId r \<in> set ids then revoked_record env now reason r else r) records,
                   map (revoked_record env now reason) (filter (\<lambda>r. cr_credentialId r \<in> set ids) records)))"

text \<open>A mutator reads the file, refuses if it cannot, transforms the records and writes them.\<close>

definition mutate ::
  "cred_env \<Rightarrow> int \<Rightarrow> string \<Rightarrow> (stored_credential list \<Rightarrow> cred_error + stored_credential list \<times> 'r)
     \<Rightarrow> cred_disk \<Rightarrow> cred_store \<Rightarrow> (cred_disk \<times> cred_store) \<times> (cred_error + 'r)" where
  "mutate env now stamp f disk cs =
     (let cs = reload_credentials env now disk cs in
      if cs_lastError cs then ((disk, cs), Inl StoreUnreadable)
      else case f (cs_records cs) of
             Inl e \<Rightarrow> ((disk, cs), Inl e)
           | Inr (records, r) \<Rightarrow> (write_credentials env now stamp records cs, Inr r))"

definition issue ::
  "cred_env \<Rightarrow> int \<Rightarrow> string \<Rightarrow> string \<Rightarrow> string \<Rightarrow> string list \<Rightarrow> cred_disk \<Rightarrow> cred_store
     \<Rightarrow> (cred_disk \<times> cred_store) \<times> (cred_error + stored_credential \<times> string)" where
  "issue env now stamp agentId token candidates = mutate env now stamp (issue_records env now agentId token candidates)"

definition rotate_credential ::
  "cred_env \<Rightarrow> int \<Rightarrow> string \<Rightarrow> string \<Rightarrow> rat \<Rightarrow> string \<Rightarrow> string list \<Rightarrow> cred_disk \<Rightarrow> cred_store
     \<Rightarrow> (cred_disk \<times> cred_store) \<times> (cred_error + stored_credential \<times> stored_credential \<times> string)" where
  "rotate_credential env now stamp agentId overlapSeconds token candidates disk cs =
     (if overlapSeconds \<noteq> of_int \<lfloor>overlapSeconds\<rfloor> \<or> overlapSeconds < 0 then ((disk, cs), Inl BadOverlap)
      else if overlapSeconds > of_int MAX_OVERLAP_SECONDS then ((disk, cs), Inl OverlapTooLong)
      else mutate env now stamp (rotate_records env now agentId overlapSeconds token candidates) disk cs)"

definition revoke ::
  "cred_env \<Rightarrow> int \<Rightarrow> string \<Rightarrow> string \<Rightarrow> string option \<Rightarrow> cred_disk \<Rightarrow> cred_store
     \<Rightarrow> (cred_disk \<times> cred_store) \<times> (cred_error + stored_credential)" where
  "revoke env now stamp credentialId reason = mutate env now stamp (revoke_records env now credentialId reason)"

definition revokeAgent ::
  "cred_env \<Rightarrow> int \<Rightarrow> string \<Rightarrow> string \<Rightarrow> string option \<Rightarrow> cred_disk \<Rightarrow> cred_store
     \<Rightarrow> (cred_disk \<times> cred_store) \<times> (cred_error + stored_credential list)" where
  "revokeAgent env now stamp agentId reason = mutate env now stamp (revoke_agent_records env now agentId reason)"

text \<open>\<open>StaticCredentialSource\<close>: the same lookups over a fixed list.\<close>

definition static_list :: "cred_env \<Rightarrow> stored_credential list \<Rightarrow> string \<Rightarrow> stored_credential list" where
  "static_list env records agentId = filter (\<lambda>c. cr_agentId c = agentId) (newestFirst env records)"

definition static_lookup ::
  "cred_env \<Rightarrow> int \<Rightarrow> stored_credential list \<Rightarrow> string \<Rightarrow> (stored_credential \<times> credential_state) option" where
  "static_lookup env now records presented = lookup_in env now (indexByDigest (newestFirst env records)) presented"

subsection \<open>Durations\<close>

definition digits_value :: "string \<Rightarrow> int" where
  "digits_value s = foldl (\<lambda>acc c. 10 * acc + (of_char c - 48)) 0 s"

definition parseDurationSeconds :: "string \<Rightarrow> int option" where
  "parseDurationSeconds input =
     (let t = js_lower (js_trim input);
          digits = takeWhile ch_digit t;
          unit = dropWhile ch_digit t
      in if digits = [] then None
         else if unit = [] \<or> unit = ''s'' then Some (digits_value digits)
         else if unit = ''m'' then Some (digits_value digits * 60)
         else if unit = ''h'' then Some (digits_value digits * 3600)
         else if unit = ''d'' then Some (digits_value digits * 86400)
         else None)"

text \<open>\<open>show_number\<close> prints the quotients \<open>whole / 60\<close>, which need not be whole.\<close>

definition half_up :: "rat \<Rightarrow> int" where
  "half_up x = \<lfloor>x + 1 / 2\<rfloor>"

definition formatDuration :: "(rat \<Rightarrow> string) \<Rightarrow> rat \<Rightarrow> string" where
  "formatDuration show_number seconds =
     (let whole = max 0 (half_up seconds) in
      if whole < 60 then show_int whole @ ''s''
      else if whole < 3600 then
        (let rest = whole mod 60 in
         if rest = 0 then show_number (of_int whole / 60) @ ''m''
         else show_int (whole div 60) @ ''m '' @ show_int rest @ ''s'')
      else if whole < 86400 then
        (let rest = half_up (of_int (whole mod 3600) / 60) in
         if rest = 0 then show_number (of_int whole / 3600) @ ''h''
         else show_int (whole div 3600) @ ''h '' @ show_int rest @ ''m'')
      else
        (let rest = half_up (of_int (whole mod 86400) / 3600) in
         if rest = 0 then show_number (of_int whole / 86400) @ ''d''
         else show_int (whole div 86400) @ ''d '' @ show_int rest @ ''h''))"

subsection \<open>The life cycle of the records\<close>

text \<open>One write of the store: a mutator's result in the order the store keeps. Digests of fresh secrets are
  fresh.\<close>

inductive lifecycle_step :: "cred_env \<Rightarrow> stored_credential list \<Rightarrow> stored_credential list \<Rightarrow> bool" for env where
  issue: "issue_records env now a token ids rs = Inr (rs', c, s) \<Longrightarrow> cr_digest c \<notin> cr_digest ` set rs \<Longrightarrow>
     lifecycle_step env rs (newestFirst env rs')"
| rotate: "rotate_records env now a overlap token ids rs = Inr (rs', p, c, s) \<Longrightarrow> cr_digest c \<notin> cr_digest ` set rs \<Longrightarrow>
     lifecycle_step env rs (newestFirst env rs')"
| revoke: "revoke_records env now i reason rs = Inr (rs', c) \<Longrightarrow> lifecycle_step env rs (newestFirst env rs')"
| revoke_agent: "revoke_agent_records env now a reason rs = Inr (rs', cs) \<Longrightarrow>
     lifecycle_step env rs (newestFirst env rs')"

inductive lifecycle :: "cred_env \<Rightarrow> stored_credential list \<Rightarrow> stored_credential list \<Rightarrow> bool" for env where
  none: "lifecycle env rs rs"
| more: "lifecycle env rs rs' \<Longrightarrow> lifecycle_step env rs' rs'' \<Longrightarrow> lifecycle env rs rs''"

text \<open>Documented behaviour of dates: a printed timestamp is not empty and parses back.\<close>

definition dates_ok :: "cred_env \<Rightarrow> bool" where
  "dates_ok env \<longleftrightarrow> (\<forall>t. ce_iso env t \<noteq> [] \<and> (0 \<le> t \<longrightarrow> ce_parseDate env (ce_iso env t) = Some t))"

definition is_active :: "stored_credential \<Rightarrow> bool" where
  "is_active c = (\<not> truthy (cr_revokedAt c) \<and> cr_expiresAt c = None)"

definition records_ok :: "stored_credential list \<Rightarrow> bool" where
  "records_ok rs \<longleftrightarrow> distinct (map cr_credentialId rs) \<and> distinct (map cr_digest rs)
     \<and> (\<forall>c \<in> set rs. \<forall>d \<in> set rs. cr_agentId c = cr_agentId d \<and> is_active c \<and> is_active d \<longrightarrow> c = d)"

lemma Active_iff [simp]: "credentialState env now c = Active \<longleftrightarrow> is_active c"
  by (auto simp: credentialState_def is_active_def split: option.split)

lemma set_newestFirst [simp]: "set (newestFirst env rs) = set rs"
  by (simp add: newestFirst_def)

lemma distinct_map_sort_key: "distinct (map f (sort_key k xs)) = distinct (map f xs)"
proof -
  have "mset (map f (sort_key k xs)) = mset (map f xs)" by simp
  then show ?thesis by (rule mset_eq_imp_distinct_iff)
qed

lemma records_ok_newestFirst [simp]: "records_ok (newestFirst env rs) = records_ok rs"
  by (simp add: records_ok_def newestFirst_def distinct_map_sort_key)

lemma find_SomeE: "find P xs = Some x \<Longrightarrow> x \<in> set xs \<and> P x"
  by (auto simp: find_Some_iff)

lemma find_NoneE: "find P xs = None \<Longrightarrow> x \<in> set xs \<Longrightarrow> \<not> P x"
  by (simp add: find_None_iff)

lemma same_id: "records_ok rs \<Longrightarrow> c \<in> set rs \<Longrightarrow> d \<in> set rs \<Longrightarrow> cr_credentialId c = cr_credentialId d \<Longrightarrow> c = d"
  by (auto simp: records_ok_def distinct_map inj_on_def)

text \<open>Rewriting records without touching ids, digests or agents, and without reviving any.\<close>

lemma records_ok_rewrite:
  assumes "records_ok rs"
    and "\<And>c. c \<in> set rs \<Longrightarrow> cr_credentialId (f c) = cr_credentialId c \<and> cr_digest (f c) = cr_digest c
           \<and> cr_agentId (f c) = cr_agentId c \<and> (f c = c \<or> \<not> is_active (f c))"
  shows "records_ok (map f rs)"
proof -
  have "map cr_credentialId (map f rs) = map cr_credentialId rs" "map cr_digest (map f rs) = map cr_digest rs"
    using assms(2) by simp_all
  moreover have "f c = f d" if "c \<in> set rs" "d \<in> set rs" "cr_agentId (f c) = cr_agentId (f d)"
      "is_active (f c)" "is_active (f d)" for c d
    using that assms by (metis records_ok_def)
  ultimately show ?thesis using assms(1) by (auto simp: records_ok_def simp del: map_map)
qed

lemma records_ok_Cons:
  assumes "records_ok rs" "cr_credentialId c \<notin> cr_credentialId ` set rs" "cr_digest c \<notin> cr_digest ` set rs"
    and "\<And>d. d \<in> set rs \<Longrightarrow> cr_agentId d = cr_agentId c \<Longrightarrow> \<not> is_active d"
  shows "records_ok (c # rs)"
  using assms by (auto simp: records_ok_def)

lemma fresh_id: "freshCredentialId cands rs = Some i \<Longrightarrow> i \<notin> cr_credentialId ` set rs"
  by (auto simp: freshCredentialId_def list_ex_iff dest!: find_SomeE)

lemma issue_Inr:
  assumes "issue_records env now a token cands rs = Inr (rs', c, s)"
  shows "rs' = c # rs" "cr_credentialId c \<notin> cr_credentialId ` set rs" "cr_agentId c = a" "is_active c"
    "\<And>d. d \<in> set rs \<Longrightarrow> cr_agentId d = a \<Longrightarrow> \<not> is_active d" "cr_digest c = ce_sha256 env s"
  using assms
  by (auto simp: issue_records_def new_record_def is_active_def find_active_def Let_def mintCredential_def
      split: option.splits prod.splits if_splits dest!: fresh_id dest: find_NoneE)

lemma rotate_Inr:
  assumes "rotate_records env now a overlap token cands rs = Inr (rs', p, c, s)"
  obtains old where "old \<in> set rs" "cr_agentId old = a" "is_active old"
    "p = old\<lparr>cr_expiresAt := Some (ce_iso env (now + \<lfloor>overlap\<rfloor> * 1000))\<rparr>"
    "rs' = c # map (\<lambda>r. if cr_credentialId r = cr_credentialId old then p else r) rs"
    "cr_credentialId c \<notin> cr_credentialId ` set rs" "cr_agentId c = a" "is_active c" "cr_digest c = ce_sha256 env s"
  using assms
  by (auto simp: rotate_records_def new_record_def find_active_def Let_def mintCredential_def is_active_def
      split: option.splits prod.splits if_splits dest!: fresh_id find_SomeE)

lemma revoke_Inr:
  assumes "revoke_records env now i reason rs = Inr (rs', c)"
  obtains old where "old \<in> set rs" "cr_credentialId old = i" "\<not> truthy (cr_revokedAt old)"
    "c = revoked_record env now reason old" "rs' = map (\<lambda>r. if cr_credentialId r = i then c else r) rs"
  using assms by (auto simp: revoke_records_def Let_def split: option.splits if_splits dest!: find_SomeE)

lemma revoke_agent_Inr:
  assumes "revoke_agent_records env now a reason rs = Inr (rs', cs)"
  shows "rs' = map (\<lambda>r. if cr_credentialId r \<in> cr_credentialId ` {d \<in> set rs. cr_agentId d = a \<and> \<not> truthy (cr_revokedAt d)}
     then revoked_record env now reason r else r) rs"
  using assms by (auto simp: revoke_agent_records_def Let_def split: if_splits)

lemma revoked_record_simps [simp]:
  "cr_credentialId (revoked_record env now reason c) = cr_credentialId c"
  "cr_digest (revoked_record env now reason c) = cr_digest c"
  "cr_agentId (revoked_record env now reason c) = cr_agentId c"
  "dates_ok env \<Longrightarrow> truthy (cr_revokedAt (revoked_record env now reason c))"
  "dates_ok env \<Longrightarrow> \<not> is_active (revoked_record env now reason c)"
  by (simp_all add: revoked_record_def dates_ok_def is_active_def)

lemma unchanged_mem: "c \<in> set rs \<Longrightarrow> f c = c \<Longrightarrow> c \<in> set (map f rs)"
  unfolding set_map by (rule image_eqI [OF sym])

lemma step_ok:
  assumes "lifecycle_step env rs rs'" "records_ok rs" "dates_ok env"
  shows "records_ok rs' \<and> (\<forall>c \<in> set rs. truthy (cr_revokedAt c) \<longrightarrow> c \<in> set rs')"
  using assms(1)
proof cases
  case (issue now a token ids rs1 c s)
  note i = issue_Inr [OF issue(2)]
  have "records_ok (c # rs)" by (rule records_ok_Cons [OF assms(2) i(2) issue(3)]) (use i(3,5) in auto)
  with i(1) issue(1) show ?thesis by auto
next
  case (rotate now a overlap token ids rs1 p c s)
  from rotate(2) obtain old where old: "old \<in> set rs" "cr_agentId old = a" "is_active old"
    "p = old\<lparr>cr_expiresAt := Some (ce_iso env (now + \<lfloor>overlap\<rfloor> * 1000))\<rparr>"
    "rs1 = c # map (\<lambda>r. if cr_credentialId r = cr_credentialId old then p else r) rs"
    "cr_credentialId c \<notin> cr_credentialId ` set rs" "cr_agentId c = a" "is_active c"
    by (rule rotate_Inr)
  let ?f = "\<lambda>r. if cr_credentialId r = cr_credentialId old then p else r"
  have f: "cr_credentialId (?f r) = cr_credentialId r \<and> cr_digest (?f r) = cr_digest r
      \<and> cr_agentId (?f r) = cr_agentId r \<and> (?f r = r \<or> \<not> is_active (?f r))" if "r \<in> set rs" for r
    using same_id [OF assms(2) that old(1)] old(4) by (auto simp: is_active_def)
  have "records_ok (map ?f rs)" by (rule records_ok_rewrite [OF assms(2) f])
  then have "records_ok rs1"
    unfolding old(5)
  proof (rule records_ok_Cons)
    show "cr_credentialId c \<notin> cr_credentialId ` set (map ?f rs)" using old(6) f by (force simp: image_iff)
    show "cr_digest c \<notin> cr_digest ` set (map ?f rs)" using rotate(3) f by (force simp: image_iff)
    show "\<not> is_active d" if "d \<in> set (map ?f rs)" "cr_agentId d = cr_agentId c" for d
    proof -
      from that(1) obtain r where r: "r \<in> set rs" "d = ?f r" by auto
      show ?thesis
      proof (cases "r = old")
        case True
        then show ?thesis using r old(4) by (simp add: is_active_def)
      next
        case False
        then have "d = r" using r same_id [OF assms(2) r(1) old(1)] by auto
        with False that(2) r(1) old(1,2,3,7) assms(2) show ?thesis unfolding records_ok_def by metis
      qed
    qed
  qed
  moreover have "c' \<in> set rs1" if "c' \<in> set rs" "truthy (cr_revokedAt c')" for c'
  proof -
    have "c' \<noteq> old" using that(2) old(3) by (auto simp: is_active_def)
    then have "?f c' = c'" using same_id [OF assms(2) that(1) old(1)] by auto
    with that(1) have "c' \<in> set (map ?f rs)" by (rule unchanged_mem)
    then show ?thesis unfolding old(5) by (rule list.set_intros(2))
  qed
  ultimately show ?thesis using rotate(1) by simp
next
  case (revoke now i reason rs1 c)
  from revoke(2) obtain old where old: "old \<in> set rs" "cr_credentialId old = i" "\<not> truthy (cr_revokedAt old)"
    "c = revoked_record env now reason old" "rs1 = map (\<lambda>r. if cr_credentialId r = i then c else r) rs"
    by (rule revoke_Inr)
  have c: "cr_credentialId c = cr_credentialId old" "cr_digest c = cr_digest old" "cr_agentId c = cr_agentId old"
    "\<not> is_active c" using old(4) assms(3) by simp_all
  have "r = old" if "r \<in> set rs" "cr_credentialId r = i" for r
    using same_id [OF assms(2) that(1) old(1)] that(2) old(2) by simp
  with c have "records_ok rs1"
    unfolding old(5) by (intro records_ok_rewrite [OF assms(2)]) auto
  moreover have "c' \<in> set rs1" if "c' \<in> set rs" "truthy (cr_revokedAt c')" for c'
  proof -
    have "cr_credentialId c' \<noteq> i" using that old(2,3) same_id [OF assms(2) that(1) old(1)] by auto
    with that(1) show ?thesis unfolding old(5) by (intro unchanged_mem) simp_all
  qed
  ultimately show ?thesis using revoke(1) by simp
next
  case (revoke_agent now a reason rs1 cs)
  note r = revoke_agent_Inr [OF revoke_agent(2)]
  have "records_ok rs1"
    unfolding r using assms(2) by (rule records_ok_rewrite) (use assms(3) in auto)
  moreover have "c' \<in> set rs1" if "c' \<in> set rs" "truthy (cr_revokedAt c')" for c'
  proof -
    have "cr_credentialId c' \<notin> cr_credentialId ` {d \<in> set rs. cr_agentId d = a \<and> \<not> truthy (cr_revokedAt d)}"
      using that same_id [OF assms(2) that(1)] by auto
    with that(1) show ?thesis unfolding r by (intro unchanged_mem if_not_P)
  qed
  ultimately show ?thesis using revoke_agent(1) by simp
qed

lemma lifecycle_ok:
  assumes "lifecycle env rs rs'" "records_ok rs" "dates_ok env"
  shows "records_ok rs' \<and> (\<forall>c \<in> set rs. truthy (cr_revokedAt c) \<longrightarrow> c \<in> set rs')"
  using assms by (induction rule: lifecycle.induct) (auto dest: step_ok)

lemma find_append_one:
  "find P (xs @ [x]) = (case find P xs of None \<Rightarrow> if P x then Some x else None | Some y \<Rightarrow> Some y)"
  by (induction xs) auto

lemma index_lookup:
  "omap_get (foldl (\<lambda>index c. omap_put (cr_digest c) c index) m rs) d =
     (case find (\<lambda>c. cr_digest c = d) (rev rs) of None \<Rightarrow> omap_get m d | Some c \<Rightarrow> Some c)"
proof (induction rs arbitrary: m)
  case (Cons c rs)
  show ?case by (auto simp: Cons.IH find_append_one split: option.split)
qed simp

lemma lookup_distinct:
  assumes "c \<in> set rs" "distinct (map cr_digest rs)"
  shows "omap_get (indexByDigest rs) (cr_digest c) = Some c"
proof -
  obtain d where d: "find (\<lambda>x. cr_digest x = cr_digest c) (rev rs) = Some d"
    using assms(1) by (cases "find (\<lambda>x. cr_digest x = cr_digest c) (rev rs)") (auto simp: find_None_iff)
  then have "d \<in> set rs" "cr_digest d = cr_digest c" by (auto dest: find_SomeE)
  with assms have "d = c" by (auto simp: distinct_map inj_on_def)
  with d show ?thesis by (simp add: indexByDigest_def index_lookup)
qed

lemma records_ok_Nil: "records_ok []"
  by (simp add: records_ok_def)

lemma lookup_in_ok:
  "records_ok rs \<Longrightarrow> c \<in> set rs \<Longrightarrow> lookup_in env now (indexByDigest rs) (cr_digest c) = Some (c, credentialState env now c)"
  by (simp add: lookup_in_def lookup_distinct records_ok_def)

subsection \<open>Properties\<close>

definition sample_cred_env :: cred_env where
  "sample_cred_env = \<lparr>ce_parseDate = (\<lambda>s. if s = [] then None else Some (int (length s) - 1)),
     ce_iso = (\<lambda>t. replicate (Suc (nat t)) CHR ''t''), ce_sha256 = (\<lambda>s. s), ce_parseFile = (\<lambda>b. if b = ''bad'' then None else Some []),
     ce_dumpFile = (\<lambda>stamp rs. ''dump'')\<rparr>"

definition sample_credential :: stored_credential where
  "sample_credential = new_record sample_cred_env 0 ''a'' ''c1'' ''d1''"


lemma sample_dates_ok: "dates_ok sample_cred_env"
  by (simp add: dates_ok_def sample_cred_env_def)

definition issued :: "stored_credential list" where
  "issued = newestFirst sample_cred_env [new_record sample_cred_env 0 ''a'' ''c1'' ''a:k1'']"

lemma issued_step: "lifecycle_step sample_cred_env [] issued"
proof -
  have "mintCredential sample_cred_env ''a'' ''k1'' = Some (''a:k1'', ''a:k1'')" by code_simp
  then have "issue_records sample_cred_env 0 ''a'' ''k1'' [''c1''] [] =
      Inr ([new_record sample_cred_env 0 ''a'' ''c1'' ''a:k1''], new_record sample_cred_env 0 ''a'' ''c1'' ''a:k1'', ''a:k1'')"
    by (simp add: issue_records_def find_active_def freshCredentialId_def Let_def)
  from lifecycle_step.issue [OF this] show ?thesis by (simp add: issued_def)
qed

lemma issued_run: "lifecycle sample_cred_env [] issued"
  by (rule lifecycle.more [OF lifecycle.none issued_step])

lemma set_issued: "set issued = {new_record sample_cred_env 0 ''a'' ''c1'' ''a:k1''}"
  by (simp add: issued_def)


text \<open>A revocation is permanent: once a credential has been revoked, whatever is issued, rotated or revoked
  afterwards, looking its digest up finds that record in the state \<open>Revoked\<close> at any time.\<close>

theorem revocation_is_permanent:
  assumes "lifecycle env [] rs" "dates_ok env" "revoke_records env now i reason rs = Inr (rs', c)"
    and "lifecycle env (newestFirst env rs') later"
  shows "static_lookup env t later (cr_digest c) = Some (c, Revoked)"
proof -
  from lifecycle_ok [OF assms(1) records_ok_Nil assms(2)] have ok: "records_ok rs" by simp
  from assms(3) obtain old where old: "old \<in> set rs" "cr_credentialId old = i"
    "c = revoked_record env now reason old" "rs' = map (\<lambda>r. if cr_credentialId r = i then c else r) rs"
    by (rule revoke_Inr)
  have "c \<in> set rs'" using old by (force simp: image_iff)
  moreover have rev: "truthy (cr_revokedAt c)" using old(3) assms(2) by simp
  moreover have "records_ok rs'"
    using step_ok [OF lifecycle_step.revoke [OF assms(3)] ok assms(2)] by simp
  ultimately have "records_ok later" "c \<in> set later"
    using lifecycle_ok [OF assms(4) _ assms(2)] by auto
  then have "lookup_in env t (indexByDigest (newestFirst env later)) (cr_digest c) = Some (c, credentialState env t c)"
    by (intro lookup_in_ok) simp_all
  with rev show ?thesis by (simp add: static_lookup_def credentialState_def)
qed

theorem revocation_is_permanent_witness:
  "\<exists>c. static_lookup sample_cred_env 100 (newestFirst sample_cred_env
      [revoked_record sample_cred_env 5 None (new_record sample_cred_env 0 ''a'' ''c1'' ''a:k1'')]) ''a:k1'' = Some (c, Revoked)"
proof -
  let ?c = "new_record sample_cred_env 0 ''a'' ''c1'' ''a:k1''"
  have "revoke_records sample_cred_env 5 ''c1'' None issued = Inr ([revoked_record sample_cred_env 5 None ?c],
      revoked_record sample_cred_env 5 None ?c)"
    by (simp add: revoke_records_def issued_def newestFirst_def new_record_def Let_def)
  from revocation_is_permanent [OF issued_run sample_dates_ok this lifecycle.none, of 100]
  show ?thesis by (auto simp: new_record_def)
qed

text \<open>A rotation overlaps exactly as long as it says: after rotating at \<open>now\<close> with \<open>overlapSeconds\<close>, the old
  credential is still accepted, in state \<open>Overlap\<close>, until \<open>now + overlapSeconds * 1000\<close> and is \<open>Expired\<close> from then
  on, while the new credential of the same agent is \<open>Active\<close> throughout.\<close>

theorem rotation_overlap_is_exact:
  assumes "rotate_records env now a overlapSeconds token ids rs = Inr (rs', p, c, secret)"
    and "dates_ok env" "0 \<le> now" "0 \<le> overlapSeconds"
  shows "credentialState env t p = (if t < now + \<lfloor>overlapSeconds\<rfloor> * 1000 then Overlap else Expired)
       \<and> credentialState env t c = Active \<and> cr_agentId c = a \<and> cr_agentId p = a \<and> c \<in> set rs' \<and> p \<in> set rs'
       \<and> cr_digest c = ce_sha256 env secret"
proof -
  from assms(1) obtain old where old: "old \<in> set rs" "cr_agentId old = a" "is_active old"
    "p = old\<lparr>cr_expiresAt := Some (ce_iso env (now + \<lfloor>overlapSeconds\<rfloor> * 1000))\<rparr>"
    "rs' = c # map (\<lambda>r. if cr_credentialId r = cr_credentialId old then p else r) rs"
    "cr_agentId c = a" "is_active c" "cr_digest c = ce_sha256 env secret"
    by (rule rotate_Inr)
  have "0 \<le> now + \<lfloor>overlapSeconds\<rfloor> * 1000" using assms(3,4) by simp
  then have "ce_parseDate env (ce_iso env (now + \<lfloor>overlapSeconds\<rfloor> * 1000)) = Some (now + \<lfloor>overlapSeconds\<rfloor> * 1000)"
    using assms(2) by (simp add: dates_ok_def)
  then have "credentialState env t p = (if t < now + \<lfloor>overlapSeconds\<rfloor> * 1000 then Overlap else Expired)"
    using old(3,4) by (auto simp: credentialState_def is_active_def)
  moreover have "p \<in> set rs'" using old(1,5) by (force simp: image_iff)
  ultimately show ?thesis using old by simp
qed

theorem rotation_overlap_is_exact_witness:
  "\<exists>p. credentialState sample_cred_env 9 p = Overlap \<and> credentialState sample_cred_env 1010 p = Expired"
proof -
  have m: "mintCredential sample_cred_env ''a'' ''k2'' = Some (''a:k2'', ''a:k2'')" by code_simp
  obtain rs' p c where r: "rotate_records sample_cred_env 10 ''a'' 1 ''k2'' [''c2''] issued = Inr (rs', p, c, ''a:k2'')"
    by (simp add: rotate_records_def find_active_def issued_def newestFirst_def m freshCredentialId_def is_active_def
        new_record_def Let_def)
  from rotation_overlap_is_exact [OF r sample_dates_ok, of 9] rotation_overlap_is_exact [OF r sample_dates_ok, of 1010]
  show ?thesis by (intro exI [of _ p]) simp
qed

text \<open>A revocation made by another process takes effect within a second: a lookup at least
  \<open>RELOAD_CHECK_MS\<close> after the last check, on a file whose stamp has changed, answers from the new file; and a file
  that has gone or does not parse leaves the last good records in force rather than dropping them.\<close>

theorem store_staleness_is_bounded:
  assumes "RELOAD_CHECK_MS \<le> now - cs_lastCheck cs" "fileStamp disk \<noteq> cs_stamp cs"
  shows "(\<forall>stamp bytes records. disk = Some (stamp, bytes) \<and> ce_parseFile env bytes = Some records \<longrightarrow>
            snd (lookup env now disk d cs) = static_lookup env now records d)
       \<and> (cs_loadedOnce cs \<and> (disk = None \<or> (\<exists>stamp bytes. disk = Some (stamp, bytes) \<and> ce_parseFile env bytes = None)) \<longrightarrow>
            snd (lookup env now disk d cs) = lookup_in env now (cs_byDigest cs) d
            \<and> cs_records (fst (lookup env now disk d cs)) = cs_records cs
            \<and> cs_lastError (fst (lookup env now disk d cs)))"
  using assms by (auto simp: lookup_def refresh_def reload_credentials_def static_lookup_def Let_def)

theorem store_staleness_is_bounded_witness:
  "snd (lookup sample_cred_env 1000 (Some (''s2'', ''new'')) ''a:k1'' (newStore sample_cred_env 0 (Some (''s1'', ''old''))))
   = static_lookup sample_cred_env 1000 [] ''a:k1''"
proof -
  let ?cs = "newStore sample_cred_env 0 (Some (''s1'', ''old''))"
  have "ce_parseFile sample_cred_env ''old'' = Some []" "ce_parseFile sample_cred_env ''new'' = Some []"
    by (simp_all add: sample_cred_env_def)
  then have "cs_lastCheck ?cs = 0" "cs_stamp ?cs = Some ''s1''"
    by (simp_all add: newStore_def reload_credentials_def Let_def)
  with store_staleness_is_bounded [of 1000 ?cs "Some (''s2'', ''new'')" sample_cred_env "''a:k1''"]
    \<open>ce_parseFile sample_cred_env ''new'' = Some []\<close>
  show ?thesis by (simp add: RELOAD_CHECK_MS_def fileStamp_def)
qed

text \<open>The printed durations misstate some inputs: within the hours and days ranges the remainder is rounded
  after the unit was chosen, so 7199 seconds print as one hour and sixty minutes, and a remainder that rounds to
  zero is dropped only from the text, so 3610 seconds print the fraction 361/360 as a count of hours.\<close>

theorem formatDuration_misstates:
  "formatDuration show_number 7199 = ''1h 60m'' \<and> formatDuration show_number 3610 = show_number (361 / 360) @ ''h''"
proof -
  have h: "half_up 7199 = 7199" "half_up (3599 / 60) = 60" "half_up 3610 = 3610" "half_up (1 / 6) = 0"
    unfolding half_up_def by (rule floor_unique; simp)+
  have "show_int 1 = ''1''" "show_int 60 = ''60''"
    by (simp_all add: show_int_def show_nat_1 show_nat_2 digit_char_def)
  with h show ?thesis by (simp add: formatDuration_def Let_def)
qed

end
