(* ===== verification/Agent_Registry.thy ===== *)
theory Agent_Registry
  imports Fleet_Credentials
begin

text \<open>
  Which declared agent a connection belongs to: \<open>src/fleet/registry.ts\<close>. The declarations and their
  schema, digests pinned in the configuration, the ambiguity check, the indexes built at start-up, the
  identity floor and the resolution of a connection's signals (a presented credential, the socket's
  uid, the process name) to an agent, a refusal, or nobody. The credential source is the store of
  \<open>Fleet_Credentials\<close> or a fixed list; a digest is its hexadecimal string; \<open>process.env\<close>, SHA-256 and
  the clock are arguments.
\<close>

subsection \<open>Declarations\<close>

datatype match_signal = ByCredential | ByUidComm | ByUid | ByComm | ByNothing

datatype unmatched_posture = GlobalPosture | DenyUnmatched

datatype minimum_tier = AnyTier | UidTier | CredentialTier

definition UNDECLARED_AGENT_ID :: string where "UNDECLARED_AGENT_ID = ''unattributed''"
definition ISSUED_CREDENTIAL :: string where "ISSUED_CREDENTIAL = ''issued''"

record agent_match =
  am_uid :: "int option"
  am_comm :: "string list option"
  am_credential :: "string option"

record agent_budget =
  ab_windowSeconds :: int
  ab_maxRequests :: "int option"
  ab_maxBytes :: "int option"

record agent_egress =
  ae_allowedHosts :: "string list option"
  ae_allowedPorts :: "int list option"

record fleet_agent =
  fa_id :: string
  fa_label :: "string option"
  fa_match :: agent_match
  fa_egress :: "agent_egress option"
  fa_budget :: "agent_budget option"

record fleet_config =
  fc_unmatched :: unmatched_posture
  fc_minimumMatchTier :: minimum_tier
  fc_credentialStore :: "string option"
  fc_agents :: "fleet_agent list"

definition all_opt :: "('a \<Rightarrow> bool) \<Rightarrow> 'a option \<Rightarrow> bool" where
  "all_opt P x = (case x of None \<Rightarrow> True | Some v \<Rightarrow> P v)"

definition agent_match_ok :: "agent_match \<Rightarrow> bool" where
  "agent_match_ok m =
     (all_opt (\<lambda>u. u \<ge> 0) (am_uid m) \<and> all_opt (\<lambda>cs. cs \<noteq> [] \<and> list_all (\<lambda>c. c \<noteq> []) cs) (am_comm m) \<and>
      all_opt (\<lambda>c. c \<noteq> []) (am_credential m) \<and>
      (am_uid m \<noteq> None \<or> am_comm m \<noteq> None \<or> am_credential m \<noteq> None))"

definition agent_budget_ok :: "agent_budget \<Rightarrow> bool" where
  "agent_budget_ok b =
     (ab_windowSeconds b > 0 \<and> all_opt (\<lambda>n. n > 0) (ab_maxRequests b) \<and> all_opt (\<lambda>n. n > 0) (ab_maxBytes b) \<and>
      (ab_maxRequests b \<noteq> None \<or> ab_maxBytes b \<noteq> None))"

definition agent_egress_ok :: "agent_egress \<Rightarrow> bool" where
  "agent_egress_ok e =
     (all_opt (list_all (\<lambda>h. h \<noteq> [])) (ae_allowedHosts e) \<and>
      all_opt (list_all (\<lambda>p. 1 \<le> p \<and> p \<le> 65535)) (ae_allowedPorts e) \<and>
      (ae_allowedHosts e \<noteq> None \<or> ae_allowedPorts e \<noteq> None))"

definition fleet_agent_ok :: "fleet_agent \<Rightarrow> bool" where
  "fleet_agent_ok a =
     (fa_id a \<noteq> [] \<and> all_opt (\<lambda>l. l \<noteq> []) (fa_label a) \<and> agent_match_ok (fa_match a) \<and>
      all_opt agent_egress_ok (fa_egress a) \<and> all_opt agent_budget_ok (fa_budget a))"

record registered_agent =
  ra_id :: string
  ra_label :: string
  ra_uid :: "int option"
  ra_comm :: "string list"
  ra_credentialDigest :: "string option"
  ra_credentialFromStore :: bool
  ra_egress :: "agent_egress option"
  ra_budget :: "agent_budget option"

datatype registry_error =
    DuplicateId string
  | BothMatch string string match_signal string
  | InvalidSha256 string
  | EmptyEnvName string
  | EnvUnset string string
  | LiteralCredential string
  | TwoCredentialSources string

subsection \<open>Binding tiers\<close>

datatype uid_comm_binding = BindUidComm int "string list" | BindUid int | BindComm "string list"

definition uidCommBinding :: "registered_agent \<Rightarrow> uid_comm_binding option" where
  "uidCommBinding a =
     (case ra_uid a of
        Some u \<Rightarrow> if ra_comm a \<noteq> [] then Some (BindUidComm u (ra_comm a)) else Some (BindUid u)
      | None \<Rightarrow> if ra_comm a \<noteq> [] then Some (BindComm (ra_comm a)) else None)"

fun tier_of :: "uid_comm_binding \<Rightarrow> match_signal" where
  "tier_of (BindUidComm u cs) = ByUidComm"
| "tier_of (BindUid u) = ByUid"
| "tier_of (BindComm cs) = ByComm"

definition strongestBindingTier :: "registered_agent \<Rightarrow> match_signal" where
  "strongestBindingTier a =
     (if ra_credentialDigest a \<noteq> None then ByCredential
      else case uidCommBinding a of None \<Rightarrow> ByNothing | Some b \<Rightarrow> tier_of b)"

definition weakestBindingTier :: "registered_agent \<Rightarrow> match_signal" where
  "weakestBindingTier a =
     (case uidCommBinding a of
        Some b \<Rightarrow> tier_of b
      | None \<Rightarrow> if ra_credentialDigest a \<noteq> None then ByCredential else ByNothing)"

definition BINDING_TIER_ORDER :: "match_signal list" where
  "BINDING_TIER_ORDER = [ByNothing, ByComm, ByUid, ByUidComm, ByCredential]"

fun index_of :: "'a list \<Rightarrow> 'a \<Rightarrow> int" where \<comment> \<open>\<open>Array.prototype.indexOf\<close>\<close>
  "index_of [] x = -1"
| "index_of (y # ys) x = (if y = x then 0 else (let i = index_of ys x in if i < 0 then i else i + 1))"

definition compareBindingTier :: "match_signal \<Rightarrow> match_signal \<Rightarrow> int" where
  "compareBindingTier left right = index_of BINDING_TIER_ORDER left - index_of BINDING_TIER_ORDER right"

definition meetsMinimumTier :: "match_signal \<Rightarrow> minimum_tier \<Rightarrow> bool" where
  "meetsMinimumTier s minimum =
     (case minimum of
        AnyTier \<Rightarrow> True
      | CredentialTier \<Rightarrow> s = ByCredential
      | UidTier \<Rightarrow> s = ByCredential \<or> s = ByUid \<or> s = ByUidComm)"

subsection \<open>Digests pinned in the configuration\<close>

record fleet_env =
  fe_cred :: cred_env
  fe_getenv :: "string \<Rightarrow> string option"

definition starts_with :: "string \<Rightarrow> string \<Rightarrow> bool" where
  "starts_with s p = (take (length p) s = p)"

definition resolveCredentialDigest :: "fleet_env \<Rightarrow> string \<Rightarrow> string \<Rightarrow> registry_error + string option" where
  "resolveCredentialDigest env raw agentId =
     (if raw = ISSUED_CREDENTIAL then Inr None
      else if starts_with raw ''sha256:'' then
        (let hex = js_lower (js_trim (drop 7 raw)) in
         if length hex = 64 \<and> list_all (ch_in ''0123456789abcdef'') hex then Inr (Some hex)
         else Inl (InvalidSha256 agentId))
      else if starts_with raw ''env:'' then
        (let name = js_trim (drop 4 raw) in
         if name = [] then Inl (EmptyEnvName agentId)
         else if truthy (fe_getenv env name) then Inr (Some (ce_sha256 (fe_cred env) (the (fe_getenv env name))))
         else Inl (EnvUnset agentId name))
      else Inl (LiteralCredential agentId))"

definition register_agent :: "fleet_env \<Rightarrow> fleet_agent \<Rightarrow> registry_error + registered_agent" where
  "register_agent env d =
     (let mk = (\<lambda>digest. \<lparr>ra_id = fa_id d, ra_label = (case fa_label d of None \<Rightarrow> fa_id d | Some l \<Rightarrow> l),
                  ra_uid = am_uid (fa_match d),
                  ra_comm = (case am_comm (fa_match d) of None \<Rightarrow> [] | Some cs \<Rightarrow> cs),
                  ra_credentialDigest = digest,
                  ra_credentialFromStore = (am_credential (fa_match d) = Some ISSUED_CREDENTIAL),
                  ra_egress = fa_egress d, ra_budget = fa_budget d\<rparr>)
      in if truthy (am_credential (fa_match d)) then
           (case resolveCredentialDigest env (the (am_credential (fa_match d))) (fa_id d) of
              Inl e \<Rightarrow> Inl e
            | Inr digest \<Rightarrow> Inr (mk digest))
         else Inr (mk None))"

fun map_result :: "('a \<Rightarrow> 'e + 'b) \<Rightarrow> 'a list \<Rightarrow> 'e + 'b list" where
  "map_result f [] = Inr []"
| "map_result f (x # xs) =
     (case f x of Inl e \<Rightarrow> Inl e
      | Inr y \<Rightarrow> (case map_result f xs of Inl e \<Rightarrow> Inl e | Inr ys \<Rightarrow> Inr (y # ys)))"

subsection \<open>The ambiguity check\<close>

fun first_duplicate :: "string list \<Rightarrow> string set \<Rightarrow> string option" where
  "first_duplicate [] seen = None"
| "first_duplicate (i # is) seen = (if i \<in> seen then Some i else first_duplicate is (insert i seen))"

definition uid_comm_key :: "int \<Rightarrow> string \<Rightarrow> string" where
  "uid_comm_key u c = show_int u @ ''/'' @ c"

text \<open>What an agent claims: tier and key, in the order the check visits them.\<close>

definition binding_claims :: "registered_agent \<Rightarrow> (match_signal \<times> string) list" where
  "binding_claims a =
     (case uidCommBinding a of
        None \<Rightarrow> []
      | Some (BindUidComm u cs) \<Rightarrow> map (\<lambda>c. (ByUidComm, uid_comm_key u c)) cs
      | Some (BindUid u) \<Rightarrow> [(ByUid, show_int u)]
      | Some (BindComm cs) \<Rightarrow> map (\<lambda>c. (ByComm, c)) cs)"

definition claims_of :: "registered_agent \<Rightarrow> (match_signal \<times> string) list" where
  "claims_of a = (case ra_credentialDigest a of None \<Rightarrow> [] | Some d \<Rightarrow> [(ByCredential, d)]) @ binding_claims a"

fun claim_all ::
  "((match_signal \<times> string) \<times> string) list \<Rightarrow> ((match_signal \<times> string) \<times> string) list \<Rightarrow> registry_error option" where
  "claim_all [] owners = None"
| "claim_all ((key, agentId) # cs) owners =
     (if truthy (omap_get owners key) then Some (BothMatch (the (omap_get owners key)) agentId (fst key) (snd key))
      else claim_all cs (omap_put key agentId owners))"

definition assertUnambiguous :: "registered_agent list \<Rightarrow> registry_error option" where
  "assertUnambiguous agents =
     (case first_duplicate (map ra_id agents) {} of
        Some i \<Rightarrow> Some (DuplicateId i)
      | None \<Rightarrow> claim_all (concat (map (\<lambda>a. map (\<lambda>k. (k, ra_id a)) (claims_of a)) agents)) [])"

subsection \<open>The credential source\<close>

datatype cred_source = NoSource | FileSource cred_store | FixedSource "stored_credential list"

definition source_listFor ::
  "cred_env \<Rightarrow> int \<Rightarrow> cred_disk \<Rightarrow> string \<Rightarrow> cred_source \<Rightarrow> cred_source \<times> stored_credential list" where
  "source_listFor env now disk agentId src =
     (case src of
        NoSource \<Rightarrow> (src, [])
      | FileSource cs \<Rightarrow> (let (cs', rs) = listFor env now disk agentId cs in (FileSource cs', rs))
      | FixedSource records \<Rightarrow> (src, static_list env records agentId))"

definition source_lookup ::
  "cred_env \<Rightarrow> int \<Rightarrow> cred_disk \<Rightarrow> string \<Rightarrow> cred_source
     \<Rightarrow> cred_source \<times> (stored_credential \<times> credential_state) option" where
  "source_lookup env now disk presented src =
     (case src of
        NoSource \<Rightarrow> (src, None)
      | FileSource cs \<Rightarrow> (let (cs', m) = lookup env now disk presented cs in (FileSource cs', m))
      | FixedSource records \<Rightarrow> (src, static_lookup env now records presented))"

subsection \<open>The registry\<close>

record agent_registry =
  rg_unmatched :: unmatched_posture
  rg_minimumMatchTier :: minimum_tier
  rg_agents :: "registered_agent list"
  rg_credentials :: cred_source
  rg_byId :: "(string \<times> registered_agent) list"
  rg_byCredential :: "(string \<times> registered_agent) list"
  rg_byUidComm :: "(string \<times> registered_agent) list"
  rg_byUid :: "(int \<times> registered_agent) list"
  rg_byComm :: "(string \<times> registered_agent) list"

definition index_binding :: "registered_agent \<Rightarrow> agent_registry \<Rightarrow> agent_registry" where
  "index_binding a rg =
     (case uidCommBinding a of
        None \<Rightarrow> rg
      | Some (BindUidComm u cs) \<Rightarrow>
          rg\<lparr>rg_byUidComm := foldl (\<lambda>m c. omap_put (uid_comm_key u c) a m) (rg_byUidComm rg) cs\<rparr>
      | Some (BindUid u) \<Rightarrow> rg\<lparr>rg_byUid := omap_put u a (rg_byUid rg)\<rparr>
      | Some (BindComm cs) \<Rightarrow> rg\<lparr>rg_byComm := foldl (\<lambda>m c. omap_put c a m) (rg_byComm rg) cs\<rparr>)"

definition index_credential :: "registered_agent \<Rightarrow> agent_registry \<Rightarrow> agent_registry" where
  "index_credential a rg =
     (case ra_credentialDigest a of
        None \<Rightarrow> rg | Some d \<Rightarrow> rg\<lparr>rg_byCredential := omap_put d a (rg_byCredential rg)\<rparr>)"

fun index_all ::
  "fleet_env \<Rightarrow> int \<Rightarrow> cred_disk \<Rightarrow> registered_agent list \<Rightarrow> agent_registry \<Rightarrow> registry_error + agent_registry" where
  "index_all env now disk [] rg = Inr rg"
| "index_all env now disk (a # as) rg =
     (let rg1 = rg\<lparr>rg_byId := omap_put (ra_id a) a (rg_byId rg)\<rparr>;
          (src, issued) = (if ra_credentialDigest a \<noteq> None
                           then source_listFor (fe_cred env) now disk (ra_id a) (rg_credentials rg1)
                           else (rg_credentials rg1, []));
          rg2 = rg1\<lparr>rg_credentials := src\<rparr>
      in if ra_credentialDigest a \<noteq> None \<and> issued \<noteq> [] then Inl (TwoCredentialSources (ra_id a))
         else index_all env now disk as (index_binding a (index_credential a rg2)))"

definition newRegistry ::
  "fleet_env \<Rightarrow> int \<Rightarrow> cred_disk \<Rightarrow> fleet_config \<Rightarrow> cred_source \<Rightarrow> registry_error + agent_registry" where
  "newRegistry env now disk config src =
     (case map_result (register_agent env) (fc_agents config) of
        Inl e \<Rightarrow> Inl e
      | Inr agents \<Rightarrow> (case assertUnambiguous agents of
          Some e \<Rightarrow> Inl e
        | None \<Rightarrow> index_all env now disk agents
            \<lparr>rg_unmatched = fc_unmatched config, rg_minimumMatchTier = fc_minimumMatchTier config,
             rg_agents = agents, rg_credentials = src, rg_byId = [], rg_byCredential = [], rg_byUidComm = [],
             rg_byUid = [], rg_byComm = []\<rparr>))"

definition getAgent :: "agent_registry \<Rightarrow> string \<Rightarrow> registered_agent option" where
  "getAgent rg i = omap_get (rg_byId rg) i"

definition credentialsFor ::
  "cred_env \<Rightarrow> int \<Rightarrow> cred_disk \<Rightarrow> string \<Rightarrow> agent_registry \<Rightarrow> agent_registry \<times> stored_credential list" where
  "credentialsFor env now disk i rg =
     (let (src, rs) = source_listFor env now disk i (rg_credentials rg) in (rg\<lparr>rg_credentials := src\<rparr>, rs))"

subsection \<open>The identity floor\<close>

definition quoted :: "string \<Rightarrow> string" where "quoted s = CHR 0x22 # s @ [CHR 0x22]"

fun signal_str :: "match_signal \<Rightarrow> string" where
  "signal_str ByCredential = ''credential''"
| "signal_str ByUidComm = ''uid+comm''"
| "signal_str ByUid = ''uid''"
| "signal_str ByComm = ''comm''"
| "signal_str ByNothing = ''none''"

fun tier_str :: "minimum_tier \<Rightarrow> string" where
  "tier_str AnyTier = ''any''"
| "tier_str UidTier = ''uid''"
| "tier_str CredentialTier = ''credential''"

definition floorBlocks ::
  "cred_env \<Rightarrow> int \<Rightarrow> cred_disk \<Rightarrow> registered_agent \<Rightarrow> agent_registry \<Rightarrow> agent_registry \<times> string option" where
  "floorBlocks env now disk a rg =
     (let (rg', hasCredential) =
            (if ra_credentialDigest a \<noteq> None then (rg, True)
             else (let (rg', issued) = credentialsFor env now disk (ra_id a) rg in (rg', issued \<noteq> [])))
      in (rg',
          if ra_credentialFromStore a \<and> \<not> hasCredential \<and> ra_uid a = None \<and> ra_comm a = [] then
            Some (''declares '' @ quoted ''credential: issued'' @ '' and has none. Run ''
                  @ quoted (''agentwall fleet issue --agent '' @ ra_id a) @ ''.'')
          else if rg_minimumMatchTier rg = AnyTier then None
          else if rg_minimumMatchTier rg = CredentialTier \<and> \<not> hasCredential then
            Some (''declares no credential, and fleet.minimumMatchTier is '' @ quoted ''credential'' @ ''. Run ''
                  @ quoted (''agentwall fleet issue --agent '' @ ra_id a) @ ''.'')
          else if rg_minimumMatchTier rg = UidTier \<and> \<not> hasCredential \<and> ra_uid a = None then
            Some (''matches on comm alone, and fleet.minimumMatchTier is '' @ quoted ''uid''
                  @ ''. Add match.uid or issue a credential.'')
          else None))"

fun unbindable_from ::
  "cred_env \<Rightarrow> int \<Rightarrow> cred_disk \<Rightarrow> registered_agent list \<Rightarrow> agent_registry \<Rightarrow> agent_registry \<times> (string \<times> string) list" where
  "unbindable_from env now disk [] rg = (rg, [])"
| "unbindable_from env now disk (a # as) rg =
     (let (rg1, blocked) = floorBlocks env now disk a rg;
          (rg2, out) = unbindable_from env now disk as rg1
      in (rg2, if truthy blocked then (ra_id a, the blocked) # out else out))"

definition unbindable ::
  "cred_env \<Rightarrow> int \<Rightarrow> cred_disk \<Rightarrow> agent_registry \<Rightarrow> agent_registry \<times> (string \<times> string) list" where
  "unbindable env now disk rg = unbindable_from env now disk (rg_agents rg) rg"

subsection \<open>Resolution\<close>

datatype refusal_kind = CredentialRevoked | CredentialExpired | CredentialOrphaned | BelowMinimumTier
datatype refusal_origin = OperatorConfiguration | UnprovenClaim | Indeterminate

record agent_refusal =
  af_kind :: refusal_kind
  af_origin :: refusal_origin
  af_reason :: string
  af_credentialId :: "string option"

record resolved_agent =
  rv_id :: string
  rv_label :: string
  rv_matchedOn :: match_signal
  rv_declared :: bool
  rv_agent :: "registered_agent option"
  rv_refusal :: "agent_refusal option"
  rv_credential :: "stored_credential option"

record agent_signals =
  sg_uid :: "int option"
  sg_comm :: "string option"
  sg_credential :: "string option"

definition refuse :: "agent_registry \<Rightarrow> string \<Rightarrow> agent_refusal \<Rightarrow> resolved_agent" where
  "refuse rg agentId refusal =
     \<lparr>rv_id = agentId, rv_label = (case getAgent rg agentId of None \<Rightarrow> agentId | Some a \<Rightarrow> ra_label a),
      rv_matchedOn = ByNothing, rv_declared = False, rv_agent = None, rv_refusal = Some refusal,
      rv_credential = None\<rparr>"

definition below_floor :: "registered_agent \<Rightarrow> match_signal \<Rightarrow> minimum_tier \<Rightarrow> string option \<Rightarrow> agent_refusal" where
  "below_floor a matchedOn minimum blocked =
     \<lparr>af_kind = BelowMinimumTier,
      af_origin = (case blocked of None \<Rightarrow> UnprovenClaim | Some b \<Rightarrow> OperatorConfiguration),
      af_reason = ''agent '' @ quoted (ra_id a) @ '' bound on '' @ signal_str matchedOn
        @ '', which fleet.minimumMatchTier '' @ quoted (tier_str minimum) @ '' refuses''
        @ (if matchedOn = ByComm
           then ''; a process name is chosen by the process, so anything here can claim it'' else [])
        @ (case blocked of
             None \<Rightarrow> ''. A credential for this agent exists and was not presented.''
           | Some b \<Rightarrow> ''. This agent '' @ b @ '' The refusal is caused by that configuration, not by the client.''),
      af_credentialId = None\<rparr>"

definition accept ::
  "cred_env \<Rightarrow> int \<Rightarrow> cred_disk \<Rightarrow> registered_agent \<Rightarrow> match_signal \<Rightarrow> stored_credential option \<Rightarrow> agent_registry
     \<Rightarrow> agent_registry \<times> resolved_agent" where
  "accept env now disk a matchedOn c rg =
     (if \<not> meetsMinimumTier matchedOn (rg_minimumMatchTier rg) then
        (let (rg', blocked) = floorBlocks env now disk a rg in
         (rg', refuse rg' (ra_id a) (below_floor a matchedOn (rg_minimumMatchTier rg) blocked)))
      else
        (rg, \<lparr>rv_id = ra_id a, rv_label = ra_label a, rv_matchedOn = matchedOn, rv_declared = True,
              rv_agent = Some a, rv_refusal = None, rv_credential = c\<rparr>))"

definition orphaned :: "stored_credential \<Rightarrow> agent_refusal" where
  "orphaned c =
     \<lparr>af_kind = CredentialOrphaned, af_origin = OperatorConfiguration,
      af_reason = ''credential '' @ cr_credentialId c @ '' was issued to agent '' @ quoted (cr_agentId c)
        @ '', which this instance no longer declares. Re-declare that agent, or revoke the credential so it stops being presented.'',
      af_credentialId = Some (cr_credentialId c)\<rparr>"

definition withdrawn :: "registered_agent \<Rightarrow> stored_credential \<Rightarrow> agent_refusal" where
  "withdrawn a c =
     \<lparr>af_kind = CredentialRevoked, af_origin = Indeterminate,
      af_reason = ''credential '' @ cr_credentialId c @ '' for agent '' @ quoted (ra_id a) @ '' was revoked at ''
        @ (case cr_revokedAt c of None \<Rightarrow> ''an unrecorded time'' | Some t \<Rightarrow> t)
        @ (if truthy (cr_revokedReason c) then '': '' @ the (cr_revokedReason c) else [])
        @ '', and is still being presented. That is either a deployment that was not updated or a credential in someone else's hands; this connection cannot tell you which.'',
      af_credentialId = Some (cr_credentialId c)\<rparr>"

definition lapsed :: "registered_agent \<Rightarrow> stored_credential \<Rightarrow> agent_refusal" where
  "lapsed a c =
     \<lparr>af_kind = CredentialExpired, af_origin = Indeterminate,
      af_reason = ''credential '' @ cr_credentialId c @ '' for agent '' @ quoted (ra_id a)
        @ '' was rotated out and its overlap window closed at ''
        @ (case cr_expiresAt c of None \<Rightarrow> ''undefined'' | Some t \<Rightarrow> t)
        @ ''. Usually a host that missed the rotation; this connection cannot rule out a copy of the old secret.'',
      af_credentialId = Some (cr_credentialId c)\<rparr>"

text \<open>A presented credential: \<open>None\<close> when it is one neither the configuration nor the store knows.\<close>

definition resolve_credential ::
  "cred_env \<Rightarrow> int \<Rightarrow> cred_disk \<Rightarrow> string \<Rightarrow> agent_registry \<Rightarrow> agent_registry \<times> resolved_agent option" where
  "resolve_credential env now disk secret rg =
     (let presented = ce_sha256 env secret in
      case omap_get (rg_byCredential rg) presented of
        Some a \<Rightarrow> (let (rg', r) = accept env now disk a ByCredential None rg in (rg', Some r))
      | None \<Rightarrow>
          (let (src, issued) = source_lookup env now disk presented (rg_credentials rg);
               rg1 = rg\<lparr>rg_credentials := src\<rparr>
           in case issued of
                None \<Rightarrow> (rg1, None)
              | Some (c, state) \<Rightarrow>
                  (case getAgent rg1 (cr_agentId c) of
                     None \<Rightarrow> (rg1, Some (refuse rg1 (cr_agentId c) (orphaned c)))
                   | Some a \<Rightarrow>
                       if state = Revoked then (rg1, Some (refuse rg1 (ra_id a) (withdrawn a c)))
                       else if state = Expired then (rg1, Some (refuse rg1 (ra_id a) (lapsed a c)))
                       else (let (rg', r) = accept env now disk a ByCredential (Some c) rg1 in (rg', Some r)))))"

definition bound_by_process :: "agent_registry \<Rightarrow> agent_signals \<Rightarrow> (registered_agent \<times> match_signal) option" where
  "bound_by_process rg s =
     (let by_comm = (if truthy (sg_comm s)
                     then map_option (\<lambda>a. (a, ByComm)) (omap_get (rg_byComm rg) (the (sg_comm s))) else None)
      in case sg_uid s of
           None \<Rightarrow> by_comm
         | Some u \<Rightarrow>
             (case (if truthy (sg_comm s) then omap_get (rg_byUidComm rg) (uid_comm_key u (the (sg_comm s))) else None) of
                Some a \<Rightarrow> Some (a, ByUidComm)
              | None \<Rightarrow> (case omap_get (rg_byUid rg) u of Some a \<Rightarrow> Some (a, ByUid) | None \<Rightarrow> by_comm)))"

definition unclaimed :: "agent_signals \<Rightarrow> resolved_agent" where
  "unclaimed s =
     (let fallbackId = (case sg_comm s of None \<Rightarrow> UNDECLARED_AGENT_ID | Some c \<Rightarrow> c) in
      \<lparr>rv_id = fallbackId, rv_label = fallbackId, rv_matchedOn = ByNothing, rv_declared = False,
       rv_agent = None, rv_refusal = None, rv_credential = None\<rparr>)"

definition resolve_process ::
  "cred_env \<Rightarrow> int \<Rightarrow> cred_disk \<Rightarrow> agent_signals \<Rightarrow> agent_registry \<Rightarrow> agent_registry \<times> resolved_agent" where
  "resolve_process env now disk s rg =
     (case bound_by_process rg s of
        Some (a, m) \<Rightarrow> accept env now disk a m None rg
      | None \<Rightarrow> (rg, unclaimed s))"

definition resolve ::
  "cred_env \<Rightarrow> int \<Rightarrow> cred_disk \<Rightarrow> agent_signals \<Rightarrow> agent_registry \<Rightarrow> agent_registry \<times> resolved_agent" where
  "resolve env now disk s rg =
     (if rg_agents rg = [] then (rg, unclaimed s)
      else if truthy (sg_credential s) then
        (case resolve_credential env now disk (the (sg_credential s)) rg of
           (rg1, Some r) \<Rightarrow> (rg1, r)
         | (rg1, None) \<Rightarrow> resolve_process env now disk s rg1)
      else resolve_process env now disk s rg)"


subsection \<open>The indexes say what was declared\<close>

lemma map_result_Inr: "map_result f xs = Inr ys \<Longrightarrow> list_all2 (\<lambda>x y. f x = Inr y) xs ys"
  by (induction xs arbitrary: ys) (auto split: sum.splits)

lemma map_result_all: "list_all2 (\<lambda>x y. f x = Inr y) xs ys \<Longrightarrow> map_result f xs = Inr ys"
  by (induction xs ys rule: list_all2_induct) auto

lemma register_agent_id: "register_agent env d = Inr a \<Longrightarrow> ra_id a = fa_id d"
  by (auto simp: register_agent_def Let_def split: if_splits sum.splits)

lemma first_duplicate_None: "first_duplicate xs seen = None \<longleftrightarrow> distinct xs \<and> set xs \<inter> seen = {}"
  by (induction xs arbitrary: seen) auto

lemma claim_all_None:
  assumes "list_all (\<lambda>c. snd c \<noteq> []) cs" "\<And>k i. omap_get owners k = Some i \<Longrightarrow> i \<noteq> []"
  shows "claim_all cs owners = None \<longleftrightarrow> distinct (map fst cs) \<and> (\<forall>k \<in> fst ` set cs. omap_get owners k = None)"
  using assms
proof (induction cs arbitrary: owners)
  case (Cons c cs)
  obtain key i where c: "c = (key, i)" by fastforce
  have taken: "truthy (omap_get owners key) \<longleftrightarrow> omap_get owners key \<noteq> None"
    using Cons.prems(2) by (cases "omap_get owners key") auto
  have "claim_all cs (omap_put key i owners) = None \<longleftrightarrow>
      distinct (map fst cs) \<and> (\<forall>k \<in> fst ` set cs. omap_get (omap_put key i owners) k = None)"
    by (rule Cons.IH) (use Cons.prems c in \<open>auto split: if_splits\<close>)
  then show ?case using taken by (auto simp: c)
qed simp

lemma show_nat_chars: "set (show_nat n) \<subseteq> set ''0123456789''"
proof
  fix c assume "c \<in> set (show_nat n)"
  then obtain d where d: "d < 10" "c = digit_char d" using show_nat_digits by blast
  have "''0123456789'' ! d \<in> set ''0123456789''" by (rule nth_mem) (use d(1) in simp)
  then show "c \<in> set ''0123456789''" by (simp only: d(2) digit_char_def)
qed

lemma show_nat_no: "c \<notin> set ''0123456789'' \<Longrightarrow> c \<notin> set (show_nat n)"
  using show_nat_chars by blast

lemma show_int_no_slash: "CHR ''/'' \<notin> set (show_int i)"
  using show_nat_no [of "CHR ''/''"] by (simp add: show_int_def)

lemma show_int_inj: "show_int i = show_int j \<longleftrightarrow> i = j"
proof
  have minus: "show_nat n \<noteq> CHR ''-'' # xs" for n xs
  proof
    assume "show_nat n = CHR ''-'' # xs"
    then have "CHR ''-'' \<in> set (show_nat n)" by simp
    with show_nat_no [of "CHR ''-''" n] show False by simp
  qed
  assume eq: "show_int i = show_int j"
  then consider "i < 0" "j < 0" | "\<not> i < 0" "\<not> j < 0"
    using minus [symmetric] by (simp add: show_int_def minus split: if_splits)
  then show "i = j" using eq by cases (auto simp: show_int_def dest: show_nat_inj)
qed simp

lemma uid_comm_key_inj: "uid_comm_key u c = uid_comm_key u' c' \<longleftrightarrow> u = u' \<and> c = c'"
proof
  assume eq: "uid_comm_key u c = uid_comm_key u' c'"
  have stop: "takeWhile (\<lambda>x. x \<noteq> CHR ''/'') (uid_comm_key v d) = show_int v" for v d
    using show_int_no_slash [of v] by (auto simp: uid_comm_key_def takeWhile_append)
  from eq stop [of u c] stop [of u' c'] have "show_int u = show_int u'" by simp
  with eq show "u = u' \<and> c = c'" by (simp add: uid_comm_key_def show_int_inj)
qed simp

text \<open>The keys an agent is found under.\<close>

lemma claims_of_simps:
  "(ByCredential, d) \<in> set (claims_of a) \<longleftrightarrow> ra_credentialDigest a = Some d"
  "(ByUidComm, uid_comm_key u c) \<in> set (claims_of a) \<longleftrightarrow> ra_uid a = Some u \<and> c \<in> set (ra_comm a)"
  "(ByUid, show_int u) \<in> set (claims_of a) \<longleftrightarrow> ra_uid a = Some u \<and> ra_comm a = []"
  "(ByComm, c) \<in> set (claims_of a) \<longleftrightarrow> ra_uid a = None \<and> c \<in> set (ra_comm a)"
  by (auto simp: claims_of_def binding_claims_def uidCommBinding_def uid_comm_key_inj show_int_inj
      split: option.splits if_splits)

definition indexed :: "registered_agent set \<Rightarrow> agent_registry \<Rightarrow> bool" where
  "indexed D rg =
     ((\<forall>i a. omap_get (rg_byId rg) i = Some a \<longleftrightarrow> a \<in> D \<and> ra_id a = i) \<and>
      (\<forall>d a. omap_get (rg_byCredential rg) d = Some a \<longleftrightarrow> a \<in> D \<and> (ByCredential, d) \<in> set (claims_of a)) \<and>
      (\<forall>u c a. omap_get (rg_byUidComm rg) (uid_comm_key u c) = Some a \<longleftrightarrow>
          a \<in> D \<and> (ByUidComm, uid_comm_key u c) \<in> set (claims_of a)) \<and>
      (\<forall>u a. omap_get (rg_byUid rg) u = Some a \<longleftrightarrow> a \<in> D \<and> (ByUid, show_int u) \<in> set (claims_of a)) \<and>
      (\<forall>c a. omap_get (rg_byComm rg) c = Some a \<longleftrightarrow> a \<in> D \<and> (ByComm, c) \<in> set (claims_of a)))"

lemma omap_get_foldl_put:
  "omap_get (foldl (\<lambda>m c. omap_put (f c) a m) m cs) k = (if k \<in> f ` set cs then Some a else omap_get m k)"
  by (induction cs arbitrary: m) auto

lemma index_step_fields [simp]:
  "rg_agents (index_binding a (index_credential a rg)) = rg_agents rg"
  "rg_unmatched (index_binding a (index_credential a rg)) = rg_unmatched rg"
  "rg_minimumMatchTier (index_binding a (index_credential a rg)) = rg_minimumMatchTier rg"
  "rg_credentials (index_binding a (index_credential a rg)) = rg_credentials rg"
  "rg_byId (index_binding a (index_credential a rg)) = rg_byId rg"
  by (simp_all add: index_binding_def index_credential_def split: option.splits uid_comm_binding.splits)

lemma index_step_lookups:
  fixes a rg
  defines "rg' \<equiv> index_binding a (index_credential a rg)"
  shows "omap_get (rg_byCredential rg') d = (if (ByCredential, d) \<in> set (claims_of a) then Some a else omap_get (rg_byCredential rg) d)"
    and "omap_get (rg_byUidComm rg') (uid_comm_key u c) = (if (ByUidComm, uid_comm_key u c) \<in> set (claims_of a) then Some a
      else omap_get (rg_byUidComm rg) (uid_comm_key u c))"
    and "omap_get (rg_byUid rg') u = (if (ByUid, show_int u) \<in> set (claims_of a) then Some a else omap_get (rg_byUid rg) u)"
    and "omap_get (rg_byComm rg') c = (if (ByComm, c) \<in> set (claims_of a) then Some a else omap_get (rg_byComm rg) c)"
  unfolding claims_of_simps rg'_def
  by (auto simp: index_binding_def index_credential_def uidCommBinding_def omap_get_foldl_put uid_comm_key_inj
      split: option.splits uid_comm_binding.splits if_splits)

lemma indexed_step:
  assumes "indexed D rg" "ra_id a \<notin> ra_id ` D" "\<And>b. b \<in> D \<Longrightarrow> set (claims_of a) \<inter> set (claims_of b) = {}"
  shows "indexed (insert a D) (index_binding a (index_credential a (rg\<lparr>rg_byId := omap_put (ra_id a) a (rg_byId rg), rg_credentials := src\<rparr>)))"
proof -
  have only: "b \<notin> D \<or> k \<notin> set (claims_of b)" if "k \<in> set (claims_of a)" for k b using assms(3) that by auto
  have ident: "b \<notin> D \<or> ra_id b \<noteq> ra_id a" for b using assms(2) by (metis imageI)
  show ?thesis
    using assms(1) unfolding indexed_def index_step_lookups index_step_fields
    by (intro conjI allI; elim conjE) (use only ident in \<open>auto simp: index_step_lookups\<close>)
qed

definition registry_ok :: "agent_registry \<Rightarrow> bool" where
  "registry_ok rg = (distinct (map ra_id (rg_agents rg)) \<and> indexed (set (rg_agents rg)) rg)"

text \<open>What a successful construction establishes, and exactly when it succeeds.\<close>

lemma index_all_ok:
  assumes "index_all env now disk as rg = Inr rg'" "indexed D rg" "distinct (map ra_id as)" "distinct (concat (map claims_of as))"
    and "ra_id ` set as \<inter> ra_id ` D = {}" "\<And>a b. a \<in> set as \<Longrightarrow> b \<in> D \<Longrightarrow> set (claims_of a) \<inter> set (claims_of b) = {}"
  shows "indexed (D \<union> set as) rg'"
  using assms
proof (induction as arbitrary: rg D)
  case (Cons a as)
  obtain src issued where step: "index_all env now disk as (index_binding a (index_credential a
      (rg\<lparr>rg_byId := omap_put (ra_id a) a (rg_byId rg), rg_credentials := src\<rparr>))) = Inr rg'"
    using Cons.prems(1) by (auto simp: Let_def split: prod.splits if_splits)
  have "indexed (insert a D) (index_binding a (index_credential a
      (rg\<lparr>rg_byId := omap_put (ra_id a) a (rg_byId rg), rg_credentials := src\<rparr>)))"
    by (rule indexed_step [OF Cons.prems(2)]) (use Cons.prems(5,6) in auto)
  moreover have "set (claims_of x) \<inter> set (claims_of b) = {}" if "x \<in> set as" "b \<in> insert a D" for x b
    using Cons.prems(4,6) that by (cases "b = a") auto
  ultimately have "indexed (insert a D \<union> set as) rg'"
    using Cons.prems(3-5) by (intro Cons.IH [OF step]) auto
  then show ?case by simp
qed simp

lemma index_all_fields:
  assumes "index_all env now disk as rg = Inr rg'"
  shows "rg_agents rg' = rg_agents rg" "rg_unmatched rg' = rg_unmatched rg" "rg_minimumMatchTier rg' = rg_minimumMatchTier rg"
  using assms by (induction as arbitrary: rg) (auto simp: Let_def split: prod.splits if_splits)

lemma assertUnambiguous_None:
  assumes "\<And>a. a \<in> set agents \<Longrightarrow> ra_id a \<noteq> []"
  shows "assertUnambiguous agents = None \<longleftrightarrow> distinct (map ra_id agents) \<and> distinct (concat (map claims_of agents))"
proof -
  have "map fst (concat (map (\<lambda>a. map (\<lambda>k. (k, ra_id a)) (claims_of a)) agents)) = concat (map claims_of agents)"
    by (induction agents) (simp_all add: comp_def)
  moreover have "claim_all (concat (map (\<lambda>a. map (\<lambda>k. (k, ra_id a)) (claims_of a)) agents)) [] = None \<longleftrightarrow>
      distinct (map fst (concat (map (\<lambda>a. map (\<lambda>k. (k, ra_id a)) (claims_of a)) agents)))"
    by (subst claim_all_None) (use assms in \<open>auto simp: list_all_iff\<close>)
  ultimately show ?thesis
    using first_duplicate_None [of "map ra_id agents" "{}"] by (auto simp: assertUnambiguous_def split: option.splits)
qed

lemma registered_ids:
  assumes "map_result (register_agent env) (fc_agents config) = Inr agents" "list_all fleet_agent_ok (fc_agents config)"
    and "a \<in> set agents"
  shows "ra_id a \<noteq> []"
proof -
  have "list_all2 (\<lambda>d a. register_agent env d = Inr a) (fc_agents config) agents" using assms(1) by (rule map_result_Inr)
  then obtain d where "d \<in> set (fc_agents config)" "register_agent env d = Inr a"
    using assms(3) by (auto simp: list_all2_conv_all_nth in_set_conv_nth) (metis)
  with assms(2) show ?thesis by (auto simp: list_all_iff fleet_agent_ok_def dest: register_agent_id)
qed

lemma newRegistry_ok:
  assumes "newRegistry env now disk config src = Inr rg" "list_all fleet_agent_ok (fc_agents config)"
  shows "registry_ok rg" and "rg_unmatched rg = fc_unmatched config" and "rg_minimumMatchTier rg = fc_minimumMatchTier config"
    and "map_result (register_agent env) (fc_agents config) = Inr (rg_agents rg)"
proof -
  obtain agents where agents: "map_result (register_agent env) (fc_agents config) = Inr agents"
      "assertUnambiguous agents = None"
      and built: "index_all env now disk agents
            \<lparr>rg_unmatched = fc_unmatched config, rg_minimumMatchTier = fc_minimumMatchTier config,
             rg_agents = agents, rg_credentials = src, rg_byId = [], rg_byCredential = [], rg_byUidComm = [],
             rg_byUid = [], rg_byComm = []\<rparr> = Inr rg"
    using assms(1) by (auto simp: newRegistry_def split: sum.splits option.splits)
  note fields = index_all_fields [OF built]
  from fields show "rg_unmatched rg = fc_unmatched config" "rg_minimumMatchTier rg = fc_minimumMatchTier config"
      "map_result (register_agent env) (fc_agents config) = Inr (rg_agents rg)"
    using agents(1) by simp_all
  have "distinct (map ra_id agents) \<and> distinct (concat (map claims_of agents))"
    using agents(2) assertUnambiguous_None registered_ids [OF agents(1) assms(2)] by blast
  moreover from this have "indexed ({} \<union> set agents) rg"
    by (intro index_all_ok [OF built]) (auto simp: indexed_def)
  ultimately show "registry_ok rg" using fields by (simp add: registry_ok_def)
qed

subsection \<open>The interface of a credential source\<close>

text \<open>
  What the registry relies on of a source: a lookup answers with a credential of the presented digest, in
  its state at that instant, and that credential is among the ones listed for its agent.
\<close>

locale credential_source =
  fixes good :: "'s \<Rightarrow> bool"
    and look :: "string \<Rightarrow> 's \<Rightarrow> 's \<times> (stored_credential \<times> credential_state) option"
    and listed :: "string \<Rightarrow> 's \<Rightarrow> 's \<times> stored_credential list"
    and state_of :: "stored_credential \<Rightarrow> credential_state"
  assumes look_good: "good s \<Longrightarrow> good (fst (look d s))"
    and listed_good: "good s \<Longrightarrow> good (fst (listed i s))"
    and look_digest: "good s \<Longrightarrow> snd (look d s) = Some (c, st) \<Longrightarrow> cr_digest c = d \<and> st = state_of c"
    and look_listed: "good s \<Longrightarrow> snd (look d s) = Some (c, st) \<Longrightarrow> c \<in> set (snd (listed (cr_agentId c) (fst (look d s))))"
begin

lemma look_sound:
  assumes "good s" "look d s = (s', Some (c, st))"
  shows "good s' \<and> cr_digest c = d \<and> st = state_of c \<and> c \<in> set (snd (listed (cr_agentId c) s'))"
  using look_good [OF assms(1), of d] look_digest [OF assms(1), of d c st] look_listed [OF assms(1), of d c st] assms(2)
  by simp

end

fun source_ok :: "cred_source \<Rightarrow> bool" where
  "source_ok (FileSource cs) = (cs_byDigest cs = indexByDigest (cs_records cs))"
| "source_ok _ = True"

lemma indexByDigest_get: "omap_get (indexByDigest rs) d = Some c \<Longrightarrow> c \<in> set rs \<and> cr_digest c = d"
  by (auto simp: indexByDigest_def index_lookup dest: find_SomeE split: option.splits)

lemma reload_ok: "cs_byDigest cs = indexByDigest (cs_records cs) \<Longrightarrow>
    cs_byDigest (reload_credentials env now disk cs) = indexByDigest (cs_records (reload_credentials env now disk cs))"
  by (auto simp: reload_credentials_def Let_def indexByDigest_def split: option.splits)

lemma refresh_ok: "cs_byDigest cs = indexByDigest (cs_records cs) \<Longrightarrow>
    cs_byDigest (refresh env now disk cs) = indexByDigest (cs_records (refresh env now disk cs))"
  by (simp add: refresh_def Let_def reload_ok)

lemma refresh_refresh [simp]: "refresh env now disk (refresh env now disk cs) = refresh env now disk cs"
  by (auto simp: refresh_def reload_credentials_def Let_def RELOAD_CHECK_MS_def split: option.splits)

definition source_refresh :: "cred_env \<Rightarrow> int \<Rightarrow> cred_disk \<Rightarrow> cred_source \<Rightarrow> cred_source" where
  "source_refresh env now disk src = (case src of FileSource cs \<Rightarrow> FileSource (refresh env now disk cs) | _ \<Rightarrow> src)"

lemma source_refresh_idem [simp]: "source_refresh env now disk (source_refresh env now disk src) = source_refresh env now disk src"
  by (cases src) (simp_all add: source_refresh_def)

lemma fst_source_ops [simp]:
  "fst (source_listFor env now disk i src) = source_refresh env now disk src"
  "fst (source_lookup env now disk d src) = source_refresh env now disk src"
  by (cases src; simp add: source_listFor_def source_lookup_def source_refresh_def listFor_def list_credentials_def
      lookup_def Let_def)+

lemma source_listFor_refreshed [simp]:
  "snd (source_listFor env now disk i (source_refresh env now disk src)) = snd (source_listFor env now disk i src)"
  by (cases src) (simp_all add: source_listFor_def source_refresh_def listFor_def list_credentials_def Let_def)

lemma source_listFor_after:
  "snd (source_listFor env now disk i (fst (source_lookup env now disk d src))) = snd (source_listFor env now disk i src)"
  by simp

interpretation source: credential_source source_ok "\<lambda>d. source_lookup env now disk d" "\<lambda>i. source_listFor env now disk i"
    "credentialState env now" for env now disk
proof (unfold_locales, goal_cases)
  case (1 s d)
  then show ?case by (cases s) (auto simp: source_lookup_def lookup_def Let_def refresh_ok)
next
  case (2 s i)
  then show ?case by (cases s) (auto simp: source_listFor_def listFor_def list_credentials_def Let_def refresh_ok)
next
  case (3 s d c st)
  then show ?case
    by (cases s) (auto simp: source_lookup_def lookup_def static_lookup_def lookup_in_def Let_def refresh_ok
        dest: indexByDigest_get split: option.splits)
next
  case (4 s d c st)
  then show ?case
    by (cases s) (auto simp: source_lookup_def lookup_def static_lookup_def lookup_in_def Let_def refresh_ok
        source_listFor_def listFor_def list_credentials_def static_list_def dest: indexByDigest_get split: option.splits)
qed

subsection \<open>What a resolution rests on\<close>

lemma floorBlocks_fields [simp]:
  "rg_agents (fst (floorBlocks env now disk a rg)) = rg_agents rg"
  "rg_byId (fst (floorBlocks env now disk a rg)) = rg_byId rg"
  by (simp_all add: floorBlocks_def credentialsFor_def Let_def split: prod.splits if_splits)

lemma refuse_simps [simp]:
  "rv_declared (refuse rg i f) = False" "rv_refusal (refuse rg i f) = Some f" "rv_matchedOn (refuse rg i f) = ByNothing"
  "rv_id (refuse rg i f) = i" "rv_agent (refuse rg i f) = None" "rv_credential (refuse rg i f) = None"
  by (simp_all add: refuse_def)

lemma unclaimed_simps [simp]:
  "rv_declared (unclaimed s) = False" "rv_refusal (unclaimed s) = None" "rv_matchedOn (unclaimed s) = ByNothing"
  by (simp_all add: unclaimed_def Let_def)

lemma accept_cases:
  obtains "meetsMinimumTier m (rg_minimumMatchTier rg)"
      "snd (accept env now disk a m c rg) = \<lparr>rv_id = ra_id a, rv_label = ra_label a, rv_matchedOn = m, rv_declared = True,
              rv_agent = Some a, rv_refusal = None, rv_credential = c\<rparr>"
  | "\<not> meetsMinimumTier m (rg_minimumMatchTier rg)"
      "snd (accept env now disk a m c rg) = refuse (fst (floorBlocks env now disk a rg)) (ra_id a)
         (below_floor a m (rg_minimumMatchTier rg) (snd (floorBlocks env now disk a rg)))"
  by (cases "meetsMinimumTier m (rg_minimumMatchTier rg)") (auto simp: accept_def split: prod.splits)

lemma accept_declared:
  assumes "snd (accept env now disk a m c rg) = r" "rv_declared r"
  shows "meetsMinimumTier m (rg_minimumMatchTier rg)"
    and "r = \<lparr>rv_id = ra_id a, rv_label = ra_label a, rv_matchedOn = m, rv_declared = True,
              rv_agent = Some a, rv_refusal = None, rv_credential = c\<rparr>"
  using assms by (cases rule: accept_cases [of m rg env now disk a c]; force)+

text \<open>The signals that prove a binding, tier by tier.\<close>

definition proven_by ::
  "cred_env \<Rightarrow> int \<Rightarrow> cred_disk \<Rightarrow> cred_source \<Rightarrow> agent_signals \<Rightarrow> registered_agent \<Rightarrow> match_signal \<Rightarrow> stored_credential option \<Rightarrow> bool" where
  "proven_by env now disk src s a m c =
     (case m of
        ByCredential \<Rightarrow> \<exists>secret. sg_credential s = Some secret \<and>
          (case c of
             None \<Rightarrow> ra_credentialDigest a = Some (ce_sha256 env secret)
           | Some cr \<Rightarrow> cr_agentId cr = ra_id a \<and> cr_digest cr = ce_sha256 env secret \<and>
                         cr \<in> set (snd (source_listFor env now disk (ra_id a) src)) \<and>
                         credentialState env now cr \<in> {Active, Overlap})
      | ByUidComm \<Rightarrow> \<exists>u comm. sg_uid s = Some u \<and> sg_comm s = Some comm \<and> ra_uid a = Some u \<and> comm \<in> set (ra_comm a)
      | ByUid \<Rightarrow> \<exists>u. sg_uid s = Some u \<and> ra_uid a = Some u \<and> ra_comm a = []
      | ByComm \<Rightarrow> \<exists>comm. sg_comm s = Some comm \<and> ra_uid a = None \<and> comm \<in> set (ra_comm a)
      | ByNothing \<Rightarrow> False)"

lemma getAgent_ok: "registry_ok rg \<Longrightarrow> getAgent rg i = Some a \<Longrightarrow> a \<in> set (rg_agents rg) \<and> ra_id a = i"
  by (simp add: registry_ok_def indexed_def getAgent_def)

lemma bound_by_process_iff:
  assumes "registry_ok rg"
  shows "bound_by_process rg s = Some (a, m) \<longrightarrow>
    a \<in> set (rg_agents rg) \<and> proven_by env now disk src s a m None \<and> m \<noteq> ByCredential"
  using assms
  by (auto simp: bound_by_process_def proven_by_def Let_def registry_ok_def indexed_def claims_of_simps
      split: option.splits if_splits) (metis option.distinct(1) option.inject truthy_simps option.exhaust option.sel)+

lemma registry_ok_credentials [simp]: "registry_ok (rg\<lparr>rg_credentials := src\<rparr>) = registry_ok rg"
  by (simp add: registry_ok_def indexed_def)

lemma getAgent_credentials [simp]: "getAgent (rg\<lparr>rg_credentials := src\<rparr>) i = getAgent rg i"
  by (simp add: getAgent_def)

lemma bound_by_process_credentials [simp]: "bound_by_process (rg\<lparr>rg_credentials := src\<rparr>) s = bound_by_process rg s"
  by (simp add: bound_by_process_def Let_def cong: option.case_cong if_cong)

definition declared_as :: "cred_env \<Rightarrow> int \<Rightarrow> cred_disk \<Rightarrow> cred_source \<Rightarrow> agent_signals \<Rightarrow> agent_registry \<Rightarrow> resolved_agent \<Rightarrow> bool" where
  "declared_as env now disk src s rg r = (\<exists>a \<in> set (rg_agents rg).
     r = \<lparr>rv_id = ra_id a, rv_label = ra_label a, rv_matchedOn = rv_matchedOn r, rv_declared = True,
          rv_agent = Some a, rv_refusal = None, rv_credential = rv_credential r\<rparr>
     \<and> meetsMinimumTier (rv_matchedOn r) (rg_minimumMatchTier rg)
     \<and> proven_by env now disk src s a (rv_matchedOn r) (rv_credential r))"

lemma accept_declared_as:
  assumes "snd (accept env now disk a m c (rg\<lparr>rg_credentials := src'\<rparr>)) = r" "rv_declared r"
    and "a \<in> set (rg_agents rg)" "proven_by env now disk src s a m c"
  shows "declared_as env now disk src s rg r"
  using accept_declared [OF assms(1,2)] assms(3,4) by (auto simp: declared_as_def)

lemma resolve_credential_declared:
  assumes "registry_ok rg" "source_ok (rg_credentials rg)" "sg_credential s = Some secret"
    and "resolve_credential env now disk secret rg = (rg', Some r)" "rv_declared r"
  shows "declared_as env now disk (rg_credentials rg) s rg r"
proof (cases "omap_get (rg_byCredential rg) (ce_sha256 env secret)")
  case (Some a)
  then have "a \<in> set (rg_agents rg)" "ra_credentialDigest a = Some (ce_sha256 env secret)"
    using assms(1) by (auto simp: registry_ok_def indexed_def claims_of_simps)
  moreover have acc: "snd (accept env now disk a ByCredential None (rg\<lparr>rg_credentials := rg_credentials rg\<rparr>)) = r"
    using assms(4) Some by (auto simp: resolve_credential_def Let_def split: prod.splits)
  ultimately show ?thesis using assms(3) by (intro accept_declared_as [OF acc assms(5)]) (auto simp: proven_by_def)
next
  case None
  obtain src issued where look: "source_lookup env now disk (ce_sha256 env secret) (rg_credentials rg) = (src, issued)" by fastforce
  from assms(4) None look obtain c st where issued: "issued = Some (c, st)"
    by (auto simp: resolve_credential_def Let_def split: option.splits)
  note sound = source.look_sound [OF assms(2), where now=now and env=env and disk=disk, OF look [unfolded issued]]
  from assms(4,5) None look issued obtain a where
      a: "getAgent rg (cr_agentId c) = Some a" "st \<noteq> Revoked" "st \<noteq> Expired"
      and acc: "snd (accept env now disk a ByCredential (Some c) (rg\<lparr>rg_credentials := src\<rparr>)) = r"
    by (auto simp: resolve_credential_def Let_def split: option.splits if_splits prod.splits)
  have "credentialState env now c \<in> {Active, Overlap}"
    using sound a(2,3) by (cases "credentialState env now c") auto
  then show ?thesis using getAgent_ok [OF assms(1) a(1)] assms(3) sound 
    source_listFor_after [of env now disk _ "ce_sha256 env secret" "rg_credentials rg"] look
    by (intro accept_declared_as [OF acc assms(5)]) (auto simp: proven_by_def)
qed

lemma resolve_process_declared:
  assumes "registry_ok rg" "snd (resolve_process env now disk s rg) = r" "rv_declared r"
  shows "declared_as env now disk src s rg r"
proof (cases "bound_by_process rg s")
  case None
  with assms(2,3) show ?thesis by (auto simp: resolve_process_def)
next
  case (Some b)
  obtain a m where b: "b = (a, m)" by fastforce
  have acc: "snd (accept env now disk a m None (rg\<lparr>rg_credentials := rg_credentials rg\<rparr>)) = r"
    using assms(2) Some b by (simp add: resolve_process_def)
  show ?thesis using bound_by_process_iff [OF assms(1)] Some b by (intro accept_declared_as [OF acc assms(3)]) auto
qed

lemma resolve_credential_fields:
  assumes "resolve_credential env now disk secret rg = (rg', None)"
  shows "\<exists>src. rg' = rg\<lparr>rg_credentials := src\<rparr>"
  using assms by (auto simp: resolve_credential_def Let_def split: option.splits if_splits prod.splits)

lemma declared_as_credentials [simp]: "declared_as env now disk src s (rg\<lparr>rg_credentials := src'\<rparr>) r = declared_as env now disk src s rg r"
  by (simp add: declared_as_def)

lemma resolve_declared:
  assumes "registry_ok rg" "source_ok (rg_credentials rg)" "snd (resolve env now disk s rg) = r" "rv_declared r"
  shows "declared_as env now disk (rg_credentials rg) s rg r"
proof (cases "rg_agents rg \<noteq> [] \<and> truthy (sg_credential s)")
  case False
  with assms show ?thesis by (auto simp: resolve_def resolve_process_declared split: if_splits)
next
  case True
  then obtain secret where secret: "sg_credential s = Some secret" by (cases "sg_credential s") auto
  obtain rg' found where cred: "resolve_credential env now disk secret rg = (rg', found)" by fastforce
  show ?thesis
  proof (cases found)
    case None
    then obtain src where "rg' = rg\<lparr>rg_credentials := src\<rparr>" using resolve_credential_fields cred by blast
    with resolve_process_declared [of rg' env now disk s r] assms True secret cred None
    show ?thesis by (simp add: resolve_def)
  next
    case (Some q)
    with resolve_credential_declared [OF assms(1,2) secret, where r=q] assms(3,4) True secret cred
    show ?thesis by (simp add: resolve_def)
  qed
qed

subsection \<open>Order does not matter\<close>

lemma source_listFor_src: "source_listFor env now disk i src = (src', rs) \<Longrightarrow> src' = source_refresh env now disk src"
  by (metis fst_conv fst_source_ops(1))

lemma index_all_Inr:
  "(\<exists>rg'. index_all env now disk as rg = Inr rg') \<longleftrightarrow>
     (\<forall>a \<in> set as. ra_credentialDigest a \<noteq> None \<longrightarrow> snd (source_listFor (fe_cred env) now disk (ra_id a) (rg_credentials rg)) = [])"
proof (induction as arbitrary: rg)
  case (Cons a as)
  show ?case
    by (cases "ra_credentialDigest a") (auto simp: Let_def Cons.IH dest: source_listFor_src split: prod.splits)
qed simp

lemma index_all_source:
  assumes "index_all env now disk as rg = Inr rg'"
  shows "rg_credentials rg' = (if \<exists>a \<in> set as. ra_credentialDigest a \<noteq> None
           then source_refresh (fe_cred env) now disk (rg_credentials rg) else rg_credentials rg)"
  using assms
proof (induction as arbitrary: rg)
  case (Cons a as)
  have "fst (source_listFor (fe_cred env) now disk (ra_id a) (rg_credentials rg)) = source_refresh (fe_cred env) now disk (rg_credentials rg)"
    by simp
  with Cons.prems show ?case
    by (cases "ra_credentialDigest a") (auto simp: Let_def dest!: Cons.IH dest: source_listFor_src split: prod.splits if_splits)
qed simp

definition same_registry :: "agent_registry \<Rightarrow> agent_registry \<Rightarrow> bool" where
  "same_registry rg rg' =
     (rg_credentials rg = rg_credentials rg' \<and> rg_minimumMatchTier rg = rg_minimumMatchTier rg' \<and>
      set (rg_agents rg) = set (rg_agents rg') \<and>
      omap_get (rg_byId rg) = omap_get (rg_byId rg') \<and> omap_get (rg_byCredential rg) = omap_get (rg_byCredential rg') \<and>
      (\<forall>u c. omap_get (rg_byUidComm rg) (uid_comm_key u c) = omap_get (rg_byUidComm rg') (uid_comm_key u c)) \<and>
      omap_get (rg_byUid rg) = omap_get (rg_byUid rg') \<and> omap_get (rg_byComm rg) = omap_get (rg_byComm rg'))"

lemma option_ext: "(\<And>a. x = Some a \<longleftrightarrow> y = Some a) \<Longrightarrow> x = y"
  by (metis not_None_eq)

lemma indexed_same:
  assumes "indexed D rg" "indexed D rg'" "rg_credentials rg = rg_credentials rg'"
    "rg_minimumMatchTier rg = rg_minimumMatchTier rg'" "set (rg_agents rg) = set (rg_agents rg')"
  shows "same_registry rg rg'"
proof -
  note defs = assms(1,2) [unfolded indexed_def]
  have "omap_get (rg_byId rg) = omap_get (rg_byId rg')" by (rule ext, rule option_ext) (simp only: defs)
  moreover have "omap_get (rg_byCredential rg) = omap_get (rg_byCredential rg')" by (rule ext, rule option_ext) (simp only: defs)
  moreover have "omap_get (rg_byUidComm rg) (uid_comm_key u c) = omap_get (rg_byUidComm rg') (uid_comm_key u c)" for u c
    by (rule option_ext) (simp only: defs)
  moreover have "omap_get (rg_byUid rg) = omap_get (rg_byUid rg')" by (rule ext, rule option_ext) (simp only: defs)
  moreover have "omap_get (rg_byComm rg) = omap_get (rg_byComm rg')" by (rule ext, rule option_ext) (simp only: defs)
  ultimately show ?thesis using assms(3-5) by (simp add: same_registry_def)
qed

lemma floorBlocks_same:
  assumes "same_registry rg rg'"
  shows "snd (floorBlocks env now disk a rg) = snd (floorBlocks env now disk a rg')"
    and "same_registry (fst (floorBlocks env now disk a rg)) (fst (floorBlocks env now disk a rg'))"
  using assms by (auto simp: floorBlocks_def credentialsFor_def same_registry_def Let_def split: prod.splits if_splits)

lemma refuse_same: "same_registry rg rg' \<Longrightarrow> refuse rg i f = refuse rg' i f"
  by (simp add: refuse_def getAgent_def same_registry_def)

lemma accept_same:
  "same_registry rg rg' \<Longrightarrow> snd (accept env now disk a m c rg) = snd (accept env now disk a m c rg')"
  using floorBlocks_same [of rg rg' env now disk a] refuse_same [OF floorBlocks_same(2), of rg rg' env now disk a]
  by (auto simp: accept_def same_registry_def split: prod.splits)

lemma same_credentials: "same_registry rg rg' \<Longrightarrow> same_registry (rg\<lparr>rg_credentials := s\<rparr>) (rg'\<lparr>rg_credentials := s\<rparr>)"
  by (simp add: same_registry_def)

lemma resolve_process_same:
  assumes "same_registry rg rg'"
  shows "snd (resolve_process env now disk s rg) = snd (resolve_process env now disk s rg')"
proof -
  have "bound_by_process rg s = bound_by_process rg' s" using assms
    by (cases "sg_uid s"; cases "truthy (sg_comm s)") (simp_all add: bound_by_process_def same_registry_def Let_def cong: option.case_cong)
  with accept_same [OF assms] show ?thesis by (auto simp: resolve_process_def split: option.splits)
qed

lemma resolve_credential_same:
  assumes "same_registry rg rg'"
  shows "snd (resolve_credential env now disk d rg) = snd (resolve_credential env now disk d rg')"
    and "snd (resolve_credential env now disk d rg) = None \<Longrightarrow>
      same_registry (fst (resolve_credential env now disk d rg)) (fst (resolve_credential env now disk d rg'))"
proof -
  have eqs: "rg_byCredential rg = m \<Longrightarrow> omap_get (rg_byCredential rg') = omap_get m" "rg_credentials rg' = rg_credentials rg"
      "getAgent rg' = getAgent rg" for m
    using assms by (auto simp: same_registry_def getAgent_def)
  note acc = accept_same [OF same_credentials [OF assms]] accept_same [OF assms]
  show "snd (resolve_credential env now disk d rg) = snd (resolve_credential env now disk d rg')"
    using acc refuse_same [OF same_credentials [OF assms]] eqs
    by (auto simp: resolve_credential_def Let_def split: option.splits prod.splits) (metis snd_conv)+
  show "same_registry (fst (resolve_credential env now disk d rg)) (fst (resolve_credential env now disk d rg'))"
    if "snd (resolve_credential env now disk d rg) = None"
    using that eqs same_credentials [OF assms]
    by (auto simp: resolve_credential_def Let_def split: option.splits prod.splits if_splits)
qed

lemma resolve_same:
  assumes "same_registry rg rg'"
  shows "snd (resolve env now disk s rg) = snd (resolve env now disk s rg')"
proof -
  have none: "rg_agents rg = [] \<longleftrightarrow> rg_agents rg' = []" using assms by (auto simp: same_registry_def)
  show ?thesis
    using none resolve_process_same [OF assms] resolve_credential_same [OF assms, of env now disk "the (sg_credential s)"]
      resolve_process_same [where s = s and env = env and now = now and disk = disk]
    by (auto simp: resolve_def split: prod.splits option.splits)
qed

lemma permuted_registration:
  assumes "mset ds = mset ds'" "map_result f ds = Inr ys"
  obtains ys' where "map_result f ds' = Inr ys'" "mset ys' = mset ys"
proof -
  let ?g = "\<lambda>x. projr (f x)"
  have all: "f x = Inr (?g x)" if "x \<in> set ds" for x
    using map_result_Inr [OF assms(2)] that by (auto simp: list_all2_conv_all_nth in_set_conv_nth)
  have ys: "ys = map ?g ds"
    using map_result_Inr [OF assms(2)] by (induction ds ys rule: list_all2_induct) auto
  have "list_all2 (\<lambda>x y. f x = Inr y) ds' (map ?g ds')"
    using all mset_eq_setD [OF assms(1)] by (simp add: list_all2_conv_all_nth)
  from map_result_all [OF this] show ?thesis using assms(1) ys by (intro that [of "map ?g ds'"]) simp_all
qed

subsection \<open>Samples\<close>

definition sample_agent :: "string \<Rightarrow> string \<Rightarrow> fleet_agent" where
  "sample_agent i comm = \<lparr>fa_id = i, fa_label = None,
     fa_match = \<lparr>am_uid = None, am_comm = Some [comm], am_credential = None\<rparr>, fa_egress = None,
     fa_budget = Some \<lparr>ab_windowSeconds = 60, ab_maxRequests = Some 2, ab_maxBytes = None\<rparr>\<rparr>"

definition sample_fleet :: "minimum_tier \<Rightarrow> fleet_config" where
  "sample_fleet tier = \<lparr>fc_unmatched = DenyUnmatched, fc_minimumMatchTier = tier, fc_credentialStore = None,
     fc_agents = [sample_agent ''scraper'' ''aw-scraper'', sample_agent ''mailer'' ''aw-mail'']\<rparr>"

definition sample_fleet_env :: fleet_env where
  "sample_fleet_env = \<lparr>fe_cred = sample_cred_env, fe_getenv = (\<lambda>n. None)\<rparr>"

definition issued_to :: "string \<Rightarrow> string option \<Rightarrow> stored_credential" where
  "issued_to i revokedAt = \<lparr>cr_agentId = i, cr_credentialId = ''c1'', cr_digest = ''secret'', cr_issuedAt = ''t'',
     cr_expiresAt = None, cr_revokedAt = revokedAt, cr_revokedReason = None\<rparr>"

definition sample_registry :: "minimum_tier \<Rightarrow> cred_source \<Rightarrow> agent_registry" where
  "sample_registry tier src = projr (newRegistry sample_fleet_env 0 None (sample_fleet tier) src)"

lemma sample_fleet_ok: "list_all fleet_agent_ok (fc_agents (sample_fleet tier))"
  by (simp add: sample_fleet_def sample_agent_def fleet_agent_ok_def agent_match_ok_def agent_budget_ok_def all_opt_def)

lemmas sample_simps = sample_fleet_def sample_agent_def sample_fleet_env_def newRegistry_def register_agent_def
  assertUnambiguous_def claims_of_def binding_claims_def uidCommBinding_def index_binding_def index_credential_def

lemma sample_registry_built:
  "newRegistry sample_fleet_env 0 None (sample_fleet tier) src = Inr (sample_registry tier src)"
  "rg_credentials (sample_registry tier src) = src"
  "rg_agents (sample_registry tier src) \<noteq> []"
  "sample_registry tier src\<lparr>rg_credentials := src\<rparr> = sample_registry tier src"
  by (simp_all add: sample_registry_def sample_simps Let_def)

lemma resolve_credential_withdrawn:
  assumes "registry_ok rg" "source_ok (rg_credentials rg)"
    and "omap_get (rg_byCredential rg) (ce_sha256 env secret) = None"
    and "snd (source_lookup env now disk (ce_sha256 env secret) (rg_credentials rg)) = Some (c, st)"
    and "st \<in> {Revoked, Expired} \<or> getAgent rg (cr_agentId c) = None"
  shows "\<exists>f rg0. snd (resolve_credential env now disk secret rg) = Some (refuse rg0 (cr_agentId c) f) \<and>
           af_kind f = (if getAgent rg (cr_agentId c) = None then CredentialOrphaned
                        else if st = Revoked then CredentialRevoked else CredentialExpired)"
proof -
  obtain src where look: "source_lookup env now disk (ce_sha256 env secret) (rg_credentials rg) = (src, Some (c, st))"
    using assms(4) by (metis prod.collapse)
  show ?thesis
  proof (cases "getAgent rg (cr_agentId c)")
    case None
    with assms(3) look show ?thesis by (auto simp: resolve_credential_def Let_def orphaned_def)
  next
    case (Some a)
    with getAgent_ok [OF assms(1) Some] assms(3,5) look show ?thesis
      by (auto simp: resolve_credential_def Let_def withdrawn_def lapsed_def)
  qed
qed

subsection \<open>Properties\<close>

text \<open>C19: a connection is attributed to a declared agent only on proof: the agent is one of the configuration,
  the signal it was bound on meets the fleet's minimum tier, and that signal really is the agent's -- the
  presented secret hashes to its pinned digest or to a listed credential of its that is active or in its overlap, or
  the kernel's uid and the process name are the ones declared. This holds whatever the credential store has become
  since the registry was built.\<close>

theorem declared_means_proven:
  assumes "newRegistry fenv now0 disk0 config src0 = Inr rg" "list_all fleet_agent_ok (fc_agents config)"
    and "source_ok src" "snd (resolve env now disk s (rg\<lparr>rg_credentials := src\<rparr>)) = r" "rv_declared r"
  shows "\<exists>a \<in> set (rg_agents rg).
           rv_agent r = Some a \<and> rv_id r = ra_id a \<and> rv_refusal r = None
         \<and> meetsMinimumTier (rv_matchedOn r) (fc_minimumMatchTier config)
         \<and> proven_by env now disk src s a (rv_matchedOn r) (rv_credential r)"
proof -
  note ok = newRegistry_ok [OF assms(1,2)]
  have "declared_as env now disk src s rg r"
    using resolve_declared [of "rg\<lparr>rg_credentials := src\<rparr>" env now disk s r] ok(1) assms(3-5) by simp
  then show ?thesis using ok(3) by (auto simp: declared_as_def) (metis resolved_agent.select_convs)
qed

theorem declared_means_proven_witness:
  "rv_id (snd (resolve sample_cred_env 5 None \<lparr>sg_uid = None, sg_comm = Some ''x'', sg_credential = Some ''secret''\<rparr>
      (sample_registry CredentialTier (FixedSource [issued_to ''scraper'' None])))) = ''scraper''"
proof -
  let ?src = "FixedSource [issued_to ''scraper'' None]"
  let ?s = "\<lparr>sg_uid = None, sg_comm = Some ''x'', sg_credential = Some ''secret''\<rparr>"
  let ?r = "snd (resolve sample_cred_env 5 None ?s (sample_registry CredentialTier ?src\<lparr>rg_credentials := ?src\<rparr>))"
  have r: "rv_declared ?r" "rv_matchedOn ?r = ByCredential" "rv_credential ?r = Some (issued_to ''scraper'' None)"
    unfolding sample_registry_built(4)
    by (simp_all add: sample_registry_def sample_simps Let_def resolve_def resolve_credential_def source_lookup_def
        static_lookup_def lookup_in_def newestFirst_def indexByDigest_def issued_to_def sample_cred_env_def
        getAgent_def credentialState_def accept_def meetsMinimumTier_def)
  have "\<exists>a. rv_id ?r = ra_id a \<and> proven_by sample_cred_env 5 None ?src ?s a (rv_matchedOn ?r) (rv_credential ?r)"
    using declared_means_proven [OF sample_registry_built(1) sample_fleet_ok _ refl r(1)] by auto
  then obtain a where a: "rv_id ?r = ra_id a"
      "proven_by sample_cred_env 5 None ?src ?s a ByCredential (Some (issued_to ''scraper'' None))"
    unfolding r(2,3) by blast
  from a(2) have "ra_id a = ''scraper''" by (simp add: proven_by_def issued_to_def)
  with a(1) show ?thesis unfolding sample_registry_built(4) by simp
qed



text \<open>The order in which agents are declared does not matter: a fleet whose declarations are permuted builds a
  registry exactly when the original does, and the two answer every connection alike, whatever the store becomes.\<close>

theorem declaration_order_is_irrelevant:
  assumes "newRegistry fenv now0 disk0 config src0 = Inr rg" "list_all fleet_agent_ok (fc_agents config)"
    and "mset agents' = mset (fc_agents config)"
  shows "\<exists>rg'. newRegistry fenv now0 disk0 (config\<lparr>fc_agents := agents'\<rparr>) src0 = Inr rg' \<and>
           rg_credentials rg' = rg_credentials rg \<and>
           (\<forall>env now disk s src. snd (resolve env now disk s (rg'\<lparr>rg_credentials := src\<rparr>))
                                = snd (resolve env now disk s (rg\<lparr>rg_credentials := src\<rparr>)))"
proof -
  let ?config = "config\<lparr>fc_agents := agents'\<rparr>"
  note ok = newRegistry_ok [OF assms(1,2)]
  obtain as where as: "map_result (register_agent fenv) agents' = Inr as" "mset as = mset (rg_agents rg)"
    using permuted_registration [OF assms(3) [symmetric] ok(4)] .
  let ?start = "\<lambda>as. \<lparr>rg_unmatched = fc_unmatched config, rg_minimumMatchTier = fc_minimumMatchTier config,
     rg_agents = as, rg_credentials = src0, rg_byId = [], rg_byCredential = [], rg_byUidComm = [], rg_byUid = [], rg_byComm = []\<rparr>"
  have built: "index_all fenv now0 disk0 (rg_agents rg) (?start (rg_agents rg)) = Inr rg" "assertUnambiguous (rg_agents rg) = None"
    using assms(1) ok(4) by (auto simp: newRegistry_def split: option.splits)
  have ids: "ra_id a \<noteq> []" if "a \<in> set (rg_agents rg)" for a using registered_ids [OF ok(4) assms(2) that] .
  have same: "set as = set (rg_agents rg)" using as(2) by (rule mset_eq_setD)
  have "mset (concat (map claims_of as)) = mset (concat (map claims_of (rg_agents rg)))" "mset (map ra_id as) = mset (map ra_id (rg_agents rg))"
    using as(2) by (simp_all add: mset_concat) (metis mset_map sum_mset_sum_list)
  then have "distinct (concat (map claims_of as)) = distinct (concat (map claims_of (rg_agents rg)))"
      "distinct (map ra_id as) = distinct (map ra_id (rg_agents rg))"
    by (metis mset_eq_imp_distinct_iff)+
  then have "assertUnambiguous as = None"
    using built(2) assertUnambiguous_None [of as] assertUnambiguous_None [of "rg_agents rg"] ids same by blast
  moreover obtain rg' where rg': "index_all fenv now0 disk0 as (?start as) = Inr rg'"
    using index_all_Inr [of fenv now0 disk0 as "?start as"] index_all_Inr [of fenv now0 disk0 "rg_agents rg" "?start (rg_agents rg)"]
      built(1) same by auto
  ultimately have new: "newRegistry fenv now0 disk0 ?config src0 = Inr rg'" using as(1) by (simp add: newRegistry_def)
  have okay': "list_all fleet_agent_ok (fc_agents ?config)"
    using assms(2) mset_eq_setD [OF assms(3)] by (simp add: list_all_iff)
  note ok' = newRegistry_ok [OF new okay']
  have agents: "rg_agents rg' = as" using index_all_fields [OF rg'] by simp
  have src: "rg_credentials rg' = rg_credentials rg"
    using index_all_source [OF rg'] index_all_source [OF built(1)] same by simp
  have "same_registry rg' rg"
    using ok(1,3) ok'(1,3) src same agents
    by (intro indexed_same [of "set (rg_agents rg)"]) (simp_all add: registry_ok_def)
  then have "same_registry (rg'\<lparr>rg_credentials := s\<rparr>) (rg\<lparr>rg_credentials := s\<rparr>)" for s by (rule same_credentials)
  with new src show ?thesis by (blast intro: resolve_same)
qed

theorem declaration_order_is_irrelevant_witness:
  "\<exists>rg'. newRegistry sample_fleet_env 0 None
           ((sample_fleet UidTier)\<lparr>fc_agents := [sample_agent ''mailer'' ''aw-mail'', sample_agent ''scraper'' ''aw-scraper'']\<rparr>) NoSource
         = Inr rg'"
  using declaration_order_is_irrelevant [OF sample_registry_built(1) [of UidTier NoSource] sample_fleet_ok,
      of "[sample_agent ''mailer'' ''aw-mail'', sample_agent ''scraper'' ''aw-scraper'']"]
  by (auto simp: sample_fleet_def add_mset_commute)

text \<open>An agent whose only credentials are revoked drops out of the report of agents that cannot bind: under the
  credential floor no connection can ever be attributed to it, yet \<open>unbindable\<close> does not list it, and a process of its
  name is refused as an unproven claim (an alarm) instead of as a configuration matter.\<close>

theorem revoked_only_agent_goes_unreported:
  assumes "newRegistry fenv now0 disk0 config src0 = Inr rg" "list_all fleet_agent_ok (fc_agents config)"
    and "fc_minimumMatchTier config = CredentialTier" "a \<in> set (rg_agents rg)" "ra_credentialDigest a = None"
    and "source_ok src" "snd (source_listFor env now disk (ra_id a) src) = cs" "cs \<noteq> []"
    and "\<And>c. c \<in> set cs \<Longrightarrow> credentialState env now c = Revoked"
  shows "\<not> (rv_declared (snd (resolve env now disk s (rg\<lparr>rg_credentials := src\<rparr>)))
             \<and> rv_id (snd (resolve env now disk s (rg\<lparr>rg_credentials := src\<rparr>))) = ra_id a)
       \<and> snd (floorBlocks env now disk a (rg\<lparr>rg_credentials := src\<rparr>)) = None
       \<and> (bound_by_process rg s = Some (a, m) \<and> \<not> truthy (sg_credential s) \<longrightarrow>
          map_option af_origin (rv_refusal (snd (resolve env now disk s (rg\<lparr>rg_credentials := src\<rparr>)))) = Some UnprovenClaim)"
proof -
  note ok = newRegistry_ok [OF assms(1,2)]
  let ?rg = "rg\<lparr>rg_credentials := src\<rparr>"
  have "False" if decl: "rv_declared (snd (resolve env now disk s ?rg))" "rv_id (snd (resolve env now disk s ?rg)) = ra_id a"
  proof -
    obtain b where b: "b \<in> set (rg_agents rg)" "rv_id (snd (resolve env now disk s ?rg)) = ra_id b"
        "meetsMinimumTier (rv_matchedOn (snd (resolve env now disk s ?rg))) CredentialTier"
        "proven_by env now disk src s b (rv_matchedOn (snd (resolve env now disk s ?rg))) (rv_credential (snd (resolve env now disk s ?rg)))"
      using resolve_declared [of ?rg env now disk s _, OF _ _ refl decl(1)] ok(1,3) assms(3,6)
      by (auto simp: declared_as_def) (metis resolved_agent.select_convs(1,3,7))
    then have "b = a" using decl(2) assms(4) ok(1) by (auto simp: registry_ok_def distinct_map inj_on_def)
    with b(3,4) assms(5,7,9) show False
      by (fastforce simp: meetsMinimumTier_def proven_by_def simp del: Active_iff split: option.splits)
  qed
  moreover have blocks: "snd (floorBlocks env now disk a ?rg) = None"
    using ok(3) assms(3,5,7,8) by (auto simp: floorBlocks_def credentialsFor_def split: prod.splits)
  moreover have "map_option af_origin (rv_refusal (snd (resolve env now disk s ?rg))) = Some UnprovenClaim"
    if bp: "bound_by_process rg s = Some (a, m)" "\<not> truthy (sg_credential s)"
  proof -
    have "bound_by_process ?rg s = Some (a, m)" using bp(1) by simp
    moreover have "m \<noteq> ByCredential" using bound_by_process_iff [OF ok(1)] bp(1) by blast
    moreover have "rg_agents rg \<noteq> []" using assms(4) by auto
    ultimately show ?thesis using bp(2) blocks ok(3) assms(3)
      by (auto simp: resolve_def resolve_process_def accept_def meetsMinimumTier_def below_floor_def split: prod.splits)
  qed
  ultimately show ?thesis by blast
qed

theorem revoked_only_agent_goes_unreported_witness:
  "map_option af_origin (rv_refusal (snd (resolve sample_cred_env 5 None
      \<lparr>sg_uid = None, sg_comm = Some ''aw-scraper'', sg_credential = None\<rparr>
      (sample_registry CredentialTier (FixedSource [issued_to ''scraper'' (Some ''t'')]))))) = Some UnprovenClaim"
proof -
  let ?src = "FixedSource [issued_to ''scraper'' (Some ''t'')]"
  let ?rg = "sample_registry CredentialTier ?src"
  let ?s = "\<lparr>sg_uid = None, sg_comm = Some ''aw-scraper'', sg_credential = None\<rparr>"
  let ?a = "projr (register_agent sample_fleet_env (sample_agent ''scraper'' ''aw-scraper''))"
  have a: "?a \<in> set (rg_agents ?rg)" "ra_id ?a = ''scraper''" "ra_credentialDigest ?a = None"
      "bound_by_process ?rg ?s = Some (?a, ByComm)"
    by (simp_all add: sample_registry_def sample_simps Let_def bound_by_process_def)
  have listed: "snd (source_listFor sample_cred_env 5 None (ra_id ?a) ?src) = [issued_to ''scraper'' (Some ''t'')]"
    using a(2) by (simp add: source_listFor_def static_list_def newestFirst_def issued_to_def)
  have revoked: "credentialState sample_cred_env 5 c = Revoked" if "c \<in> set [issued_to ''scraper'' (Some ''t'')]" for c
    using that by (simp add: credentialState_def issued_to_def)
  have side: "fc_minimumMatchTier (sample_fleet CredentialTier) = CredentialTier" "source_ok ?src" by (simp_all add: sample_fleet_def)
  from revoked_only_agent_goes_unreported [OF sample_registry_built(1) [of CredentialTier ?src] sample_fleet_ok side(1) a(1,3)
      side(2) listed _ revoked, of ?s ByComm] a(4)
  show ?thesis by (simp add: sample_registry_built(4))
qed

text \<open>The remedy the start-up error names does not work: a revocation leaves the record in the store, so an agent with a
  pinned digest still fails to start after all its issued credentials have been revoked.\<close>

lemma revoke_agent_keeps_listing:
  assumes "revoke_agent_records env now i reason records = Inr (records', revoked)"
  shows "filter (\<lambda>c. cr_agentId c = i) records' \<noteq> []"
proof -
  let ?f = "\<lambda>r. if cr_credentialId r \<in> set (map cr_credentialId (filter (\<lambda>c. cr_agentId c = i \<and> \<not> truthy (cr_revokedAt c)) records))
                then revoked_record env now reason r else r"
  from assms obtain c where c: "c \<in> set records" "cr_agentId c = i" and records': "records' = map ?f records"
    by (auto simp: revoke_agent_records_def Let_def filter_empty_conv split: if_splits)
  have "cr_agentId (?f c) = i" using c(2) by simp
  moreover have "?f c \<in> set records'" using c(1) records' by simp
  ultimately show ?thesis by (auto simp: filter_empty_conv)
qed

theorem revoking_leaves_the_conflict:
  assumes "revoke_agent_records env now (fa_id d) reason records = Inr (records', revoked)"
    and "register_agent fenv d = Inr a" "ra_credentialDigest a \<noteq> None" "assertUnambiguous [a] = None"
  shows "newRegistry fenv now0 disk (config\<lparr>fc_agents := [d]\<rparr>) (FixedSource records') = Inl (TwoCredentialSources (fa_id d))"
proof -
  have "filter (\<lambda>c. cr_agentId c = fa_id d) (newestFirst (fe_cred fenv) records') \<noteq> []"
    using revoke_agent_keeps_listing [OF assms(1)] by (simp add: filter_empty_conv)
  with assms(2-4) register_agent_id [OF assms(2)] show ?thesis
    by (simp add: newRegistry_def source_listFor_def static_list_def Let_def)
qed

end
