(* ===== verification/Agent_Budget.thy ===== *)
theory Agent_Budget
  imports Agent_Registry
begin

text \<open>
  The per-agent egress budgets of \<open>src/fleet/budget.ts\<close>: one ledger per agent id, a sliding window of
  admitted connections, and tickets that attribute a closed connection's bytes to the row it was
  admitted on. A row object shared by the window and the table of open tickets is one row, identified by
  its ticket; the clock is an argument.
\<close>

subsection \<open>State\<close>

record window_entry =
  we_ticket :: nat
  we_at :: int
  we_bytes :: int

record agent_ledger =
  al_entries :: "window_entry list"
  al_open :: "nat list"
  al_admitted :: nat
  al_nextTicket :: nat

type_synonym budget_ledger = "(string \<times> agent_ledger) list"

record budget_counters =
  bc_windowSeconds :: int
  bc_requests :: int
  bc_maxRequests :: "int option"
  bc_bytes :: int
  bc_maxBytes :: "int option"

record budget_charge =
  bg_counters :: "budget_counters option"
  bg_ticket :: "nat option"

record budget_row =
  br_agentId :: string
  br_windowSeconds :: int
  br_requests :: int
  br_maxRequests :: "int option"
  br_bytes :: int
  br_maxBytes :: "int option"
  br_admittedTotal :: nat

subsection \<open>Operations\<close>

definition fresh_ledger :: agent_ledger where
  "fresh_ledger = \<lparr>al_entries = [], al_open = [], al_admitted = 0, al_nextTicket = 1\<rparr>"

definition ledger_of :: "budget_ledger \<Rightarrow> string \<Rightarrow> agent_ledger" where
  "ledger_of ls i = (case omap_get ls i of None \<Rightarrow> fresh_ledger | Some l \<Rightarrow> l)"

definition counters_of :: "agent_budget \<Rightarrow> int \<Rightarrow> int \<Rightarrow> budget_counters" where
  "counters_of b requests bytes =
     \<lparr>bc_windowSeconds = ab_windowSeconds b, bc_requests = requests, bc_maxRequests = ab_maxRequests b,
      bc_bytes = bytes, bc_maxBytes = ab_maxBytes b\<rparr>"

definition admit :: "registered_agent \<Rightarrow> int \<Rightarrow> budget_ledger \<Rightarrow> budget_ledger \<times> budget_charge" where
  "admit a now ls =
     (case ra_budget a of
        None \<Rightarrow> (ls, \<lparr>bg_counters = None, bg_ticket = None\<rparr>)
      | Some b \<Rightarrow>
          (let l = ledger_of ls (ra_id a);
               cutoff = now - ab_windowSeconds b * 1000;
               kept = dropWhile (\<lambda>e. we_at e \<le> cutoff) (al_entries l);
               bytes = sum_list (map we_bytes kept);
               ticket = al_nextTicket l;
               entries = kept @ [\<lparr>we_ticket = ticket, we_at = now, we_bytes = 0\<rparr>];
               l' = \<lparr>al_entries = entries, al_open = al_open l @ [ticket], al_admitted = al_admitted l + 1,
                     al_nextTicket = ticket + 1\<rparr>
           in (omap_put (ra_id a) l' ls,
               \<lparr>bg_counters = Some (counters_of b (int (length entries)) bytes), bg_ticket = Some ticket\<rparr>)))"

definition add_bytes :: "nat \<Rightarrow> int \<Rightarrow> window_entry \<Rightarrow> window_entry" where
  "add_bytes ticket bytes e = (if we_ticket e = ticket then e\<lparr>we_bytes := we_bytes e + bytes\<rparr> else e)"

definition settle :: "string \<Rightarrow> nat \<Rightarrow> int \<Rightarrow> budget_ledger \<Rightarrow> budget_ledger" where
  "settle agentId ticket bytes ls =
     (case omap_get ls agentId of
        None \<Rightarrow> ls
      | Some l \<Rightarrow>
          (if ticket \<in> set (al_open l) then
             omap_put agentId (l\<lparr>al_open := removeAll ticket (al_open l),
                                 al_entries := map (add_bytes ticket bytes) (al_entries l)\<rparr>) ls
           else ls))"

definition live_rows :: "int \<Rightarrow> window_entry list \<Rightarrow> window_entry list" where
  "live_rows cutoff entries = filter (\<lambda>e. \<not> we_at e \<le> cutoff) entries"

definition counters :: "registered_agent \<Rightarrow> int \<Rightarrow> budget_ledger \<Rightarrow> budget_counters option" where
  "counters a now ls =
     (case ra_budget a of
        None \<Rightarrow> None
      | Some b \<Rightarrow>
          (let entries = (case omap_get ls (ra_id a) of None \<Rightarrow> [] | Some l \<Rightarrow> al_entries l);
               rows = live_rows (now - ab_windowSeconds b * 1000) entries
           in Some (counters_of b (int (length rows)) (sum_list (map we_bytes rows)))))"

definition snapshot_row :: "int \<Rightarrow> budget_ledger \<Rightarrow> registered_agent \<Rightarrow> budget_row option" where
  "snapshot_row now ls a =
     (case ra_budget a of
        None \<Rightarrow> None
      | Some b \<Rightarrow>
          (let ledger = omap_get ls (ra_id a);
               rows = live_rows (now - ab_windowSeconds b * 1000) (case ledger of None \<Rightarrow> [] | Some l \<Rightarrow> al_entries l)
           in Some \<lparr>br_agentId = ra_id a, br_windowSeconds = ab_windowSeconds b, br_requests = int (length rows),
                    br_maxRequests = ab_maxRequests b, br_bytes = sum_list (map we_bytes rows),
                    br_maxBytes = ab_maxBytes b,
                    br_admittedTotal = (case ledger of None \<Rightarrow> 0 | Some l \<Rightarrow> al_admitted l)\<rparr>))"

definition snapshot :: "registered_agent list \<Rightarrow> int \<Rightarrow> budget_ledger \<Rightarrow> budget_row list" where
  "snapshot agents now ls = List.map_filter (snapshot_row now ls) agents"

definition reset_ledgers :: "budget_ledger \<Rightarrow> budget_ledger" where
  "reset_ledgers ls = []"

subsection \<open>The history a ledger stands for\<close>

text \<open>
  The specification forgets nothing: every connection ever admitted for an agent, with when it was
  admitted and the bytes settled on it so far, and the tickets not settled yet.
\<close>

datatype budget_op = Admit registered_agent int | Settle string nat int

fun budget_step :: "budget_op \<Rightarrow> budget_ledger \<Rightarrow> budget_ledger" where
  "budget_step (Admit a now) ls = fst (admit a now ls)"
| "budget_step (Settle i ticket bytes) ls = settle i ticket bytes ls"

definition budget_run :: "budget_op list \<Rightarrow> budget_ledger \<Rightarrow> budget_ledger" where
  "budget_run ops ls = fold budget_step ops ls"

text \<open>\<open>history i ops\<close>: the admitted connections of agent \<open>i\<close> in order, ticket \<open>n\<close> being the \<open>n\<close>th.\<close>

fun history :: "string \<Rightarrow> budget_op list \<Rightarrow> window_entry list \<times> nat list \<Rightarrow> window_entry list \<times> nat list" where
  "history i [] h = h"
| "history i (Admit a now # ops) (rows, pending) =
     (if ra_id a = i \<and> ra_budget a \<noteq> None
      then history i ops (rows @ [\<lparr>we_ticket = length rows + 1, we_at = now, we_bytes = 0\<rparr>], pending @ [length rows + 1])
      else history i ops (rows, pending))"
| "history i (Settle j ticket bytes # ops) (rows, pending) =
     (if j = i \<and> ticket \<in> set pending
      then history i ops (map (add_bytes ticket bytes) rows, removeAll ticket pending)
      else history i ops (rows, pending))"

text \<open>The runs considered: every admission under the id is of the same declaration, at times that never go back.\<close>

fun admissions :: "string \<Rightarrow> budget_op list \<Rightarrow> (registered_agent \<times> int) list" where
  "admissions i [] = []"
| "admissions i (Admit a now # ops) = (if ra_id a = i then (a, now) # admissions i ops else admissions i ops)"
| "admissions i (Settle j t b # ops) = admissions i ops"

definition admitted_as :: "registered_agent \<Rightarrow> int \<Rightarrow> budget_op list \<Rightarrow> bool" where
  "admitted_as a start ops =
     (set (map fst (admissions (ra_id a) ops)) \<subseteq> {a} \<and> sorted (start # map snd (admissions (ra_id a) ops)))"

definition last_admission :: "registered_agent \<Rightarrow> int \<Rightarrow> budget_op list \<Rightarrow> int" where
  "last_admission a start ops = last (start # map snd (admissions (ra_id a) ops))"

text \<open>The ledger of an agent represents a history: it has its open tickets and the rows of the window still kept.\<close>

definition represents :: "agent_budget \<Rightarrow> int \<Rightarrow> agent_ledger \<Rightarrow> window_entry list \<times> nat list \<Rightarrow> bool" where
  "represents b now l h =
     (al_open l = snd h \<and> al_admitted l = length (fst h) \<and> al_nextTicket l = length (fst h) + 1 \<and>
      (\<exists>n. al_entries l = drop n (fst h) \<and> (\<forall>e \<in> set (take n (fst h)). we_at e \<le> now - ab_windowSeconds b * 1000)) \<and>
      sorted (map we_at (fst h)) \<and> (\<forall>e \<in> set (fst h). we_at e \<le> now))"


lemma represents_later:
  assumes "represents b t l h" "t \<le> now"
  shows "represents b now l h"
proof -
  from assms(1) obtain n where n: "al_entries l = drop n (fst h)"
      "\<forall>e \<in> set (take n (fst h)). we_at e \<le> t - ab_windowSeconds b * 1000"
    by (auto simp: represents_def)
  have "\<forall>e \<in> set (take n (fst h)). we_at e \<le> now - ab_windowSeconds b * 1000" "\<forall>e \<in> set (fst h). we_at e \<le> now"
    using n(2) assms by (force simp: represents_def)+
  with n(1) assms(1) show ?thesis by (auto simp: represents_def)
qed

lemma represents_fresh: "represents b t fresh_ledger ([], [])"
  by (simp add: represents_def fresh_ledger_def)

lemma ledger_of_put [simp]: "ledger_of (omap_put j l ls) i = (if j = i then l else ledger_of ls i)"
  by (simp add: ledger_of_def)

lemma represents_admit:
  assumes "represents b t (ledger_of ls (ra_id a)) (rows, pending)" "ra_budget a = Some b" "t \<le> now"
  shows "represents b now (ledger_of (fst (admit a now ls)) (ra_id a))
           (rows @ [\<lparr>we_ticket = length rows + 1, we_at = now, we_bytes = 0\<rparr>], pending @ [length rows + 1])"
proof -
  let ?old = "\<lambda>e. we_at e \<le> now - ab_windowSeconds b * 1000"
  let ?l = "ledger_of ls (ra_id a)"
  from represents_later [OF assms(1,3)] obtain n where n: "al_entries ?l = drop n rows" "\<forall>e \<in> set (take n rows). ?old e"
      and rep: "al_open ?l = pending" "al_admitted ?l = length rows" "al_nextTicket ?l = length rows + 1"
        "sorted (map we_at rows)" "\<forall>e \<in> set rows. we_at e \<le> now"
    by (auto simp: represents_def)
  define k where "k = length (takeWhile ?old (drop n rows))"
  have kept: "dropWhile ?old (al_entries ?l) = drop (n + k) rows"
    by (simp add: n(1) k_def dropWhile_eq_drop add.commute)
  have "take (n + k) rows = take n rows @ takeWhile ?old (drop n rows)"
    by (simp add: take_add k_def takeWhile_eq_take [symmetric])
  then have old: "\<forall>e \<in> set (take (n + k) rows). ?old e" using n(2) by (auto dest: set_takeWhileD)
  have len: "k \<le> length rows - n" unfolding k_def by (metis length_drop length_takeWhile_le)
  show ?thesis
    unfolding represents_def
  proof (intro conjI)
    let ?rows = "rows @ [\<lparr>we_ticket = length rows + 1, we_at = now, we_bytes = 0\<rparr>]"
    let ?n = "min (n + k) (length rows)"
    have "al_entries (ledger_of (fst (admit a now ls)) (ra_id a)) = drop ?n ?rows"
      using assms(2) kept rep(3) by (simp add: admit_def Let_def min_def)
    moreover have "\<forall>e \<in> set (take ?n ?rows). ?old e" using old by (simp add: min_def split: if_splits)
    ultimately show "\<exists>n. al_entries (ledger_of (fst (admit a now ls)) (ra_id a)) = drop n (fst (?rows, pending @ [length rows + 1])) \<and>
        (\<forall>e \<in> set (take n (fst (?rows, pending @ [length rows + 1]))). ?old e)"
      unfolding fst_conv by blast
  qed (use assms(2) rep in \<open>auto simp: admit_def Let_def sorted_append\<close>)
qed

lemma add_bytes_at [simp]: "we_at (add_bytes ticket bytes e) = we_at e"
  by (simp add: add_bytes_def)

lemma represents_settle:
  assumes "represents b t (ledger_of ls i) (rows, pending)" "ticket \<in> set pending"
  shows "represents b t (ledger_of (settle i ticket bytes ls) i) (map (add_bytes ticket bytes) rows, removeAll ticket pending)"
proof -
  from assms(2) represents_fresh have "omap_get ls i \<noteq> None"
    using assms(1) by (auto simp: ledger_of_def represents_def fresh_ledger_def split: option.splits)
  then obtain l where l: "omap_get ls i = Some l" by auto
  from assms(1) l obtain n where n: "al_entries l = drop n rows" "\<forall>e \<in> set (take n rows). we_at e \<le> t - ab_windowSeconds b * 1000"
    by (auto simp: represents_def ledger_of_def)
  show ?thesis
    using assms l n by (auto simp: represents_def ledger_of_def settle_def drop_map take_map comp_def
        intro!: exI [of _ n])
qed

lemma history_step:
  assumes "represents b t (ledger_of ls (ra_id a)) h" "ra_budget a = Some b" "admitted_as a t [oper]"
  shows "represents b (last_admission a t [oper]) (ledger_of (budget_step oper ls) (ra_id a)) (history (ra_id a) [oper] h)"
proof (cases oper)
  case (Admit a' now)
  obtain rows pending where h: "h = (rows, pending)" by fastforce
  show ?thesis
  proof (cases "ra_id a' = ra_id a")
    case True
    with Admit assms(3) have "a' = a" "t \<le> now" by (simp_all add: admitted_as_def)
    with represents_admit [of b t ls a rows pending now] assms Admit h show ?thesis by (simp add: last_admission_def)
  next
    case False
    with assms Admit h show ?thesis
      by (cases "ra_budget a'") (simp_all add: admit_def last_admission_def Let_def)
  qed
next
  case (Settle j ticket bytes)
  obtain rows pending where h: "h = (rows, pending)" by fastforce
  have same: "settle j ticket bytes ls = ls \<or> j \<noteq> ra_id a" if "\<not> (j = ra_id a \<and> ticket \<in> set pending)"
    using that assms(1) h by (auto simp: settle_def represents_def ledger_of_def split: option.splits)
  have other: "ledger_of (settle j ticket bytes ls) (ra_id a) = ledger_of ls (ra_id a)" if "j \<noteq> ra_id a"
    using that by (auto simp: settle_def split: option.splits)
  from represents_settle [of b t ls "ra_id a" rows pending ticket bytes] assms(1) Settle h same other show ?thesis
    by (auto simp: last_admission_def)
qed

lemma budget_run_simps [simp]:
  "budget_run [] ls = ls" "budget_run (oper # ops) ls = budget_run ops (budget_step oper ls)"
  by (simp_all add: budget_run_def)

lemma history_Cons: "history i (oper # ops) h = history i ops (history i [oper] h)"
  by (cases h; cases oper) auto

lemma admissions_Cons: "admissions i (oper # ops) = admissions i [oper] @ admissions i ops"
  by (cases oper) auto

lemma run_represents:
  assumes "represents b t (ledger_of ls (ra_id a)) h" "ra_budget a = Some b" "admitted_as a t ops"
  shows "represents b (last_admission a t ops) (ledger_of (budget_run ops ls) (ra_id a)) (history (ra_id a) ops h)"
  using assms
proof (induction ops arbitrary: t ls h)
  case Nil
  then show ?case by (cases h) (simp add: last_admission_def)
next
  case (Cons oper ops)
  let ?t = "last_admission a t [oper]"
  have parts: "admitted_as a t [oper]" "admitted_as a ?t ops" "last_admission a t (oper # ops) = last_admission a ?t ops"
    using Cons.prems(3)
    by (cases oper; auto simp: admitted_as_def last_admission_def)+
  from Cons.IH [OF history_step [OF Cons.prems(1,2) parts(1)] Cons.prems(2) parts(2)]
  show ?case unfolding parts(3) by (subst history_Cons) simp
qed

text \<open>Dropping expired rows cannot be observed.\<close>

lemma represents_live:
  assumes "represents b t l h" "t \<le> now"
  shows "live_rows (now - ab_windowSeconds b * 1000) (al_entries l) = live_rows (now - ab_windowSeconds b * 1000) (fst h)"
proof -
  from represents_later [OF assms] obtain n where n: "al_entries l = drop n (fst h)"
      "\<forall>e \<in> set (take n (fst h)). we_at e \<le> now - ab_windowSeconds b * 1000"
    by (auto simp: represents_def)
  let ?live = "live_rows (now - ab_windowSeconds b * 1000)"
  have "?live (take n (fst h) @ drop n (fst h)) = ?live (take n (fst h)) @ ?live (drop n (fst h))"
    by (simp add: live_rows_def del: append_take_drop_id)
  moreover have "?live (take n (fst h)) = []" using n(2) by (auto simp: live_rows_def filter_empty_conv)
  ultimately show ?thesis using n(1) by simp
qed

definition history_counters :: "agent_budget \<Rightarrow> int \<Rightarrow> window_entry list \<Rightarrow> budget_counters" where
  "history_counters b now rows =
     (let live = live_rows (now - ab_windowSeconds b * 1000) rows
      in counters_of b (int (length live)) (sum_list (map we_bytes live)))"

subsection \<open>Properties\<close>


definition budgeted_agent :: registered_agent where
  "budgeted_agent = \<lparr>ra_id = ''a'', ra_label = ''a'', ra_uid = None, ra_comm = [''a''], ra_credentialDigest = None,
     ra_credentialFromStore = False, ra_egress = None,
     ra_budget = Some \<lparr>ab_windowSeconds = 1, ab_maxRequests = Some 2, ab_maxBytes = Some 10\<rparr>\<rparr>"

definition sample_ops :: "budget_op list" where
  "sample_ops = [Admit budgeted_agent 0, Admit budgeted_agent 500, Settle ''a'' 1 7, Admit budgeted_agent 1200, Settle ''a'' 2 9,
     Settle ''a'' 1 5]"

end
