(* ===== verification/Egress_Enforcement.thy ===== *)
theory Egress_Enforcement
  imports Agent_Budget Policy_Rules Lockdown Sliding_Window
begin

text \<open>
  Egress enforcement, \<open>src/runtime/enforcement.ts\<close>: the decision about every connection a client asks the
  proxy for. It composes the emergency stop (\<open>Lockdown\<close>), the fleet registry and its budgets
  (\<open>Agent_Registry\<close>, \<open>Agent_Budget\<close>), the content scan, the policy engine and the allowlists in one of three
  modes. The module's variables are the record \<open>egress_state\<close>; the three content scanners are arguments, and
  one decision happens at one instant \<open>now\<close>. The em dash of the monitor sentences is written \<open>--\<close>.
\<close>

subsection \<open>What is judged\<close>

datatype enforcement_mode = Monitor | Guarded | Strict

datatype body_direction = RequestDir | ResponseDir

datatype unscannable = StreamBody | EncodingBody

record egress_body =
  eb_direction :: body_direction
  eb_text :: string
  eb_truncated :: bool
  eb_bytes :: int
  eb_status :: "int option"
  eb_encoding :: "string option"
  eb_unscannable :: "unscannable option"

record egress_attempt =
  ea_host :: string
  ea_port :: int
  ea_scheme :: string
  ea_method :: "string option"
  ea_comm :: "string option"
  ea_pid :: "int option"
  ea_path :: "string option"
  ea_headers :: "(string \<times> string) list option"
  ea_body :: "egress_body option"
  ea_uid :: "int option"
  ea_credential :: "string option"
  ea_reDecision :: bool

record egress_attribution =
  at_id :: string
  at_label :: string
  at_matchedOn :: match_signal
  at_declared :: bool
  at_allowlistSource :: string
  at_refusal :: "agent_refusal option"
  at_minimumMatchTier :: "minimum_tier option"
  at_credentialId :: "string option"

record egress_verdict =
  ev_decision :: decision
  ev_riskLevel :: risk_level
  ev_reasons :: "string list"
  ev_matchedRules :: "string list"
  ev_detectionIds :: "string list"
  ev_metadata :: "(string \<times> string) list option"
  ev_mode :: enforcement_mode
  ev_agent :: egress_attribution
  ev_budget :: "budget_counters option"
  ev_budgetTicket :: "nat option"

definition EGRESS_ALLOWLIST_RULE_ID :: string where "EGRESS_ALLOWLIST_RULE_ID = ''net:deny-egress-not-allowlisted''"
definition EGRESS_BLOCKED_DETECTION_ID :: string where "EGRESS_BLOCKED_DETECTION_ID = ''det.net.egress.blocked''"
definition EGRESS_PORT_RULE_ID :: string where "EGRESS_PORT_RULE_ID = ''net:deny-egress-port-not-allowlisted''"
definition EGRESS_PORT_DETECTION_ID :: string where "EGRESS_PORT_DETECTION_ID = ''det.net.egress.port_blocked''"
definition LOCKDOWN_RULE_ID :: string where "LOCKDOWN_RULE_ID = ''governance:lockdown''"
definition LOCKDOWN_DETECTION_ID :: string where "LOCKDOWN_DETECTION_ID = ''det.governance.lockdown.active''"
definition FLEET_BUDGET_RULE_ID :: string where "FLEET_BUDGET_RULE_ID = ''fleet:deny-agent-budget-exhausted''"
definition FLEET_BUDGET_DETECTION_ID :: string where "FLEET_BUDGET_DETECTION_ID = ''det.fleet.budget.exhausted''"
definition FLEET_UNDECLARED_RULE_ID :: string where "FLEET_UNDECLARED_RULE_ID = ''fleet:deny-undeclared-agent''"
definition FLEET_UNDECLARED_DETECTION_ID :: string where "FLEET_UNDECLARED_DETECTION_ID = ''det.fleet.agent.undeclared''"
definition FLEET_IDENTITY_RULE_ID :: string where "FLEET_IDENTITY_RULE_ID = ''fleet:deny-refused-agent-identity''"
definition FLEET_IDENTITY_DETECTION_ID :: string where "FLEET_IDENTITY_DETECTION_ID = ''det.fleet.identity.refused''"
definition FLEET_UNCONFIGURED_RULE_ID :: string where "FLEET_UNCONFIGURED_RULE_ID = ''fleet:deny-unconfigured-agent-identity''"
definition FLEET_UNCONFIGURED_DETECTION_ID :: string where "FLEET_UNCONFIGURED_DETECTION_ID = ''det.fleet.identity.unconfigured''"
definition DECOY_RULE_ID :: string where "DECOY_RULE_ID = ''identity:deny-decoy-triggered''"
definition DECOY_DETECTION_ID :: string where "DECOY_DETECTION_ID = ''det.identity.decoy.triggered''"

subsection \<open>Content inspection\<close>

record injection_finding =
  ij_patternId :: string
  ij_category :: string
  ij_start :: "int option"
  ij_pass :: string

record egress_scanners =
  es_scanText :: "string \<Rightarrow> dlp_result"
  es_scanInjection :: "string \<Rightarrow> injection_finding list"
  es_scanForDecoys :: "string \<Rightarrow> string \<Rightarrow> string \<Rightarrow> (string \<times> string) list" \<comment> \<open>text, agent, surface; id and kind\<close>

definition CREDENTIAL_BEARING_HEADERS :: "string list" where
  "CREDENTIAL_BEARING_HEADERS = [''authorization'', ''proxy-authorization'', ''cookie'', ''set-cookie'']"

record content_findings =
  cf_direction :: body_direction
  cf_scanned :: "string list"
  cf_secretTypes :: "string list"
  cf_piiTypes :: "string list"
  cf_injectionPatterns :: "string list"
  cf_injectionCategories :: "string list"
  cf_decoyIds :: "string list"
  cf_decoyKinds :: "string list"
  cf_sites :: "string list"
  cf_truncated :: bool
  cf_bytes :: int
  cf_unscannable :: "unscannable option"
  cf_encoding :: "string option"

definition emptyFindings :: "body_direction \<Rightarrow> content_findings" where
  "emptyFindings direction =
     \<lparr>cf_direction = direction, cf_scanned = [], cf_secretTypes = [], cf_piiTypes = [], cf_injectionPatterns = [],
      cf_injectionCategories = [], cf_decoyIds = [], cf_decoyKinds = [], cf_sites = [], cf_truncated = False,
      cf_bytes = 0, cf_unscannable = None, cf_encoding = None\<rparr>"

definition scan_secrets :: "egress_scanners \<Rightarrow> string \<Rightarrow> string \<Rightarrow> (int \<Rightarrow> string) \<Rightarrow> content_findings \<Rightarrow> content_findings" where
  "scan_secrets sc surface text location f =
     (let dlp = es_scanText sc text in
      f\<lparr>cf_secretTypes := push_all_unique (cf_secretTypes f) (dl_secretTypes dlp),
        cf_piiTypes := push_all_unique (cf_piiTypes f) (dl_piiTypes dlp),
        cf_sites := push_all_unique (cf_sites f)
          (map (\<lambda>l. surface @ '':'' @ dl_type l @ ''@'' @ location (dl_start l)) (dl_locations dlp))\<rparr>)"

definition scan_injection :: "egress_scanners \<Rightarrow> string \<Rightarrow> string \<Rightarrow> (int \<Rightarrow> string) \<Rightarrow> content_findings \<Rightarrow> content_findings" where
  "scan_injection sc surface text location f =
     (let found = es_scanInjection sc text in
      f\<lparr>cf_injectionPatterns := push_all_unique (cf_injectionPatterns f) (map ij_patternId found),
        cf_injectionCategories := push_all_unique (cf_injectionCategories f) (map ij_category found),
        cf_sites := push_all_unique (cf_sites f)
          (map (\<lambda>j. surface @ '':'' @ ij_patternId j @ ''@''
             @ (case ij_start j of None \<Rightarrow> ij_pass j | Some s \<Rightarrow> location s)) found)\<rparr>)"

definition scan_decoys :: "egress_scanners \<Rightarrow> string \<Rightarrow> string \<Rightarrow> string \<Rightarrow> content_findings \<Rightarrow> content_findings" where
  "scan_decoys sc surface text agentId f =
     (let hits = es_scanForDecoys sc text agentId (''proxy:http:'' @ surface) in
      f\<lparr>cf_decoyIds := push_all_unique (cf_decoyIds f) (map fst hits),
        cf_decoyKinds := push_all_unique (cf_decoyKinds f) (map snd hits)\<rparr>)"

definition scanSurface ::
  "egress_scanners \<Rightarrow> string \<Rightarrow> string \<Rightarrow> (int \<Rightarrow> string) \<Rightarrow> bool \<Rightarrow> string \<Rightarrow> content_findings \<Rightarrow> content_findings" where
  "scanSurface sc surface text location scanSecrets agentId f =
     (if text = [] then f
      else (let f1 = f\<lparr>cf_scanned := push_unique (cf_scanned f) surface\<rparr>;
                f2 = (if scanSecrets then scan_secrets sc surface text location f1 else f1)
            in scan_decoys sc surface text agentId (scan_injection sc surface text location f2)))"

definition scan_header :: "egress_scanners \<Rightarrow> string \<Rightarrow> string \<times> string \<Rightarrow> content_findings \<Rightarrow> content_findings" where
  "scan_header sc agentId h f =
     (case h of (name, val) \<Rightarrow>
        if val = [] then f
        else scanSurface sc ''headers'' val (\<lambda>start. name) (name \<notin> set CREDENTIAL_BEARING_HEADERS) agentId f)"

definition inspectContent :: "egress_scanners \<Rightarrow> egress_attempt \<Rightarrow> content_findings option" where
  "inspectContent sc ea =
     (let direction = (case ea_body ea of None \<Rightarrow> RequestDir | Some b \<Rightarrow> eb_direction b);
          headers = (case ea_headers ea of None \<Rightarrow> [] | Some hs \<Rightarrow> hs);
          path = (if direction = RequestDir then (case ea_path ea of None \<Rightarrow> [] | Some p \<Rightarrow> p) else []);
          agentId = (case ea_comm ea of None \<Rightarrow> ''unattributed'' | Some c \<Rightarrow> c)
      in if path = [] \<and> headers = [] \<and> ea_body ea = None then None
         else
           (let f1 = scanSurface sc ''path'' path show_int True agentId (emptyFindings direction);
                f2 = fold (scan_header sc agentId) headers f1
            in Some (case ea_body ea of
                 None \<Rightarrow> f2
               | Some b \<Rightarrow>
                   (let f3 = f2\<lparr>cf_truncated := eb_truncated b, cf_bytes := eb_bytes b,
                                cf_unscannable := eb_unscannable b, cf_encoding := eb_encoding b\<rparr>
                    in if eb_unscannable b = None then scanSurface sc ''body'' (eb_text b) show_int True agentId f3
                       else f3))))"

fun unscannable_str :: "unscannable \<Rightarrow> string" where
  "unscannable_str StreamBody = ''stream''"
| "unscannable_str EncodingBody = ''encoding''"

fun direction_str :: "body_direction \<Rightarrow> string" where
  "direction_str RequestDir = ''request''"
| "direction_str ResponseDir = ''response''"

definition truth :: "bool \<Rightarrow> string" where "truth b = (if b then ''true'' else ''false'')"

definition contentMetadata :: "content_findings \<Rightarrow> (string \<times> string) list" where
  "contentMetadata f =
     [(''contentInspected'', truth (cf_scanned f \<noteq> [])),
      (''contentDirection'', direction_str (cf_direction f)),
      (''contentSurfaces'', js_join '','' (cf_scanned f)),
      (''contentBytes'', show_int (cf_bytes f)),
      (''contentTruncated'', truth (cf_truncated f))]
     @ (case cf_unscannable f of None \<Rightarrow> [] | Some u \<Rightarrow> [(''contentBodyUnscannable'', unscannable_str u)])
     @ (case cf_encoding f of None \<Rightarrow> [] | Some e \<Rightarrow> [(''contentBodyEncoding'', e)])
     @ (if cf_secretTypes f \<noteq> [] then [(''contentSecretTypes'', js_join '','' (cf_secretTypes f))] else [])
     @ (if cf_piiTypes f \<noteq> [] then [(''contentPiiTypes'', js_join '','' (cf_piiTypes f))] else [])
     @ (if cf_injectionPatterns f \<noteq> []
        then [(''contentInjectionPatterns'', js_join '','' (cf_injectionPatterns f)),
              (''contentInjectionCategories'', js_join '','' (cf_injectionCategories f))] else [])
     @ (if cf_decoyIds f \<noteq> []
        then [(''contentDecoyIds'', js_join '','' (cf_decoyIds f)), (''contentDecoyKinds'', js_join '','' (cf_decoyKinds f))]
        else [])
     @ (if cf_sites f \<noteq> [] then [(''contentSites'', js_join '' '' (cf_sites f))] else [])"

definition coverageNotes :: "content_findings \<Rightarrow> string list" where
  "coverageNotes f =
     (case cf_unscannable f of
        Some StreamBody \<Rightarrow>
          [direction_str (cf_direction f) @ '' body was not inspected: an event stream cannot be buffered whole without ''
           @ ''hanging it, so it is passed through and its headers alone were scanned'']
      | Some EncodingBody \<Rightarrow>
          [direction_str (cf_direction f) @ '' body was not inspected: content-encoding ''
           @ quoted (case cf_encoding f of None \<Rightarrow> ''unknown'' | Some e \<Rightarrow> e) @ '' did not decode within the inspection bound'']
      | None \<Rightarrow>
          (if cf_truncated f then
             [''content scan covered the first '' @ show_int (cf_bytes f) @ '' bytes of the '' @ direction_str (cf_direction f)
              @ '' body; the remainder was forwarded uninspected'']
           else []))"

subsection \<open>The installed policy\<close>

record egress_state =
  eg_allowlist :: "string list"
  eg_ports :: "int list"
  eg_registry :: "agent_registry option"
  eg_budgets :: budget_ledger \<comment> \<open>read and written only while a registry is installed\<close>
  eg_agentEgress :: "(string \<times> (string list \<times> int list)) list"

definition clean_hosts :: "string list \<Rightarrow> string list" where
  "clean_hosts hosts = filter (\<lambda>h. h \<noteq> []) (map normalizeHostname hosts)"

definition clean_ports :: "int list \<Rightarrow> int list" where
  "clean_ports ports = filter (\<lambda>p. p > 0 \<and> p \<le> 65535) ports"

definition setEgressPolicy :: "string list \<Rightarrow> int list \<Rightarrow> egress_state \<Rightarrow> egress_state" where
  "setEgressPolicy hosts ports st = st\<lparr>eg_allowlist := clean_hosts hosts, eg_ports := clean_ports ports\<rparr>"

definition install_egress :: "registered_agent \<Rightarrow> (string \<times> (string list \<times> int list)) list \<Rightarrow> (string \<times> (string list \<times> int list)) list" where
  "install_egress a m =
     (case ra_egress a of
        None \<Rightarrow> m
      | Some e \<Rightarrow> omap_put (ra_id a)
          (clean_hosts (case ae_allowedHosts e of None \<Rightarrow> [] | Some hs \<Rightarrow> hs),
           clean_ports (case ae_allowedPorts e of None \<Rightarrow> [] | Some ps \<Rightarrow> ps)) m)"

definition setFleet :: "agent_registry option \<Rightarrow> budget_ledger option \<Rightarrow> egress_state \<Rightarrow> egress_state" where
  "setFleet registry budgets st =
     st\<lparr>eg_registry := registry,
        eg_budgets := (if registry = None then [] else case budgets of None \<Rightarrow> [] | Some b \<Rightarrow> b),
        eg_agentEgress := fold install_egress (case registry of None \<Rightarrow> [] | Some rg \<Rightarrow> rg_agents rg) []\<rparr>"

definition effectiveEgress :: "string option \<Rightarrow> egress_state \<Rightarrow> string list \<times> int list \<times> string" where
  "effectiveEgress agentId st =
     (case (case agentId of None \<Rightarrow> None | Some i \<Rightarrow> omap_get (eg_agentEgress st) i) of
        None \<Rightarrow> (eg_allowlist st, eg_ports st, ''global'')
      | Some (hosts, ports) \<Rightarrow>
          (if hosts \<noteq> [] then hosts else eg_allowlist st, if ports \<noteq> [] then ports else eg_ports st,
           ''agent:'' @ the agentId))"

definition isAllowlisted :: "string \<Rightarrow> string list \<Rightarrow> bool" where
  "isAllowlisted host hosts = (let normalized = normalizeHostname host in normalized \<noteq> [] \<and> normalized \<in> set hosts)"


subsection \<open>Who is asking\<close>

record egress_principal =
  ep_agent :: egress_attribution
  ep_registered :: "registered_agent option"
  ep_hosts :: "string list"
  ep_ports :: "int list"
  ep_standing :: "budget_counters option"
  ep_exhausted :: bool

definition over_requests :: "budget_counters \<Rightarrow> bool" where
  "over_requests c = (case bc_maxRequests c of None \<Rightarrow> False | Some m \<Rightarrow> bc_requests c \<ge> m)"

definition over_bytes :: "budget_counters \<Rightarrow> bool" where
  "over_bytes c = (case bc_maxBytes c of None \<Rightarrow> False | Some m \<Rightarrow> bc_bytes c \<ge> m)"

definition resolvePrincipal ::
  "cred_env \<Rightarrow> int \<Rightarrow> cred_disk \<Rightarrow> egress_attempt \<Rightarrow> egress_state \<Rightarrow> egress_state \<times> egress_principal" where
  "resolvePrincipal env now disk ea st =
     (case eg_registry st of
        None \<Rightarrow>
          (let i = (case ea_comm ea of None \<Rightarrow> UNDECLARED_AGENT_ID | Some c \<Rightarrow> c) in
           (st, \<lparr>ep_agent = \<lparr>at_id = i, at_label = i, at_matchedOn = ByNothing, at_declared = False,
                             at_allowlistSource = ''global'', at_refusal = None, at_minimumMatchTier = None,
                             at_credentialId = None\<rparr>,
                 ep_registered = None, ep_hosts = eg_allowlist st, ep_ports = eg_ports st,
                 ep_standing = None, ep_exhausted = False\<rparr>))
      | Some rg \<Rightarrow>
          (let (rg', r) = resolve env now disk
                 \<lparr>sg_uid = ea_uid ea, sg_comm = ea_comm ea, sg_credential = ea_credential ea\<rparr> rg;
               (hosts, ports, source) = effectiveEgress (if rv_declared r then Some (rv_id r) else None) st;
               standing = (case rv_agent r of None \<Rightarrow> None | Some a \<Rightarrow> counters a now (eg_budgets st))
           in (st\<lparr>eg_registry := Some rg'\<rparr>,
               \<lparr>ep_agent = \<lparr>at_id = rv_id r, at_label = rv_label r, at_matchedOn = rv_matchedOn r,
                            at_declared = rv_declared r, at_allowlistSource = source, at_refusal = rv_refusal r,
                            at_minimumMatchTier = Some (rg_minimumMatchTier rg),
                            at_credentialId = map_option cr_credentialId (rv_credential r)\<rparr>,
                ep_registered = rv_agent r, ep_hosts = hosts, ep_ports = ports, ep_standing = standing,
                ep_exhausted = (case standing of None \<Rightarrow> False | Some c \<Rightarrow> over_requests c \<or> over_bytes c)\<rparr>)))"

fun enforcement_mode_str :: "enforcement_mode \<Rightarrow> string" where
  "enforcement_mode_str Monitor = ''monitor''"
| "enforcement_mode_str Guarded = ''guarded''"
| "enforcement_mode_str Strict = ''strict''"

fun refusal_kind_str :: "refusal_kind \<Rightarrow> string" where
  "refusal_kind_str CredentialRevoked = ''credential-revoked''"
| "refusal_kind_str CredentialExpired = ''credential-expired''"
| "refusal_kind_str CredentialOrphaned = ''credential-orphaned''"
| "refusal_kind_str BelowMinimumTier = ''below-minimum-tier''"

fun refusal_origin_str :: "refusal_origin \<Rightarrow> string" where
  "refusal_origin_str OperatorConfiguration = ''operator-configuration''"
| "refusal_origin_str UnprovenClaim = ''unproven-claim''"
| "refusal_origin_str Indeterminate = ''indeterminate''"

definition unmatched_str :: "agent_registry option \<Rightarrow> string" where
  "unmatched_str rg = (case rg of None \<Rightarrow> ''global''
     | Some r \<Rightarrow> (case rg_unmatched r of GlobalPosture \<Rightarrow> ''global'' | DenyUnmatched \<Rightarrow> ''deny''))"

definition egress_metadata ::
  "egress_attempt \<Rightarrow> enforcement_mode \<Rightarrow> lockdown_state \<Rightarrow> bool \<Rightarrow> (string \<times> string) list option \<Rightarrow> egress_principal
     \<Rightarrow> agent_registry option \<Rightarrow> (string \<times> string) list" where
  "egress_metadata ea mode ld allowlisted content pr rg =
     (let agent = ep_agent pr; dflt = (\<lambda>d x. case x of None \<Rightarrow> d | Some v \<Rightarrow> v) in
      [(''host'', ea_host ea), (''port'', show_int (ea_port ea)), (''scheme'', ea_scheme ea),
       (''method'', dflt ''CONNECT'' (ea_method ea)), (''comm'', dflt ''unknown'' (ea_comm ea)),
       (''pid'', dflt ''unknown'' (map_option show_int (ea_pid ea))),
       (''uid'', dflt ''unknown'' (map_option show_int (ea_uid ea))),
       (''agentLabel'', at_label agent), (''agentMatchedOn'', signal_str (at_matchedOn agent)),
       (''agentDeclared'', truth (at_declared agent)), (''enforcementMode'', enforcement_mode_str mode),
       (''fleetUnmatched'', unmatched_str rg),
       (''fleetMinimumMatchTier'', (case rg of None \<Rightarrow> ''any'' | Some r \<Rightarrow> tier_str (rg_minimumMatchTier r)))]
      @ (case at_refusal agent of None \<Rightarrow> []
         | Some f \<Rightarrow> [(''agentIdentityRefusal'', refusal_kind_str (af_kind f)),
                       (''agentIdentityOrigin'', refusal_origin_str (af_origin f))])
      @ (if truthy (at_credentialId agent) then [(''agentCredentialId'', the (at_credentialId agent))] else [])
      @ [(''agentBudgetExhausted'', truth (ep_exhausted pr \<and> \<not> ea_reDecision ea)),
         (''egressAllowlisted'', truth allowlisted),
         (''egressPortAllowlisted'', truth (ea_port ea \<in> set (ep_ports pr))),
         (''egressAllowlistSource'', at_allowlistSource agent),
         (''lockdownActive'', truth (ls_active ld))]
      @ (case content of None \<Rightarrow> [] | Some m \<Rightarrow> m))"

definition buildContext ::
  "egress_attempt \<Rightarrow> enforcement_mode \<Rightarrow> lockdown_state \<Rightarrow> bool \<Rightarrow> (string \<times> string) list option \<Rightarrow> egress_principal
     \<Rightarrow> agent_registry option \<Rightarrow> agent_context" where
  "buildContext ea mode ld allowlisted content pr rg =
     (let authority = ea_host ea @ '':'' @ show_int (ea_port ea);
          path = (case ea_path ea of None \<Rightarrow> [] | Some p \<Rightarrow> p)
      in \<lparr>cx_agentId = at_id (ep_agent pr), cx_sessionId = None, cx_plane = Network,
          cx_action = ''egress:'' @ ea_scheme ea,
          cx_payload = [(''url'', JStr (ea_scheme ea @ ''://'' @ authority @ path)), (''host'', JStr (ea_host ea)),
                        (''port'', JNum (show_int (ea_port ea))), (''path'', JStr path)],
          cx_metadata = Some (egress_metadata ea mode ld allowlisted content pr rg),
          cx_actor = None, cx_control = None, cx_provenance = None,
          cx_flow = Some \<lparr>fl_direction = Egress, fl_channel = None, fl_target = None, fl_labels = None,
                          fl_crossesBoundary = None, fl_highRisk = None\<rparr>\<rparr>)"

definition policyReasons :: "policy_result \<Rightarrow> string list" where
  "policyReasons r = (if pr_matchedRules r \<noteq> [] then pr_reasons r else [])"

definition verdictRisk :: "policy_result \<Rightarrow> risk_level" where
  "verdictRisk r = (if pr_matchedRules r \<noteq> [] then pr_riskLevel r else Low)"

definition describeLockdown :: "lockdown_state \<Rightarrow> string" where
  "describeLockdown ld =
     ''lockdown active (sources: '' @ (if ls_sources ld \<noteq> [] then js_join '', '' (ls_sources ld) else ''unknown'') @ '')''
     @ (if truthy (ls_reason ld) then '': '' @ the (ls_reason ld) else [])"

subsection \<open>One enforcing mode\<close>

text \<open>What a verdict has gathered: rule ids, detection ids and reasons.\<close>

record evidence =
  vd_rules :: "string list"
  vd_detections :: "string list"
  vd_reasons :: "string list"

definition finding :: "string \<Rightarrow> string \<Rightarrow> evidence \<Rightarrow> evidence" where
  "finding rule detection v =
     v\<lparr>vd_rules := push_unique (vd_rules v) rule, vd_detections := push_unique (vd_detections v) detection\<rparr>"

definition say :: "string \<Rightarrow> evidence \<Rightarrow> evidence" where \<comment> \<open>\<open>pushUnique(reasons, _)\<close>\<close>
  "say r v = v\<lparr>vd_reasons := push_unique (vd_reasons v) r\<rparr>"

definition lead :: "string list \<Rightarrow> evidence \<Rightarrow> evidence" where \<comment> \<open>\<open>reasons.unshift(...)\<close>\<close>
  "lead rs v = v\<lparr>vd_reasons := rs @ vd_reasons v\<rparr>"

definition evidence_of :: "policy_result \<Rightarrow> evidence" where
  "evidence_of r = \<lparr>vd_rules = pr_matchedRules r, vd_detections = map dm_id (pr_detections r), vd_reasons = policyReasons r\<rparr>"

definition verdict :: "decision \<Rightarrow> risk_level \<Rightarrow> evidence \<Rightarrow> enforcement_mode \<Rightarrow> egress_principal \<Rightarrow> egress_verdict" where
  "verdict d risk v mode pr =
     \<lparr>ev_decision = d, ev_riskLevel = risk, ev_reasons = vd_reasons v, ev_matchedRules = vd_rules v,
      ev_detectionIds = vd_detections v, ev_metadata = None, ev_mode = mode, ev_agent = ep_agent pr,
      ev_budget = None, ev_budgetTicket = None\<rparr>"

definition decoy_hit :: "content_findings option \<Rightarrow> bool" where
  "decoy_hit content = (case content of None \<Rightarrow> False | Some f \<Rightarrow> cf_decoyIds f \<noteq> [])"

definition content_evidence :: "content_findings option \<Rightarrow> evidence \<Rightarrow> evidence" where
  "content_evidence content v =
     (case content of
        None \<Rightarrow> v
      | Some f \<Rightarrow>
          fold say (coverageNotes f)
            (if cf_decoyIds f \<noteq> [] then
               say (''decoy '' @ js_join '', '' (cf_decoyIds f) @ '' appeared in the inspected ''
                    @ direction_str (cf_direction f) @ '' ('' @ js_join '', '' (cf_scanned f)
                    @ ''); that value is never legitimately used'')
                 (finding DECOY_RULE_ID DECOY_DETECTION_ID v)
             else v))"

definition INDETERMINATE_NOTE :: string where
  "INDETERMINATE_NOTE =
     ''this evidence does not distinguish a deployment that missed the change from a copy of the ''
     @ ''credential in someone else's hands; treat it as unresolved until the holder is confirmed''"

definition refuse_identity :: "agent_refusal \<Rightarrow> bool \<Rightarrow> evidence \<Rightarrow> enforcement_mode \<Rightarrow> egress_principal \<Rightarrow> egress_verdict" where
  "refuse_identity f decoyHit v mode pr =
     (let configured = (af_origin f = OperatorConfiguration);
          v1 = finding (if configured then FLEET_UNCONFIGURED_RULE_ID else FLEET_IDENTITY_RULE_ID)
                 (if configured then FLEET_UNCONFIGURED_DETECTION_ID else FLEET_IDENTITY_DETECTION_ID) v;
          v2 = lead [af_reason f] v1;
          v3 = (if af_origin f = Indeterminate then say INDETERMINATE_NOTE v2 else v2)
      in verdict Deny (if decoyHit then Critical else if configured then Medium else High) v3 mode pr)"

definition refuse_undeclared :: "egress_attempt \<Rightarrow> bool \<Rightarrow> evidence \<Rightarrow> enforcement_mode \<Rightarrow> egress_principal \<Rightarrow> egress_verdict" where
  "refuse_undeclared ea decoyHit v mode pr =
     verdict Deny (if decoyHit then Critical else High)
       (say (''no declared agent claims this connection (comm '' @ (case ea_comm ea of None \<Rightarrow> ''unknown'' | Some c \<Rightarrow> c)
             @ '', uid '' @ (case ea_uid ea of None \<Rightarrow> ''unknown'' | Some u \<Rightarrow> show_int u)
             @ '') and fleet.unmatched is '' @ quoted ''deny'')
         (finding FLEET_UNDECLARED_RULE_ID FLEET_UNDECLARED_DETECTION_ID v)) mode pr"

definition used_of :: "string \<Rightarrow> int \<Rightarrow> int \<Rightarrow> string \<Rightarrow> int \<Rightarrow> string" where
  "used_of agentId used maximum unit window =
     ''agent '' @ agentId @ '' has used '' @ show_int used @ '' of '' @ show_int maximum @ '' '' @ unit
     @ '' in its '' @ show_int window @ ''s budget window''"

definition refuse_budget :: "budget_counters \<Rightarrow> bool \<Rightarrow> evidence \<Rightarrow> enforcement_mode \<Rightarrow> egress_principal \<Rightarrow> egress_verdict" where
  "refuse_budget c decoyHit v mode pr =
     (let i = at_id (ep_agent pr);
          v1 = finding FLEET_BUDGET_RULE_ID FLEET_BUDGET_DETECTION_ID v;
          v2 = (if over_requests c
                then lead [used_of i (bc_requests c) (the (bc_maxRequests c)) ''connections'' (bc_windowSeconds c)] v1 else v1);
          v3 = (if over_bytes c
                then lead [used_of i (bc_bytes c) (the (bc_maxBytes c)) ''bytes'' (bc_windowSeconds c)] v2 else v2)
      in verdict Deny (if decoyHit then Critical else Medium) v3 mode pr)"

definition strict_gate :: "egress_attempt \<Rightarrow> bool \<Rightarrow> egress_principal \<Rightarrow> evidence \<Rightarrow> evidence" where
  "strict_gate ea allowlisted pr v =
     (let listed = (if at_allowlistSource (ep_agent pr) = ''global'' then ''egress allowlist''
                    else at_id (ep_agent pr) @ '' egress allowlist'');
          v1 = (if allowlisted then v else finding EGRESS_ALLOWLIST_RULE_ID EGRESS_BLOCKED_DETECTION_ID v);
          g1 = (if allowlisted then [] else [ea_host ea @ '' is not in the '' @ listed]);
          portOk = (ea_port ea \<in> set (ep_ports pr));
          v2 = (if portOk then v1 else finding EGRESS_PORT_RULE_ID EGRESS_PORT_DETECTION_ID v1);
          g2 = (if portOk then g1
                else push_unique g1
                  (''port '' @ show_int (ea_port ea) @ '' is not in the '' @ listed @ '' ports''
                   @ (if ep_ports pr \<noteq> [] then '' (allowed: '' @ js_join '', '' (map show_int (ep_ports pr)) @ '')''
                      else '' (the allowlist is empty)'')))
      in lead (filter (\<lambda>r. r \<notin> set (vd_reasons v2)) g2) v2)"

definition permit :: "egress_attempt \<Rightarrow> policy_result \<Rightarrow> evidence \<Rightarrow> enforcement_mode \<Rightarrow> egress_principal \<Rightarrow> egress_verdict" where
  "permit ea result v mode pr =
     (let v1 = (if pr_decision result = Approve \<or> pr_decision result = Redact
                then v\<lparr>vd_reasons := vd_reasons v @ [''policy decision '' @ quoted (decision_str (pr_decision result))
                        @ '' is not enforceable on a proxied connection; egress allowed and recorded'']\<rparr>
                else v);
          v2 = (if vd_reasons v1 \<noteq> [] then v1
                else v1\<lparr>vd_reasons := [''no rule matched '' @ ea_host ea @ '':'' @ show_int (ea_port ea)]\<rparr>)
      in verdict Allow (verdictRisk result) v2 mode pr)"

definition enforce ::
  "egress_attempt \<Rightarrow> enforcement_mode \<Rightarrow> policy_snapshot \<Rightarrow> lockdown_state \<Rightarrow> content_findings option
     \<Rightarrow> (string \<times> string) list option \<Rightarrow> egress_principal \<Rightarrow> agent_registry option \<Rightarrow> egress_verdict" where
  "enforce ea mode engine ld content markers pr rg =
     (let allowlisted = isAllowlisted (ea_host ea) (ep_hosts pr);
          result = evaluate engine (buildContext ea mode ld allowlisted markers pr rg);
          decoyHit = decoy_hit content;
          v = content_evidence content (evidence_of result);
          strictBlock = (mode = Strict \<and> (\<not> allowlisted \<or> ea_port ea \<notin> set (ep_ports pr)));
          v' = (if strictBlock then strict_gate ea allowlisted pr v else v);
          least = (if decoyHit then Critical else High)
      in case at_refusal (ep_agent pr) of
           Some f \<Rightarrow> refuse_identity f decoyHit v mode pr
         | None \<Rightarrow>
             if (case rg of None \<Rightarrow> False | Some r \<Rightarrow> rg_unmatched r = DenyUnmatched) \<and> \<not> at_declared (ep_agent pr)
             then refuse_undeclared ea decoyHit v mode pr
             else if \<not> ea_reDecision ea \<and> ep_exhausted pr \<and> ep_standing pr \<noteq> None
             then refuse_budget (the (ep_standing pr)) decoyHit v mode pr
             else if strictBlock \<or> decoyHit
             then verdict Deny (if RISK_ORDER (verdictRisk result) > RISK_ORDER least then verdictRisk result else least) v' mode pr
             else if pr_matchedRules result \<noteq> [] \<and> pr_decision result = Deny
             then verdict Deny (pr_riskLevel result) v' mode pr
             else permit ea result v' mode pr)"

subsection \<open>The decision\<close>

definition monitor_verdict :: "egress_verdict \<Rightarrow> egress_verdict \<Rightarrow> egress_verdict" where
  "monitor_verdict guarded strict =
     guarded\<lparr>ev_decision := Allow,
             ev_reasons := [''monitor: egress recorded, not gated'',
               (if ev_decision guarded = Deny then ''monitor: guarded mode would deny -- '' @ js_join ''; '' (ev_reasons guarded)
                else ''monitor: guarded mode would allow''),
               (if ev_decision strict = Deny then ''monitor: strict mode would deny -- '' @ js_join ''; '' (ev_reasons strict)
                else ''monitor: strict mode would allow'')],
             ev_mode := Monitor\<rparr>"

definition charge :: "egress_principal \<Rightarrow> int \<Rightarrow> egress_state \<Rightarrow> egress_verdict \<Rightarrow> egress_state \<times> egress_verdict" where
  "charge pr now st v =
     (case (ep_registered pr, eg_registry st) of
        (Some a, Some rg) \<Rightarrow>
          (let (ls, bg) = admit a now (eg_budgets st) in
           (st\<lparr>eg_budgets := ls\<rparr>, v\<lparr>ev_budget := bg_counters bg, ev_budgetTicket := bg_ticket bg\<rparr>))
      | _ \<Rightarrow> (st, v\<lparr>ev_budget := None, ev_budgetTicket := None\<rparr>))"

definition decide ::
  "int \<Rightarrow> egress_attempt \<Rightarrow> enforcement_mode \<Rightarrow> policy_snapshot \<Rightarrow> lockdown_state \<Rightarrow> content_findings option
     \<Rightarrow> (string \<times> string) list option \<Rightarrow> egress_principal \<Rightarrow> egress_state \<Rightarrow> egress_state \<times> egress_verdict" where
  "decide now ea mode engine ld content markers pr st =
     (let rg = eg_registry st in
      if ls_active ld then
        (let result = evaluate engine (buildContext ea mode ld (isAllowlisted (ea_host ea) (ep_hosts pr)) markers pr rg);
             v = finding LOCKDOWN_RULE_ID LOCKDOWN_DETECTION_ID (evidence_of result)
         in (st, (verdict Deny Critical (v\<lparr>vd_reasons := describeLockdown ld # policyReasons result\<rparr>) mode pr)
                 \<lparr>ev_budget := (case (ep_registered pr, rg) of
                    (Some a, Some _) \<Rightarrow> counters a now (eg_budgets st) | _ \<Rightarrow> None)\<rparr>))
      else if mode = Monitor then
        (let v = monitor_verdict (enforce ea Guarded engine ld content markers pr rg)
                                 (enforce ea Strict engine ld content markers pr rg)
         in if ea_reDecision ea then (st, v) else charge pr now st v)
      else
        (let v = enforce ea mode engine ld content markers pr rg in
         if ev_decision v \<noteq> Allow then (st, v\<lparr>ev_budget := ep_standing pr\<rparr>)
         else if ea_reDecision ea then (st, v\<lparr>ev_budget := ep_standing pr, ev_budgetTicket := None\<rparr>)
         else charge pr now st v))"

definition decideEgress ::
  "cred_env \<Rightarrow> egress_scanners \<Rightarrow> int \<Rightarrow> cred_disk \<Rightarrow> lockdown_state \<Rightarrow> policy_snapshot \<Rightarrow> egress_attempt \<Rightarrow> enforcement_mode
     \<Rightarrow> egress_state \<Rightarrow> egress_state \<times> egress_verdict" where
  "decideEgress env sc now disk ld engine ea mode st =
     (let content = inspectContent sc ea;
          markers = map_option contentMetadata content;
          (st1, pr) = resolvePrincipal env now disk ea st;
          (st2, v) = decide now ea mode engine ld content markers pr st1
      in (st2, v\<lparr>ev_metadata := markers\<rparr>))"


subsection \<open>What every step keeps\<close>

lemma verdict_simps [simp]:
  "ev_decision (verdict d r v m pr) = d" "ev_riskLevel (verdict d r v m pr) = r" "ev_reasons (verdict d r v m pr) = vd_reasons v"
  "ev_matchedRules (verdict d r v m pr) = vd_rules v" "ev_detectionIds (verdict d r v m pr) = vd_detections v"
  "ev_budgetTicket (verdict d r v m pr) = None" "ev_budget (verdict d r v m pr) = None" "ev_agent (verdict d r v m pr) = ep_agent pr"
  by (simp_all add: verdict_def)

lemma evidence_simps [simp]:
  "set (vd_rules (finding rule det v)) = insert rule (set (vd_rules v))"
  "set (vd_detections (finding rule det v)) = insert det (set (vd_detections v))"
  "vd_reasons (finding rule det v) = vd_reasons v"
  "vd_rules (say r v) = vd_rules v" "vd_detections (say r v) = vd_detections v"
  "set (vd_reasons (say r v)) = insert r (set (vd_reasons v))"
  "vd_rules (lead rs v) = vd_rules v" "vd_detections (lead rs v) = vd_detections v"
  "vd_reasons (lead rs v) = rs @ vd_reasons v"
  by (simp_all add: finding_def say_def lead_def)

lemma fold_say [simp]:
  "vd_rules (fold say rs v) = vd_rules v" "set (vd_reasons (fold say rs v)) = set rs \<union> set (vd_reasons v)"
  by (induction rs arbitrary: v) auto

lemma content_evidence_keeps:
  "set (vd_rules v) \<subseteq> set (vd_rules (content_evidence c v))"
  "decoy_hit c \<Longrightarrow> DECOY_RULE_ID \<in> set (vd_rules (content_evidence c v))"
  "c = Some f \<Longrightarrow> set (coverageNotes f) \<subseteq> set (vd_reasons (content_evidence c v))"
  by (auto simp: content_evidence_def decoy_hit_def split: option.splits)

lemma strict_gate_keeps:
  "set (vd_rules v) \<subseteq> set (vd_rules (strict_gate ea al pr v))"
  "set (vd_reasons v) \<subseteq> set (vd_reasons (strict_gate ea al pr v))"
  by (auto simp: strict_gate_def Let_def)

text \<open>The outcomes of an enforcing mode: what each decides, and that none drops evidence.\<close>

definition carries :: "evidence \<Rightarrow> egress_verdict \<Rightarrow> bool" where
  "carries v ev = (set (vd_rules v) \<subseteq> set (ev_matchedRules ev) \<and> set (vd_reasons v) \<subseteq> set (ev_reasons ev)
     \<and> ev_budgetTicket ev = None)"

lemma outcomes_carry [simp]:
  "carries v (refuse_identity f h v mode pr)" "carries v (refuse_undeclared ea h v mode pr)"
  "carries v (refuse_budget c h v mode pr)" "carries v (permit ea result v mode pr)"
  "carries v (verdict d r v mode pr)" "carries v (verdict d r (strict_gate ea al pr v) mode pr)"
  by (auto simp: carries_def refuse_identity_def refuse_undeclared_def refuse_budget_def permit_def Let_def
      strict_gate_keeps [THEN subsetD])

lemma permit_carries [simp]: "carries v (permit ea result (strict_gate ea' al pr' v) mode pr)"
  using outcomes_carry(4) [of "strict_gate ea' al pr' v" ea result mode pr] strict_gate_keeps [of v ea' al pr']
  unfolding carries_def by blast

lemma outcomes_decide [simp]:
  "ev_decision (refuse_identity f h v mode pr) = Deny" "ev_decision (refuse_undeclared ea h v mode pr) = Deny"
  "ev_decision (refuse_budget c h v mode pr) = Deny" "ev_decision (permit ea result v mode pr) = Allow"
  by (simp_all add: refuse_identity_def refuse_undeclared_def refuse_budget_def permit_def Let_def)

lemma outcomes_critical [simp]:
  "ev_riskLevel (refuse_identity f True v mode pr) = Critical" "ev_riskLevel (refuse_undeclared ea True v mode pr) = Critical"
  "ev_riskLevel (refuse_budget c True v mode pr) = Critical"
  by (simp_all add: refuse_identity_def refuse_undeclared_def refuse_budget_def Let_def)

definition closed_fleet :: "agent_registry option \<Rightarrow> bool" where
  "closed_fleet rg = (case rg of None \<Rightarrow> False | Some r \<Rightarrow> rg_unmatched r = DenyUnmatched)"

definition policy_result_of ::
  "egress_attempt \<Rightarrow> enforcement_mode \<Rightarrow> policy_snapshot \<Rightarrow> lockdown_state \<Rightarrow> (string \<times> string) list option
     \<Rightarrow> egress_principal \<Rightarrow> agent_registry option \<Rightarrow> policy_result" where
  "policy_result_of ea mode engine ld markers pr rg =
     evaluate engine (buildContext ea mode ld (isAllowlisted (ea_host ea) (ep_hosts pr)) markers pr rg)"

definition outside_lists :: "egress_attempt \<Rightarrow> egress_principal \<Rightarrow> bool" where
  "outside_lists ea pr = (\<not> isAllowlisted (ea_host ea) (ep_hosts pr) \<or> ea_port ea \<notin> set (ep_ports pr))"

lemma RISK_ORDER_top [simp]: "\<not> 3 < RISK_ORDER r"
  by (cases r) simp_all

lemma enforce_decision:
  "ev_decision (enforce ea mode engine ld content markers pr rg) = (if
     at_refusal (ep_agent pr) \<noteq> None \<or> (closed_fleet rg \<and> \<not> at_declared (ep_agent pr))
     \<or> (\<not> ea_reDecision ea \<and> ep_exhausted pr \<and> ep_standing pr \<noteq> None)
     \<or> (mode = Strict \<and> outside_lists ea pr) \<or> decoy_hit content
     \<or> (pr_matchedRules (policy_result_of ea mode engine ld markers pr rg) \<noteq> []
        \<and> pr_decision (policy_result_of ea mode engine ld markers pr rg) = Deny)
     then Deny else Allow)"
  unfolding enforce_def Let_def closed_fleet_def [symmetric] policy_result_of_def [symmetric] outside_lists_def [symmetric]
  by (cases "at_refusal (ep_agent pr)"; cases "mode = Strict \<and> outside_lists ea pr"; cases "decoy_hit content") auto

lemma enforce_carries:
  "carries (content_evidence content (evidence_of (policy_result_of ea mode engine ld markers pr rg)))
     (enforce ea mode engine ld content markers pr rg)"
  unfolding enforce_def Let_def policy_result_of_def [symmetric]
  by (cases "at_refusal (ep_agent pr)") simp_all

lemma enforce_ticket [simp]: "ev_budgetTicket (enforce ea mode engine ld content markers pr rg) = None"
  using enforce_carries by (simp add: carries_def)

lemma outcomes_agent [simp]:
  "ev_agent (refuse_identity f h v mode pr) = ep_agent pr" "ev_agent (refuse_undeclared ea h v mode pr) = ep_agent pr"
  "ev_agent (refuse_budget c h v mode pr) = ep_agent pr" "ev_agent (permit ea result v mode pr) = ep_agent pr"
  by (simp_all add: refuse_identity_def refuse_undeclared_def refuse_budget_def permit_def Let_def)

lemma enforce_agent [simp]: "ev_agent (enforce ea mode engine ld content markers pr rg) = ep_agent pr"
  unfolding enforce_def Let_def by (cases "at_refusal (ep_agent pr)") simp_all

lemma enforce_decoy:
  assumes "decoy_hit content"
  shows "ev_riskLevel (enforce ea mode engine ld content markers pr rg) = Critical"
    and "DECOY_RULE_ID \<in> set (ev_matchedRules (enforce ea mode engine ld content markers pr rg))"
proof -
  show "ev_riskLevel (enforce ea mode engine ld content markers pr rg) = Critical"
    unfolding enforce_def Let_def using assms by (cases "at_refusal (ep_agent pr)") simp_all
  show "DECOY_RULE_ID \<in> set (ev_matchedRules (enforce ea mode engine ld content markers pr rg))"
    using enforce_carries [of content ea mode engine ld markers pr rg] content_evidence_keeps(2) [OF assms]
    unfolding carries_def by blast
qed

lemma enforce_notes:
  "content = Some f \<Longrightarrow> set (coverageNotes f) \<subseteq> set (ev_reasons (enforce ea mode engine ld content markers pr rg))"
  using enforce_carries [of content ea mode engine ld markers pr rg] content_evidence_keeps(3) [of content f]
  by (auto simp: carries_def)

subsection \<open>What a decision does to the state\<close>

lemma source_refresh_ok: "source_ok src \<Longrightarrow> source_ok (source_refresh env now disk src)"
  by (cases src) (simp_all add: source_refresh_def refresh_ok)

text \<open>A resolution only ever moves the credential source.\<close>

definition moved :: "agent_registry \<Rightarrow> agent_registry \<Rightarrow> bool" where
  "moved rg rg' = (\<exists>src. rg' = rg\<lparr>rg_credentials := src\<rparr> \<and> (source_ok (rg_credentials rg) \<longrightarrow> source_ok src))"

lemma moved_refl [simp]: "moved rg rg"
  unfolding moved_def by (rule exI [of _ "rg_credentials rg"]) simp

lemma moved_refresh [simp]: "moved rg (rg\<lparr>rg_credentials := source_refresh env now disk (rg_credentials rg)\<rparr>)"
  using source_refresh_ok by (auto simp: moved_def)

lemma moved_trans: "moved rg rg' \<Longrightarrow> moved rg' rg'' \<Longrightarrow> moved rg rg''"
  by (auto simp: moved_def)

lemma moved_keeps:
  "moved rg rg' \<Longrightarrow> registry_ok rg' = registry_ok rg \<and> rg_agents rg' = rg_agents rg \<and> rg_unmatched rg' = rg_unmatched rg
     \<and> (source_ok (rg_credentials rg) \<longrightarrow> source_ok (rg_credentials rg'))"
  by (auto simp: moved_def)

lemma floorBlocks_moved: "moved rg (fst (floorBlocks env now disk a rg))"
proof (cases "ra_credentialDigest a")
  case None
  then have "fst (floorBlocks env now disk a rg) = rg\<lparr>rg_credentials := source_refresh env now disk (rg_credentials rg)\<rparr>"
    by (auto simp: floorBlocks_def credentialsFor_def Let_def dest: source_listFor_src split: prod.splits)
  then show ?thesis by simp
qed (simp add: floorBlocks_def)

lemma accept_moved: "moved rg (fst (accept env now disk a m c rg))"
  using floorBlocks_moved [of rg env now disk a] by (auto simp: accept_def split: prod.splits)

lemma resolve_process_moved: "moved rg (fst (resolve_process env now disk s rg))"
  by (simp add: resolve_process_def accept_moved split: option.split prod.split)

lemma source_lookup_src: "source_lookup env now disk d src = (src', m) \<Longrightarrow> src' = source_refresh env now disk src"
  by (metis fst_conv fst_source_ops(2))

lemma resolve_credential_moved: "moved rg (fst (resolve_credential env now disk d rg))"
proof -
  let ?rg1 = "rg\<lparr>rg_credentials := source_refresh env now disk (rg_credentials rg)\<rparr>"
  have acc: "moved rg (fst (accept env now disk a ByCredential c ?rg1))" for a c
    using moved_trans [OF moved_refresh accept_moved] .
  obtain m where look: "source_lookup env now disk (ce_sha256 env d) (rg_credentials rg)
      = (source_refresh env now disk (rg_credentials rg), m)"
    using source_lookup_src by (metis prod.collapse)
  show ?thesis
  proof (cases "omap_get (rg_byCredential rg) (ce_sha256 env d)")
    case (Some a)
    then show ?thesis by (simp add: resolve_credential_def case_prod_unfold Let_def accept_moved)
  next
    case None
    then show ?thesis
      by (simp add: resolve_credential_def look acc case_prod_unfold Let_def split: option.split)
  qed
qed

lemma resolve_moved: "moved rg (fst (resolve env now disk s rg))"
proof -
  obtain rg1 found where cred: "resolve_credential env now disk (the (sg_credential s)) rg = (rg1, found)" by fastforce
  then have "moved rg rg1" using resolve_credential_moved [of rg env now disk "the (sg_credential s)"] by simp
  moreover from this have "moved rg (fst (resolve_process env now disk s rg1))"
    using moved_trans resolve_process_moved by blast
  ultimately show ?thesis by (simp add: resolve_def cred resolve_process_moved split: option.split)
qed

abbreviation signals_of :: "egress_attempt \<Rightarrow> agent_signals" where
  "signals_of ea \<equiv> \<lparr>sg_uid = ea_uid ea, sg_comm = ea_comm ea, sg_credential = ea_credential ea\<rparr>"

lemma resolvePrincipal_fst:
  "fst (resolvePrincipal env now disk ea st) = (case eg_registry st of None \<Rightarrow> st
     | Some rg \<Rightarrow> st\<lparr>eg_registry := Some (fst (resolve env now disk (signals_of ea) rg))\<rparr>)"
  by (simp add: resolvePrincipal_def Let_def split: option.split prod.split)

lemma resolvePrincipal_snd:
  assumes "eg_registry st = Some rg" "snd (resolve env now disk (signals_of ea) rg) = r"
  shows "ep_registered (snd (resolvePrincipal env now disk ea st)) = rv_agent r"
    and "ep_standing (snd (resolvePrincipal env now disk ea st)) =
           (case rv_agent r of None \<Rightarrow> None | Some a \<Rightarrow> counters a now (eg_budgets st))"
    and "at_id (ep_agent (snd (resolvePrincipal env now disk ea st))) = rv_id r"
    and "at_declared (ep_agent (snd (resolvePrincipal env now disk ea st))) = rv_declared r"
    and "at_refusal (ep_agent (snd (resolvePrincipal env now disk ea st))) = rv_refusal r"
  using assms by (auto simp: resolvePrincipal_def Let_def split: option.split prod.split)

lemma resolvePrincipal_lists:
  "effectiveEgress (if at_declared (ep_agent pr) then Some (at_id (ep_agent pr)) else None) st
     = (ep_hosts pr, ep_ports pr, at_allowlistSource (ep_agent pr))"
  if "pr = snd (resolvePrincipal env now disk ea st)"
  using that by (auto simp: resolvePrincipal_def Let_def effectiveEgress_def split: option.splits prod.splits)

lemma resolvePrincipal_exhausted:
  "ep_exhausted pr = (case ep_standing pr of None \<Rightarrow> False | Some c \<Rightarrow> over_requests c \<or> over_bytes c)"
  if "pr = snd (resolvePrincipal env now disk ea st)"
  using that by (auto simp: resolvePrincipal_def Let_def split: option.splits prod.splits)

lemma resolvePrincipal_closed:
  "closed_fleet (eg_registry (fst (resolvePrincipal env now disk ea st))) = closed_fleet (eg_registry st)"
proof (cases "eg_registry st")
  case (Some rg)
  with moved_keeps [OF resolve_moved [of rg env now disk "signals_of ea"]]
  show ?thesis by (simp add: resolvePrincipal_fst closed_fleet_def)
qed (simp add: resolvePrincipal_fst)

lemma charge_ticket:
  assumes "charge pr now st v = (st', v')"
  shows "ev_decision v' = ev_decision v" "ev_riskLevel v' = ev_riskLevel v" "ev_reasons v' = ev_reasons v"
    "ev_matchedRules v' = ev_matchedRules v" "ev_agent v' = ev_agent v"
  using assms by (auto simp: charge_def split: option.splits prod.splits)

lemma decide_quiet:
  assumes "ls_active ld \<or> ea_reDecision ea \<or> ev_decision (snd (decide now ea mode engine ld content markers pr st)) \<noteq> Allow"
  shows "fst (decide now ea mode engine ld content markers pr st) = st
       \<and> ev_budgetTicket (snd (decide now ea mode engine ld content markers pr st)) = None"
proof -
  obtain st1 v1 where m: "charge pr now st (monitor_verdict (enforce ea Guarded engine ld content markers pr (eg_registry st))
      (enforce ea Strict engine ld content markers pr (eg_registry st))) = (st1, v1)" by fastforce
  obtain st2 v2 where e: "charge pr now st (enforce ea mode engine ld content markers pr (eg_registry st)) = (st2, v2)" by fastforce
  have "ev_decision v1 = Allow" using charge_ticket(1) [OF m] by (simp add: monitor_verdict_def)
  with assms m e charge_ticket(1) [OF e] show ?thesis
    by (auto simp: decide_def Let_def monitor_verdict_def split: if_splits)
qed

subsection \<open>Resolutions that carry an agent\<close>

lemma unclaimed_agent [simp]: "rv_agent (unclaimed s) = None"
  by (simp add: unclaimed_def Let_def)

lemma accept_agent: "rv_agent (snd (accept env now disk a m c rg)) = Some a' \<Longrightarrow> rv_declared (snd (accept env now disk a m c rg))"
  by (cases rule: accept_cases [of m rg env now disk a c]) auto

lemma resolve_process_agent:
  "rv_agent (snd (resolve_process env now disk s rg)) = Some a \<Longrightarrow> rv_declared (snd (resolve_process env now disk s rg))"
  by (auto simp: resolve_process_def split: option.splits intro: accept_agent)

lemma resolve_credential_agent:
  assumes "resolve_credential env now disk d rg = (rg', Some r)" "rv_agent r = Some a"
  shows "rv_declared r"
  using assms unfolding resolve_credential_def case_prod_unfold Let_def
  by (auto split: option.splits if_splits intro: accept_agent)

lemma resolve_agent:
  assumes "rv_agent (snd (resolve env now disk s rg)) = Some a"
  shows "rv_declared (snd (resolve env now disk s rg))"
proof -
  obtain rg1 found where cred: "resolve_credential env now disk (the (sg_credential s)) rg = (rg1, found)" by fastforce
  with assms resolve_credential_agent [of env now disk "the (sg_credential s)" rg rg1]
    resolve_process_agent [of env now disk s rg] resolve_process_agent [of env now disk s rg1]
  show ?thesis by (cases found) (auto simp: resolve_def split: if_splits)
qed

text \<open>In a good state the agent charged is the declared agent of that id.\<close>

definition egress_good :: "registered_agent \<Rightarrow> egress_state \<Rightarrow> bool" where
  "egress_good a st = (\<exists>rg. eg_registry st = Some rg \<and> registry_ok rg \<and> source_ok (rg_credentials rg) \<and> a \<in> set (rg_agents rg))"

lemma principal_agent:
  assumes "egress_good a st" "resolvePrincipal env now disk ea st = (st1, pr)"
  shows "ep_registered pr = Some a' \<Longrightarrow> ra_id a' = ra_id a \<Longrightarrow> a' = a"
    and "at_declared (ep_agent pr) \<Longrightarrow> at_id (ep_agent pr) = ra_id a \<Longrightarrow> ep_registered pr = Some a"
proof -
  obtain rg where rg: "eg_registry st = Some rg" "registry_ok rg" "source_ok (rg_credentials rg)" "a \<in> set (rg_agents rg)"
    using assms(1) by (auto simp: egress_good_def)
  define r where "r = snd (resolve env now disk (signals_of ea) rg)"
  note pr = resolvePrincipal_snd [OF rg(1) r_def [symmetric], unfolded assms(2) snd_conv]
  have unique: "b = a" if "b \<in> set (rg_agents rg)" "ra_id b = ra_id a" for b
    using that rg(2,4) by (auto simp: registry_ok_def distinct_map inj_on_def)
  have decl: "\<exists>b \<in> set (rg_agents rg). rv_agent r = Some b \<and> rv_id r = ra_id b" if "rv_declared r"
    using resolve_declared [OF rg(2,3) r_def [symmetric] that] by (auto simp: declared_as_def) (metis resolved_agent.select_convs(1,5))
  show "a' = a" if "ep_registered pr = Some a'" "ra_id a' = ra_id a"
  proof -
    have "rv_agent r = Some a'" using that(1) pr by simp
    moreover from this have "rv_declared r" unfolding r_def by (rule resolve_agent)
    ultimately show ?thesis using decl unique that(2) by auto
  qed
  show "ep_registered pr = Some a" if "at_declared (ep_agent pr)" "at_id (ep_agent pr) = ra_id a"
    using that decl unique pr by auto
qed

lemma decideEgress_eq:
  assumes "resolvePrincipal env now disk ea st = (st1, pr)"
  shows "decideEgress env sc now disk ld engine ea mode st =
     (fst (decide now ea mode engine ld (inspectContent sc ea) (map_option contentMetadata (inspectContent sc ea)) pr st1),
      snd (decide now ea mode engine ld (inspectContent sc ea) (map_option contentMetadata (inspectContent sc ea)) pr st1)
        \<lparr>ev_metadata := map_option contentMetadata (inspectContent sc ea)\<rparr>)"
  using assms by (simp add: decideEgress_def Let_def case_prod_unfold)

lemma resolvePrincipal_budgets: "resolvePrincipal env now disk ea st = (st1, pr) \<Longrightarrow> eg_budgets st1 = eg_budgets st"
  using resolvePrincipal_fst [of env now disk ea st] by (auto split: option.splits)

subsection \<open>Runs\<close>

text \<open>What happens to the module over time: decisions, closing connections, and a new host and port list.\<close>

datatype egress_op =
    Ask egress_attempt enforcement_mode lockdown_state policy_snapshot cred_disk
  | Close string nat int
  | Reconfigure "string list" "int list"

fun egress_step :: "cred_env \<Rightarrow> egress_scanners \<Rightarrow> int \<times> egress_op \<Rightarrow> egress_state \<Rightarrow> egress_state" where
  "egress_step env sc (now, Ask ea mode ld engine disk) st = fst (decideEgress env sc now disk ld engine ea mode st)"
| "egress_step env sc (now, Close i ticket bytes) st = st\<lparr>eg_budgets := settle i ticket bytes (eg_budgets st)\<rparr>"
| "egress_step env sc (now, Reconfigure hosts ports) st = setEgressPolicy hosts ports st"

text \<open>A connection of agent \<open>a\<close> is admitted: allowed, bound to the agent, and not a later look at an admitted one.\<close>

definition admits ::
  "cred_env \<Rightarrow> egress_scanners \<Rightarrow> registered_agent \<Rightarrow> int \<Rightarrow> egress_attempt \<Rightarrow> enforcement_mode \<Rightarrow> lockdown_state
     \<Rightarrow> policy_snapshot \<Rightarrow> cred_disk \<Rightarrow> egress_state \<Rightarrow> bool" where
  "admits env sc a now ea mode ld engine disk st =
     (let v = snd (decideEgress env sc now disk ld engine ea mode st) in
      ev_decision v = Allow \<and> \<not> ea_reDecision ea \<and> at_declared (ev_agent v) \<and> at_id (ev_agent v) = ra_id a)"

fun egress_grant :: "cred_env \<Rightarrow> egress_scanners \<Rightarrow> registered_agent \<Rightarrow> int \<times> egress_op \<Rightarrow> egress_state \<Rightarrow> rat option" where
  "egress_grant env sc a (now, Ask ea mode ld engine disk) st =
     (if admits env sc a now ea mode ld engine disk st then Some 1 else None)"
| "egress_grant env sc a _ st = None"

fun enforcing :: "int \<times> egress_op \<Rightarrow> bool" where
  "enforcing (now, Ask ea mode ld engine disk) = (mode \<noteq> Monitor)"
| "enforcing _ = True"

definition agent_rows :: "registered_agent \<Rightarrow> egress_state \<Rightarrow> (int \<times> rat) multiset" where
  "agent_rows a st = unit_entries (mset (map we_at (al_entries (ledger_of (eg_budgets st) (ra_id a)))))"

lemma agent_rows_update [simp]:
  "agent_rows a (st\<lparr>eg_registry := rg\<rparr>) = agent_rows a st" "agent_rows a (setEgressPolicy hosts ports st) = agent_rows a st"
  by (simp_all add: agent_rows_def setEgressPolicy_def)

lemma settle_rows: "agent_rows a (st\<lparr>eg_budgets := settle i ticket bytes (eg_budgets st)\<rparr>) = agent_rows a st"
  by (auto simp: agent_rows_def settle_def ledger_of_def comp_def simp del: mset_map split: option.split)

lemma filter_not_dropWhile: "filter (\<lambda>x. \<not> P x) (dropWhile P xs) = filter (\<lambda>x. \<not> P x) xs"
  by (induction xs) auto

text \<open>An admission keeps the rows of the window and adds its own.\<close>

lemma admit_rows:
  assumes "ra_budget a = Some b"
  shows "live (ab_windowSeconds b * 1000) now (agent_rows a st) + {#(now, 1)#}
           \<subseteq># agent_rows a (st\<lparr>eg_budgets := fst (admit a now (eg_budgets st))\<rparr>)"
proof -
  let ?ts = "map we_at (al_entries (ledger_of (eg_budgets st) (ra_id a)))"
  let ?old = "\<lambda>t. t \<le> now - ab_windowSeconds b * 1000"
  have rows: "agent_rows a (st\<lparr>eg_budgets := fst (admit a now (eg_budgets st))\<rparr>) = unit_entries (mset (dropWhile ?old ?ts @ [now]))"
    using assms by (simp add: agent_rows_def admit_def Let_def dropWhile_map comp_def)
  have "filter (\<lambda>t. t > now - ab_windowSeconds b * 1000) ?ts = filter (\<lambda>t. \<not> ?old t) (dropWhile ?old ?ts)"
    by (simp add: filter_not_dropWhile not_le [symmetric])
  then have "filter_mset (\<lambda>t. t > now - ab_windowSeconds b * 1000) (mset ?ts) \<subseteq># mset (dropWhile ?old ?ts)"
    by (metis mset_filter multiset_filter_subset)
  then have "unit_entries (filter_mset (\<lambda>t. t > now - ab_windowSeconds b * 1000) (mset ?ts)) \<subseteq># unit_entries (mset (dropWhile ?old ?ts))"
    by (rule unit_entries_mono)
  moreover have "unit_entries (mset (dropWhile ?old ?ts @ [now])) = unit_entries (mset (dropWhile ?old ?ts)) + {#(now, 1)#}"
    by (simp add: unit_entries_def)
  ultimately show ?thesis
    unfolding rows by (simp add: agent_rows_def live_unit_entries del: mset_map)
qed

lemma admit_other_rows:
  "ra_id a' \<noteq> ra_id a \<Longrightarrow> agent_rows a (st\<lparr>eg_budgets := fst (admit a' now (eg_budgets st))\<rparr>) = agent_rows a st"
  by (simp add: agent_rows_def admit_def Let_def split: option.split)

text \<open>What a decision does to the ledger: nothing, or one admission of the agent bound.\<close>

lemma decide_charges:
  assumes "mode \<noteq> Monitor"
  shows "fst (decide now ea mode engine ld content markers pr st) =
    (if ev_decision (snd (decide now ea mode engine ld content markers pr st)) = Allow \<and> \<not> ea_reDecision ea
     then (case (ep_registered pr, eg_registry st) of
             (Some a, Some rg) \<Rightarrow> st\<lparr>eg_budgets := fst (admit a now (eg_budgets st))\<rparr> | _ \<Rightarrow> st)
     else st)"
proof (cases "ls_active ld")
  case True
  then show ?thesis by (simp add: decide_def Let_def)
next
  case False
  obtain st' v where c: "charge pr now st (enforce ea mode engine ld content markers pr (eg_registry st)) = (st', v)" by fastforce
  have "st' = (case (ep_registered pr, eg_registry st) of
             (Some a, Some rg) \<Rightarrow> st\<lparr>eg_budgets := fst (admit a now (eg_budgets st))\<rparr> | _ \<Rightarrow> st)"
    using c by (auto simp: charge_def split: option.splits prod.splits)
  with False assms charge_ticket(1) [OF c] show ?thesis by (simp add: decide_def Let_def c)
qed

lemma ask_effect:
  assumes "mode \<noteq> Monitor" "resolvePrincipal env now disk ea st = (st1, pr)"
  shows "egress_step env sc (now, Ask ea mode ld engine disk) st = st1 \<or> (\<exists>a'. ep_registered pr = Some a' \<and>
            egress_step env sc (now, Ask ea mode ld engine disk) st = st1\<lparr>eg_budgets := fst (admit a' now (eg_budgets st1))\<rparr>)"
proof -
  have eq: "egress_step env sc (now, Ask ea mode ld engine disk) st =
      fst (decide now ea mode engine ld (inspectContent sc ea) (map_option contentMetadata (inspectContent sc ea)) pr st1)"
    by (simp add: decideEgress_eq [OF assms(2)])
  show ?thesis unfolding eq decide_charges [OF assms(1)] by (cases "ep_registered pr"; cases "eg_registry st1") simp_all
qed

lemma egress_good_step:
  assumes "egress_good a st" "enforcing oper"
  shows "egress_good a (egress_step env sc oper st)"
proof (cases "(env, sc, oper, st)" rule: egress_step.cases)
  case (1 _ _ now ea mode ld engine disk _)
  obtain st1 pr where pr: "resolvePrincipal env now disk ea st = (st1, pr)" by fastforce
  obtain rg where rg: "eg_registry st = Some rg" "registry_ok rg" "source_ok (rg_credentials rg)" "a \<in> set (rg_agents rg)"
    using assms(1) by (auto simp: egress_good_def)
  have "egress_good a st1"
    using resolvePrincipal_fst [of env now disk ea st] pr rg moved_keeps [OF resolve_moved [of rg env now disk "signals_of ea"]]
    by (auto simp: egress_good_def)
  then show ?thesis
    using 1 assms(2) decideEgress_eq [OF pr, of sc ld engine mode] decide_charges [of mode now ea engine ld _ _ pr st1]
    by (auto simp: egress_good_def split: option.split)
qed (use assms in \<open>auto simp: egress_good_def setEgressPolicy_def\<close>)

lemma admits_charged:
  assumes "egress_good a st" "admits env sc a now ea mode ld engine disk st" "mode \<noteq> Monitor"
  shows "egress_step env sc (now, Ask ea mode ld engine disk) st =
           (fst (resolvePrincipal env now disk ea st))\<lparr>eg_budgets := fst (admit a now (eg_budgets st))\<rparr>"
    and "ra_budget a = Some b \<Longrightarrow> counters a now (eg_budgets st) = Some c \<Longrightarrow> \<not> over_requests c \<and> \<not> over_bytes c"
proof -
  obtain st1 pr where pr: "resolvePrincipal env now disk ea st = (st1, pr)" by fastforce
  let ?c = "inspectContent sc ea" and ?m = "map_option contentMetadata (inspectContent sc ea)"
  have v: "ev_decision (snd (decide now ea mode engine ld ?c ?m pr st1)) = Allow" "\<not> ea_reDecision ea"
      "at_declared (ev_agent (snd (decide now ea mode engine ld ?c ?m pr st1)))"
      "at_id (ev_agent (snd (decide now ea mode engine ld ?c ?m pr st1))) = ra_id a"
    using assms(2) by (simp_all add: admits_def decideEgress_eq [OF pr] Let_def)
  then have active: "\<not> ls_active ld" by (auto simp: decide_def Let_def)
  have agent: "ev_agent (snd (decide now ea mode engine ld ?c ?m pr st1)) = ep_agent pr"
  proof -
    obtain st2 w where ch: "charge pr now st1 (enforce ea mode engine ld ?c ?m pr (eg_registry st1)) = (st2, w)" by fastforce
    with charge_ticket(5) [OF ch] active assms(3) show ?thesis by (simp add: decide_def Let_def)
  qed
  have reg: "ep_registered pr = Some a" using principal_agent(2) [OF assms(1) pr] v(3,4) agent by simp
  obtain rg rg1 where rg: "eg_registry st = Some rg" "eg_registry st1 = Some rg1"
    using assms(1) resolvePrincipal_fst [of env now disk ea st] pr by (auto simp: egress_good_def)
  note budgets = resolvePrincipal_budgets [OF pr]
  show "egress_step env sc (now, Ask ea mode ld engine disk) st =
           (fst (resolvePrincipal env now disk ea st))\<lparr>eg_budgets := fst (admit a now (eg_budgets st))\<rparr>"
    using decide_charges [OF assms(3), of now ea engine ld ?c ?m pr st1] v reg rg budgets
    by (simp add: decideEgress_eq [OF pr] pr)
  show "\<not> over_requests c \<and> \<not> over_bytes c" if "ra_budget a = Some b" "counters a now (eg_budgets st) = Some c"
  proof -
    have "ep_standing pr = Some c"
    proof -
      have "rv_agent (snd (resolve env now disk (signals_of ea) rg)) = Some a"
        using resolvePrincipal_snd(1) [OF rg(1) refl, of env now disk ea] pr reg by (metis snd_conv)
      with resolvePrincipal_snd(2) [OF rg(1) refl, of env now disk ea] pr that(2) show ?thesis by simp
    qed
    moreover from this have "ep_exhausted pr = (over_requests c \<or> over_bytes c)"
      using resolvePrincipal_exhausted [of pr env now disk ea st] pr by simp
    moreover have "ev_decision (enforce ea mode engine ld ?c ?m pr (eg_registry st1)) = Allow"
    proof -
      obtain st2 w where ch: "charge pr now st1 (enforce ea mode engine ld ?c ?m pr (eg_registry st1)) = (st2, w)" by fastforce
      with charge_ticket(1) [OF ch] active assms(3) v(1,2) show ?thesis by (auto simp: decide_def Let_def split: if_splits)
    qed
    ultimately show ?thesis using v(2) unfolding enforce_decision by (auto split: if_splits)
  qed
qed

lemma agent_rows_counted:
  assumes "ra_budget a = Some b"
  shows "\<exists>c. counters a now (eg_budgets st) = Some c \<and> bc_maxRequests c = ab_maxRequests b
           \<and> total (live (ab_windowSeconds b * 1000) now (agent_rows a st)) = of_int (bc_requests c)"
proof -
  let ?es = "al_entries (ledger_of (eg_budgets st) (ra_id a))"
  have "(case omap_get (eg_budgets st) (ra_id a) of None \<Rightarrow> [] | Some l \<Rightarrow> al_entries l) = ?es"
    by (simp add: ledger_of_def fresh_ledger_def split: option.split)
  moreover have "size (filter_mset (\<lambda>t. t > now - ab_windowSeconds b * 1000) (mset (map we_at ?es)))
      = length (live_rows (now - ab_windowSeconds b * 1000) ?es)"
    by (simp add: mset_filter [symmetric] filter_map live_rows_def comp_def not_le del: mset_filter mset_map)
  ultimately show ?thesis
    using assms by (simp add: counters_def counters_of_def Let_def agent_rows_def live_unit_entries total_unit_entries del: mset_map)
qed

interpretation egress: window_limiter "ab_windowSeconds b * 1000" "agent_rows a"
    "\<lambda>st. egress_good a st \<and> ra_budget a = Some b \<and> ab_maxRequests b = Some (int m)" enforcing
    "egress_step env sc" fst "egress_grant env sc a" "of_nat m" for a b m env sc
proof
  let ?good = "\<lambda>st. egress_good a st \<and> ra_budget a = Some b \<and> ab_maxRequests b = Some (int m)"
  show "0 \<le> (of_nat m :: rat)" by simp
  show "?good (egress_step env sc oper st)" if "?good st" "enforcing oper" for oper st
    using egress_good_step that by blast
  show "0 \<le> snd e" if "e \<in># agent_rows a st" for e st
    using that by (auto simp: agent_rows_def unit_entries_def)
  show "live (ab_windowSeconds b * 1000) (fst oper) (agent_rows a st)
      + (case egress_grant env sc a oper st of None \<Rightarrow> {#} | Some w \<Rightarrow> {#(fst oper, w)#})
      \<subseteq># agent_rows a (egress_step env sc oper st)" if "?good st" "enforcing oper" for oper st
  proof (cases "(env, sc, oper, st)" rule: egress_step.cases)
    case (1 _ _ now ea mode ld engine disk _)
    obtain st1 pr where pr: "resolvePrincipal env now disk ea st = (st1, pr)" by fastforce
    have same: "agent_rows a st1 = agent_rows a st" using resolvePrincipal_budgets [OF pr] by (simp add: agent_rows_def)
    have live: "live w t (agent_rows a st) \<subseteq># agent_rows a st" for w t by (simp add: live_def)
    have m: "mode \<noteq> Monitor" using that(2) 1 by auto
    show ?thesis
    proof (cases "admits env sc a now ea mode ld engine disk st")
      case True
      with admits_charged(1) [of a st env sc now ea mode ld engine disk] that 1 admit_rows [of a b now st1] same pr
        resolvePrincipal_budgets [OF pr]
      show ?thesis by simp
    next
      case False
      have "live (ab_windowSeconds b * 1000) now (agent_rows a st) \<subseteq># agent_rows a (egress_step env sc (now, Ask ea mode ld engine disk) st)"
      proof -
        have charged: "live (ab_windowSeconds b * 1000) now (agent_rows a st) \<subseteq>#
            agent_rows a (st1\<lparr>eg_budgets := fst (admit a' now (eg_budgets st1))\<rparr>)" if "ep_registered pr = Some a'" for a'
        proof (cases "ra_id a' = ra_id a")
          case True
          then have "a' = a" using principal_agent(1) [OF _ pr that] \<open>?good st\<close> by blast
          with admit_rows [of a b now st1] \<open>?good st\<close> show ?thesis
            unfolding same using mset_subset_eq_add_left subset_mset.order_trans by blast
        qed (simp only: admit_other_rows same live not_False_eq_True)
        from ask_effect [OF m pr, of sc ld engine] show ?thesis
          using charged by (elim disjE exE conjE) (simp_all only: same live)
      qed
      with False 1 show ?thesis by simp
    qed
  qed (auto simp: settle_rows live_def)
  show "total (live (ab_windowSeconds b * 1000) (fst oper) (agent_rows a st)) + w \<le> of_nat m"
    if "?good st" "enforcing oper" "egress_grant env sc a oper st = Some w" for oper st w
  proof (cases "(env, sc, oper, st)" rule: egress_step.cases)
    case (1 _ _ now ea mode ld engine disk _)
    with that have adm: "admits env sc a now ea mode ld engine disk st" "w = 1" "mode \<noteq> Monitor" by (auto split: if_splits)
    have bud: "ra_budget a = Some b" using that(1) by blast
    obtain c where c: "counters a now (eg_budgets st) = Some c" "bc_maxRequests c = ab_maxRequests b"
        "total (live (ab_windowSeconds b * 1000) now (agent_rows a st)) = of_int (bc_requests c)"
      using agent_rows_counted [OF bud] by blast
    have "\<not> over_requests c" using admits_charged(2) [OF _ adm(1,3) _ c(1)] that(1) by blast
    then have "bc_requests c + 1 \<le> int m" using c(2) that(1) by (simp add: over_requests_def)
    then have "of_int (bc_requests c + 1) \<le> (of_int (int m) :: rat)" by (simp only: of_int_le_iff)
    with c(3) adm(2) 1 show ?thesis by simp
  qed (use that in auto)
qed

subsection \<open>Properties of one decision\<close>

lemma decide_enforcing:
  assumes "mode \<noteq> Monitor" "\<not> ls_active ld"
  shows "ev_decision (snd (decide now ea mode engine ld content markers pr st)) =
           ev_decision (enforce ea mode engine ld content markers pr (eg_registry st))"
    and "ev_riskLevel (snd (decide now ea mode engine ld content markers pr st)) =
           ev_riskLevel (enforce ea mode engine ld content markers pr (eg_registry st))"
    and "ev_reasons (snd (decide now ea mode engine ld content markers pr st)) =
           ev_reasons (enforce ea mode engine ld content markers pr (eg_registry st))"
    and "ev_matchedRules (snd (decide now ea mode engine ld content markers pr st)) =
           ev_matchedRules (enforce ea mode engine ld content markers pr (eg_registry st))"
    and "ev_agent (snd (decide now ea mode engine ld content markers pr st)) = ep_agent pr"
proof -
  obtain st' v where c: "charge pr now st (enforce ea mode engine ld content markers pr (eg_registry st)) = (st', v)" by fastforce
  note keeps = charge_ticket [OF c]
  show "ev_decision (snd (decide now ea mode engine ld content markers pr st)) =
           ev_decision (enforce ea mode engine ld content markers pr (eg_registry st))"
    "ev_riskLevel (snd (decide now ea mode engine ld content markers pr st)) =
           ev_riskLevel (enforce ea mode engine ld content markers pr (eg_registry st))"
    "ev_reasons (snd (decide now ea mode engine ld content markers pr st)) =
           ev_reasons (enforce ea mode engine ld content markers pr (eg_registry st))"
    "ev_matchedRules (snd (decide now ea mode engine ld content markers pr st)) =
           ev_matchedRules (enforce ea mode engine ld content markers pr (eg_registry st))"
    "ev_agent (snd (decide now ea mode engine ld content markers pr st)) = ep_agent pr"
    using assms keeps by (simp_all add: decide_def Let_def c)
qed

lemma lockdown_decision:
  "ls_active ld \<Longrightarrow> ev_decision (snd (decideEgress env sc now disk ld engine ea mode st)) = Deny"
  by (cases "resolvePrincipal env now disk ea st") (simp add: decideEgress_eq decide_def Let_def)

text \<open>C18: the emergency stop overrides every mode, monitor included: while it is active every connection is denied at
  critical risk under the lockdown rule, whatever the rules, the lists and the agent, and nothing is charged.\<close>

theorem lockdown_overrides_every_mode:
  assumes "ls_active ld" "decideEgress env sc now disk ld engine ea mode st = (st', v)"
  shows "ev_decision v = Deny \<and> ev_riskLevel v = Critical \<and> LOCKDOWN_RULE_ID \<in> set (ev_matchedRules v)
       \<and> ev_budgetTicket v = None \<and> eg_budgets st' = eg_budgets st"
proof -
  obtain st1 pr where pr: "resolvePrincipal env now disk ea st = (st1, pr)" by fastforce
  with assms(1) assms(2) [unfolded decideEgress_eq [OF pr]] resolvePrincipal_budgets [OF pr]
  show ?thesis by (auto simp: decide_def Let_def)
qed

text \<open>Monitor gates nothing and its projections are the truth: it allows, and its second and third reasons say of
  guarded and strict exactly what those modes decide about the same connection in the same state.\<close>

theorem monitor_projections_are_true:
  assumes "\<not> ls_active ld"
  shows "ev_decision (snd (decideEgress env sc now disk ld engine ea Monitor st)) = Allow
       \<and> ev_reasons (snd (decideEgress env sc now disk ld engine ea Monitor st)) =
           ''monitor: egress recorded, not gated'' #
           map (\<lambda>(mode, name). let v = snd (decideEgress env sc now disk ld engine ea mode st) in
                  if ev_decision v = Deny
                  then ''monitor: '' @ name @ '' mode would deny -- '' @ js_join ''; '' (ev_reasons v)
                  else ''monitor: '' @ name @ '' mode would allow'')
             [(Guarded, ''guarded''), (Strict, ''strict'')]"
proof -
  let ?c = "inspectContent sc ea" and ?m = "map_option contentMetadata (inspectContent sc ea)"
  obtain st1 pr where pr: "resolvePrincipal env now disk ea st = (st1, pr)" by fastforce
  note snd = decideEgress_eq [OF pr]
  let ?v = "monitor_verdict (enforce ea Guarded engine ld ?c ?m pr (eg_registry st1)) (enforce ea Strict engine ld ?c ?m pr (eg_registry st1))"
  obtain st2 v2 where c: "charge pr now st1 ?v = (st2, v2)" by fastforce
  have "ev_decision (snd (decide now ea Monitor engine ld ?c ?m pr st1)) = ev_decision ?v \<and>
        ev_reasons (snd (decide now ea Monitor engine ld ?c ?m pr st1)) = ev_reasons ?v"
    using assms charge_ticket [OF c] c by (simp add: decide_def Let_def)
  then show ?thesis
    using decide_enforcing [OF _ assms, of Guarded now ea engine ?c ?m pr st1] decide_enforcing [OF _ assms, of Strict now ea engine ?c ?m pr st1]
    by (simp add: snd monitor_verdict_def Let_def)
qed

text \<open>C17: strict mode reaches listed destinations only, whatever rules are installed: an allowed connection goes to a host
  and a port on the lists in force for its agent, no identity refusal was made, a closed fleet knows the agent, nothing
  planted was found in it, and no stop is active.\<close>

theorem strict_allows_only_listed_destinations:
  assumes "decideEgress env sc now disk ld engine ea Strict st = (st', v)" "ev_decision v = Allow"
  shows "\<exists>hosts ports source.
           effectiveEgress (if at_declared (ev_agent v) then Some (at_id (ev_agent v)) else None) st = (hosts, ports, source)
         \<and> normalizeHostname (ea_host ea) \<in> set hosts \<and> ea_port ea \<in> set ports
         \<and> at_refusal (ev_agent v) = None \<and> (closed_fleet (eg_registry st) \<longrightarrow> at_declared (ev_agent v))
         \<and> \<not> decoy_hit (inspectContent sc ea) \<and> \<not> ls_active ld"
proof -
  let ?c = "inspectContent sc ea" and ?m = "map_option contentMetadata (inspectContent sc ea)"
  have active: "\<not> ls_active ld" using lockdown_decision [of ld env sc now disk engine ea Strict st] assms by auto
  obtain st1 pr where pr: "resolvePrincipal env now disk ea st = (st1, pr)" by fastforce
  note dec = decide_enforcing [OF _ active, of Strict now ea engine ?c ?m pr st1]
  have agent: "ev_agent v = ep_agent pr" and "ev_decision (enforce ea Strict engine ld ?c ?m pr (eg_registry st1)) = Allow"
    using assms dec unfolding decideEgress_eq [OF pr] by auto
  then have gates: "at_refusal (ep_agent pr) = None" "\<not> (closed_fleet (eg_registry st1) \<and> \<not> at_declared (ep_agent pr))"
      "\<not> outside_lists ea pr" "\<not> decoy_hit ?c"
    unfolding enforce_decision by (auto split: if_splits)
  have closed: "closed_fleet (eg_registry st1) = closed_fleet (eg_registry st)"
    using resolvePrincipal_closed [of env now disk ea st] pr by simp
  have lists: "effectiveEgress (if at_declared (ep_agent pr) then Some (at_id (ep_agent pr)) else None) st
      = (ep_hosts pr, ep_ports pr, at_allowlistSource (ep_agent pr))"
    using resolvePrincipal_lists [of pr env now disk ea st] pr by simp
  show ?thesis unfolding agent
    using gates lists closed active by (auto simp: outside_lists_def isAllowlisted_def Let_def)
qed

text \<open>A connection that is denied, or is a later look at one already admitted, costs its agent nothing: no row is
  added to any window and no ticket is handed out, in every mode.\<close>

theorem denied_connection_costs_nothing:
  assumes "decideEgress env sc now disk ld engine ea mode st = (st', v)" "ev_decision v = Deny \<or> ea_reDecision ea"
  shows "eg_budgets st' = eg_budgets st \<and> ev_budgetTicket v = None"
proof -
  obtain st1 pr where pr: "resolvePrincipal env now disk ea st = (st1, pr)" by fastforce
  from assms decide_quiet [of ld ea now mode engine "inspectContent sc ea" "map_option contentMetadata (inspectContent sc ea)" pr st1]
  show ?thesis using resolvePrincipal_budgets [OF pr] by (auto simp: decideEgress_eq [OF pr])
qed

text \<open>A planted value is never let through by an enforcing mode: when the scan of a connection's content meets a
  decoy, guarded and strict deny it at critical risk under the decoy rule, whatever rules are installed.\<close>

theorem decoys_are_always_stopped:
  assumes "decoy_hit (inspectContent sc ea)" "mode \<noteq> Monitor" "\<not> ls_active ld"
    and "snd (decideEgress env sc now disk ld engine ea mode st) = v"
  shows "ev_decision v = Deny \<and> ev_riskLevel v = Critical \<and> DECOY_RULE_ID \<in> set (ev_matchedRules v)"
proof -
  obtain st1 pr where pr: "resolvePrincipal env now disk ea st = (st1, pr)" by fastforce
  note dec = decide_enforcing [OF assms(2,3), of now ea engine "inspectContent sc ea" "map_option contentMetadata (inspectContent sc ea)" pr st1]
  show ?thesis
    using dec enforce_decoy [OF assms(1)] assms(1,4) by (auto simp: decideEgress_eq [OF pr] enforce_decision)
qed

text \<open>A partial scan is never passed off as a clean one: when a body was cut off or could not be read, the reasons of
  a guarded or strict verdict, allow or deny, carry the sentence that says so.\<close>

theorem partial_scan_is_declared:
  assumes "inspectContent sc ea = Some f" "mode \<noteq> Monitor" "\<not> ls_active ld"
    and "cf_truncated f \<or> cf_unscannable f \<noteq> None"
  shows "coverageNotes f \<noteq> [] \<and> set (coverageNotes f) \<subseteq> set (ev_reasons (snd (decideEgress env sc now disk ld engine ea mode st)))"
proof -
  obtain st1 pr where pr: "resolvePrincipal env now disk ea st = (st1, pr)" by fastforce
  note dec = decide_enforcing [OF assms(2,3), of now ea engine "inspectContent sc ea" "map_option contentMetadata (inspectContent sc ea)" pr st1]
  have "coverageNotes f \<noteq> []" using assms(4) by (auto simp: coverageNotes_def split: option.splits unscannable.splits)
  with dec enforce_notes [OF assms(1)] show ?thesis by (auto simp: decideEgress_eq [OF pr])
qed

text \<open>The times at which connections of an agent were admitted.\<close>

primrec admitted_connections ::
  "cred_env \<Rightarrow> egress_scanners \<Rightarrow> registered_agent \<Rightarrow> (int \<times> egress_op) list \<Rightarrow> egress_state \<Rightarrow> int list" where
  "admitted_connections env sc a [] st = []"
| "admitted_connections env sc a (oper # ops) st =
     (if egress_grant env sc a oper st = None then [] else [fst oper])
     @ admitted_connections env sc a ops (egress_step env sc oper st)"

lemma egress_grant_unit: "egress_grant env sc a oper st = Some w \<Longrightarrow> w = 1"
  by (cases "(env, sc, a, oper, st)" rule: egress_grant.cases) (auto split: if_splits)

lemma grants_connections:
  "egress.grants env sc a ops st = map (\<lambda>t. (t, 1)) (admitted_connections env sc a ops st)"
  by (induction ops arbitrary: st) (auto simp: egress_grant_unit split: option.split)

text \<open>C23: \<open>maxRequests\<close> is exact: over any sequence of guarded and strict decisions about connections of any agents,
  closings in any order and changes of the process-wide lists, with a clock that does not go back, at most
  \<open>maxRequests\<close> connections of an agent are admitted in \<^emph>\<open>any\<close> window of \<open>windowSeconds\<close>.\<close>

theorem agent_connections_per_window_bounded:
  assumes "newRegistry fenv now0 disk0 config src0 = Inr rg" "list_all fleet_agent_ok (fc_agents config)" "source_ok src0"
    and "a \<in> set (rg_agents rg)" "ra_budget a = Some b" "ab_maxRequests b = Some (int m)"
    and "list_all enforcing ops" "sorted (map fst ops)"
  shows "length (filter (\<lambda>n. t - ab_windowSeconds b * 1000 < n \<and> n \<le> t)
           (admitted_connections env sc a ops (setFleet (Some rg) None st0))) \<le> m"
proof -
  let ?st = "setFleet (Some rg) None st0"
  let ?ts = "admitted_connections env sc a ops ?st"
  have "source_ok (rg_credentials rg)"
    using assms(1,3) by (auto simp: newRegistry_def source_refresh_ok dest!: index_all_source split: sum.splits option.splits)
  then have "egress_good a ?st" using newRegistry_ok(1) [OF assms(1,2)] assms(4) by (simp add: egress_good_def setFleet_def)
  with assms(5-8) have "total (in_window (ab_windowSeconds b * 1000) t (mset (egress.grants env sc a ops ?st))) \<le> of_nat m"
    by (intro egress.window_bound) auto
  also have "mset (egress.grants env sc a ops ?st) = unit_entries (mset ?ts)"
    by (simp add: grants_connections unit_entries_def)
  finally show ?thesis unfolding in_window_unit_entries total_unit_entries size_mset of_nat_le_iff .
qed

text \<open>Agent ids can be borrowed in an open fleet: a process that nothing binds is evaluated under its process name as
  agent id, so one that calls itself by a declared agent's id is judged by the rules scoped to that agent, undeclared as
  it is.\<close>

theorem process_name_borrows_declared_id:
  assumes "eg_registry st = Some rg" "sg_credential (signals_of ea) = None" "bound_by_process rg (signals_of ea) = None"
    and "ea_comm ea = Some (ra_id a)"
  shows "\<not> at_declared (ep_agent (snd (resolvePrincipal env now disk ea st))) \<and>
         cx_agentId (buildContext ea mode ld al markers (snd (resolvePrincipal env now disk ea st)) (Some rg)) = ra_id a"
proof -
  have "snd (resolve env now disk (signals_of ea) rg) = unclaimed (signals_of ea)"
    using assms(2,3) by (simp add: resolve_def resolve_process_def)
  note pr = resolvePrincipal_snd(3,4) [OF assms(1) this]
  with assms(4) show ?thesis by (simp add: buildContext_def Let_def unclaimed_def)
qed

subsection \<open>Witnesses\<close>

definition quiet_scanners :: egress_scanners where
  "quiet_scanners = \<lparr>es_scanText = (\<lambda>t. \<lparr>dl_secretTypes = [], dl_piiTypes = [], dl_redactedText = None, dl_locations = []\<rparr>),
     es_scanInjection = (\<lambda>t. []), es_scanForDecoys = (\<lambda>t a s. if t = ''decoy'' then [(''d1'', ''key'')] else [])\<rparr>"

definition attempt_by :: "string \<Rightarrow> string \<Rightarrow> egress_attempt" where
  "attempt_by comm body = \<lparr>ea_host = ''API.example.com'', ea_port = 443, ea_scheme = ''http'', ea_method = Some ''POST'',
     ea_comm = Some comm, ea_pid = Some 7, ea_path = Some ''/v1'', ea_headers = None,
     ea_body = Some \<lparr>eb_direction = RequestDir, eb_text = body, eb_truncated = True, eb_bytes = 5, eb_status = None,
                     eb_encoding = None, eb_unscannable = None\<rparr>,
     ea_uid = None, ea_credential = None, ea_reDecision = False\<rparr>"

definition open_lists :: egress_state where
  "open_lists = \<lparr>eg_allowlist = [''api.example.com''], eg_ports = [443], eg_registry = None, eg_budgets = [], eg_agentEgress = []\<rparr>"

definition no_stop :: lockdown_state where
  "no_stop = \<lparr>ls_active = False, ls_sources = [], ls_since = None, ls_reason = None\<rparr>"

definition api_stop :: lockdown_state where
  "api_stop = \<lparr>ls_active = True, ls_sources = [''api''], ls_since = Some ''t0'', ls_reason = None\<rparr>"

abbreviation ask :: "lockdown_state \<Rightarrow> egress_attempt \<Rightarrow> enforcement_mode \<Rightarrow> egress_state \<times> egress_verdict" where
  "ask ld ea mode \<equiv> decideEgress sample_cred_env quiet_scanners 0 None ld (newEngine [] Allow) ea mode open_lists"

theorem lockdown_overrides_every_mode_witness:
  "ev_decision (snd (ask api_stop (attempt_by ''curl'' ''x'') Monitor)) = Deny"
  using lockdown_overrides_every_mode [OF _ prod.collapse [symmetric], of api_stop] by (simp add: api_stop_def)

theorem monitor_projections_are_true_witness:
  "ev_decision (snd (ask no_stop (attempt_by ''curl'' ''x'') Monitor)) = Allow"
  using monitor_projections_are_true [of no_stop] by (simp add: no_stop_def)

lemma strict_ask: "ev_decision (snd (ask no_stop (attempt_by ''curl'' ''x'') Strict)) = Allow"
  by code_simp

theorem strict_allows_only_listed_destinations_witness: "normalizeHostname ''API.example.com'' = ''api.example.com''"
proof -
  let ?v = "snd (ask no_stop (attempt_by ''curl'' ''x'') Strict)"
  have "normalizeHostname (ea_host (attempt_by ''curl'' ''x'')) \<in> {''api.example.com''}"
    using strict_allows_only_listed_destinations [OF prod.collapse [symmetric] strict_ask]
    by (auto simp: effectiveEgress_def open_lists_def split: option.splits if_splits)
  then show ?thesis by (simp add: attempt_by_def)
qed

lemma denied_ask: "ev_decision (snd (ask no_stop (attempt_by ''curl'' ''decoy'') Guarded)) = Deny"
  by code_simp

theorem denied_connection_costs_nothing_witness:
  "eg_budgets (fst (ask no_stop (attempt_by ''curl'' ''decoy'') Guarded)) = []"
  using denied_connection_costs_nothing [OF prod.collapse [symmetric] disjI1 [OF denied_ask]] by (simp add: open_lists_def)

lemma decoy_found: "decoy_hit (inspectContent quiet_scanners (attempt_by ''curl'' ''decoy''))"
  by code_simp

theorem decoys_are_always_stopped_witness:
  "ev_riskLevel (snd (ask no_stop (attempt_by ''curl'' ''decoy'') Strict)) = Critical"
  using decoys_are_always_stopped [OF decoy_found _ _ refl, of Strict no_stop] by (simp add: no_stop_def)

theorem partial_scan_is_declared_witness:
  "ev_reasons (snd (ask no_stop (attempt_by ''curl'' ''x'') Guarded)) \<noteq> []"
proof -
  obtain f where f: "inspectContent quiet_scanners (attempt_by ''curl'' ''x'') = Some f" "cf_truncated f"
  proof -
    have "map_option cf_truncated (inspectContent quiet_scanners (attempt_by ''curl'' ''x'')) = Some True" by code_simp
    then show ?thesis using that by auto
  qed
  have "\<not> ls_active no_stop" by (simp add: no_stop_def)
  from partial_scan_is_declared [OF f(1) enforcement_mode.distinct(2) this disjI1 [OF f(2)], of sample_cred_env 0 None
      "newEngine [] Allow" open_lists]
  show ?thesis by force
qed

text \<open>The monitor mode drops that sentence: a truncated body that guarded and strict would allow leaves a monitor
  verdict without any reason saying that only a prefix was scanned.\<close>

theorem monitor_omits_partial_scan:
  "cf_truncated (the (inspectContent quiet_scanners (attempt_by ''curl'' ''x'')))
   \<and> set (coverageNotes (the (inspectContent quiet_scanners (attempt_by ''curl'' ''x''))))
       \<inter> set (ev_reasons (snd (ask no_stop (attempt_by ''curl'' ''x'') Monitor))) = {}"
  by code_simp

theorem process_name_borrows_declared_id_witness:
  "cx_agentId (buildContext (attempt_by ''scraper'' ''x'') Guarded no_stop True None
      (snd (resolvePrincipal sample_cred_env 0 None (attempt_by ''scraper'' ''x'')
        (setFleet (Some (sample_registry AnyTier NoSource)) None open_lists)))
      (Some (sample_registry AnyTier NoSource))) = ''scraper''"
proof -
  let ?rg = "sample_registry AnyTier NoSource"
  let ?a = "projr (register_agent sample_fleet_env (sample_agent ''scraper'' ''aw-scraper''))"
  have "ra_id ?a = ''scraper''" by (simp add: sample_simps Let_def)
  moreover have "eg_registry (setFleet (Some ?rg) None open_lists) = Some ?rg" by (simp add: setFleet_def)
  moreover have "bound_by_process ?rg (signals_of (attempt_by ''scraper'' ''x'')) = None"
    by (simp add: sample_registry_def sample_simps Let_def bound_by_process_def attempt_by_def)
  ultimately show ?thesis
    using process_name_borrows_declared_id [of "setFleet (Some ?rg) None open_lists" ?rg "attempt_by ''scraper'' ''x''" ?a
        sample_cred_env 0 None Guarded no_stop True None]
    by (simp add: attempt_by_def)
qed

theorem agent_connections_per_window_bounded_witness:
  "length (filter (\<lambda>n. 5 - 60000 < n \<and> n \<le> 5) (admitted_connections sample_cred_env quiet_scanners
     (projr (register_agent sample_fleet_env (sample_agent ''scraper'' ''aw-scraper'')))
     (map (\<lambda>t. (t, Ask (attempt_by ''aw-scraper'' ''x'') Guarded no_stop (newEngine [] Allow) None)) [1, 2, 3, 4])
     (setFleet (Some (sample_registry AnyTier NoSource)) None open_lists))) \<le> 2"
proof -
  let ?rg = "sample_registry AnyTier NoSource"
  let ?a = "projr (register_agent sample_fleet_env (sample_agent ''scraper'' ''aw-scraper''))"
  let ?b = "\<lparr>ab_windowSeconds = 60, ab_maxRequests = Some 2, ab_maxBytes = None\<rparr>"
  have a: "?a \<in> set (rg_agents ?rg)" "ra_budget ?a = Some ?b" "ab_maxRequests ?b = Some (int 2)"
    by (simp_all add: sample_registry_def sample_simps Let_def)
  have "length (filter (\<lambda>n. 5 - ab_windowSeconds ?b * 1000 < n \<and> n \<le> 5) (admitted_connections sample_cred_env quiet_scanners ?a
     (map (\<lambda>t. (t, Ask (attempt_by ''aw-scraper'' ''x'') Guarded no_stop (newEngine [] Allow) None)) [1, 2, 3, 4])
     (setFleet (Some ?rg) None open_lists))) \<le> 2"
    by (rule agent_connections_per_window_bounded [OF sample_registry_built(1) sample_fleet_ok _ a]) simp_all
  then show ?thesis by simp
qed

lemma admitted_sample:
  "admitted_connections sample_cred_env quiet_scanners
     (projr (register_agent sample_fleet_env (sample_agent ''scraper'' ''aw-scraper'')))
     (map (\<lambda>t. (t, Ask (attempt_by ''aw-scraper'' ''x'') Guarded no_stop (newEngine [] Allow) None)) [1, 2, 3, 4])
     (setFleet (Some (sample_registry AnyTier NoSource)) None open_lists) = [1, 2]"
  by code_simp
end
