(* ===== verification/Mcp_Framing.thy ===== *)
theory Mcp_Framing
  imports Json "HOL-Library.Word"
begin

text \<open>
  The newline-delimited JSON-RPC framing of \<open>mcp/framing.ts\<close>: the parser holds the bytes since the last
  newline, drops a line that outgrows the ceiling and resynchronises, and reports whatever is not an
  envelope on its own channel. UTF-8 decoding and \<open>JSON.parse\<close> are parameters. The main result is that
  the parser computes a function of the bytes alone: how the stream is cut into chunks is irrelevant.
\<close>

subsection \<open>Parameters and data\<close>

record framing_env =
  fe_decode :: "8 word list \<Rightarrow> string"
  fe_parse :: "string \<Rightarrow> json option"

datatype parse_event = FrameEvent json | MalformedEvent string

record parse_outcome =
  po_frames :: "json list"
  po_malformed :: "string list"
  po_events :: "parse_event list"

record frame_parser =
  fp_maxFrameBytes :: nat
  fp_pending :: "8 word list"
  fp_resyncing :: bool

definition NEWLINE :: "8 word" where "NEWLINE = 0x0a"
definition DEFAULT_MAX_FRAME_BYTES :: nat where "DEFAULT_MAX_FRAME_BYTES = 8 * 1024 * 1024"
definition OVERSIZE_EXCERPT_BYTES :: nat where "OVERSIZE_EXCERPT_BYTES = 200"

definition empty_outcome :: parse_outcome where
  "empty_outcome = \<lparr>po_frames = [], po_malformed = [], po_events = []\<rparr>"

definition createFrameParser :: "nat option \<Rightarrow> frame_parser" where
  "createFrameParser maxFrameBytes =
     \<lparr>fp_maxFrameBytes = (case maxFrameBytes of None \<Rightarrow> DEFAULT_MAX_FRAME_BYTES | Some n \<Rightarrow> n),
      fp_pending = [], fp_resyncing = False\<rparr>"

definition isJsonRpcFrame :: "json \<Rightarrow> bool" where
  "isJsonRpcFrame v = (case v of JObj members \<Rightarrow> map_of members ''jsonrpc'' = Some (JStr ''2.0'') | _ \<Rightarrow> False)"

definition oversizeExcerpt :: "framing_env \<Rightarrow> nat \<Rightarrow> 8 word list \<Rightarrow> string" where
  "oversizeExcerpt env maxFrameBytes line =
     fe_decode env (take (min (length line) OVERSIZE_EXCERPT_BYTES) line)
       @ ''[agentwall: frame exceeded maxFrameBytes ('' @ show_nat maxFrameBytes @ ''); line discarded]''"

definition report_malformed :: "string \<Rightarrow> parse_outcome \<Rightarrow> parse_outcome" where
  "report_malformed raw outcome =
     outcome\<lparr>po_malformed := po_malformed outcome @ [raw], po_events := po_events outcome @ [MalformedEvent raw]\<rparr>"

definition report_frame :: "json \<Rightarrow> parse_outcome \<Rightarrow> parse_outcome" where
  "report_frame frame outcome =
     outcome\<lparr>po_frames := po_frames outcome @ [frame], po_events := po_events outcome @ [FrameEvent frame]\<rparr>"

subsection \<open>The parser\<close>

definition readLine :: "framing_env \<Rightarrow> 8 word list \<Rightarrow> parse_outcome \<Rightarrow> parse_outcome" where
  "readLine env line outcome =
     (let text = fe_decode env line
      in if js_trim text = [] then outcome
         else case fe_parse env text of
                None \<Rightarrow> report_malformed text outcome
              | Some parsed \<Rightarrow> if \<not> isJsonRpcFrame parsed then report_malformed text outcome
                                else report_frame parsed outcome)"

fun index_of :: "'a \<Rightarrow> 'a list \<Rightarrow> nat option" where
  "index_of x [] = None"
| "index_of x (y # ys) = (if y = x then Some 0 else map_option Suc (index_of x ys))"

lemma index_of_bound: "index_of x ys = Some n \<Longrightarrow> n < length ys"
  by (induction ys arbitrary: n) (auto split: if_splits)

function drain :: "framing_env \<Rightarrow> frame_parser \<Rightarrow> parse_outcome \<Rightarrow> frame_parser \<times> parse_outcome" where
  "drain env p outcome =
     (let pending = fp_pending p; maxFrameBytes = fp_maxFrameBytes p; nl = index_of NEWLINE pending
      in if fp_resyncing p then
           (case nl of
              None \<Rightarrow> (p\<lparr>fp_pending := []\<rparr>, outcome)
            | Some n \<Rightarrow> drain env (p\<lparr>fp_pending := drop (n + 1) pending, fp_resyncing := False\<rparr>) outcome)
         else
           (case nl of
              None \<Rightarrow>
                if length pending > maxFrameBytes then
                  (p\<lparr>fp_pending := [], fp_resyncing := True\<rparr>,
                   report_malformed (oversizeExcerpt env maxFrameBytes pending) outcome)
                else (p, outcome)
            | Some n \<Rightarrow>
                (let line = take n pending; p' = p\<lparr>fp_pending := drop (n + 1) pending\<rparr>
                 in if length line > maxFrameBytes
                    then drain env p' (report_malformed (oversizeExcerpt env maxFrameBytes line) outcome)
                    else drain env p' (readLine env line outcome))))"
  by auto
termination
  by (relation "measure (\<lambda>(env, p, outcome). length (fp_pending p))") (auto dest!: sym index_of_bound)

declare drain.simps [simp del]

definition push :: "framing_env \<Rightarrow> 8 word list \<Rightarrow> frame_parser \<Rightarrow> frame_parser \<times> parse_outcome" where
  "push env chunk p =
     drain env (p\<lparr>fp_pending := (if fp_pending p = [] then chunk else fp_pending p @ chunk)\<rparr>) empty_outcome"

definition flush :: "framing_env \<Rightarrow> frame_parser \<Rightarrow> frame_parser \<times> parse_outcome" where
  "flush env p =
     (let tail = fp_pending p; suppressed = fp_resyncing p; p' = p\<lparr>fp_pending := [], fp_resyncing := False\<rparr>
      in if suppressed \<or> tail = [] then (p', empty_outcome)
         else let text = fe_decode env tail
              in if js_trim text = [] then (p', empty_outcome)
                 else (p', report_malformed text empty_outcome))"

text \<open>\<open>Buffer.from(text, "utf8")\<close> on the code units the model has: one byte below 128, two above.\<close>

definition utf8_char :: "char \<Rightarrow> 8 word list" where
  "utf8_char c = (let n = of_char c :: nat
                  in if n < 128 then [of_nat n] else [of_nat (192 + n div 64), of_nat (128 + n mod 64)])"

definition utf8_encode :: "string \<Rightarrow> 8 word list" where
  "utf8_encode s = concat (map utf8_char s)"

definition serializeFrame :: "json \<Rightarrow> 8 word list" where
  "serializeFrame frame = utf8_encode (json_stringify frame @ [CHR 0x0A])"

text \<open>A whole session: every chunk pushed in turn, then the end of the stream.\<close>

fun push_all :: "framing_env \<Rightarrow> 8 word list list \<Rightarrow> frame_parser \<Rightarrow> frame_parser \<times> parse_event list" where
  "push_all env [] p = (p, [])"
| "push_all env (chunk # chunks) p =
     (let (p1, out) = push env chunk p; (p2, events) = push_all env chunks p1
      in (p2, po_events out @ events))"

definition session :: "framing_env \<Rightarrow> nat option \<Rightarrow> 8 word list list \<Rightarrow> parse_event list" where
  "session env maxFrameBytes chunks =
     (let (p, events) = push_all env chunks (createFrameParser maxFrameBytes)
      in events @ po_events (snd (flush env p)))"

subsection \<open>What the stream means\<close>

text \<open>
  The reference: cut the whole stream at its newlines; a terminated line is an oversize report, noise, a
  malformed report or a frame; the unterminated tail is never a frame.
\<close>

definition line_events :: "framing_env \<Rightarrow> nat \<Rightarrow> 8 word list \<Rightarrow> parse_event list" where
  "line_events env limit line =
     (if length line > limit then [MalformedEvent (oversizeExcerpt env limit line)]
      else if js_trim (fe_decode env line) = [] then []
      else case fe_parse env (fe_decode env line) of
             Some v \<Rightarrow> if isJsonRpcFrame v then [FrameEvent v] else [MalformedEvent (fe_decode env line)]
           | None \<Rightarrow> [MalformedEvent (fe_decode env line)])"

definition tail_events :: "framing_env \<Rightarrow> nat \<Rightarrow> 8 word list \<Rightarrow> parse_event list" where
  "tail_events env limit tail =
     (if length tail > limit then [MalformedEvent (oversizeExcerpt env limit tail)]
      else if tail = [] \<or> js_trim (fe_decode env tail) = [] then []
      else [MalformedEvent (fe_decode env tail)])"

function stream_events :: "framing_env \<Rightarrow> nat \<Rightarrow> 8 word list \<Rightarrow> parse_event list" where
  "stream_events env limit bytes =
     (case index_of NEWLINE bytes of
        None \<Rightarrow> tail_events env limit bytes
      | Some n \<Rightarrow> line_events env limit (take n bytes) @ stream_events env limit (drop (n + 1) bytes))"
  by auto
termination
  by (relation "measure (\<lambda>(env, limit, bytes). length bytes)") (auto dest!: index_of_bound)

declare stream_events.simps [simp del]

subsection \<open>The loop against the reference\<close>

lemma index_of_None: "index_of x ys = None \<longleftrightarrow> x \<notin> set ys"
  by (induction ys) auto

lemma index_of_append:
  "index_of x (ys @ zs) = (case index_of x ys of None \<Rightarrow> map_option ((+) (length ys)) (index_of x zs) | Some n \<Rightarrow> Some n)"
  by (induction ys) (auto simp: option.map_comp comp_def option.map_ident option.map_ident_strong intro!: option.map_cong split: option.splits)

lemma index_of_split: "x \<notin> set ys \<Longrightarrow> index_of x (ys @ x # zs) = Some (length ys)"
  by (simp add: index_of_append index_of_None [THEN iffD2])

lemma index_of_take: "index_of x ys = Some n \<Longrightarrow> x \<notin> set (take n ys) \<and> ys = take n ys @ x # drop (n + 1) ys"
proof (induction ys arbitrary: n)
  case (Cons y ys)
  then show ?case by (cases "y = x") auto
qed simp

lemma report_events [simp]:
  "po_events (report_malformed raw out) = po_events out @ [MalformedEvent raw]"
  "po_events (report_frame v out) = po_events out @ [FrameEvent v]"
  by (simp_all add: report_malformed_def report_frame_def)

lemma readLine_events: "length line \<le> limit \<Longrightarrow> po_events (readLine env line out) = po_events out @ line_events env limit line"
  by (auto simp: readLine_def line_events_def Let_def split: option.splits)

text \<open>The five ways one iteration of the loop goes.\<close>

lemma drain_steps:
  shows drain_skipping: "fp_resyncing p \<Longrightarrow> index_of NEWLINE (fp_pending p) = None \<Longrightarrow>
           drain env p out = (p\<lparr>fp_pending := []\<rparr>, out)"
    and drain_resynced: "fp_resyncing p \<Longrightarrow> index_of NEWLINE (fp_pending p) = Some n \<Longrightarrow>
           drain env p out = drain env (p\<lparr>fp_pending := drop (n + 1) (fp_pending p), fp_resyncing := False\<rparr>) out"
    and drain_overflow: "\<not> fp_resyncing p \<Longrightarrow> index_of NEWLINE (fp_pending p) = None \<Longrightarrow>
           fp_maxFrameBytes p < length (fp_pending p) \<Longrightarrow>
           drain env p out = (p\<lparr>fp_pending := [], fp_resyncing := True\<rparr>,
             report_malformed (oversizeExcerpt env (fp_maxFrameBytes p) (fp_pending p)) out)"
    and drain_waiting: "\<not> fp_resyncing p \<Longrightarrow> index_of NEWLINE (fp_pending p) = None \<Longrightarrow>
           length (fp_pending p) \<le> fp_maxFrameBytes p \<Longrightarrow> drain env p out = (p, out)"
    and drain_line: "\<not> fp_resyncing p \<Longrightarrow> index_of NEWLINE (fp_pending p) = Some n \<Longrightarrow>
           drain env p out = drain env (p\<lparr>fp_pending := drop (n + 1) (fp_pending p)\<rparr>)
             (if fp_maxFrameBytes p < n
              then report_malformed (oversizeExcerpt env (fp_maxFrameBytes p) (take n (fp_pending p))) out
              else readLine env (take n (fp_pending p)) out)"
  by (subst drain.simps; use index_of_bound [of NEWLINE "fp_pending p" n] in \<open>simp add: Let_def\<close>)+

lemma drain_induct [case_names skipping resynced overflow waiting line]:
  assumes "\<And>p out. fp_resyncing p \<Longrightarrow> index_of NEWLINE (fp_pending p) = None \<Longrightarrow> P p out"
    and "\<And>p out n. fp_resyncing p \<Longrightarrow> index_of NEWLINE (fp_pending p) = Some n \<Longrightarrow>
           P (p\<lparr>fp_pending := drop (n + 1) (fp_pending p), fp_resyncing := False\<rparr>) out \<Longrightarrow> P p out"
    and "\<And>p out. \<not> fp_resyncing p \<Longrightarrow> index_of NEWLINE (fp_pending p) = None \<Longrightarrow>
           fp_maxFrameBytes p < length (fp_pending p) \<Longrightarrow> P p out"
    and "\<And>p out. \<not> fp_resyncing p \<Longrightarrow> index_of NEWLINE (fp_pending p) = None \<Longrightarrow>
           length (fp_pending p) \<le> fp_maxFrameBytes p \<Longrightarrow> P p out"
    and "\<And>p out n. \<not> fp_resyncing p \<Longrightarrow> index_of NEWLINE (fp_pending p) = Some n \<Longrightarrow>
           (\<And>out'. P (p\<lparr>fp_pending := drop (n + 1) (fp_pending p)\<rparr>) out') \<Longrightarrow> P p out"
  shows "P p out"
proof (induction "length (fp_pending p)" arbitrary: p out rule: less_induct)
  case less
  show ?case
  proof (cases "index_of NEWLINE (fp_pending p)")
    case None
    then show ?thesis using assms(1,3,4) by (meson not_le_imp_less)
  next
    case (Some n)
    have "length (drop (n + 1) (fp_pending p)) < length (fp_pending p)" using index_of_bound [OF Some] by simp
    with less Some show ?thesis by (cases "fp_resyncing p") (auto intro: assms(2,5))
  qed
qed

lemma drain_keeps_limit: "fp_maxFrameBytes (fst (drain env p out)) = fp_maxFrameBytes p"
  by (induction p out rule: drain_induct) (simp_all add: drain_steps)

text \<open>The events still to come in a state, when \<open>bytes\<close> is the rest of the stream.\<close>

definition remaining :: "framing_env \<Rightarrow> frame_parser \<Rightarrow> 8 word list \<Rightarrow> parse_event list" where
  "remaining env p bytes =
     (if fp_resyncing p
      then case index_of NEWLINE (fp_pending p @ bytes) of
             None \<Rightarrow> []
           | Some n \<Rightarrow> stream_events env (fp_maxFrameBytes p) (drop (n + 1) (fp_pending p @ bytes))
      else stream_events env (fp_maxFrameBytes p) (fp_pending p @ bytes))"

lemma excerpt_prefix:
  assumes "OVERSIZE_EXCERPT_BYTES \<le> limit" "limit < length line"
  shows "oversizeExcerpt env limit (line @ rest) = oversizeExcerpt env limit line"
  using assms by (simp add: oversizeExcerpt_def)

lemma oversize_line_once:
  assumes "OVERSIZE_EXCERPT_BYTES \<le> limit" "limit < length line" "NEWLINE \<notin> set line"
  shows "stream_events env limit (line @ bytes) =
           MalformedEvent (oversizeExcerpt env limit line) #
           (case index_of NEWLINE bytes of None \<Rightarrow> [] | Some n \<Rightarrow> stream_events env limit (drop (n + 1) bytes))"
proof -
  have at: "index_of NEWLINE (line @ bytes) = map_option ((+) (length line)) (index_of NEWLINE bytes)"
    using assms(3) by (simp add: index_of_append index_of_None [THEN iffD2])
  show ?thesis
    by (subst stream_events.simps)
      (use assms excerpt_prefix [OF assms(1,2)] in
        \<open>auto simp: at tail_events_def line_events_def split: option.split\<close>)
qed

lemma drain_remaining:
  assumes "OVERSIZE_EXCERPT_BYTES \<le> fp_maxFrameBytes p"
  shows "po_events (snd (drain env p out)) @ remaining env (fst (drain env p out)) bytes
           = po_events out @ remaining env p bytes"
  using assms
proof (induction p out rule: drain_induct)
  case (skipping p out)
  then show ?case by (simp add: drain_steps remaining_def index_of_append) (auto split: option.split)
next
  case (resynced p out n)
  then have "remaining env p bytes = remaining env (p\<lparr>fp_pending := drop (n + 1) (fp_pending p), fp_resyncing := False\<rparr>) bytes"
    using index_of_bound [of NEWLINE "fp_pending p" n] by (simp add: remaining_def index_of_append)
  with resynced show ?case by (simp add: drain_steps)
next
  case (overflow p out)
  then have "NEWLINE \<notin> set (fp_pending p)" by (simp add: index_of_None)
  with oversize_line_once [of "fp_maxFrameBytes p" "fp_pending p" env bytes] overflow show ?case
    by (simp add: drain_steps remaining_def cong: option.case_cong)
next
  case (waiting p out)
  then show ?case by (simp add: drain_steps)
next
  case (line p out n)
  let ?line = "take n (fp_pending p)" and ?p' = "p\<lparr>fp_pending := drop (n + 1) (fp_pending p)\<rparr>"
  have n: "n < length (fp_pending p)" using line(2) by (rule index_of_bound)
  have "remaining env p bytes = line_events env (fp_maxFrameBytes p) ?line @ remaining env ?p' bytes"
    using n line(1,2)
    by (simp add: remaining_def stream_events.simps [of env _ "fp_pending p @ bytes"] index_of_append)
  moreover have "po_events (if fp_maxFrameBytes p < n
        then report_malformed (oversizeExcerpt env (fp_maxFrameBytes p) ?line) out else readLine env ?line out)
      = po_events out @ line_events env (fp_maxFrameBytes p) ?line"
    using n by (simp add: readLine_events) (simp add: line_events_def)
  ultimately show ?case using line by (simp add: drain_steps)
qed

subsection \<open>Sessions\<close>

lemma push_remaining:
  assumes "OVERSIZE_EXCERPT_BYTES \<le> fp_maxFrameBytes p"
  shows "po_events (snd (push env chunk p)) @ remaining env (fst (push env chunk p)) bytes = remaining env p (chunk @ bytes)"
    and "fp_maxFrameBytes (fst (push env chunk p)) = fp_maxFrameBytes p"
proof -
  let ?p = "p\<lparr>fp_pending := fp_pending p @ chunk\<rparr>"
  have p: "push env chunk p = drain env ?p empty_outcome" by (simp add: push_def)
  have "remaining env ?p bytes = remaining env p (chunk @ bytes)"
    by (simp add: remaining_def cong: option.case_cong)
  with drain_remaining [of ?p env empty_outcome bytes] assms
  show "po_events (snd (push env chunk p)) @ remaining env (fst (push env chunk p)) bytes = remaining env p (chunk @ bytes)"
    by (simp add: p empty_outcome_def)
  show "fp_maxFrameBytes (fst (push env chunk p)) = fp_maxFrameBytes p" by (simp add: p drain_keeps_limit)
qed

text \<open>The state between two pushes: no newline is held, and nothing at all while a line is being dropped.\<close>

definition settled :: "frame_parser \<Rightarrow> bool" where
  "settled p = (NEWLINE \<notin> set (fp_pending p) \<and> length (fp_pending p) \<le> fp_maxFrameBytes p
              \<and> (fp_resyncing p \<longrightarrow> fp_pending p = []))"

lemma drain_settled: "settled (fst (drain env p out))"
  by (induction p out rule: drain_induct) (simp_all add: drain_steps settled_def index_of_None)

lemma push_settled: "settled (fst (push env chunk p))"
  by (simp add: push_def drain_settled)

lemma createFrameParser_settled: "settled (createFrameParser m)"
  by (simp add: createFrameParser_def settled_def)

lemma push_all_settled: "settled p \<Longrightarrow> settled (fst (push_all env chunks p))"
  by (induction chunks arbitrary: p) (auto simp: push_settled case_prod_unfold Let_def)

lemma push_all_limit: "fp_maxFrameBytes (fst (push_all env chunks p)) = fp_maxFrameBytes p"
  by (induction chunks arbitrary: p) (auto simp: push_def drain_keeps_limit case_prod_unfold Let_def)

lemma push_all_remaining:
  "OVERSIZE_EXCERPT_BYTES \<le> fp_maxFrameBytes p \<Longrightarrow>
     snd (push_all env chunks p) @ remaining env (fst (push_all env chunks p)) bytes = remaining env p (concat chunks @ bytes)"
proof (induction chunks arbitrary: p)
  case (Cons chunk chunks)
  from Cons.IH [of "fst (push env chunk p)"] push_remaining [OF Cons.prems, of env chunk] Cons.prems show ?case
    by (simp add: case_prod_unfold Let_def)
qed simp

lemma flush_remaining:
  "settled p \<Longrightarrow> po_events (snd (flush env p)) = remaining env p []"
  by (auto simp: flush_def remaining_def settled_def Let_def index_of_None [THEN iffD2] stream_events.simps [of env _ "fp_pending p"]
      tail_events_def empty_outcome_def)

lemma session_stream:
  assumes "OVERSIZE_EXCERPT_BYTES \<le> fp_maxFrameBytes (createFrameParser m)"
  shows "session env m chunks = stream_events env (fp_maxFrameBytes (createFrameParser m)) (concat chunks)"
proof -
  have start: "remaining env (createFrameParser m) bytes = stream_events env (fp_maxFrameBytes (createFrameParser m)) bytes" for bytes
    by (simp add: remaining_def createFrameParser_def)
  from push_all_remaining [OF assms, of env chunks "[]"] show ?thesis
    by (simp add: session_def case_prod_unfold Let_def start
        flush_remaining [OF push_all_settled [OF createFrameParser_settled]])
qed

text \<open>C30: the parser computes a function of the bytes alone: whatever chunks a stream arrives in, the events of the
  session are those of cutting the whole stream at its newlines, so no frame is split, merged, lost or reordered
  by a pipe read that ends in the middle of one. (With a ceiling below the 200 bytes of an excerpt only the text of
  an oversize report could depend on the chunks.)\<close>

theorem chunking_is_irrelevant:
  assumes "OVERSIZE_EXCERPT_BYTES \<le> fp_maxFrameBytes (createFrameParser m)"
  shows "session env m chunks = stream_events env (fp_maxFrameBytes (createFrameParser m)) (concat chunks)"
  using assms by (rule session_stream)

lemma stream_frames:
  "FrameEvent v \<in> set (stream_events env limit bytes) \<Longrightarrow>
     \<exists>before line after. bytes = before @ line @ NEWLINE # after \<and> NEWLINE \<notin> set line
       \<and> (before = [] \<or> last before = NEWLINE) \<and> length line \<le> limit
       \<and> fe_parse env (fe_decode env line) = Some v \<and> isJsonRpcFrame v"
proof (induction env limit bytes rule: stream_events.induct)
  case (1 env limit bytes)
  show ?case
  proof (cases "index_of NEWLINE bytes")
    case None
    with 1(2) show ?thesis by (auto simp: stream_events.simps [of env limit bytes] tail_events_def split: if_splits)
  next
    case (Some n)
    let ?line = "take n bytes" and ?rest = "drop (n + 1) bytes"
    from Some have cut: "NEWLINE \<notin> set ?line" "bytes = ?line @ NEWLINE # ?rest"
      by (blast dest: index_of_take)+
    from 1(2) consider "FrameEvent v \<in> set (line_events env limit ?line)" | "FrameEvent v \<in> set (stream_events env limit ?rest)"
      by (auto simp: stream_events.simps [of env limit bytes] Some)
    then show ?thesis
    proof cases
      case 1
      then have "length ?line \<le> limit" "fe_parse env (fe_decode env ?line) = Some v" "isJsonRpcFrame v"
        by (auto simp: line_events_def split: if_splits option.splits)
      with cut show ?thesis by (intro exI [of _ "[]"] exI [of _ ?line] exI [of _ ?rest]) simp
    next
      case 2
      from 1(1) [OF Some 2] obtain before line after where
        "?rest = before @ line @ NEWLINE # after" "NEWLINE \<notin> set line" "before = [] \<or> last before = NEWLINE"
        "length line \<le> limit" "fe_parse env (fe_decode env line) = Some v" "isJsonRpcFrame v" by blast
      with cut(2) show ?thesis
        by (intro exI [of _ "?line @ NEWLINE # before"] exI [of _ line] exI [of _ after]) auto
    qed
  qed
qed

text \<open>C32: nothing is guessed: every frame a session hands on is a complete, newline-terminated line of the stream, no
  longer than the ceiling, whose decoded text parses to exactly that value, and the value is a JSON-RPC 2.0 envelope;
  in particular an unterminated tail is never a frame.\<close>

theorem frames_are_delimited_lines:
  assumes "OVERSIZE_EXCERPT_BYTES \<le> fp_maxFrameBytes (createFrameParser m)" "FrameEvent v \<in> set (session env m chunks)"
  shows "\<exists>before line after. concat chunks = before @ line @ NEWLINE # after \<and> NEWLINE \<notin> set line
       \<and> (before = [] \<or> last before = NEWLINE) \<and> length line \<le> fp_maxFrameBytes (createFrameParser m)
       \<and> fe_parse env (fe_decode env line) = Some v \<and> isJsonRpcFrame v"
proof -
  from assms(2) show ?thesis by (intro stream_frames) (simp add: session_stream [OF assms(1)])
qed

text \<open>The buffer is bounded: whatever bytes were pushed, between two pushes the parser holds at most \<open>maxFrameBytes\<close>
  bytes, none of them a newline, and none at all while it drops the rest of an oversized line.\<close>

theorem buffer_is_bounded:
  "settled (fst (push_all env chunks (createFrameParser m)))
   \<and> fp_maxFrameBytes (fst (push_all env chunks (createFrameParser m))) = fp_maxFrameBytes (createFrameParser m)"
  by (simp add: push_all_settled createFrameParser_settled push_all_limit)

subsection \<open>What is written is read back\<close>

lemma of_nat_byte: "k < 256 \<Longrightarrow> (of_nat k :: 8 word) = NEWLINE \<longleftrightarrow> k = 10"
proof -
  assume "k < 256"
  then have "unat (of_nat k :: 8 word) = k" by (simp add: unat_of_nat take_bit_eq_mod)
  moreover have "unat NEWLINE = 10" by (simp add: NEWLINE_def)
  ultimately show ?thesis by (metis word_unat_eq_iff)
qed

lemma of_nat_byte_ne: "k < 256 \<Longrightarrow> k \<noteq> 10 \<Longrightarrow> NEWLINE \<noteq> of_nat k"
  using of_nat_byte by metis

lemma utf8_char_newline: "c \<noteq> CHR 0x0A \<Longrightarrow> NEWLINE \<notin> set (utf8_char c)"
proof -
  assume c: "c \<noteq> CHR 0x0A"
  obtain n where n: "n = (of_char c :: nat)" by blast
  have "char_of (10 :: nat) = CHR 0x0A" by code_simp
  with c n have ten: "n \<noteq> 10" by (metis char_of_char)
  have "n < 256" using n by simp
  then have "NEWLINE \<noteq> of_nat (192 + n div 64)" "NEWLINE \<noteq> of_nat (128 + n mod 64)" "NEWLINE \<noteq> of_nat n"
    using ten by (intro of_nat_byte_ne; simp)+
  moreover have "utf8_char c = [of_nat n] \<or> utf8_char c = [of_nat (192 + n div 64), of_nat (128 + n mod 64)]"
    unfolding utf8_char_def Let_def n by (metis (full_types))
  ultimately show ?thesis by (elim disjE) (simp_all only: list.set insert_iff empty_iff simp_thms)
qed

lemma utf8_encode_newline: "CHR 0x0A \<notin> set s \<Longrightarrow> NEWLINE \<notin> set (utf8_encode s)"
  by (induction s) (auto simp: utf8_encode_def utf8_char_newline)

lemma serializeFrame_line:
  assumes "json_lexemes_ok v"
  shows "serializeFrame v = utf8_encode (json_stringify v) @ [NEWLINE]" "NEWLINE \<notin> set (utf8_encode (json_stringify v))"
  using json_stringify_no_newline [OF assms]
  by (simp_all add: serializeFrame_def utf8_encode_newline) (simp add: utf8_encode_def utf8_char_def NEWLINE_def)

lemma js_trim_first: "\<not> js_space c \<Longrightarrow> js_trim (c # s) \<noteq> []"
  by (auto simp: js_trim_def dropWhile_eq_Nil_conv)

lemma frame_text_visible: "isJsonRpcFrame v \<Longrightarrow> js_trim (json_stringify v) \<noteq> []"
  using js_trim_first [of "CHR ''{''"] by (auto simp: isJsonRpcFrame_def js_space_def split: json.splits)

lemma stream_line:
  "NEWLINE \<notin> set line \<Longrightarrow> stream_events env limit (line @ NEWLINE # bytes) = line_events env limit line @ stream_events env limit bytes"
  by (subst stream_events.simps) (simp add: index_of_split)

text \<open>Round trip: frames written one after the other with \<open>serializeFrame\<close> are read back as exactly those frames, in
  order and with nothing malformed, however the bytes are cut, provided decoding and parsing undo encoding and
  printing on their texts.\<close>

theorem frames_round_trip:
  assumes "OVERSIZE_EXCERPT_BYTES \<le> fp_maxFrameBytes (createFrameParser m)"
    and "concat chunks = concat (map serializeFrame frames)"
    and "\<And>v. v \<in> set frames \<Longrightarrow> isJsonRpcFrame v \<and> json_lexemes_ok v
           \<and> length (utf8_encode (json_stringify v)) \<le> fp_maxFrameBytes (createFrameParser m)
           \<and> fe_decode env (utf8_encode (json_stringify v)) = json_stringify v
           \<and> fe_parse env (json_stringify v) = Some v"
  shows "session env m chunks = map FrameEvent frames"
proof -
  let ?limit = "fp_maxFrameBytes (createFrameParser m)"
  have "stream_events env ?limit (concat (map serializeFrame frames)) = map FrameEvent frames"
    using assms(3)
  proof (induction frames)
    case Nil
    then show ?case by (simp add: stream_events.simps [of _ _ "[]"] tail_events_def)
  next
    case (Cons v frames)
    have "line_events env ?limit (utf8_encode (json_stringify v)) = [FrameEvent v]"
      using frame_text_visible [of v] Cons.prems [of v] by (auto simp: line_events_def)
    with Cons show ?case by (simp add: serializeFrame_line stream_line)
  qed
  with session_stream [OF assms(1)] assms(2) show ?thesis by simp
qed

subsection \<open>Samples\<close>

text \<open>Decoding of ASCII bytes, and the parser's answers on two texts.\<close>

definition sample_ping :: json where
  "sample_ping = JObj [(''jsonrpc'', JStr ''2.0''), (''id'', JNum ''7''), (''method'', JStr ''ping'')]"

definition sample_framing :: framing_env where
  "sample_framing = \<lparr>fe_decode = map (\<lambda>b. char_of (unat b)),
     fe_parse = (\<lambda>text. if text = json_stringify sample_ping then Some sample_ping
                         else if text = ''[]'' then Some (JArr []) else None)\<rparr>"

lemma sample_limit: "OVERSIZE_EXCERPT_BYTES \<le> fp_maxFrameBytes (createFrameParser (Some 200))"
  by (simp add: OVERSIZE_EXCERPT_BYTES_def createFrameParser_def)

lemma chunking_is_irrelevant_witness:
  "OVERSIZE_EXCERPT_BYTES \<le> fp_maxFrameBytes (createFrameParser (Some 200))
   \<and> session sample_framing (Some 200) [[0x7b], [0x0a, 0x5b], [0x5d, 0x0a, 0x20, 0x0a, 0x7b]]
       = [MalformedEvent ''{'', MalformedEvent ''[]'', MalformedEvent ''{'']"
proof -
  have "stream_events sample_framing (fp_maxFrameBytes (createFrameParser (Some 200)))
      (concat [[0x7b], [0x0a, 0x5b], [0x5d, 0x0a, 0x20, 0x0a, 0x7b]])
       = [MalformedEvent ''{'', MalformedEvent ''[]'', MalformedEvent ''{'']"
    by code_simp
  with sample_limit chunking_is_irrelevant [OF sample_limit] show ?thesis by simp
qed

lemma frames_are_delimited_lines_witness:
  "\<exists>before line after. serializeFrame sample_ping = before @ line @ NEWLINE # after \<and> NEWLINE \<notin> set line
     \<and> fe_parse sample_framing (fe_decode sample_framing line) = Some sample_ping"
proof -
  have "FrameEvent sample_ping \<in> set (session sample_framing (Some 200) [serializeFrame sample_ping])" by code_simp
  from frames_are_delimited_lines [OF sample_limit this] show ?thesis by auto
qed

lemma frames_round_trip_witness:
  "session sample_framing (Some 200) [serializeFrame sample_ping, serializeFrame sample_ping]
     = [FrameEvent sample_ping, FrameEvent sample_ping]"
proof -
  have laws: "isJsonRpcFrame sample_ping" "json_lexemes_ok sample_ping"
    "length (utf8_encode (json_stringify sample_ping)) \<le> fp_maxFrameBytes (createFrameParser (Some 200))"
    "fe_decode sample_framing (utf8_encode (json_stringify sample_ping)) = json_stringify sample_ping"
    "fe_parse sample_framing (json_stringify sample_ping) = Some sample_ping"
    by code_simp+
  show ?thesis
    using frames_round_trip [OF sample_limit, of "[serializeFrame sample_ping, serializeFrame sample_ping]"
        "[sample_ping, sample_ping]" sample_framing] laws by simp
qed

end
