(* ===== verification/Json_Parse.thy ===== *)
theory Json_Parse
  imports Json "HOL-Library.Monad_Syntax"
begin

text \<open>
  \<open>JSON.parse\<close>, as the framing, the audit chain and its verifier rely on it: a recursive-descent parser to
  a tree that keeps every member as written, and the value the language builds from the tree, where a
  repeated member keeps its first place and its last value. Numbers keep the digits they were written with
  (the printer's are the ones JavaScript prints), escapes reach code unit 255, the range of a \<open>char\<close>, and the
  creation order of members named like array indices is not modelled. The fuel is twice the length of the text,
  which is always enough. Printing and parsing are inverse on every value with distinct members.
\<close>

subsection \<open>Lexemes\<close>

definition json_ws :: "char \<Rightarrow> bool" where
  "json_ws = ch_in [CHR '' '', CHR 0x09, CHR 0x0A, CHR 0x0D]"

definition skip_ws :: "string \<Rightarrow> string" where
  "skip_ws = dropWhile json_ws"

fun expect :: "char \<Rightarrow> string \<Rightarrow> string option" where
  "expect c s = (case skip_ws s of [] \<Rightarrow> None | d # rest \<Rightarrow> if d = c then Some rest else None)"

fun strip_prefix :: "string \<Rightarrow> string \<Rightarrow> string option" where
  "strip_prefix [] s = Some s"
| "strip_prefix (c # p) [] = None"
| "strip_prefix (c # p) (d # s) = (if c = d then strip_prefix p s else None)"

definition hex_digit :: "char \<Rightarrow> nat option" where
  "hex_digit c = map_of (zip ''0123456789abcdefABCDEF'' ([0..<16] @ [10..<16])) c"

fun parse_hex4 :: "string \<Rightarrow> (char \<times> string) option" where
  "parse_hex4 (a # b # c # d # rest) =
     do {
       w \<leftarrow> hex_digit a; x \<leftarrow> hex_digit b; y \<leftarrow> hex_digit c; z \<leftarrow> hex_digit d;
       if w = 0 \<and> x = 0 then Some (char_of (16 * y + z), rest) else None
     }"
| "parse_hex4 _ = None"

definition simple_escapes :: "(char \<times> char) list" where
  "simple_escapes = [(CHR 0x22, CHR 0x22), (CHR 0x5C, CHR 0x5C), (CHR ''/'', CHR ''/''), (CHR ''b'', CHR 0x08),
     (CHR ''f'', CHR 0x0C), (CHR ''n'', CHR 0x0A), (CHR ''r'', CHR 0x0D), (CHR ''t'', CHR 0x09)]"

fun parse_escape :: "string \<Rightarrow> (char \<times> string) option" where
  "parse_escape [] = None"
| "parse_escape (c # cs) =
     (if c = CHR ''u'' then parse_hex4 cs else map_option (\<lambda>d. (d, cs)) (map_of simple_escapes c))"

lemma parse_hex4_shorter: "parse_hex4 s = Some (c, rest) \<Longrightarrow> length rest < length s"
  by (cases s rule: parse_hex4.cases) (auto split: bind_splits if_splits)

lemma parse_escape_shorter: "parse_escape s = Some (c, rest) \<Longrightarrow> length rest < length s"
  by (cases s) (auto dest: parse_hex4_shorter split: if_splits)

text \<open>The characters of a string after its opening quote.\<close>

function parse_chars :: "string \<Rightarrow> (string \<times> string) option" where
  "parse_chars [] = None"
| "parse_chars (c # cs) =
     (if c = CHR 0x22 then Some ([], cs)
      else if c = CHR 0x5C then
        (case parse_escape cs of
           None \<Rightarrow> None
         | Some (d, rest) \<Rightarrow> map_option (\<lambda>(k, r). (d # k, r)) (parse_chars rest))
      else if (of_char c :: nat) < 32 then None
      else map_option (\<lambda>(k, r). (c # k, r)) (parse_chars cs))"
  by pat_completeness auto
termination
  by (relation "measure length") (auto dest!: parse_escape_shorter)

definition digits1 :: "string \<Rightarrow> (string \<times> string) option" where
  "digits1 s = (let ds = takeWhile ch_digit s in if ds = [] then None else Some (ds, drop (length ds) s))"

definition number_int :: "string \<Rightarrow> (string \<times> string) option" where
  "number_int s =
     (case digits1 s of None \<Rightarrow> None | Some (ds, rest) \<Rightarrow> if hd ds = CHR ''0'' \<and> length ds \<noteq> 1 then None else Some (ds, rest))"

fun number_sign :: "string \<Rightarrow> string \<times> string" where
  "number_sign (c # s) = (if c = CHR ''-'' then ([c], s) else ([], c # s))"
| "number_sign [] = ([], [])"

fun number_frac :: "string \<Rightarrow> (string \<times> string) option" where
  "number_frac (c # s) =
     (if c = CHR ''.'' then map_option (\<lambda>(ds, rest). (c # ds, rest)) (digits1 s) else Some ([], c # s))"
| "number_frac [] = Some ([], [])"

fun number_exp :: "string \<Rightarrow> (string \<times> string) option" where
  "number_exp (c # s) =
     (if c = CHR ''e'' \<or> c = CHR ''E''
      then case s of
             [] \<Rightarrow> None
           | g # t \<Rightarrow> if g = CHR ''+'' \<or> g = CHR ''-''
                       then map_option (\<lambda>(ds, rest). (c # g # ds, rest)) (digits1 t)
                       else map_option (\<lambda>(ds, rest). (c # ds, rest)) (digits1 s)
      else Some ([], c # s))"
| "number_exp [] = Some ([], [])"

definition number_lexeme :: "string \<Rightarrow> (string \<times> string) option" where
  "number_lexeme s =
     (let (sign, s1) = number_sign s
      in do {
           (i, s2) \<leftarrow> number_int s1;
           (f, s3) \<leftarrow> number_frac s2;
           (e, s4) \<leftarrow> number_exp s3;
           Some (sign @ i @ f @ e, s4)
         })"

definition parse_literal :: "string \<Rightarrow> (json \<times> string) option" where
  "parse_literal s =
     (case strip_prefix ''null'' s of Some r \<Rightarrow> Some (JNull, r) | None \<Rightarrow>
     (case strip_prefix ''true'' s of Some r \<Rightarrow> Some (JBool True, r) | None \<Rightarrow>
     (case strip_prefix ''false'' s of Some r \<Rightarrow> Some (JBool False, r) | None \<Rightarrow>
      map_option (\<lambda>(l, r). (JNum l, r)) (number_lexeme s))))"

subsection \<open>The parser\<close>

fun parse_value :: "nat \<Rightarrow> string \<Rightarrow> (json \<times> string) option"
  and parse_elements :: "nat \<Rightarrow> string \<Rightarrow> (json list \<times> string) option"
  and parse_members :: "nat \<Rightarrow> string \<Rightarrow> ((string \<times> json) list \<times> string) option" where
  "parse_value 0 s = None"
| "parse_value (Suc n) s =
     (case skip_ws s of
        [] \<Rightarrow> None
      | c # cs \<Rightarrow>
          if c = CHR ''{'' then
            (case expect (CHR ''}'') cs of
               Some r \<Rightarrow> Some (JObj [], r)
             | None \<Rightarrow> map_option (\<lambda>(ms, r). (JObj ms, r)) (parse_members n cs))
          else if c = CHR ''['' then
            (case expect (CHR '']'') cs of
               Some r \<Rightarrow> Some (JArr [], r)
             | None \<Rightarrow> map_option (\<lambda>(vs, r). (JArr vs, r)) (parse_elements n cs))
          else if c = CHR 0x22 then map_option (\<lambda>(k, r). (JStr k, r)) (parse_chars cs)
          else parse_literal (c # cs))"
| "parse_elements 0 s = None"
| "parse_elements (Suc n) s =
     do {
       (v, r) \<leftarrow> parse_value n s;
       (case expect (CHR '','') r of
          Some r' \<Rightarrow> map_option (\<lambda>(vs, r''). (v # vs, r'')) (parse_elements n r')
        | None \<Rightarrow> map_option (\<lambda>r'. ([v], r')) (expect (CHR '']'') r))
     }"
| "parse_members 0 s = None"
| "parse_members (Suc n) s =
     do {
       r0 \<leftarrow> expect (CHR 0x22) s;
       (k, r1) \<leftarrow> parse_chars r0;
       r2 \<leftarrow> expect (CHR '':'') r1;
       (v, r) \<leftarrow> parse_value n r2;
       (case expect (CHR '','') r of
          Some r' \<Rightarrow> map_option (\<lambda>(ms, r''). ((k, v) # ms, r'')) (parse_members n r')
        | None \<Rightarrow> map_option (\<lambda>r'. ([(k, v)], r')) (expect (CHR ''}'') r))
     }"

definition json_tree :: "string \<Rightarrow> json option" where
  "json_tree s = (case parse_value (2 * length s + 2) s of
                    Some (v, r) \<Rightarrow> if skip_ws r = [] then Some v else None
                  | None \<Rightarrow> None)"

text \<open>The object the language builds: a repeated member keeps its place and takes the later value.\<close>

fun json_collapse :: "json \<Rightarrow> json" where
  "json_collapse (JArr xs) = JArr (map json_collapse xs)"
| "json_collapse (JObj members) =
     JObj (foldl (\<lambda>m (k, v). omap_put k v m) [] (map (\<lambda>m. (fst m, json_collapse (snd m))) members))"
| "json_collapse v = v"

definition json_parse :: "string \<Rightarrow> json option" where
  "json_parse s = map_option json_collapse (json_tree s)"

subsection \<open>Lexemes in context\<close>

definition json_stop :: "char \<Rightarrow> bool" where
  "json_stop = ch_in [CHR '','', CHR ''}'', CHR '']'', CHR '' '', CHR 0x09, CHR 0x0A, CHR 0x0D]"

definition stops :: "string \<Rightarrow> bool" where
  "stops r = (r = [] \<or> json_stop (hd r))"

lemma json_ws_simps [simp]:
  "\<not> json_ws (CHR ''{'')" "\<not> json_ws (CHR ''}'')" "\<not> json_ws (CHR ''['')" "\<not> json_ws (CHR '']'')" "\<not> json_ws (CHR '','')"
  "\<not> json_ws (CHR '':'')" "\<not> json_ws (CHR 0x22)" "\<not> json_ws (CHR ''-'')" "\<not> json_ws (CHR ''n'')" "\<not> json_ws (CHR ''t'')"
  "\<not> json_ws (CHR ''f'')"
  by (simp_all add: json_ws_def ch_in_def)

lemma json_ws_stop: "json_ws c \<Longrightarrow> json_stop c"
  by (auto simp: json_ws_def json_stop_def ch_in_def)

lemma skip_ws_simps [simp]:
  "skip_ws [] = []" "\<not> json_ws c \<Longrightarrow> skip_ws (c # s) = c # s" "json_ws c \<Longrightarrow> skip_ws (c # s) = skip_ws s"
  by (simp_all add: skip_ws_def)

lemma skip_ws_length: "length (skip_ws s) \<le> length s"
  by (simp add: skip_ws_def length_dropWhile_le)

lemma skip_ws_idem [simp]: "skip_ws (skip_ws s) = skip_ws s"
  unfolding skip_ws_def by (induction s) auto

lemma skip_ws_head: "skip_ws s = c # cs \<Longrightarrow> \<not> json_ws c"
  unfolding skip_ws_def by (auto dest: dropWhile_eq_Cons_conv [THEN iffD1])

lemma expect_Some: "expect c s = Some r \<longleftrightarrow> skip_ws s = c # r"
  by (auto split: list.split)

declare expect.simps [simp del]

lemma expect_shorter: "expect c s = Some r \<Longrightarrow> length r < length s"
  using skip_ws_length [of s] by (auto simp: expect_Some)

lemma expect_simps [simp]:
  "expect c [] = None" "\<not> json_ws d \<Longrightarrow> expect c (d # s) = (if d = c then Some s else None)"
  "expect c (skip_ws s) = expect c s"
  by (simp_all add: expect.simps)

lemma stops_simps [simp]:
  "stops []" "stops (CHR '','' # s)" "stops (CHR ''}'' # s)" "stops (CHR '']'' # s)"
  by (simp_all add: stops_def json_stop_def ch_in_def)

text \<open>Number lexemes are read greedily, and a stop character ends them.\<close>

definition number_end :: "string \<Rightarrow> bool" where
  "number_end r = (r = [] \<or> \<not> ch_in ''0123456789.eE+-'' (hd r))"

lemma stops_number_end: "stops r \<Longrightarrow> number_end r"
  by (auto simp: stops_def number_end_def json_stop_def ch_in_def)

lemma number_end_head:
  "number_end (c # r) \<Longrightarrow> \<not> ch_digit c \<and> c \<noteq> CHR ''.'' \<and> c \<noteq> CHR ''e'' \<and> c \<noteq> CHR ''E''"
  by (auto simp: number_end_def ch_in_def ch_digit_def)

lemma digits1_extend:
  assumes "digits1 s = Some (ds, rest)" "r = [] \<or> \<not> ch_digit (hd r)"
  shows "digits1 (s @ r) = Some (ds, rest @ r)"
proof (cases "\<forall>c \<in> set s. ch_digit c")
  case True
  have "takeWhile ch_digit r = []" using assms(2) by (cases r) auto
  with True have t: "takeWhile ch_digit s = s" "takeWhile ch_digit (s @ r) = s"
    by (simp_all add: takeWhile_eq_all_conv)
  from assms(1) show ?thesis unfolding digits1_def Let_def t by (auto split: if_splits)
next
  case False
  then have t: "takeWhile ch_digit (s @ r) = takeWhile ch_digit s" by (auto simp: takeWhile_append)
  have "drop (length (takeWhile ch_digit s)) (s @ r) = drop (length (takeWhile ch_digit s)) s @ r"
    using length_takeWhile_le [of ch_digit s] by simp
  with assms(1) show ?thesis unfolding digits1_def Let_def t by (auto split: if_splits)
qed

lemma digits1_append:
  assumes "digits1 s = Some (ds, rest)" "number_end r"
  shows "digits1 (s @ r) = Some (ds, rest @ r)"
  using assms number_end_head by (intro digits1_extend) (cases r; auto)+

lemma digits1_self: "digits1 s = Some (ds, rest) \<Longrightarrow> digits1 ds = Some (ds, []) \<and> ds \<noteq> [] \<and> ch_digit (hd ds)"
proof -
  assume a: "digits1 s = Some (ds, rest)"
  then have ds: "ds = takeWhile ch_digit s" "ds \<noteq> []" by (auto simp: digits1_def Let_def split: if_splits)
  then have all: "\<forall>c \<in> set ds. ch_digit c" by (metis set_takeWhileD)
  then have t: "takeWhile ch_digit ds = ds" by (simp add: takeWhile_eq_all_conv)
  have "digits1 ds = Some (ds, [])" unfolding digits1_def Let_def t using ds(2) by simp
  with ds(2) all show ?thesis by simp
qed

lemma number_int_append:
  "number_int s = Some (ds, rest) \<Longrightarrow> number_end r \<Longrightarrow> number_int (s @ r) = Some (ds, rest @ r)"
  by (auto simp: number_int_def digits1_append split: option.splits if_splits)

lemma number_frac_append:
  "number_frac s = Some (ds, rest) \<Longrightarrow> number_end r \<Longrightarrow> number_frac (s @ r) = Some (ds, rest @ r)"
proof (cases s)
  case Nil
  assume a: "number_frac s = Some (ds, rest)" "number_end r"
  with Nil show ?thesis by (cases r) (auto dest: number_end_head)
qed (auto simp: digits1_append split: if_splits)

lemma number_exp_append:
  "number_exp s = Some (ds, rest) \<Longrightarrow> number_end r \<Longrightarrow> number_exp (s @ r) = Some (ds, rest @ r)"
proof (cases s)
  case Nil
  assume a: "number_exp s = Some (ds, rest)" "number_end r"
  with Nil show ?thesis by (cases r) (auto dest: number_end_head)
next
  case (Cons c t)
  assume a: "number_exp s = Some (ds, rest)" "number_end r"
  with Cons show ?thesis
    by (cases t) (auto simp: digits1_append digits1_append [of "_ # _", simplified] split: if_splits)
qed

lemma number_lexeme_append:
  assumes "number_lexeme s = Some (l, rest)" "number_end r"
  shows "number_lexeme (s @ r) = Some (l, rest @ r)"
proof -
  obtain sg t where sg: "number_sign s = (sg, t)" by fastforce
  from assms(1) sg obtain i s2 f s3 e where
    parts: "number_int t = Some (i, s2)" "number_frac s2 = Some (f, s3)" "number_exp s3 = Some (e, rest)" "l = sg @ i @ f @ e"
    by (auto simp: number_lexeme_def split: bind_splits)
  have "s \<noteq> []" using parts(1) sg by (auto simp: number_int_def digits1_def)
  with sg have "number_sign (s @ r) = (sg, t @ r)" by (cases s) (auto split: if_splits)
  with parts number_int_append [OF parts(1) assms(2)] number_frac_append [OF parts(2) assms(2)]
    number_exp_append [OF parts(3) assms(2)] show ?thesis by (simp add: number_lexeme_def)
qed

lemma strip_prefix_append: "strip_prefix p (p @ s) = Some s"
  by (induction p) auto

lemma number_lexeme_first:
  assumes "number_lexeme s = Some (l, rest)"
  obtains c t where "s = c # t" "ch_digit c \<or> c = CHR ''-''"
  using assms that
  by (cases s) (auto simp: number_lexeme_def number_int_def digits1_def split: bind_splits if_splits option.splits)

subsection \<open>Printing is parsed back\<close>

text \<open>What the printer prints: numbers that are number lexemes, and members with distinct names.\<close>

fun json_numbers_ok :: "json \<Rightarrow> bool" where
  "json_numbers_ok (JNum l) = (number_lexeme l = Some (l, []))"
| "json_numbers_ok (JArr xs) = list_all json_numbers_ok xs"
| "json_numbers_ok (JObj members) = list_all (\<lambda>m. json_numbers_ok (snd m)) members"
| "json_numbers_ok _ = True"

fun json_distinct :: "json \<Rightarrow> bool" where
  "json_distinct (JArr xs) = list_all json_distinct xs"
| "json_distinct (JObj members) = (distinct (map fst members) \<and> list_all (\<lambda>m. json_distinct (snd m)) members)"
| "json_distinct _ = True"

lemma hex_digit_char: "n < 16 \<Longrightarrow> hex_digit (hex_char n) = Some n"
proof -
  have "list_all (\<lambda>n. hex_digit (hex_char n) = Some n) [0..<16]" by code_simp
  then show "n < 16 \<Longrightarrow> hex_digit (hex_char n) = Some n" by (simp add: list_all_iff)
qed

lemma parse_chars_escape:
  "parse_chars (json_escape c @ s) = map_option (\<lambda>(k, r). (c # k, r)) (parse_chars s)"
proof (cases "c \<in> {CHR 0x22, CHR 0x5C, CHR 0x08, CHR 0x09, CHR 0x0A, CHR 0x0C, CHR 0x0D}")
  case True
  then show ?thesis by (auto simp: json_escape_def simple_escapes_def)
next
  case False
  let ?n = "of_char c :: nat"
  have "?n < 16 * 16" by simp
  then have n: "?n div 16 < 16" by (rule less_mult_imp_div_less)
  have "?n = 16 * (?n div 16) + ?n mod 16" by simp
  then have "char_of (16 * (?n div 16) + ?n mod 16) = c" by (metis char_of_char)
  moreover have "hex_digit (CHR ''0'') = Some 0" using hex_digit_char [of 0] by (simp add: hex_char_def)
  ultimately show ?thesis using False n by (auto simp: json_escape_def hex_digit_char)
qed

lemma parse_chars_quote: "parse_chars (concat (map json_escape k) @ CHR 0x22 # s) = Some (k, s)"
  by (induction k) (simp_all add: parse_chars_escape)

text \<open>The printed form of a value never starts with white space, nor looks like the end of a list.\<close>

lemma json_stringify_first:
  assumes "json_numbers_ok v"
  obtains c t where "json_stringify v = c # t" "\<not> json_ws c" "\<not> json_stop c"
proof (cases v)
  case (JNum l)
  with assms have "number_lexeme l = Some (l, [])" by simp
  then show ?thesis
    using that JNum by (elim number_lexeme_first) (auto simp: json_ws_def json_stop_def ch_in_def ch_digit_def)
next
  case (JBool b)
  then show ?thesis using that by (cases b) (auto simp: json_ws_def json_stop_def ch_in_def)
qed (use that in \<open>auto simp: json_quote_def json_ws_def json_stop_def ch_in_def\<close>)

lemma strip_prefix_other: "c \<noteq> d \<Longrightarrow> strip_prefix (c # p) (d # s) = None"
  by simp

lemma parse_literal_number:
  assumes "number_lexeme l = Some (l, [])" "stops r"
  shows "parse_literal (l @ r) = Some (JNum l, r)" "\<exists>c t. l = c # t \<and> \<not> json_ws c \<and> c \<notin> set [CHR ''{'', CHR ''['', CHR 0x22]"
proof -
  from assms(1) obtain c t where l: "l = c # t" "ch_digit c \<or> c = CHR ''-''" by (rule number_lexeme_first)
  then have c: "c \<noteq> CHR ''n''" "c \<noteq> CHR ''t''" "c \<noteq> CHR ''f''" "\<not> json_ws c" "c \<notin> set [CHR ''{'', CHR ''['', CHR 0x22]"
    by (auto simp: ch_digit_def ch_in_def json_ws_def)
  from number_lexeme_append [OF assms(1) stops_number_end [OF assms(2)]] c l
  show "parse_literal (l @ r) = Some (JNum l, r)" by (simp add: parse_literal_def)
  from c l show "\<exists>c t. l = c # t \<and> \<not> json_ws c \<and> c \<notin> set [CHR ''{'', CHR ''['', CHR 0x22]" by blast
qed

definition print_member :: "string \<times> json \<Rightarrow> string" where
  "print_member m = json_quote (fst m) @ '':'' @ json_stringify (snd m)"

lemma json_stringify_obj:
  "json_stringify (JObj ms) = ''{'' @ js_join '','' (map print_member ms) @ ''}''"
  by (simp add: print_member_def [abs_def])

lemma js_join_Cons: "js_join sep (x # xs) = x @ (if xs = [] then [] else sep @ js_join sep xs)"
  by (cases xs) auto

lemma parse_printed:
  shows "json_numbers_ok v \<Longrightarrow> stops r \<Longrightarrow> length (json_stringify v) < n \<Longrightarrow>
           parse_value n (json_stringify v @ r) = Some (v, r)"
    and "xs \<noteq> [] \<Longrightarrow> list_all json_numbers_ok xs \<Longrightarrow> length (js_join '','' (map json_stringify xs)) + 1 < n \<Longrightarrow>
           parse_elements n (js_join '','' (map json_stringify xs) @ CHR '']'' # r) = Some (xs, r)"
    and "ms \<noteq> [] \<Longrightarrow> list_all (\<lambda>m. json_numbers_ok (snd m)) ms \<Longrightarrow>
           length (js_join '','' (map print_member ms)) + 1 < n \<Longrightarrow>
           parse_members n (js_join '','' (map print_member ms) @ CHR ''}'' # r) = Some (ms, r)"
proof (induction n arbitrary: v r xs ms)
  case (Suc n)
  { case 1
    then show ?case
    proof (cases v)
      case (JNum l)
      with 1 parse_literal_number [of l r] show ?thesis by auto
    next
      case (JArr xs)
      show ?thesis
      proof (cases "xs = []")
        case False
        then obtain y ys where xs: "xs = y # ys" by (cases xs) auto
        with 1 JArr obtain c t where c: "json_stringify y = c # t" "\<not> json_ws c" "\<not> json_stop c"
          using json_stringify_first [of y] by auto
        then have "c \<noteq> CHR '']''" by (auto simp: json_stop_def ch_in_def)
        with Suc(2) [OF False, of r] 1 JArr xs c show ?thesis by (simp add: js_join_Cons)
      qed (simp add: JArr)
    next
      case (JObj ms)
      show ?thesis
      proof (cases "ms = []")
        case False
        then obtain y ys where ms: "ms = y # ys" by (cases ms) auto
        with Suc(3) [OF False, of r] 1 JObj show ?thesis
          by (simp add: js_join_Cons print_member_def [abs_def] json_quote_def)
      qed (simp add: JObj)
    qed (auto simp: json_quote_def parse_chars_quote parse_literal_def split: bool.split)
  next
    case 2
    then obtain y ys where xs: "xs = y # ys" by (cases xs) auto
    let ?rest = "(if ys = [] then [] else CHR '','' # js_join '','' (map json_stringify ys)) @ CHR '']'' # r"
    from 2 xs have "parse_value n (json_stringify y @ ?rest) = Some (y, ?rest)"
      by (intro Suc(1)) (auto simp: js_join_Cons split: if_splits)
    moreover have "parse_elements n (js_join '','' (map json_stringify ys) @ CHR '']'' # r) = Some (ys, r)" if "ys \<noteq> []"
      using 2 xs that by (intro Suc(2)) (auto simp: js_join_Cons)
    ultimately show ?case using xs by (auto simp: js_join_Cons)
  next
    case 3
    then obtain k y ys where ms: "ms = (k, y) # ys" by (cases ms) auto
    let ?rest = "(if ys = [] then [] else CHR '','' # js_join '','' (map print_member ys)) @ CHR ''}'' # r"
    from 3 ms have "parse_value n (json_stringify y @ ?rest) = Some (y, ?rest)"
      by (intro Suc(1)) (auto simp: js_join_Cons print_member_def split: if_splits)
    moreover have "parse_members n (js_join '','' (map print_member ys) @ CHR ''}'' # r) = Some (ys, r)" if "ys \<noteq> []"
      using 3 ms that by (intro Suc(3)) (auto simp: js_join_Cons)
    ultimately show ?case using ms
      by (auto simp: js_join_Cons print_member_def [of "(k, y)"] json_quote_def parse_chars_quote) }
qed simp_all

theorem json_tree_print: "json_numbers_ok v \<Longrightarrow> json_tree (json_stringify v) = Some v"
  using parse_printed(1) [of v "[]" "2 * length (json_stringify v) + 2"] by (simp add: json_tree_def)

lemma foldl_omap_put:
  "distinct (map fst ms) \<Longrightarrow> fst ` set ms \<inter> fst ` set acc = {} \<Longrightarrow>
     foldl (\<lambda>m (k, v). omap_put k v m) acc ms = acc @ ms"
proof (induction ms arbitrary: acc)
  case (Cons m ms)
  obtain k v where m: "m = (k, v)" by (cases m)
  have "omap_put k v acc = acc @ [(k, v)]" if "k \<notin> fst ` set acc"
    using that by (induction k v acc rule: omap_put.induct) auto
  with Cons m show ?case by auto
qed simp

lemma json_collapse_distinct: "json_distinct v \<Longrightarrow> json_collapse v = v"
proof (induction v rule: json_collapse.induct)
  case (1 xs)
  then show ?case by (simp add: list_all_iff map_idI)
next
  case (2 members)
  have "map (\<lambda>m. (fst m, json_collapse (snd m))) members = members"
    by (rule map_idI) (use 2 in \<open>auto simp: list_all_iff prod_eq_iff\<close>)
  with 2 foldl_omap_put [of members "[]"] show ?case by simp
qed simp_all

theorem json_parse_print: "json_numbers_ok v \<Longrightarrow> json_distinct v \<Longrightarrow> json_parse (json_stringify v) = Some v"
  by (simp add: json_parse_def json_tree_print json_collapse_distinct)

subsection \<open>The fuel is enough\<close>

lemma parse_chars_shorter: "parse_chars s = Some (k, r) \<Longrightarrow> length r < length s"
proof (induction s arbitrary: k r rule: parse_chars.induct)
  case (2 c cs)
  then show ?case by (auto split: if_splits option.splits prod.splits dest!: parse_escape_shorter) (fastforce dest: parse_escape_shorter)+
qed simp

lemma digits1_shorter: "digits1 s = Some (ds, r) \<Longrightarrow> length r < length s"
  by (auto simp: digits1_def Let_def split: if_splits) (metis diff_less length_greater_0_conv takeWhile.simps(1))

lemma number_lexeme_shorter: "number_lexeme s = Some (l, r) \<Longrightarrow> length r < length s"
proof -
  assume a: "number_lexeme s = Some (l, r)"
  obtain sg t where sg: "number_sign s = (sg, t)" by fastforce
  have "length t \<le> length s" using sg by (cases s) (auto split: if_splits)
  moreover from a sg obtain i s2 f s3 e where
    parts: "number_int t = Some (i, s2)" "number_frac s2 = Some (f, s3)" "number_exp s3 = Some (e, r)"
    by (auto simp: number_lexeme_def split: bind_splits)
  moreover have "length s2 < length t" using parts(1) by (auto simp: number_int_def dest: digits1_shorter split: option.splits if_splits)
  moreover have "length s3 \<le> length s2" using parts(2) by (cases s2) (auto dest: digits1_shorter split: if_splits)
  moreover have "length r \<le> length s3" using parts(3)
    by (cases s3) (auto dest!: digits1_shorter split: if_splits list.splits)
  ultimately show ?thesis by simp
qed

lemma strip_prefix_shorter: "strip_prefix p s = Some r \<Longrightarrow> p \<noteq> [] \<Longrightarrow> length r < length s"
proof -
  have "strip_prefix p s = Some r \<Longrightarrow> length s = length p + length r"
    by (induction p s rule: strip_prefix.induct) (auto split: if_splits)
  then show "strip_prefix p s = Some r \<Longrightarrow> p \<noteq> [] \<Longrightarrow> length r < length s" by auto
qed

lemma parse_literal_shorter: "parse_literal s = Some (v, r) \<Longrightarrow> length r < length s"
  by (auto simp: parse_literal_def split: option.splits dest: number_lexeme_shorter strip_prefix_shorter)

lemma skip_ws_shorter: "skip_ws s = c # cs \<Longrightarrow> length cs < length s"
  using skip_ws_length [of s] by simp

lemma parse_shorter:
  shows "parse_value n s = Some (v, r) \<Longrightarrow> length r < length s"
    and "parse_elements n s = Some (vs, r) \<Longrightarrow> length r < length s"
    and "parse_members n s = Some (ms, r) \<Longrightarrow> length r < length s"
proof (induction n arbitrary: s v vs ms r)
  case (Suc n)
  { case 1
    then obtain c cs where c: "skip_ws s = c # cs" by (cases "skip_ws s") auto
    from skip_ws_shorter [OF c] 1 c show ?case
      by (auto split: if_splits option.splits dest!: Suc expect_shorter parse_chars_shorter parse_literal_shorter)
  next
    case 2
    then show ?case by (auto split: bind_splits option.splits dest!: Suc expect_shorter)
  next
    case 3
    then show ?case by (auto split: bind_splits option.splits dest!: Suc expect_shorter parse_chars_shorter) }
qed simp_all

lemma parse_fuel:
  shows "2 * length s < n \<Longrightarrow> 2 * length s < m \<Longrightarrow> parse_value n s = parse_value m s"
    and "2 * length s + 1 < n \<Longrightarrow> 2 * length s + 1 < m \<Longrightarrow> parse_elements n s = parse_elements m s"
    and "2 * length s + 1 < n \<Longrightarrow> 2 * length s + 1 < m \<Longrightarrow> parse_members n s = parse_members m s"
proof (induction n arbitrary: s m)
  case (Suc n)
  { case 1
    then obtain m' where m: "m = Suc m'" by (cases m) auto
    show ?case
    proof (cases "skip_ws s")
      case (Cons c cs)
      have "2 * length cs + 1 < n \<and> 2 * length cs + 1 < m'" using skip_ws_shorter [OF Cons] 1 m by simp
      with Cons Suc(2,3) [of cs m'] m show ?thesis by (simp cong: option.case_cong)
    qed (simp add: m)
  next
    case 2
    then obtain m' where m: "m = Suc m'" by (cases m) auto
    have v: "parse_value n s = parse_value m' s" using 2 m by (intro Suc(1)) auto
    have "parse_elements n r' = parse_elements m' r'" if "length r' < length s" for r'
      using 2 m that by (intro Suc(2)) auto
    then show ?case unfolding m parse_elements.simps v
      by (intro Option.bind_cong refl) (auto split: option.split dest!: parse_shorter expect_shorter)
  next
    case 3
    then obtain m' where m: "m = Suc m'" by (cases m) auto
    have "parse_members n r' = parse_members m' r'" "parse_value n r' = parse_value m' r'" if "length r' < length s" for r'
      using 3 m that by (auto intro!: Suc(1,3))
    then show ?case unfolding m parse_members.simps
      by (intro Option.bind_cong refl)
        (auto split: option.split intro!: Option.bind_cong dest!: parse_shorter expect_shorter parse_chars_shorter) }
qed simp_all

subsection \<open>What is parsed can be printed\<close>

lemma number_exp_self:
  "number_exp s = Some (e, r) \<Longrightarrow> number_exp e = Some (e, []) \<and> (e = [] \<or> hd e = CHR ''e'' \<or> hd e = CHR ''E'')"
proof (cases s)
  case (Cons c t)
  assume a: "number_exp s = Some (e, r)"
  show ?thesis
  proof (cases "c = CHR ''e'' \<or> c = CHR ''E''")
    case True
    with a Cons obtain g u where t: "t = g # u" by (cases t) auto
    show ?thesis
    proof (cases "g = CHR ''+'' \<or> g = CHR ''-''")
      case g: True
      with True a Cons t obtain ds where "digits1 u = Some (ds, r)" "e = c # g # ds" by auto
      with True g digits1_self [of u ds r] show ?thesis by auto
    next
      case g: False
      with True a Cons t obtain ds where ds: "digits1 t = Some (ds, r)" "e = c # ds" by auto
      then obtain d ds' where d: "ds = d # ds'" "ch_digit d" using digits1_self [of t ds r] by (cases ds) auto
      then have "d \<noteq> CHR ''+'' \<and> d \<noteq> CHR ''-''" by (auto simp: ch_digit_def ch_in_def)
      with True d ds digits1_self [of t ds r] show ?thesis by auto
    qed
  qed (use a Cons in auto)
qed simp

lemma number_lexeme_self:
  assumes "number_lexeme s = Some (l, r)"
  shows "number_lexeme l = Some (l, [])"
proof -
  obtain sg t where sg: "number_sign s = (sg, t)" by fastforce
  from assms sg obtain i s2 f s3 e where
    parts: "number_int t = Some (i, s2)" "number_frac s2 = Some (f, s3)" "number_exp s3 = Some (e, r)" "l = sg @ i @ f @ e"
    by (auto simp: number_lexeme_def split: bind_splits)
  note e = number_exp_self [OF parts(3)]
  have e_end: "e = [] \<or> \<not> ch_digit (hd e)" "e = [] \<or> hd e \<noteq> CHR ''.''"
    using e by (auto simp: ch_digit_def ch_in_def)
  from parts(1) have i: "digits1 t = Some (i, s2)" "hd i = CHR ''0'' \<longrightarrow> length i = 1"
    by (auto simp: number_int_def split: option.splits if_splits)
  note i' = digits1_self [OF i(1)]
  have f: "number_frac (f @ e) = Some (f, e) \<and> (f = [] \<or> hd f = CHR ''.'')"
  proof (cases "s2 = [] \<or> hd s2 \<noteq> CHR ''.''")
    case True
    with parts(2) have "f = []" by (cases s2) auto
    with e_end(2) show ?thesis by (cases e) auto
  next
    case False
    then obtain u where "s2 = CHR ''.'' # u" by (cases s2) auto
    with parts(2) obtain ds where ds: "digits1 u = Some (ds, s3)" "f = CHR ''.'' # ds" by auto
    from digits1_extend [of ds ds "[]" e] digits1_self [OF ds(1)] e_end(1) ds(2) show ?thesis by simp
  qed
  have "f @ e = [] \<or> \<not> ch_digit (hd (f @ e))"
    using f e_end(1) by (cases f) (auto simp: ch_digit_def ch_in_def)
  with digits1_extend [of i i "[]" "f @ e"] i' have "digits1 (i @ f @ e) = Some (i, f @ e)" by simp
  with i(2) have int: "number_int (i @ f @ e) = Some (i, f @ e)" by (auto simp: number_int_def)
  obtain d i2 where d: "i = d # i2" "ch_digit d" using i' by (cases i) auto
  then have "d \<noteq> CHR ''-''" by (auto simp: ch_digit_def ch_in_def)
  with sg d(1) have "number_sign l = (sg, i @ f @ e)" using parts(4) by (cases s) (auto split: if_splits)
  with int f e parts(4) show ?thesis by (simp add: number_lexeme_def)
qed

lemma parse_literal_numbers: "parse_literal s = Some (v, r) \<Longrightarrow> json_numbers_ok v"
  by (auto simp: parse_literal_def split: option.splits dest: number_lexeme_self)

lemma parse_numbers_ok:
  shows "parse_value n s = Some (v, r) \<Longrightarrow> json_numbers_ok v"
    and "parse_elements n s = Some (vs, r) \<Longrightarrow> list_all json_numbers_ok vs"
    and "parse_members n s = Some (ms, r) \<Longrightarrow> list_all (\<lambda>m. json_numbers_ok (snd m)) ms"
proof (induction n arbitrary: s v vs ms r)
  case (Suc n)
  { case 1
    then obtain c cs where c: "skip_ws s = c # cs" by (cases "skip_ws s") auto
    with 1 show ?case
      by (auto split: if_splits option.splits dest: Suc(2,3) parse_literal_numbers)
  next
    case 2
    then show ?case by (auto split: bind_splits option.splits dest!: Suc)
  next
    case 3
    then show ?case by (auto split: bind_splits option.splits dest!: Suc) }
qed simp_all

lemma json_tree_numbers: "json_tree s = Some v \<Longrightarrow> json_numbers_ok v"
  by (auto simp: json_tree_def simp del: parse_value.simps split: option.splits if_splits dest: parse_numbers_ok(1))

end
