(* ===== verification/Audit_Chain.thy ===== *)
theory Audit_Chain
  imports Json_Parse "HOL-Library.List_Lexorder" "HOL-Library.Char_ord"
begin

text \<open>
  The audit chain of \<open>audit/chain.ts\<close>: the canonical form of a record's payload, the hash that binds it to
  its place, the recomputation that accepts records older than the form's marker, and the scan for repeated
  members on the raw line. SHA-256, the collation of the old form and \<open>+\<close> on values that are no
  integers are parameters. The canonical form is shown to identify the payload up to the order of members,
  and the scan to find exactly the repeated members of the lines \<open>JSON.parse\<close> accepts.
\<close>

record audit_env =
  ae_sha256 :: "string \<Rightarrow> string"
  ae_collate :: "string \<Rightarrow> string \<Rightarrow> bool"
  ae_plus_one :: "json \<Rightarrow> json"

type_synonym members = "(string \<times> json) list"

definition HASH_ALGORITHM :: string where "HASH_ALGORITHM = ''sha256''"
definition HASH_STATUS :: string where "HASH_STATUS = ''chained-local''"
definition CANON :: string where "CANON = ''cu1''"
definition AUDIT_CHAIN_GAP_ACTION :: string where "AUDIT_CHAIN_GAP_ACTION = ''audit:chain-gap''"

record audit_chain_state =
  ac_chainIndex :: json
  ac_previousHash :: json

text \<open>
  \<open>x + 1\<close> on a parsed value: exact on integers (chain indices stay below \<open>2\<^sup>5\<^sup>3\<close>), the concatenation
  on strings; on other numbers and on arrays and objects it is the parameter.
\<close>

definition index_json :: "nat \<Rightarrow> json" where
  "index_json n = JNum (show_nat n)"

definition lexeme_nat :: "string \<Rightarrow> nat option" where
  "lexeme_nat l =
     (if l \<noteq> [] \<and> list_all ch_digit l \<and> (length l = 1 \<or> hd l \<noteq> CHR ''0'')
      then Some (foldl (\<lambda>n c. 10 * n + (of_char c - 48)) 0 l) else None)"

fun plus_one :: "audit_env \<Rightarrow> json \<Rightarrow> json" where
  "plus_one env (JNum l) = (case lexeme_nat l of Some n \<Rightarrow> index_json (n + 1) | None \<Rightarrow> ae_plus_one env (JNum l))"
| "plus_one env (JStr s) = JStr (s @ ''1'')"
| "plus_one env JNull = index_json 1"
| "plus_one env (JBool b) = index_json (if b then 2 else 1)"
| "plus_one env v = ae_plus_one env v"

subsection \<open>Canonical forms\<close>

fun emitCanonical :: "json \<Rightarrow> string" where
  "emitCanonical (JArr xs) = ''['' @ js_join '','' (map emitCanonical xs) @ '']''"
| "emitCanonical (JObj members) =
     ''{'' @ js_join '','' (map (\<lambda>m. json_quote (fst m) @ '':'' @ snd m)
        (sort_key fst (map (\<lambda>m. (fst m, emitCanonical (snd m))) members))) @ ''}''"
| "emitCanonical v = json_stringify v"

text \<open>
  A payload is the JSON value the round trip through the serializer leaves, with the members in the
  order they were created; on such a value the round trip changes nothing (\<open>json_parse_print\<close>).
\<close>

definition canonicalizeAuditPayload :: "members \<Rightarrow> string" where
  "canonicalizeAuditPayload event = emitCanonical (JObj event)"

fun insert_by :: "('a \<Rightarrow> 'a \<Rightarrow> bool) \<Rightarrow> 'a \<Rightarrow> 'a list \<Rightarrow> 'a list" where
  "insert_by le x [] = [x]"
| "insert_by le x (y # ys) = (if le x y then x # y # ys else y # insert_by le x ys)"

definition sort_by :: "('a \<Rightarrow> 'a \<Rightarrow> bool) \<Rightarrow> 'a list \<Rightarrow> 'a list" where
  "sort_by le xs = foldr (insert_by le) xs []"

fun normalizeAuditPayloadLocaleLegacy :: "audit_env \<Rightarrow> json \<Rightarrow> json" where
  "normalizeAuditPayloadLocaleLegacy env (JArr xs) = JArr (map (normalizeAuditPayloadLocaleLegacy env) xs)"
| "normalizeAuditPayloadLocaleLegacy env (JObj members) =
     JObj (sort_by (\<lambda>l r. ae_collate env (fst l) (fst r))
       (map (\<lambda>m. (fst m, normalizeAuditPayloadLocaleLegacy env (snd m))) members))"
| "normalizeAuditPayloadLocaleLegacy env v = v"

definition canonicalizeAuditPayloadLocaleLegacy :: "audit_env \<Rightarrow> members \<Rightarrow> string" where
  "canonicalizeAuditPayloadLocaleLegacy env event = json_stringify (normalizeAuditPayloadLocaleLegacy env (JObj event))"

subsection \<open>Chaining\<close>

text \<open>\<open>JSON.stringify\<close> leaves out a member that is undefined.\<close>

definition present :: "(string \<times> json option) list \<Rightarrow> members" where
  "present ms = List.map_filter (\<lambda>(k, v). map_option (Pair k) v) ms"

definition hashChainMaterial :: "audit_env \<Rightarrow> string \<Rightarrow> json option \<Rightarrow> json option \<Rightarrow> string" where
  "hashChainMaterial env canonicalPayload chainIndex previousHash =
     ae_sha256 env (json_stringify (JObj (present
       [(''chainIndex'', chainIndex), (''previousHash'', previousHash),
        (''algorithm'', Some (JStr HASH_ALGORITHM)), (''payload'', Some (JStr canonicalPayload))])))"

definition chain_hash :: "audit_env \<Rightarrow> members \<Rightarrow> audit_chain_state \<Rightarrow> string" where
  "chain_hash env event state =
     hashChainMaterial env (canonicalizeAuditPayload event)
       (Some (ac_chainIndex state)) (Some (ac_previousHash state))"

definition chainAuditEvent :: "audit_env \<Rightarrow> members \<Rightarrow> audit_chain_state \<Rightarrow> members" where
  "chainAuditEvent env event state =
     omap_put ''integrity'' (JObj
       [(''chainIndex'', ac_chainIndex state),
        (''hash'', JStr (chain_hash env event state)),
        (''previousHash'', ac_previousHash state),
        (''algorithm'', JStr HASH_ALGORITHM), (''status'', JStr HASH_STATUS), (''canon'', JStr CANON)]) event"

text \<open>A member of a parsed value, \<open>None\<close> when it is undefined.\<close>

definition member :: "string \<Rightarrow> json option \<Rightarrow> json option" where
  "member k v = (case v of Some (JObj ms) \<Rightarrow> omap_get ms k | _ \<Rightarrow> None)"

text \<open>The state a committed record leaves: the index after its own, and its hash.\<close>

definition state_after :: "audit_env \<Rightarrow> members \<Rightarrow> audit_chain_state" where
  "state_after env event =
     (let integrity = omap_get event ''integrity''
      in \<lparr>ac_chainIndex = (case member ''chainIndex'' integrity of Some j \<Rightarrow> plus_one env j | None \<Rightarrow> JNull),
          ac_previousHash = (case member ''hash'' integrity of Some h \<Rightarrow> h | None \<Rightarrow> JNull)\<rparr>)"

definition rehashAuditEvent :: "audit_env \<Rightarrow> members \<Rightarrow> string" where
  "rehashAuditEvent env event =
     (let integrity = omap_get event ''integrity''; payload = omap_del ''integrity'' event;
          current = hashChainMaterial env (canonicalizeAuditPayload payload)
                      (member ''chainIndex'' integrity) (member ''previousHash'' integrity)
      in if member ''canon'' integrity = Some (JStr CANON) \<or> member ''hash'' integrity = Some (JStr current)
         then current
         else let legacy = hashChainMaterial env (canonicalizeAuditPayloadLocaleLegacy env payload)
                             (member ''chainIndex'' integrity) (member ''previousHash'' integrity)
              in if member ''hash'' integrity = Some (JStr legacy) then legacy else current)"

subsection \<open>The scan for repeated members\<close>

text \<open>
  The cursor is the rest of the line; a cursor past the end is the empty rest. Each scan returns the
  duplicate found, if any, and where it stopped. A lexeme is what \<open>readString\<close> returns, quotes included.
\<close>

function lexeme_rest :: "string \<Rightarrow> (string \<times> string) option" where
  "lexeme_rest [] = None"
| "lexeme_rest (c # cs) =
     (if c = CHR 0x5C then map_option (\<lambda>(l, r). (c # take 1 cs @ l, r)) (lexeme_rest (drop 1 cs))
      else if c = CHR 0x22 then Some ([c], cs)
      else map_option (\<lambda>(l, r). (c # l, r)) (lexeme_rest cs))"
  by pat_completeness auto
termination by (relation "measure length") auto

fun readString :: "string \<Rightarrow> string option \<times> string" where
  "readString [] = (None, [])"
| "readString (c # cs) =
     (if c \<noteq> CHR 0x22 then (None, c # cs)
      else case lexeme_rest cs of None \<Rightarrow> (None, []) | Some (l, r) \<Rightarrow> (Some (c # l), r))"

definition lexeme_key :: "string \<Rightarrow> string option" where
  "lexeme_key lexeme = (case json_parse lexeme of Some (JStr k) \<Rightarrow> Some k | _ \<Rightarrow> None)"

definition at_char :: "char \<Rightarrow> string \<Rightarrow> bool" where
  "at_char c s = (case s of [] \<Rightarrow> False | d # _ \<Rightarrow> d = c)"

fun scanValue :: "nat \<Rightarrow> string \<Rightarrow> string option \<times> string"
  and scanMembers :: "nat \<Rightarrow> string list \<Rightarrow> string \<Rightarrow> string option \<times> string"
  and scanElements :: "nat \<Rightarrow> string \<Rightarrow> string option \<times> string" where
  "scanValue 0 s = (None, s)"
| "scanValue (Suc n) s =
     (let s = skip_ws s
      in if at_char (CHR ''{'') s then
           (let t = skip_ws (drop 1 s) in if at_char (CHR ''}'') t then (None, drop 1 t) else scanMembers n [] t)
         else if at_char (CHR ''['') s then
           (let t = skip_ws (drop 1 s) in if at_char (CHR '']'') t then (None, drop 1 t) else scanElements n t)
         else if at_char (CHR 0x22) s then (None, snd (readString s))
         else (None, dropWhile (\<lambda>c. \<not> json_stop c) s))"
| "scanMembers 0 seen s = (None, s)"
| "scanMembers (Suc n) seen s =
     (case readString (skip_ws s) of
        (None, r) \<Rightarrow> (None, r)
      | (Some lexeme, r) \<Rightarrow>
          (case lexeme_key lexeme of
             None \<Rightarrow> (None, r)
           | Some key \<Rightarrow>
               if key \<in> set seen then (Some key, r)
               else let r = skip_ws r
                    in if \<not> at_char (CHR '':'') r then (None, r)
                       else case scanValue n (drop 1 r) of
                              (Some d, r) \<Rightarrow> (Some d, r)
                            | (None, r) \<Rightarrow>
                                (let r = skip_ws r
                                 in if at_char (CHR '','') r then scanMembers n (key # seen) (drop 1 r)
                                    else (None, drop 1 r))))"
| "scanElements 0 s = (None, s)"
| "scanElements (Suc n) s =
     (case scanValue n s of
        (Some d, r) \<Rightarrow> (Some d, r)
      | (None, r) \<Rightarrow>
          (let r = skip_ws r in if at_char (CHR '','') r then scanElements n (drop 1 r) else (None, drop 1 r)))"

definition findDuplicateKey :: "string \<Rightarrow> string option" where
  "findDuplicateKey line = fst (scanValue (2 * length line + 2) line)"

text \<open>What it should find: the first member, in reading order, that repeats an earlier one of its object.\<close>

fun repeated :: "string list \<Rightarrow> (string \<times> string option) list \<Rightarrow> string option" where
  "repeated seen [] = None"
| "repeated seen ((k, inner) # ms) =
     (if k \<in> set seen then Some k else case inner of Some d \<Rightarrow> Some d | None \<Rightarrow> repeated (k # seen) ms)"

fun first_some :: "'a option list \<Rightarrow> 'a option" where
  "first_some [] = None"
| "first_some (x # xs) = (case x of None \<Rightarrow> first_some xs | Some y \<Rightarrow> Some y)"

fun first_repeated :: "json \<Rightarrow> string option" where
  "first_repeated (JArr xs) = first_some (map first_repeated xs)"
| "first_repeated (JObj ms) = repeated [] (map (\<lambda>m. (fst m, first_repeated (snd m))) ms)"
| "first_repeated v = None"

subsection \<open>The scan finds exactly the repeated members\<close>

lemma hex_digit_plain: "hex_digit c = Some n \<Longrightarrow> c \<noteq> CHR 0x22 \<and> c \<noteq> CHR 0x5C"
  by (auto simp: hex_digit_def dest!: map_of_SomeD set_zip_leftD)

lemma parse_hex4_lexeme:
  assumes "parse_hex4 s = Some (d, rest)" "lexeme_rest rest = Some (l, r)" "parse_chars l = Some (k, [])"
  shows "\<exists>l'. lexeme_rest s = Some (l', r) \<and> parse_hex4 l' = Some (d, l)"
proof -
  from assms(1) obtain a b c e where s: "s = a # b # c # e # rest"
    "hex_digit a \<noteq> None" "hex_digit b \<noteq> None" "hex_digit c \<noteq> None" "hex_digit e \<noteq> None"
    by (cases s rule: parse_hex4.cases) (auto split: bind_splits if_splits)
  then have "a \<notin> {CHR 0x22, CHR 0x5C}" "b \<notin> {CHR 0x22, CHR 0x5C}" "c \<notin> {CHR 0x22, CHR 0x5C}" "e \<notin> {CHR 0x22, CHR 0x5C}"
    using hex_digit_plain by auto
  then have "lexeme_rest s = Some (a # b # c # e # l, r)" using s(1) assms(2) by simp
  moreover have "parse_hex4 (a # b # c # e # l) = Some (d, l)" using assms(1) s(1) by (auto split: bind_splits if_splits)
  ultimately show ?thesis by blast
qed

lemma parse_chars_lexeme:
  "parse_chars s = Some (k, r) \<Longrightarrow> \<exists>l. lexeme_rest s = Some (l, r) \<and> parse_chars l = Some (k, [])"
proof (induction s arbitrary: k r rule: parse_chars.induct)
  case (2 c cs)
  show ?case
  proof (cases "c = CHR 0x5C")
    case True
    with 2(3) obtain d rest k' where d: "parse_escape cs = Some (d, rest)" "parse_chars rest = Some (k', r)" "k = d # k'"
      by (auto split: option.splits)
    with True 2(1) obtain l where l: "lexeme_rest rest = Some (l, r)" "parse_chars l = Some (k', [])" by force
    from d(1) obtain e es where cs: "cs = e # es" by (cases cs) auto
    show ?thesis
    proof (cases "e = CHR ''u''")
      case True
      with d(1) cs have "parse_hex4 es = Some (d, rest)" by simp
      from parse_hex4_lexeme [OF this l] obtain l' where "lexeme_rest es = Some (l', r)" "parse_hex4 l' = Some (d, l)" by blast
      with True cs \<open>c = CHR 0x5C\<close> l d show ?thesis by simp
    next
      case False
      with d(1) cs have "map_of simple_escapes e = Some d" "rest = es" by auto
      with False cs \<open>c = CHR 0x5C\<close> l d show ?thesis by simp
    qed
  next
    case False
    with 2(2,3) show ?thesis by (fastforce split: if_splits)
  qed
qed simp

lemma lexeme_key_quote: "parse_chars l = Some (k, []) \<Longrightarrow> lexeme_key (CHR 0x22 # l) = Some k"
  by (simp add: lexeme_key_def json_parse_def json_tree_def)

lemma dropWhile_stop: "list_all (\<lambda>c. \<not> json_stop c) l \<Longrightarrow> stops r \<Longrightarrow> dropWhile (\<lambda>c. \<not> json_stop c) (l @ r) = r"
  by (cases r) (auto simp: stops_def list_all_iff)

definition number_char :: "char \<Rightarrow> bool" where
  "number_char = ch_in ''0123456789.eE+-''"

lemma number_char_digit: "ch_digit c \<Longrightarrow> number_char c"
  by (auto simp: ch_digit_def number_char_def ch_in_def)

lemma digits1_split: "digits1 s = Some (ds, r) \<Longrightarrow> s = ds @ r \<and> list_all number_char ds"
proof -
  assume a: "digits1 s = Some (ds, r)"
  then have ds: "ds = takeWhile ch_digit s" and r: "r = drop (length (takeWhile ch_digit s)) s"
    by (auto simp: digits1_def Let_def split: if_splits)
  have "s = ds @ r" unfolding ds r by (metis dropWhile_eq_drop takeWhile_dropWhile_id)
  moreover have "list_all number_char ds"
    unfolding ds list_all_iff by (blast dest: set_takeWhileD intro: number_char_digit)
  ultimately show ?thesis by blast
qed

lemma number_lexeme_split: "number_lexeme s = Some (l, r) \<Longrightarrow> s = l @ r \<and> list_all number_char l"
proof -
  assume a: "number_lexeme s = Some (l, r)"
  obtain sg t where sg: "number_sign s = (sg, t)" by fastforce
  then have "s = sg @ t \<and> list_all number_char sg" by (cases s) (auto simp: number_char_def ch_in_def split: if_splits)
  moreover from a sg obtain i s2 f s3 e where
    parts: "number_int t = Some (i, s2)" "number_frac s2 = Some (f, s3)" "number_exp s3 = Some (e, r)" "l = sg @ i @ f @ e"
    by (auto simp: number_lexeme_def split: bind_splits)
  moreover have "t = i @ s2 \<and> list_all number_char i"
    using parts(1) by (auto simp: number_int_def dest!: digits1_split split: option.splits if_splits)
  moreover have "s2 = f @ s3 \<and> list_all number_char f" using parts(2)
    by (cases s2) (auto simp: number_char_def ch_in_def dest!: digits1_split split: if_splits)
  moreover have "s3 = e @ r \<and> list_all number_char e" using parts(3)
    by (cases s3) (auto simp: number_char_def ch_in_def dest!: digits1_split split: if_splits list.splits)
  ultimately show ?thesis by simp
qed

lemma strip_prefix_split: "strip_prefix p s = Some r \<Longrightarrow> s = p @ r"
  by (induction p s rule: strip_prefix.induct) (auto split: if_splits)

lemma parse_literal_cases:
  "parse_literal s = Some (v, r) \<Longrightarrow> strip_prefix ''null'' s = Some r \<or> strip_prefix ''true'' s = Some r
     \<or> strip_prefix ''false'' s = Some r \<or> (\<exists>l. number_lexeme s = Some (l, r))"
  by (auto simp: parse_literal_def split: option.splits)

lemma parse_literal_scan:
  assumes "parse_literal s = Some (v, r)" "stops r"
  shows "dropWhile (\<lambda>c. \<not> json_stop c) s = r" "first_repeated v = None"
proof -
  have plain: "\<not> json_stop c" if "number_char c" for c using that by (auto simp: number_char_def json_stop_def ch_in_def)
  have words: "list_all (\<lambda>c. \<not> json_stop c) w" if "w \<in> {''null'', ''true'', ''false''}" for w
    using that by (auto simp: json_stop_def ch_in_def)
  have "\<exists>l. s = l @ r \<and> (l \<in> {''null'', ''true'', ''false''} \<or> list_all number_char l)"
    using parse_literal_cases [OF assms(1)] by (elim disjE exE; blast dest: strip_prefix_split number_lexeme_split)
  then obtain l where l: "s = l @ r" "l \<in> {''null'', ''true'', ''false''} \<or> list_all number_char l" by (elim exE conjE)
  from l(2) have "list_all (\<lambda>c. \<not> json_stop c) l"
    by (elim disjE) (rule words, assumption, simp add: list_all_iff plain)
  with l(1) show "dropWhile (\<lambda>c. \<not> json_stop c) s = r" using dropWhile_stop [OF _ assms(2)] by blast
  show "first_repeated v = None" using assms(1) by (auto simp: parse_literal_def split: option.splits)
qed

lemma expect_at:
  "expect c s = Some r \<Longrightarrow> at_char c (skip_ws s) \<and> drop 1 (skip_ws s) = r"
  "expect c s = None \<Longrightarrow> \<not> at_char c (skip_ws s)"
  by (auto simp: expect.simps at_char_def split: list.splits if_splits)

lemma expect_stops: "expect c s = Some r \<Longrightarrow> json_stop c \<Longrightarrow> stops s"
proof -
  assume a: "expect c s = Some r" "json_stop c"
  then show ?thesis
    by (cases s) (auto simp: stops_def expect_Some skip_ws_def json_ws_stop split: if_splits)
qed

lemma json_stop_simps [simp]: "json_stop (CHR '','')" "json_stop (CHR ''}'')" "json_stop (CHR '']'')"
  by (simp_all add: json_stop_def ch_in_def)

definition scanned :: "string option \<times> string \<Rightarrow> string option \<Rightarrow> string \<Rightarrow> bool" where
  "scanned res d r = (fst res = d \<and> (d = None \<longrightarrow> snd res = r))"

lemma scan_skip_ws:
  "0 < n \<Longrightarrow> scanValue n (skip_ws s) = scanValue n s"
  "0 < n \<Longrightarrow> scanMembers n seen (skip_ws s) = scanMembers n seen s"
  "1 < n \<Longrightarrow> scanElements n (skip_ws s) = scanElements n s"
proof -
  show v: "scanValue n (skip_ws s) = scanValue n s" if "0 < n" for n using that by (cases n) simp_all
  show "0 < n \<Longrightarrow> scanMembers n seen (skip_ws s) = scanMembers n seen s" by (cases n) simp_all
  show "1 < n \<Longrightarrow> scanElements n (skip_ws s) = scanElements n s" by (cases n) (simp_all add: v)
qed

lemma scan_parsed:
  shows "parse_value n s = Some (v, r) \<Longrightarrow> stops r \<Longrightarrow> 2 * length s < m \<Longrightarrow> scanned (scanValue m s) (first_repeated v) r"
    and "parse_elements n s = Some (vs, r) \<Longrightarrow> 2 * length s + 1 < m \<Longrightarrow>
           scanned (scanElements m s) (first_some (map first_repeated vs)) r"
    and "parse_members n s = Some (ms, r) \<Longrightarrow> 2 * length s + 1 < m \<Longrightarrow>
           scanned (scanMembers m seen s) (repeated seen (map (\<lambda>m. (fst m, first_repeated (snd m))) ms)) r"
proof (induction n arbitrary: s v vs ms r m seen)
  case (Suc n)
  { case 1
    then obtain c cs m' where c: "skip_ws s = c # cs" and m: "m = Suc m'" by (cases "skip_ws s"; cases m) auto
    have len: "2 * length cs + 1 < m'" using skip_ws_shorter [OF c] 1 m by simp
    have lens: "2 * length (skip_ws cs) + 1 < m'" using len skip_ws_length [of cs] by simp
    show ?case
    proof (cases "c = CHR ''{'' \<or> c = CHR ''['' \<or> c = CHR 0x22")
      case False
      with 1 c have "parse_literal (c # cs) = Some (v, r)" by auto
      from parse_literal_scan [OF this 1(2)] False show ?thesis by (simp add: m c scanned_def at_char_def)
    next
      case True
      then consider "c = CHR ''{''" | "c = CHR ''[''" | "c = CHR 0x22" by blast
      then show ?thesis
      proof cases
        case 1
        note members = Suc(3) [of cs _ r m' "[]"] scan_skip_ws(2) [of m' "[]" cs]
        show ?thesis
        proof (cases "expect (CHR ''}'') cs")
          case None
          with 1 \<open>parse_value (Suc n) s = Some (v, r)\<close> c obtain ms where "v = JObj ms" "parse_members n cs = Some (ms, r)" by auto
          with 1 None members len show ?thesis by (auto simp: m c at_char_def [of _ "_ # _"] dest!: expect_at)
        qed (use 1 \<open>parse_value (Suc n) s = Some (v, r)\<close> c in \<open>auto simp: m at_char_def [of _ "_ # _"] scanned_def dest!: expect_at\<close>)
      next
        case 2
        note elements = Suc(2) [of cs _ r m'] scan_skip_ws(3) [of m' cs]
        show ?thesis
        proof (cases "expect (CHR '']'') cs")
          case None
          with 2 \<open>parse_value (Suc n) s = Some (v, r)\<close> c obtain vs where "v = JArr vs" "parse_elements n cs = Some (vs, r)" by auto
          with 2 None elements len show ?thesis by (auto simp: m c at_char_def [of _ "_ # _"] dest!: expect_at)
        qed (use 2 \<open>parse_value (Suc n) s = Some (v, r)\<close> c in \<open>auto simp: m at_char_def [of _ "_ # _"] scanned_def dest!: expect_at\<close>)
      next
        case 3
        with \<open>parse_value (Suc n) s = Some (v, r)\<close> c obtain k where "v = JStr k" "parse_chars cs = Some (k, r)" by auto
        with 3 parse_chars_lexeme [of cs k r] show ?thesis by (auto simp: m c at_char_def scanned_def)
      qed
    qed
  next
    case 2
    then obtain m' where m: "m = Suc m'" by (cases m) auto
    from 2 obtain v1 r1 where v: "parse_value n s = Some (v1, r1)"
      and rest: "(\<exists>r2 vs'. expect (CHR '','') r1 = Some r2 \<and> parse_elements n r2 = Some (vs', r) \<and> vs = v1 # vs')
               \<or> expect (CHR '','') r1 = None \<and> expect (CHR '']'') r1 = Some r \<and> vs = [v1]"
      by (auto split: bind_splits option.splits)
    have "stops r1" using rest by (auto dest: expect_stops)
    with Suc(1) [OF v] 2 m have scan: "scanned (scanValue m' s) (first_repeated v1) r1" by simp
    have len: "length r1 < length s" using v by (rule parse_shorter)
    show ?case
    proof (cases "first_repeated v1")
      case None
      with scan have sv: "scanValue m' s = (None, r1)" by (simp add: scanned_def prod_eq_iff)
      from rest show ?thesis
      proof (elim disjE exE conjE)
        fix r2 vs' assume e: "expect (CHR '','') r1 = Some r2" "parse_elements n r2 = Some (vs', r)" "vs = v1 # vs'"
        have "2 * length r2 + 1 < m'" using expect_shorter [OF e(1)] len 2 m by simp
        with Suc(2) [OF e(2)] e None sv expect_at(1) [OF e(1)] show ?thesis by (simp add: m)
      next
        assume e: "expect (CHR '','') r1 = None" "expect (CHR '']'') r1 = Some r" "vs = [v1]"
        with None sv expect_at(2) [OF e(1)] expect_at(1) [OF e(2)] show ?thesis by (simp add: m scanned_def)
      qed
    next
      case (Some d)
      with scan obtain q where "scanValue m' s = (Some d, q)" by (cases "scanValue m' s") (auto simp: scanned_def)
      with rest Some show ?thesis by (auto simp: m scanned_def)
    qed
  next
    case 3
    then obtain m' where m: "m = Suc m'" by (cases m) auto
    from 3 obtain r0 k r1 r2 v1 r3 where
      k: "expect (CHR 0x22) s = Some r0" "parse_chars r0 = Some (k, r1)" "expect (CHR '':'') r1 = Some r2"
      and v: "parse_value n r2 = Some (v1, r3)"
      and rest: "(\<exists>r4 ms'. expect (CHR '','') r3 = Some r4 \<and> parse_members n r4 = Some (ms', r) \<and> ms = (k, v1) # ms')
               \<or> expect (CHR '','') r3 = None \<and> expect (CHR ''}'') r3 = Some r \<and> ms = [(k, v1)]"
      by (auto split: bind_splits option.splits)
    from parse_chars_lexeme [OF k(2)] obtain l where l: "lexeme_rest r0 = Some (l, r1)" "parse_chars l = Some (k, [])" by blast
    have rs: "readString (skip_ws s) = (Some (CHR 0x22 # l), r1)" using k(1) l(1) by (simp add: expect_Some)
    note key = lexeme_key_quote [OF l(2)] and colon = expect_at(1) [OF k(3)]
    have lens: "length r2 < length s" "length r3 < length s"
      using expect_shorter [OF k(1)] parse_chars_shorter [OF k(2)] expect_shorter [OF k(3)] parse_shorter(1) [OF v] by simp_all
    have "stops r3" using rest by (auto dest: expect_stops)
    with Suc(1) [OF v, of m'] 3 m lens have scan: "scanned (scanValue m' r2) (first_repeated v1) r3" by simp
    show ?case
    proof (cases "k \<in> set seen \<or> first_repeated v1 \<noteq> None")
      case False
      with scan have sv: "scanValue m' r2 = (None, r3)" by (simp add: scanned_def prod_eq_iff)
      from rest show ?thesis
      proof (elim disjE exE conjE)
        fix r4 ms' assume e: "expect (CHR '','') r3 = Some r4" "parse_members n r4 = Some (ms', r)" "ms = (k, v1) # ms'"
        have "2 * length r4 + 1 < m'" using expect_shorter [OF e(1)] lens 3 m by simp
        with Suc(3) [OF e(2), of m' "k # seen"] e False sv rs key colon expect_at(1) [OF e(1)] show ?thesis by (simp add: m)
      next
        assume e: "expect (CHR '','') r3 = None" "expect (CHR ''}'') r3 = Some r" "ms = [(k, v1)]"
        with False sv rs key colon expect_at(2) [OF e(1)] expect_at(1) [OF e(2)] show ?thesis by (simp add: m scanned_def)
      qed
    next
      case True
      show ?thesis
      proof (cases "k \<in> set seen")
        case True
        with rest rs key show ?thesis by (auto simp: m scanned_def)
      next
        case False
        with True obtain d where d: "first_repeated v1 = Some d" by auto
        with scan obtain q where "scanValue m' r2 = (Some d, q)" by (cases "scanValue m' r2") (auto simp: scanned_def)
        with rest rs key colon d False show ?thesis by (auto simp: m scanned_def)
      qed
    qed }
qed simp_all

lemma repeated_None:
  "repeated seen ms = None \<longleftrightarrow>
     distinct (map fst ms) \<and> fst ` set ms \<inter> set seen = {} \<and> list_all (\<lambda>m. snd m = None) ms"
  by (induction seen ms rule: repeated.induct) (auto split: option.split)

lemma first_some_None: "first_some xs = None \<longleftrightarrow> list_all (\<lambda>x. x = None) xs"
  by (induction xs) (auto split: option.split)

lemma first_repeated_None: "first_repeated v = None \<longleftrightarrow> json_distinct v"
  by (induction v rule: first_repeated.induct)
    (auto simp: first_some_None repeated_None list_all_iff comp_def)

lemma duplicate_scan:
  assumes "json_tree line = Some v"
  shows "findDuplicateKey line = first_repeated v"
proof -
  from assms obtain r where p: "parse_value (2 * length line + 2) line = Some (v, r)" "skip_ws r = []"
    by (auto simp: json_tree_def split: option.splits if_splits)
  have "stops r" using p(2) by (cases r) (auto simp: stops_def skip_ws_def json_ws_stop split: if_splits)
  with scan_parsed(1) [OF p(1), of "2 * length line + 2"] show ?thesis by (simp add: findDuplicateKey_def scanned_def)
qed

text \<open>C31: the scan of the raw line is exact: on every line \<open>JSON.parse\<close> accepts, with any white space and any escapes
  in its member names, it returns the first member that repeats an earlier one of its object, and \<open>null\<close> exactly
  when the members of every object in the line are distinct, so that the parsed value is the text's tree.\<close>

theorem duplicate_scan_is_exact:
  assumes "json_tree line = Some v"
  shows "findDuplicateKey line = first_repeated v
       \<and> (findDuplicateKey line = None \<longleftrightarrow> json_distinct v)
       \<and> json_parse line = Some (json_collapse v) \<and> (json_distinct v \<longrightarrow> json_collapse v = v)"
  using assms by (simp_all add: duplicate_scan first_repeated_None json_parse_def json_collapse_distinct)

text \<open>The fuel of the scan is enough on every line, well-formed or not.\<close>

lemma lexeme_rest_shorter: "lexeme_rest s = Some (l, r) \<Longrightarrow> length r < length s"
proof (induction s arbitrary: l r rule: lexeme_rest.induct)
  case (2 c cs)
  have "length (drop 1 cs) \<le> length cs" by simp
  with 2 show ?case by (fastforce split: if_splits)
qed simp

lemma readString_shorter:
  "length (snd (readString s)) \<le> length s"
  "readString s = (Some l, r) \<Longrightarrow> length r < length s"
  by (cases s; auto split: option.split option.splits if_splits dest!: lexeme_rest_shorter)+

lemma at_char_shorter: "at_char c s \<Longrightarrow> length (drop 1 s) < length s"
  by (cases s) (auto simp: at_char_def)

lemma scan_shorter:
  shows "length (snd (scanValue n s)) \<le> length s"
    and "length (snd (scanElements n s)) \<le> length s"
    and "length (snd (scanMembers n seen s)) \<le> length s"
proof (induction n arbitrary: s seen)
  case (Suc n)
  { case 1
    have ws: "length (skip_ws t) \<le> length t" "length (drop 1 (skip_ws t)) \<le> length t" for t
      using skip_ws_length [of t] by simp_all
    have elems: "length (snd (scanElements n (skip_ws (drop 1 (skip_ws s))))) \<le> length s"
      using Suc(2) [of "skip_ws (drop 1 (skip_ws s))"] ws(1) [of "drop 1 (skip_ws s)"] ws(2) [of s] by linarith
    have mems: "length (snd (scanMembers n [] (skip_ws (drop 1 (skip_ws s))))) \<le> length s"
      using Suc(3) [of "[]" "skip_ws (drop 1 (skip_ws s))"] ws(1) [of "drop 1 (skip_ws s)"] ws(2) [of s] by linarith
    have "length (drop 1 (skip_ws (drop 1 (skip_ws s)))) \<le> length s"
      using ws(2) [of "drop 1 (skip_ws s)"] ws(2) [of s] by linarith
    moreover have "length (snd (readString (skip_ws s))) \<le> length s"
      using readString_shorter(1) [of "skip_ws s"] ws(1) [of s] by linarith
    moreover have "length (dropWhile (\<lambda>c. \<not> json_stop c) (skip_ws s)) \<le> length s"
      using length_dropWhile_le [of "\<lambda>c. \<not> json_stop c" "skip_ws s"] ws(1) [of s] by linarith
    ultimately show ?case using elems mems by (simp add: Let_def)
  next
    case 2
    obtain d r where v: "scanValue n s = (d, r)" by fastforce
    with Suc(1) [of s] have len: "length r \<le> length s" by simp
    have ws: "length (drop 1 (skip_ws r)) \<le> length r" using skip_ws_length [of r] by simp
    with Suc(2) [of "drop 1 (skip_ws r)"] len v show ?case by (auto simp: Let_def split: option.split)
  next
    case 3
    obtain l r where l: "readString (skip_ws s) = (l, r)" by fastforce
    have r: "length r \<le> length s" using readString_shorter(1) [of "skip_ws s"] skip_ws_length [of s] l by simp
    obtain d q where v: "scanValue n (drop 1 (skip_ws r)) = (d, q)" by fastforce
    have q: "length q \<le> length s" using Suc(1) [of "drop 1 (skip_ws r)"] v skip_ws_length [of r] r by simp
    have "length (drop 1 (skip_ws q)) \<le> length s" using skip_ws_length [of q] q by simp
    moreover have "length (snd (scanMembers n ks (drop 1 (skip_ws q)))) \<le> length s" for ks
      using Suc(3) [of ks "drop 1 (skip_ws q)"] calculation by linarith
    moreover have "length (skip_ws r) \<le> length s" using skip_ws_length [of r] r by linarith
    ultimately show ?case using l v q r by (auto simp: Let_def split: option.split) }
qed simp_all

lemma scan_fuel:
  shows "2 * length s < n \<Longrightarrow> 2 * length s < m \<Longrightarrow> scanValue n s = scanValue m s"
    and "2 * length s + 1 < n \<Longrightarrow> 2 * length s + 1 < m \<Longrightarrow> scanElements n s = scanElements m s"
    and "2 * length s + 1 < n \<Longrightarrow> 2 * length s + 1 < m \<Longrightarrow> scanMembers n seen s = scanMembers m seen s"
proof (induction n arbitrary: s m seen)
  case (Suc n)
  { case 1
    then obtain m' where m: "m = Suc m'" by (cases m) auto
    let ?t = "skip_ws (drop 1 (skip_ws s))"
    have inner: "2 * length ?t + 1 < n \<and> 2 * length ?t + 1 < m'" if "at_char c (skip_ws s)" for c
      using at_char_shorter [OF that] skip_ws_length [of s] skip_ws_length [of "drop 1 (skip_ws s)"] 1 m by simp
    have "scanElements n ?t = scanElements m' ?t" "scanMembers n [] ?t = scanMembers m' [] ?t" if "at_char c (skip_ws s)" for c
      using inner [OF that] Suc(2) [of ?t m'] Suc(3) [of ?t m' "[]"] by simp_all
    then show ?case by (simp add: m Let_def)
  next
    case 2
    then obtain m' where m: "m = Suc m'" by (cases m) auto
    have v: "scanValue n s = scanValue m' s" using 2 m by (intro Suc(1)) auto
    let ?r = "snd (scanValue m' s)"
    have "scanElements n (drop 1 (skip_ws ?r)) = scanElements m' (drop 1 (skip_ws ?r))" if "at_char c (skip_ws ?r)" for c
      using at_char_shorter [OF that] skip_ws_length [of ?r] scan_shorter(1) [of m' s] 2 m by (intro Suc(2)) auto
    then show ?case unfolding m scanElements.simps v by (auto simp: Let_def split: prod.split option.split)
  next
    case 3
    then obtain m' where m: "m = Suc m'" by (cases m) auto
    show ?case
    proof (cases "readString (skip_ws s)")
      case (Pair l r)
      show ?thesis
      proof (cases l)
        case (Some lexeme)
        with Pair have r: "length r < length s"
          using readString_shorter(2) [of "skip_ws s"] skip_ws_length [of s] by fastforce
        let ?r = "drop 1 (skip_ws r)"
        have "length ?r \<le> length r" using skip_ws_length [of r] by simp
        with r 3 m have lr: "2 * length ?r < n \<and> 2 * length ?r < m'" by linarith
        then have v: "scanValue n ?r = scanValue m' ?r" by (intro Suc(1)) auto
        let ?q = "snd (scanValue m' ?r)"
        have q: "length ?q < length s" using scan_shorter(1) [of m' ?r] skip_ws_length [of r] r by simp
        have "scanMembers n ks (drop 1 (skip_ws ?q)) = scanMembers m' ks (drop 1 (skip_ws ?q))" for ks
          using skip_ws_length [of ?q] q 3 m by (intro Suc(3)) auto
        then show ?thesis using Pair Some v by (auto simp: m Let_def split: prod.split option.split)
      qed (simp add: m Pair)
    qed
  }
qed simp_all

subsection \<open>Indices\<close>

lemma digit_char_value: "d < 10 \<Longrightarrow> of_char (digit_char d) = 48 + d \<and> ch_digit (digit_char d)"
  by (erule digit_cases; simp add: digit_char_def ch_digit_def ch_in_def)

lemma show_nat_head: "0 < n \<Longrightarrow> hd (show_nat n) \<noteq> CHR ''0''"
proof (induction n rule: show_nat.induct)
  case (1 n)
  show ?case
  proof (cases "n < 10")
    case True
    with 1(2) digit_char_inj [of n 0] show ?thesis by (simp add: show_nat_1) (simp add: digit_char_def)
  next
    case False
    with 1(1) show ?thesis by (subst show_nat.simps) (auto simp: hd_append)
  qed
qed

lemma show_nat_all_digits: "list_all ch_digit (show_nat n)"
  using show_nat_digits digit_char_value by (fastforce simp: list_all_iff)

lemma show_nat_form: "length (show_nat n) = 1 \<or> hd (show_nat n) \<noteq> CHR ''0''"
  using show_nat_head [of n] by (cases "n = 0") (auto simp: show_nat_1)

lemma lexeme_nat_show [simp]: "lexeme_nat (show_nat n) = Some n"
proof -
  have "foldl (\<lambda>n c. 10 * n + (of_char c - 48)) 0 (show_nat n) = n"
  proof (induction n rule: show_nat.induct)
    case (1 n)
    then show ?case
      by (cases "n < 10") (auto simp: show_nat_1 digit_char_value show_nat.simps [of n])
  qed
  then show ?thesis using show_nat_all_digits show_nat_form by (simp add: lexeme_nat_def)
qed

lemma plus_one_index [simp]: "plus_one env (index_json n) = index_json (Suc n)"
  by (simp add: index_json_def)

lemma number_lexeme_show: "number_lexeme (show_nat n) = Some (show_nat n, [])"
proof -
  have t: "takeWhile ch_digit (show_nat n) = show_nat n"
    using show_nat_all_digits by (simp add: takeWhile_eq_all_conv list_all_iff)
  obtain c t' where c: "show_nat n = c # t'" by (cases "show_nat n") auto
  then have "ch_digit c" using show_nat_all_digits [of n] by simp
  then have "c \<noteq> CHR ''-''" by (auto simp: ch_digit_def ch_in_def)
  then have "number_sign (show_nat n) = ([], show_nat n)" using c by simp
  moreover have "digits1 (show_nat n) = Some (show_nat n, [])" unfolding digits1_def Let_def t by simp
  then have "number_int (show_nat n) = Some (show_nat n, [])" using show_nat_form [of n] by (auto simp: number_int_def)
  ultimately show ?thesis by (simp add: number_lexeme_def)
qed

lemma index_json_ok [simp]: "json_numbers_ok (index_json n)" "json_distinct (index_json n)"
  by (simp_all add: index_json_def number_lexeme_show)

lemma index_json_inj [simp]: "index_json n = index_json m \<longleftrightarrow> n = m"
  by (metis index_json_def json.inject(2) lexeme_nat_show option.inject)

subsection \<open>What a hash determines\<close>

text \<open>A value with the members of every object in the order of their names.\<close>

fun sort_members :: "json \<Rightarrow> json" where
  "sort_members (JArr xs) = JArr (map sort_members xs)"
| "sort_members (JObj ms) = JObj (sort_key fst (map (\<lambda>m. (fst m, sort_members (snd m))) ms))"
| "sort_members v = v"

lemma insort_key_map:
  assumes "\<And>x. k' (g x) = k x"
  shows "map g (insort_key k x xs) = insort_key k' (g x) (map g xs)"
  using assms by (induction xs) simp_all

lemma sort_key_map:
  assumes "\<And>x. k' (g x) = k x"
  shows "map g (sort_key k xs) = sort_key k' (map g xs)"
  by (induction xs) (simp_all add: insort_key_map [where k' = k', OF assms])

lemma emitCanonical_sorted: "emitCanonical v = json_stringify (sort_members v)"
proof (induction v rule: emitCanonical.induct)
  case (1 xs)
  then show ?case by (simp add: comp_def cong: map_cong)
next
  case (2 members)
  let ?e = "\<lambda>m. (fst m, emitCanonical (snd m))" and ?s = "\<lambda>m. (fst m, sort_members (snd m))"
  have "map ?e members = map (\<lambda>m. (fst m, json_stringify (snd m))) (map ?s members)"
    using 2 by simp
  also have "sort_key fst \<dots> = map (\<lambda>m. (fst m, json_stringify (snd m))) (sort_key fst (map ?s members))"
    by (rule sort_key_map [symmetric]) simp
  finally have "sort_key fst (map ?e members) = map (\<lambda>m. (fst m, json_stringify (snd m))) (sort_key fst (map ?s members))" .
  then show ?case by (simp add: comp_def)
qed simp_all

lemma sort_members_numbers: "json_numbers_ok (sort_members v) = json_numbers_ok v"
  by (induction v rule: sort_members.induct) (auto simp: list_all_iff)

lemma emitCanonical_inj:
  "json_numbers_ok v \<Longrightarrow> json_numbers_ok w \<Longrightarrow> emitCanonical v = emitCanonical w \<Longrightarrow> sort_members v = sort_members w"
  unfolding emitCanonical_sorted by (metis json_tree_print option.inject sort_members_numbers)

lemma mset_insert_by [simp]: "mset (insert_by le x xs) = add_mset x (mset xs)"
  by (induction xs) auto

lemma mset_sort_by [simp]: "mset (sort_by le xs) = mset xs"
  by (induction xs) (simp_all add: sort_by_def)

lemma set_sort_by [simp]: "set (sort_by le xs) = set xs"
  by (metis mset_sort_by set_mset_mset)

lemma distinct_map_mset: "mset xs = mset ys \<Longrightarrow> distinct (map k xs) = distinct (map k ys)"
  by (metis mset_eq_imp_distinct_iff mset_map)

lemma filter_key_distinct:
  "distinct (map k zs) \<Longrightarrow> x \<in> set zs \<Longrightarrow> filter (\<lambda>y. k x = k y) zs = [x]"
proof (induction zs)
  case (Cons z zs)
  show ?case
  proof (cases "x = z")
    case True
    with Cons.prems show ?thesis by (auto simp: filter_empty_conv)
  next
    case False
    with Cons.prems have x: "x \<in> set zs" by simp
    then have "k x \<in> k ` set zs" by (rule imageI)
    with Cons.prems have "k x \<noteq> k z" by auto
    with Cons x show ?thesis by simp
  qed
qed simp

lemma sort_key_unique:
  fixes k :: "'a \<Rightarrow> 'b :: linorder"
  assumes "mset xs = mset ys" "distinct (map k ys)"
  shows "sort_key k xs = sort_key k ys"
proof (rule properties_for_sort_key)
  show "mset (sort_key k ys) = mset xs" using assms(1) by simp
  show "sorted (map k (sort_key k ys))" by simp
  fix x assume x: "x \<in> set (sort_key k ys)"
  have "distinct (map k xs)" "distinct (map k (sort_key k ys))"
    using assms distinct_map_mset [of xs ys k] distinct_map_mset [of "sort_key k ys" ys k] by simp_all
  moreover have "x \<in> set xs" using x assms(1) by (metis mset_eq_setD set_sort)
  ultimately show "filter (\<lambda>y. k x = k y) (sort_key k ys) = filter (\<lambda>y. k x = k y) xs"
    using x by (simp only: filter_key_distinct)
qed

lemma legacy_sorted:
  "json_distinct v \<Longrightarrow> sort_members (normalizeAuditPayloadLocaleLegacy env v) = sort_members v"
proof (induction v rule: sort_members.induct)
  case (1 xs)
  then show ?case by (simp add: list_all_iff)
next
  case (2 ms)
  let ?n = "\<lambda>m. (fst m, normalizeAuditPayloadLocaleLegacy env (snd m))" and ?s = "\<lambda>m. (fst m, sort_members (snd m))"
  have "mset (map ?s (sort_by (\<lambda>l r. ae_collate env (fst l) (fst r)) (map ?n ms))) = mset (map ?s (map ?n ms))"
    by (simp only: mset_map mset_sort_by)
  also have "map ?s (map ?n ms) = map ?s ms" using 2 by (auto simp: list_all_iff)
  finally have eq: "mset (map ?s (sort_by (\<lambda>l r. ae_collate env (fst l) (fst r)) (map ?n ms))) = mset (map ?s ms)" .
  have "distinct (map fst (map ?s ms))" using 2(2) by (simp add: comp_def)
  from sort_key_unique [OF eq this] show ?case by simp
qed simp_all

lemma legacy_numbers: "json_numbers_ok (normalizeAuditPayloadLocaleLegacy env v) = json_numbers_ok v"
  by (induction env v rule: normalizeAuditPayloadLocaleLegacy.induct) (auto simp: list_all_iff)

text \<open>Either canonical form of a payload, and what an equal text says about two payloads.\<close>

definition payload_texts :: "audit_env \<Rightarrow> members \<Rightarrow> string set" where
  "payload_texts env p = {canonicalizeAuditPayload p, canonicalizeAuditPayloadLocaleLegacy env p}"

definition members_ok :: "members \<Rightarrow> bool" where
  "members_ok p = (json_numbers_ok (JObj p) \<and> json_distinct (JObj p))"

lemma sort_members_idem: "sort_members (sort_members v) = sort_members v"
proof (induction v rule: sort_members.induct)
  case (1 xs)
  then show ?case by simp
next
  case (2 ms)
  let ?s = "\<lambda>m. (fst m, sort_members (snd m))"
  have "map ?s (sort_key fst (map ?s ms)) = sort_key fst (map ?s (map ?s ms))" by (rule sort_key_map) simp
  also have "map ?s (map ?s ms) = map ?s ms" using 2 by simp
  finally have "sort_key fst (map ?s (sort_key fst (map ?s ms))) = sort_key fst (sort_key fst (map ?s ms))" by simp
  also have "\<dots> = sort_key fst (map ?s ms)" by (simp add: sorted_sort_id sort_key_id_if_sorted)
  finally show ?case by simp
qed simp_all

lemma payload_text_value:
  assumes "members_ok p" "t \<in> payload_texts env p"
  obtains v where "t = json_stringify v" "json_numbers_ok v" "sort_members v = sort_members (JObj p)"
proof -
  from assms(1) have ok: "json_numbers_ok (JObj p)" "json_distinct (JObj p)" by (auto simp: members_ok_def)
  from assms(2) consider "t = emitCanonical (JObj p)" | "t = json_stringify (normalizeAuditPayloadLocaleLegacy env (JObj p))"
    by (auto simp only: payload_texts_def canonicalizeAuditPayload_def canonicalizeAuditPayloadLocaleLegacy_def)
  then show ?thesis
  proof cases
    case 1
    with that [of "sort_members (JObj p)"] ok(1) show ?thesis
      by (simp only: emitCanonical_sorted sort_members_numbers sort_members_idem)
  next
    case 2
    with that [of "normalizeAuditPayloadLocaleLegacy env (JObj p)"] ok show ?thesis
      by (simp only: legacy_numbers legacy_sorted)
  qed
qed

lemma payload_texts_inj:
  assumes "members_ok p" "members_ok q" "t \<in> payload_texts env p" "t \<in> payload_texts env q"
  shows "sort_members (JObj p) = sort_members (JObj q)"
proof -
  obtain v where v: "t = json_stringify v" "json_numbers_ok v" "sort_members v = sort_members (JObj p)"
    using payload_text_value [OF assms(1,3)] .
  obtain w where w: "t = json_stringify w" "json_numbers_ok w" "sort_members w = sort_members (JObj q)"
    using payload_text_value [OF assms(2,4)] .
  from v w have "v = w" by (metis json_tree_print option.inject)
  with v w show ?thesis by simp
qed

subsection \<open>Samples\<close>

text \<open>A line whose second member repeats the first through an escape.\<close>

definition smuggled_line :: string where
  "smuggled_line = [CHR ''{'', CHR 0x22, CHR ''a'', CHR 0x22, CHR '':'', CHR ''1'', CHR '','', CHR '' '', CHR 0x22, CHR 0x5C]
     @ ''u0061'' @ [CHR 0x22, CHR '':'', CHR ''2'', CHR ''}'']"

lemma duplicate_scan_is_exact_witness:
  "json_tree smuggled_line = Some (JObj [(''a'', JNum ''1''), (''a'', JNum ''2'')])
   \<and> findDuplicateKey smuggled_line = Some ''a''"
proof -
  have t: "json_tree smuggled_line = Some (JObj [(''a'', JNum ''1''), (''a'', JNum ''2'')])" by code_simp
  from duplicate_scan_is_exact [OF t] t show ?thesis by simp
qed

end
