(* ===== verification/Js_Values.thy ===== *)
theory Js_Values
  imports Json_Parse
begin

text \<open>
  What the language does with a JSON value it knows nothing of: its truth, its text in a template
  literal, its member \<open>name\<close>, and \<open>util.isDeepStrictEqual\<close>. \<open>undefined\<close> is \<open>None\<close>; a \<open>TypeError\<close> is \<open>None\<close>
  of the conversion.
\<close>

definition json_truthy :: "json \<Rightarrow> bool" where
  "json_truthy v = (case v of
       JNull \<Rightarrow> False | JBool b \<Rightarrow> b | JStr s \<Rightarrow> s \<noteq> []
     | JNum l \<Rightarrow> list_ex (ch_in ''123456789'') (takeWhile (\<lambda>c. c \<noteq> CHR ''e'' \<and> c \<noteq> CHR ''E'') l)
     | _ \<Rightarrow> True)"

subsection \<open>\<open>String(value)\<close>\<close>

text \<open>
  An object prints as its tag; one with a member \<open>toString\<close> of its own, which no JSON value can make a
  function, cannot be converted. An array prints its elements joined by commas, a null one as nothing.
\<close>

fun js_String :: "json \<Rightarrow> string option"
  and js_String_elements :: "json list \<Rightarrow> string list option" where
  "js_String JNull = Some ''null''"
| "js_String (JBool b) = Some (if b then ''true'' else ''false'')"
| "js_String (JNum l) = Some l"
| "js_String (JStr s) = Some s"
| "js_String (JArr xs) = map_option (js_join '','') (js_String_elements xs)"
| "js_String (JObj members) =
     (if omap_has members ''toString'' then None else Some ''[object Object]'')"
| "js_String_elements [] = Some []"
| "js_String_elements (x # xs) =
     (case (if x = JNull then Some [] else js_String x) of
        None \<Rightarrow> None
      | Some s \<Rightarrow> map_option ((#) s) (js_String_elements xs))"

definition js_String_opt :: "json option \<Rightarrow> string option" where
  "js_String_opt v = (case v of None \<Rightarrow> Some ''undefined'' | Some w \<Rightarrow> js_String w)"

subsection \<open>Deep equality\<close>

fun json_same :: "json \<Rightarrow> json \<Rightarrow> bool"
  and json_same_list :: "json list \<Rightarrow> json list \<Rightarrow> bool"
  and json_same_members :: "(string \<times> json) list \<Rightarrow> (string \<times> json) list \<Rightarrow> bool" where
  "json_same (JArr xs) w = (case w of JArr ys \<Rightarrow> json_same_list xs ys | _ \<Rightarrow> False)"
| "json_same (JObj ms) w =
     (case w of JObj ns \<Rightarrow> length ms = length ns \<and> json_same_members ms ns | _ \<Rightarrow> False)"
| "json_same v w = (v = w)"
| "json_same_list [] ys = (ys = [])"
| "json_same_list (x # xs) ys = (case ys of [] \<Rightarrow> False | y # ys' \<Rightarrow> json_same x y \<and> json_same_list xs ys')"
| "json_same_members [] ns = True"
| "json_same_members ((k, v) # ms) ns =
     ((case omap_get ns k of None \<Rightarrow> False | Some w \<Rightarrow> json_same v w) \<and> json_same_members ms ns)"

text \<open>On a value without repeated members it is reflexive, and it ignores nothing but the order of members.\<close>

lemma json_same_members_iff:
  "json_same_members ms ns \<longleftrightarrow>
     (\<forall>(k, v) \<in> set ms. case omap_get ns k of None \<Rightarrow> False | Some w \<Rightarrow> json_same v w)"
  by (induction ms) auto

lemma json_same_list_iff: "json_same_list xs ys \<longleftrightarrow> list_all2 json_same xs ys"
  by (induction xs arbitrary: ys) (auto simp: list_all2_Cons1 split: list.splits)

lemma json_same_refl: "json_distinct v \<Longrightarrow> json_same v v"
proof (induction v rule: json_distinct.induct)
  case (1 xs)
  then show ?case by (auto simp: json_same_list_iff list_all_iff intro!: list.rel_refl_strong)
next
  case (2 ms)
  then have "omap_get ms k = Some v" if "(k, v) \<in> set ms" for k v
    using that by (simp add: omap_get_def)
  with 2 show ?case by (auto simp: json_same_members_iff list_all_iff)
qed simp_all

end
