(* ===== verification/Audit_File.thy ===== *)
theory Audit_File
  imports Audit_Chain Js_Values
begin

text \<open>
  The audit file of \<open>audit/file-sink.ts\<close>: the lock that admits one writer, the append with its repair of
  a partial write, the recovery of the chain's state from the tail of the file, and the verification of a
  file line by line. A file is its text; an offset is a position in it (the code's byte offsets agree with
  them, since it converts a line as a whole and only compares and truncates at offsets it computed that
  way). Problems and notes are values that carry what the messages print.
\<close>

subsection \<open>The writer's lock\<close>

datatype liveness = LiveOk | NoSuchProcess | LivenessError

record lock_owner_probe =
  lp_liveness :: "int \<Rightarrow> liveness"
  lp_cmdline :: "int \<Rightarrow> string + string" \<comment> \<open>\<open>Inl\<close>: the read throws, with its message\<close>

datatype lock_owner_status = Gone | Holding string | Recycled string | Indeterminate string

definition classifyLockOwner :: "lock_owner_probe \<Rightarrow> int \<Rightarrow> lock_owner_status" where
  "classifyLockOwner probe pid =
     (if lp_liveness probe pid = NoSuchProcess then Gone
      else case lp_cmdline probe pid of
             Inl msg \<Rightarrow> Indeterminate (''pid '' @ show_int pid @ '' is alive but its identity could not be read from /proc/''
                          @ show_int pid @ ''/cmdline ('' @ msg @ '')'')
           | Inr cmdline \<Rightarrow> if js_includes cmdline ''agentwall'' then Holding cmdline else Recycled cmdline)"

text \<open>\<open>parseInt(text, 10)\<close>: leading blanks, a sign, and the digits up to the first other character.\<close>

definition digits_value :: "string \<Rightarrow> nat" where
  "digits_value ds = foldl (\<lambda>n c. 10 * n + (of_char c - 48)) 0 ds"

definition parse_int :: "string \<Rightarrow> int option" where
  "parse_int text =
     (let s = dropWhile js_space text;
          (negative, t) = (if at_char (CHR ''-'') s then (True, drop 1 s)
                           else if at_char (CHR ''+'') s then (False, drop 1 s) else (False, s));
          ds = takeWhile ch_digit t
      in if ds = [] then None
         else Some (if negative then - int (digits_value ds) else int (digits_value ds)))"

datatype lock_file = NoLock | Locked string | LockUnreadable

datatype claim_error = AlreadyOwned int | CannotConfirm int string

definition claimWriter :: "lock_owner_probe \<Rightarrow> int \<Rightarrow> lock_file \<Rightarrow> claim_error + lock_file" where
  "claimWriter probe self lock =
     (case lock of
        NoLock \<Rightarrow> Inr (Locked (show_int self))
      | _ \<Rightarrow>
         (let owner = (case lock of Locked content \<Rightarrow> (case parse_int (js_trim content) of Some n \<Rightarrow> n | None \<Rightarrow> 0) | _ \<Rightarrow> 0)
          in if owner > 0 then
               (case classifyLockOwner probe owner of
                  Holding _ \<Rightarrow> Inl (AlreadyOwned owner)
                | Indeterminate reason \<Rightarrow> Inl (CannotConfirm owner reason)
                | _ \<Rightarrow> Inr (Locked (show_int self)))
             else Inr (Locked (show_int self))))"

subsection \<open>Appending\<close>

text \<open>
  What one append does, decided by the file system: it completes, or it throws, before the file could be
  opened or after some characters landed. A repair may be impossible as well (the file cannot be opened
  again or truncated).
\<close>

datatype append_outcome = Appended | AppendFailed "nat option" string

record file_sink =
  fk_path :: string
  fk_file :: "string option"
  fk_committed :: nat

definition createFileSink :: "string \<Rightarrow> string option \<Rightarrow> file_sink" where
  "createFileSink path file =
     \<lparr>fk_path = path, fk_file = file, fk_committed = (case file of None \<Rightarrow> 0 | Some f \<Rightarrow> length f)\<rparr>"

definition discardPartialAppend :: "bool \<Rightarrow> string option \<Rightarrow> nat \<Rightarrow> bool \<times> string option" where
  "discardPartialAppend repairable file mark =
     (case file of
        None \<Rightarrow> (False, None)
      | Some f \<Rightarrow>
          if \<not> repairable \<or> length f \<le> mark then (False, file)
          else if 0 < mark \<and> f ! (mark - 1) \<noteq> CHR 0x0A then (False, file)
          else (True, Some (take mark f)))"

definition record_text :: "members \<Rightarrow> string" where
  "record_text event = json_stringify (JObj event)"

definition audit_line :: "members \<Rightarrow> string" where
  "audit_line event = record_text event @ [CHR 0x0A]"

definition file_text :: "string option \<Rightarrow> string" where
  "file_text file = (case file of None \<Rightarrow> [] | Some f \<Rightarrow> f)"

definition sink_write :: "members \<Rightarrow> append_outcome \<Rightarrow> bool \<Rightarrow> file_sink \<Rightarrow> file_sink \<times> string option" where
  "sink_write event outcome repairable sink =
     (let line = audit_line event
      in case outcome of
           Appended \<Rightarrow>
             (sink\<lparr>fk_file := Some (file_text (fk_file sink) @ line), fk_committed := fk_committed sink + length line\<rparr>, None)
         | AppendFailed landed msg \<Rightarrow>
             (let file = (case landed of None \<Rightarrow> fk_file sink
                                       | Some k \<Rightarrow> Some (file_text (fk_file sink) @ take k line));
                  (discarded, file') = discardPartialAppend repairable file (fk_committed sink)
              in (sink\<lparr>fk_file := file'\<rparr>,
                  Some (''audit append to '' @ fk_path sink @ '' failed: '' @ msg
                        @ (if discarded then ''; the partial write was rolled back'' else [])))))"

subsection \<open>Recovering the chain's state\<close>

datatype readable_file = NoFile | ReadError string | Contents string

definition fresh_state :: audit_chain_state where
  "fresh_state = \<lparr>ac_chainIndex = index_json 0, ac_previousHash = JNull\<rparr>"

definition CHUNK :: nat where "CHUNK = 8192"

function tail_candidates :: "nat \<Rightarrow> string \<Rightarrow> nat \<Rightarrow> string \<Rightarrow> string list" where
  "tail_candidates chunk text pos tail =
     (if pos = 0 \<or> chunk = 0 then []
      else let len = min chunk pos; pos' = pos - len; tail' = take len (drop pos' text) @ tail
           in if pos' = 0 \<or> 3 \<le> length (filter (\<lambda>c. c = CHR 0x0A) tail') then
                (let candidates = filter (\<lambda>l. js_trim l \<noteq> []) (js_split (CHR 0x0A) tail')
                 in if 0 < pos' \<and> candidates \<noteq> [] then drop 1 candidates else candidates)
              else tail_candidates chunk text pos' tail')"
  by auto
termination by (relation "measure (\<lambda>(chunk, text, pos, tail). pos)") auto

declare tail_candidates.simps [simp del]

fun intact :: "json option \<Rightarrow> (json \<times> json) option" where
  "intact parsed =
     (case member ''integrity'' parsed of
        None \<Rightarrow> None
      | Some integrity \<Rightarrow>
          (case (member ''chainIndex'' (Some integrity), member ''hash'' (Some integrity)) of
             (Some (JNum l), Some (JStr h)) \<Rightarrow> if json_truthy integrity then Some (JNum l, JStr h) else None
           | _ \<Rightarrow> None))"

fun walk_back :: "audit_env \<Rightarrow> nat \<Rightarrow> string list \<Rightarrow> audit_chain_state \<times> string option" where
  "walk_back env torn [] = (fresh_state, Some ''no intact record found in the audit tail'')"
| "walk_back env torn (line # earlier) =
     (case intact (json_parse line) of
        None \<Rightarrow> walk_back env (torn + 1) earlier
      | Some (index, hash) \<Rightarrow>
          (\<lparr>ac_chainIndex = plus_one env index, ac_previousHash = hash\<rparr>,
           if torn = 0 then None
           else Some (''resumed from the last intact record; discarded '' @ show_nat torn @ '' torn record(s) at the tail'')))"

definition resumeChainState :: "audit_env \<Rightarrow> readable_file \<Rightarrow> audit_chain_state \<times> string option" where
  "resumeChainState env file =
     (case file of
        NoFile \<Rightarrow> (fresh_state, None)
      | ReadError msg \<Rightarrow> (fresh_state, Some (''could not read prior chain tail: '' @ msg))
      | Contents text \<Rightarrow>
          if text = [] then (fresh_state, None)
          else let candidates = tail_candidates CHUNK text (length text) []
               in if candidates = [] then (fresh_state, Some ''audit file had no parseable record'')
                  else walk_back env 0 (rev candidates))"

subsection \<open>Verifying a file\<close>

datatype chain_problem =
    FileDoesNotExist
  | DuplicateMember nat string
  | NotValidJson nat
  | MissingIntegrity nat
  | IndexMismatch nat
  | LinkMismatch nat
  | HashMismatch nat

datatype chain_note = TornTail nat | GapDeclared nat "json option"

text \<open>The index expected next: none yet, a value, or one no parsed value is identical to (\<open>undefined + 1\<close>).\<close>

datatype expected = NoExpectation | Expected json | Unmatchable

record chain_walk =
  cw_expectedIndex :: expected
  cw_expectedPrev :: "json option"
  cw_problems :: "chain_problem list"
  cw_notes :: "chain_note list"

text \<open>\<open>===\<close> on values of two separately parsed lines: objects are never identical.\<close>

definition js_identical :: "json option \<Rightarrow> json option \<Rightarrow> bool" where
  "js_identical a b = (a = b \<and> (case a of Some (JArr _) \<Rightarrow> False | Some (JObj _) \<Rightarrow> False | _ \<Rightarrow> True))"

definition index_as_expected :: "expected \<Rightarrow> json option \<Rightarrow> bool" where
  "index_as_expected e index = (case e of NoExpectation \<Rightarrow> True | Expected j \<Rightarrow> js_identical index (Some j) | Unmatchable \<Rightarrow> False)"

definition add_problem :: "chain_problem \<Rightarrow> chain_walk \<Rightarrow> chain_walk" where
  "add_problem p w = w\<lparr>cw_problems := cw_problems w @ [p]\<rparr>"

definition add_note :: "chain_note \<Rightarrow> chain_walk \<Rightarrow> chain_walk" where
  "add_note n w = w\<lparr>cw_notes := cw_notes w @ [n]\<rparr>"

definition verify_record :: "(members \<Rightarrow> string) \<Rightarrow> audit_env \<Rightarrow> nat \<Rightarrow> members \<Rightarrow> json \<Rightarrow> chain_walk \<Rightarrow> chain_walk" where
  "verify_record rehash env i ev integ w =
     (let index = member ''chainIndex'' (Some integ); prev = member ''previousHash'' (Some integ);
          hash = member ''hash'' (Some integ);
          w = (if index_as_expected (cw_expectedIndex w) index then w else add_problem (IndexMismatch i) w);
          w = (if cw_expectedPrev w = Some JNull \<or> js_identical prev (cw_expectedPrev w) then w
               else add_problem (LinkMismatch i) w);
          w = (if hash = Some (JStr (rehash ev)) then w else add_problem (HashMismatch i) w);
          w = (if omap_get ev ''action'' = Some (JStr AUDIT_CHAIN_GAP_ACTION)
               then add_note (GapDeclared i (member ''droppedRecords'' (omap_get ev ''metadata''))) w else w)
      in w\<lparr>cw_expectedIndex := (case index of None \<Rightarrow> Unmatchable | Some j \<Rightarrow> Expected (plus_one env j)),
           cw_expectedPrev := hash\<rparr>)"

definition verify_line :: "(members \<Rightarrow> string) \<Rightarrow> audit_env \<Rightarrow> nat \<Rightarrow> string \<Rightarrow> bool \<Rightarrow> chain_walk \<Rightarrow> chain_walk" where
  "verify_line rehash env i line torn w =
     (case findDuplicateKey line of
        Some key \<Rightarrow> add_problem (DuplicateMember i key) w
      | None \<Rightarrow>
          (case json_parse line of
             None \<Rightarrow> if torn then add_note (TornTail i) w else add_problem (NotValidJson i) w
           | Some (JObj ev) \<Rightarrow>
               (case omap_get ev ''integrity'' of
                  None \<Rightarrow> add_problem (MissingIntegrity i) w
                | Some integ \<Rightarrow> if json_truthy integ then verify_record rehash env i ev integ w
                                else add_problem (MissingIntegrity i) w)
           | Some _ \<Rightarrow> add_problem (MissingIntegrity i) w))"

fun verify_lines :: "(members \<Rightarrow> string) \<Rightarrow> audit_env \<Rightarrow> nat \<Rightarrow> (string \<times> bool) list \<Rightarrow> chain_walk \<Rightarrow> chain_walk" where
  "verify_lines rehash env i [] w = w"
| "verify_lines rehash env i ((line, torn) # rest) w =
     verify_lines rehash env (i + 1) rest (verify_line rehash env (i + 1) line torn w)"

definition file_lines :: "string \<Rightarrow> (string \<times> bool) list" where
  "file_lines raw =
     (let chunks = js_split (CHR 0x0A) raw;
          unterminated = (if raw \<noteq> [] \<and> last raw = CHR 0x0A then None else Some (length chunks - 1))
      in filter (\<lambda>(text, torn). js_trim text \<noteq> [])
           (map (\<lambda>(i, text). (text, Some i = unterminated)) (zip [0..<length chunks] chunks)))"

record chain_verification =
  cv_ok :: bool
  cv_records :: nat
  cv_problems :: "chain_problem list"
  cv_notes :: "chain_note list"

definition start_walk :: chain_walk where
  "start_walk = \<lparr>cw_expectedIndex = NoExpectation, cw_expectedPrev = Some JNull, cw_problems = [], cw_notes = []\<rparr>"

definition verifyChainFile :: "(members \<Rightarrow> string) \<Rightarrow> audit_env \<Rightarrow> string option \<Rightarrow> chain_verification" where
  "verifyChainFile rehash env file =
     (case file of
        None \<Rightarrow> \<lparr>cv_ok = False, cv_records = 0, cv_problems = [FileDoesNotExist], cv_notes = []\<rparr>
      | Some raw \<Rightarrow>
          (let lines = file_lines raw; w = verify_lines rehash env 0 lines start_walk
           in \<lparr>cv_ok = (cw_problems w = []), cv_records = length lines,
               cv_problems = cw_problems w, cv_notes = cw_notes w\<rparr>))"

subsection \<open>Honest chains\<close>

text \<open>A payload as the logger makes them, a state the chain can be in, and the records chained from it.\<close>

definition payload_ok :: "members \<Rightarrow> bool" where
  "payload_ok p = (members_ok p \<and> ''integrity'' \<notin> fst ` set p)"

definition well_placed :: "audit_chain_state \<Rightarrow> bool" where
  "well_placed st = ((\<exists>n. ac_chainIndex st = index_json n) \<and> (ac_previousHash st = JNull \<or> (\<exists>h. ac_previousHash st = JStr h)))"

fun chain_all :: "audit_env \<Rightarrow> audit_chain_state \<Rightarrow> members list \<Rightarrow> members list" where
  "chain_all env st [] = []"
| "chain_all env st (p # ps) = chainAuditEvent env p st # chain_all env (state_after env (chainAuditEvent env p st)) ps"

fun chain_end :: "audit_env \<Rightarrow> audit_chain_state \<Rightarrow> members list \<Rightarrow> audit_chain_state" where
  "chain_end env st [] = st"
| "chain_end env st (p # ps) = chain_end env (state_after env (chainAuditEvent env p st)) ps"

lemma chain_all_append:
  "chain_all env st (ps @ qs) = chain_all env st ps @ chain_all env (chain_end env st ps) qs"
  "chain_end env st (ps @ qs) = chain_end env (chain_end env st ps) qs"
  by (induction ps arbitrary: st) simp_all

lemma fresh_well_placed [simp]: "well_placed fresh_state"
  by (auto simp: well_placed_def fresh_state_def)

lemma omap_put_new: "k \<notin> fst ` set m \<Longrightarrow> omap_put k v m = m @ [(k, v)]"
  by (induction k v m rule: omap_put.induct) auto

definition integrity_of :: "audit_env \<Rightarrow> members \<Rightarrow> audit_chain_state \<Rightarrow> json" where
  "integrity_of env p st = JObj
     [(''chainIndex'', ac_chainIndex st), (''hash'', JStr (chain_hash env p st)), (''previousHash'', ac_previousHash st),
      (''algorithm'', JStr HASH_ALGORITHM), (''status'', JStr HASH_STATUS), (''canon'', JStr CANON)]"

lemma chainAuditEvent_eq: "payload_ok p \<Longrightarrow> chainAuditEvent env p st = p @ [(''integrity'', integrity_of env p st)]"
  by (simp add: chainAuditEvent_def payload_ok_def omap_put_new integrity_of_def)

lemma integrity_get [simp]: "omap_get (chainAuditEvent env p st) ''integrity'' = Some (integrity_of env p st)"
  by (simp add: chainAuditEvent_def integrity_of_def)

lemma integrity_members [simp]:
  "member ''chainIndex'' (Some (integrity_of env p st)) = Some (ac_chainIndex st)"
  "member ''previousHash'' (Some (integrity_of env p st)) = Some (ac_previousHash st)"
  "member ''hash'' (Some (integrity_of env p st)) = Some (JStr (chain_hash env p st))"
  "member ''canon'' (Some (integrity_of env p st)) = Some (JStr CANON)"
  by (simp_all add: member_def integrity_of_def)

lemma state_after_chained [simp]:
  "state_after env (chainAuditEvent env p st) =
     \<lparr>ac_chainIndex = plus_one env (ac_chainIndex st), ac_previousHash = JStr (chain_hash env p st)\<rparr>"
  by (simp add: state_after_def)

lemma state_after_well_placed: "well_placed st \<Longrightarrow> well_placed (state_after env (chainAuditEvent env p st))"
  by (auto simp: well_placed_def)

lemma well_placed_ok:
  "well_placed st \<Longrightarrow> json_numbers_ok (ac_chainIndex st) \<and> json_distinct (ac_chainIndex st)
     \<and> json_numbers_ok (ac_previousHash st) \<and> json_distinct (ac_previousHash st)"
  by (auto simp: well_placed_def)

lemma chained_members_ok: "payload_ok p \<Longrightarrow> well_placed st \<Longrightarrow> members_ok (chainAuditEvent env p st)"
  using well_placed_ok [of st]
  by (auto simp: chainAuditEvent_eq members_ok_def payload_ok_def integrity_of_def)

lemma omap_del_append_new: "k \<notin> fst ` set m \<Longrightarrow> omap_del k (m @ [(k, v)]) = m"
  by (auto simp: omap_del_def filter_id_conv)

lemma rehash_chained: "payload_ok p \<Longrightarrow> rehashAuditEvent env (chainAuditEvent env p st) = chain_hash env p st"
  by (simp add: rehashAuditEvent_def chain_hash_def Let_def)
    (simp add: chainAuditEvent_eq payload_ok_def omap_del_append_new)

lemma members_ok_line:
  assumes "members_ok e"
  shows "findDuplicateKey (record_text e) = None" "json_parse (record_text e) = Some (JObj e)"
proof -
  from assms have ok: "json_numbers_ok (JObj e)" "json_distinct (JObj e)" by (auto simp: members_ok_def)
  then show "findDuplicateKey (record_text e) = None"
    using duplicate_scan [OF json_tree_print [OF ok(1)]] by (simp only: record_text_def first_repeated_None)
  show "json_parse (record_text e) = Some (JObj e)" unfolding record_text_def using ok by (rule json_parse_print)
qed

text \<open>Where the verifier stands when the next record is chained from \<open>st\<close>.\<close>

definition awaits :: "chain_walk \<Rightarrow> audit_chain_state \<Rightarrow> bool" where
  "awaits w st = (cw_expectedIndex w \<in> {NoExpectation, Expected (ac_chainIndex st)}
                \<and> cw_expectedPrev w \<in> {Some JNull, Some (ac_previousHash st)})"

definition gap_notes :: "nat \<Rightarrow> members \<Rightarrow> chain_note list" where
  "gap_notes i ev = (if omap_get ev ''action'' = Some (JStr AUDIT_CHAIN_GAP_ACTION)
                     then [GapDeclared i (member ''droppedRecords'' (omap_get ev ''metadata''))] else [])"

lemma verify_line_honest:
  assumes "payload_ok p" "well_placed st" "awaits w st"
  shows "verify_line (rehashAuditEvent env) env i (record_text (chainAuditEvent env p st)) torn w =
           w\<lparr>cw_notes := cw_notes w @ gap_notes i p,
             cw_expectedIndex := Expected (plus_one env (ac_chainIndex st)),
             cw_expectedPrev := Some (JStr (chain_hash env p st))\<rparr>"
proof -
  let ?e = "chainAuditEvent env p st"
  have line: "findDuplicateKey (record_text ?e) = None" "json_parse (record_text ?e) = Some (JObj ?e)"
    using members_ok_line [OF chained_members_ok [OF assms(1,2)]] .
  have truthy: "json_truthy (integrity_of env p st)" by (simp add: json_truthy_def integrity_of_def)
  have other: "omap_get ?e k = omap_get p k" if "k \<noteq> ''integrity''" for k using that by (simp add: chainAuditEvent_def)
  have index: "index_as_expected (cw_expectedIndex w) (Some (ac_chainIndex st))"
    using assms(2,3) by (auto simp: awaits_def index_as_expected_def js_identical_def well_placed_def index_json_def)
  have prev: "cw_expectedPrev w = Some JNull \<or> js_identical (Some (ac_previousHash st)) (cw_expectedPrev w)"
    using assms(2,3) by (auto simp: awaits_def js_identical_def well_placed_def)
  show ?thesis
    using index prev
    by (simp add: verify_line_def line truthy verify_record_def rehash_chained [OF assms(1)] other gap_notes_def add_note_def Let_def)
qed

fun chain_notes :: "nat \<Rightarrow> members list \<Rightarrow> chain_note list" where
  "chain_notes i [] = []"
| "chain_notes i (p # ps) = gap_notes (i + 1) p @ chain_notes (i + 1) ps"

lemma verify_lines_honest:
  assumes "list_all payload_ok ps" "well_placed st" "awaits w st"
  shows "cw_problems (verify_lines (rehashAuditEvent env) env i
           (map (\<lambda>e. (record_text e, False)) (chain_all env st ps)) w) = cw_problems w
       \<and> cw_notes (verify_lines (rehashAuditEvent env) env i
           (map (\<lambda>e. (record_text e, False)) (chain_all env st ps)) w) = cw_notes w @ chain_notes i ps"
  using assms
proof (induction ps arbitrary: st w i)
  case (Cons p ps)
  have next_awaits: "awaits (w\<lparr>cw_notes := n, cw_expectedIndex := Expected (plus_one env (ac_chainIndex st)),
      cw_expectedPrev := Some (JStr (chain_hash env p st))\<rparr>) (state_after env (chainAuditEvent env p st))" for n
    by (simp add: awaits_def)
  from Cons.prems Cons.IH [OF _ state_after_well_placed [OF Cons.prems(2)] next_awaits]
  show ?case by (simp add: verify_line_honest)
qed simp

subsection \<open>Lines of a file\<close>

definition file_of :: "members list \<Rightarrow> string" where
  "file_of es = concat (map audit_line es)"

lemma file_of_simps [simp]:
  "file_of [] = []" "file_of (e # es) = audit_line e @ file_of es" "file_of (es @ fs) = file_of es @ file_of fs"
  by (simp_all add: file_of_def)

lemma js_split_line: "c \<notin> set l \<Longrightarrow> js_split c (l @ c # rest) = l # js_split c rest"
proof (induction l)
  case (Cons d l)
  then have "js_split c (l @ c # rest) = l # js_split c rest" by simp
  with Cons.prems show ?case by auto
qed simp

lemma number_char_lexeme: "number_char c \<Longrightarrow> ch_in ''0123456789+-.eE'' c"
  by (auto simp: number_char_def ch_in_def)

lemma numbers_lexemes: "json_numbers_ok v \<Longrightarrow> json_lexemes_ok v"
proof (induction v rule: json_lexemes_ok.induct)
  case (1 l)
  then have "number_lexeme l = Some (l, [])" by simp
  from number_lexeme_split [OF this] number_lexeme_shorter [OF this] have "list_all number_char l" "l \<noteq> []" by auto
  then have "list_all (ch_in ''0123456789+-.eE'') l" unfolding list_all_iff using number_char_lexeme by blast
  with \<open>l \<noteq> []\<close> show ?case by (simp only: json_lexemes_ok.simps simp_thms)
qed (auto simp: list_all_iff)

lemma record_text_line:
  assumes "members_ok e"
  shows "CHR 0x0A \<notin> set (record_text e)" "js_trim (record_text e) \<noteq> []"
proof -
  from assms have "json_lexemes_ok (JObj e)" by (intro numbers_lexemes) (simp add: members_ok_def)
  then show "CHR 0x0A \<notin> set (record_text e)" unfolding record_text_def by (rule json_stringify_no_newline)
  have "\<not> js_space (CHR ''{'')" by (simp add: js_space_def)
  then show "js_trim (record_text e) \<noteq> []" by (auto simp: record_text_def js_trim_def dropWhile_eq_Nil_conv)
qed

lemma split_file_of: "list_all members_ok es \<Longrightarrow> js_split (CHR 0x0A) (file_of es) = map record_text es @ [[]]"
  by (induction es) (simp_all add: audit_line_def js_split_line record_text_line)

lemma file_of_last: "es \<noteq> [] \<Longrightarrow> file_of es \<noteq> [] \<and> last (file_of es) = CHR 0x0A"
  by (induction es rule: rev_induct) (simp_all add: audit_line_def)

lemma zip_upt_map: "map (\<lambda>(i, x). f x) (zip [i..<i + length xs] xs) = map f xs"
proof (induction xs arbitrary: i)
  case (Cons x xs)
  from Cons [of "Suc i"] show ?case by (simp add: upt_conv_Cons del: upt_Suc)
qed simp

lemma file_lines_file_of:
  assumes "list_all members_ok es"
  shows "file_lines (file_of es) = map (\<lambda>e. (record_text e, False)) es"
proof (cases "es = []")
  case False
  have chunks: "map (\<lambda>(i, text). (text, False)) (zip [0..<length es + 1] (map record_text es @ [[]]))
      = map (\<lambda>text. (text, False)) (map record_text es @ [[]])"
    using zip_upt_map [of "\<lambda>text. (text, False)" 0 "map record_text es @ [[]]"] by simp
  have "filter (\<lambda>(text, torn). js_trim text \<noteq> []) (map (\<lambda>e. (record_text e, False)) es) = map (\<lambda>e. (record_text e, False)) es"
    using assms record_text_line by (auto simp: filter_id_conv list_all_iff)
  with file_of_last [OF False] chunks show ?thesis
    by (simp add: file_lines_def split_file_of [OF assms] comp_def js_trim_def Let_def del: upt_Suc)
qed (simp add: file_lines_def js_trim_def)

lemma chain_all_ok: "list_all payload_ok ps \<Longrightarrow> well_placed st \<Longrightarrow> list_all members_ok (chain_all env st ps)"
  by (induction ps arbitrary: st) (auto simp: chained_members_ok intro!: state_after_well_placed [unfolded state_after_chained])

lemma chain_end_well_placed: "well_placed st \<Longrightarrow> well_placed (chain_end env st ps)"
  by (induction ps arbitrary: st) (auto intro!: state_after_well_placed [unfolded state_after_chained])

lemma length_chain_all [simp]: "length (chain_all env st ps) = length ps"
  by (induction ps arbitrary: st) auto

lemma honest_file_verifies:
  assumes "list_all payload_ok ps" "well_placed st"
  shows "verifyChainFile (rehashAuditEvent env) env (Some (file_of (chain_all env st ps))) =
           \<lparr>cv_ok = True, cv_records = length ps, cv_problems = [], cv_notes = chain_notes 0 ps\<rparr>"
proof -
  have "awaits start_walk st" by (simp add: awaits_def start_walk_def)
  from verify_lines_honest [OF assms this, of env 0] show ?thesis
    by (simp add: verifyChainFile_def file_lines_file_of chain_all_ok assms start_walk_def record_text_def Let_def)
qed

subsection \<open>A restart resumes where the file ends\<close>

lemma js_split_suffix: "\<exists>z zs. js_split c (xs @ ys) = z # zs @ tl (js_split c ys)"
proof (induction xs)
  case Nil
  have "js_split c ys \<noteq> []" by (cases ys) (auto split: list.split)
  then show ?case by (intro exI [of _ "hd (js_split c ys)"] exI [of _ "[]"]) simp
next
  case (Cons d xs)
  then obtain z zs where "js_split c (xs @ ys) = z # zs @ tl (js_split c ys)" by blast
  then show ?case by (cases "d = c") (auto intro: exI [of _ "[]"] exI [of _ "z # zs"])
qed

lemma length_js_split: "length (js_split c s) = Suc (length (filter (\<lambda>d. d = c) s))"
  by (induction s) (auto split: list.split)

lemma js_trim_Nil [simp]: "js_trim [] = []"
  by (simp add: js_trim_def)

lemma candidates_of_tail:
  assumes "list_all members_ok es" "file_of es = xs @ ys" "3 \<le> length (filter (\<lambda>c. c = CHR 0x0A) ys)"
  shows "\<exists>b k. filter (\<lambda>l. js_trim l \<noteq> []) (js_split (CHR 0x0A) ys) = b @ map record_text (drop k es)
           \<and> length b \<le> 1 \<and> k + 2 \<le> length es"
proof -
  let ?nb = "\<lambda>l. js_trim l \<noteq> []"
  obtain z zs where suf: "map record_text es @ [[]] = (z # zs) @ tl (js_split (CHR 0x0A) ys)"
    using js_split_suffix [of "CHR 0x0A" xs ys] split_file_of [OF assms(1)] assms(2) by auto
  let ?k = "length (z # zs)"
  have tl: "tl (js_split (CHR 0x0A) ys) = drop ?k (map record_text es @ [[]])" unfolding suf by simp
  have "3 \<le> length (tl (js_split (CHR 0x0A) ys))" using assms(3) by (simp add: length_js_split)
  then have k: "?k + 2 \<le> length es" unfolding tl by simp
  then have "tl (js_split (CHR 0x0A) ys) = map record_text (drop ?k es) @ [[]]" unfolding tl by (simp add: drop_map)
  moreover have "js_split (CHR 0x0A) ys \<noteq> []" using length_js_split [of "CHR 0x0A" ys] by (cases "js_split (CHR 0x0A) ys") auto
  ultimately obtain h where h: "js_split (CHR 0x0A) ys = h # map record_text (drop ?k es) @ [[]]"
    by (cases "js_split (CHR 0x0A) ys") auto
  have all: "filter ?nb (map record_text (drop ?k es)) = map record_text (drop ?k es)"
    using assms(1) record_text_line(2) by (auto simp: filter_id_conv list_all_iff dest: in_set_dropD)
  have "filter ?nb (js_split (CHR 0x0A) ys) = (if ?nb h then [h] else []) @ map record_text (drop ?k es)"
    unfolding h using all by simp
  with k show ?thesis by (intro exI [of _ "if ?nb h then [h] else []"] exI [of _ ?k]) simp
qed

lemma all_candidates:
  assumes "list_all members_ok es"
  shows "filter (\<lambda>l. js_trim l \<noteq> []) (js_split (CHR 0x0A) (file_of es)) = map record_text es"
  using assms record_text_line(2) by (auto simp: split_file_of filter_id_conv list_all_iff)

lemma tail_candidates_last:
  assumes "list_all members_ok es" "es \<noteq> []" "0 < chunk"
  shows "0 < pos \<Longrightarrow> pos \<le> length (file_of es) \<Longrightarrow> tail = drop pos (file_of es) \<Longrightarrow>
           tail_candidates chunk (file_of es) pos tail \<noteq> []
         \<and> last (tail_candidates chunk (file_of es) pos tail) = record_text (last es)"
proof (induction pos arbitrary: tail rule: less_induct)
  case (less pos)
  let ?text = "file_of es"
  let ?pos = "pos - min chunk pos"
  let ?tail = "take (min chunk pos) (drop ?pos ?text) @ tail"
  let ?cs = "filter (\<lambda>l. js_trim l \<noteq> []) (js_split (CHR 0x0A) ?tail)"
  have "drop pos ?text = drop (min chunk pos) (drop ?pos ?text)" by simp
  then have tail: "?tail = drop ?pos ?text" using less.prems(3) by (simp only: append_take_drop_id)
  then have cut: "?text = take ?pos ?text @ ?tail" by simp
  note step = tail_candidates.simps [of chunk ?text pos tail]
  show ?case
  proof (cases "?pos = 0")
    case True
    then have "?tail = ?text" using tail by simp
    then have "?cs = map record_text es" using all_candidates [OF assms(1)] by simp
    then have "tail_candidates chunk ?text pos tail = map record_text es" using True less.prems(1) assms(3)
      by (simp only: step Let_def) simp
    with assms(2) show ?thesis by (simp add: last_map)
  next
    case False
    show ?thesis
    proof (cases "3 \<le> length (filter (\<lambda>c. c = CHR 0x0A) ?tail)")
      case True
      from candidates_of_tail [OF assms(1) cut True] obtain b k where
        b: "?cs = b @ map record_text (drop k es)" "length b \<le> 1" "k + 2 \<le> length es" by blast
      then have "?cs \<noteq> []" by auto
      then have t: "tail_candidates chunk ?text pos tail = drop 1 ?cs"
        using False True less.prems(1) assms(3) by (simp only: step Let_def) simp
      have "drop 1 ?cs \<noteq> [] \<and> last (drop 1 ?cs) = last ?cs" using b by (simp add: last_drop)
      moreover have "last ?cs = record_text (last es)" using b by (simp add: last_map last_drop)
      ultimately show ?thesis by (simp only: t simp_thms)
    next
      case enough: False
      have "tail_candidates chunk ?text pos tail = tail_candidates chunk ?text ?pos ?tail"
        using False enough less.prems(1) assms(3) by (simp only: step Let_def) simp
      with less.IH [of ?pos ?tail] False less.prems assms(3) tail show ?thesis by simp
    qed
  qed
qed

lemma intact_chained:
  assumes "payload_ok p" "well_placed st"
  shows "intact (json_parse (record_text (chainAuditEvent env p st))) = Some (ac_chainIndex st, JStr (chain_hash env p st))"
proof -
  have "json_truthy (integrity_of env p st)" by (simp add: json_truthy_def integrity_of_def)
  moreover obtain n where "ac_chainIndex st = JNum (show_nat n)" using assms(2) by (auto simp: well_placed_def index_json_def)
  ultimately show ?thesis
    using members_ok_line(2) [OF chained_members_ok [OF assms]]
    by (simp add: member_def [of _ "Some (JObj _)"] omap_get_def [symmetric])
qed

lemma resume_honest:
  assumes "list_all payload_ok ps" "well_placed st" "ps \<noteq> []"
  shows "resumeChainState env (Contents (file_of (chain_all env st ps))) = (chain_end env st ps, None)"
proof -
  let ?es = "chain_all env st ps"
  obtain qs p where ps: "ps = qs @ [p]" using assms(3) by (metis append_butlast_last_id)
  let ?st = "chain_end env st qs"
  have ok: "list_all members_ok ?es" using assms(1,2) by (rule chain_all_ok)
  have ne: "?es \<noteq> []" by (simp add: ps chain_all_append)
  have last: "last ?es = chainAuditEvent env p ?st" by (simp add: ps chain_all_append)
  have place: "well_placed ?st" using assms(2) by (rule chain_end_well_placed)
  have "file_of ?es \<noteq> []" using file_of_last [OF ne] by simp
  then obtain cs where cs: "tail_candidates CHUNK (file_of ?es) (length (file_of ?es)) [] = cs" "cs \<noteq> []" "last cs = record_text (last ?es)"
    using tail_candidates_last [OF ok ne, of CHUNK "length (file_of ?es)" "[]"] by (simp add: CHUNK_def)
  then have rev: "rev cs = record_text (chainAuditEvent env p ?st) # rev (butlast cs)"
    by (metis append_butlast_last_id last rev_eq_Cons_iff rev_rev_ident)
  have "intact (json_parse (record_text (chainAuditEvent env p ?st))) = Some (ac_chainIndex ?st, JStr (chain_hash env p ?st))"
    using assms(1) place by (intro intact_chained) (simp_all add: ps)
  then have "walk_back env 0 (rev cs) = (chain_end env st ps, None)"
    unfolding rev by (simp add: ps chain_all_append del: intact.simps)
  with cs(1,2) \<open>file_of ?es \<noteq> []\<close> show ?thesis by (simp add: resumeChainState_def)
qed

subsection \<open>One writer\<close>

lemma ch_digit_no_space: "ch_digit c \<Longrightarrow> \<not> js_space c \<and> c \<noteq> CHR ''-'' \<and> c \<noteq> CHR ''+''"
  by (auto simp: ch_digit_def ch_in_def js_space_def)

lemma parse_int_show: "0 \<le> n \<Longrightarrow> parse_int (js_trim (show_int n)) = Some n"
proof -
  assume "0 \<le> n"
  then obtain k where k: "n = int k" by (metis nonneg_int_cases)
  let ?s = "show_nat k"
  obtain c t where c: "?s = c # t" by (cases ?s) auto
  obtain d u where d: "rev ?s = d # u" by (cases "rev ?s") auto
  have all: "\<forall>c \<in> set ?s. ch_digit c" using show_nat_all_digits by (simp add: list_all_iff)
  moreover have "c \<in> set ?s" "d \<in> set ?s" using c d by (simp, metis list.set_intros(1) set_rev)
  ultimately have plain: "\<not> js_space c" "\<not> js_space d" "c \<noteq> CHR ''-''" "c \<noteq> CHR ''+''" using ch_digit_no_space by blast+
  have "dropWhile js_space ?s = ?s" using c plain by simp
  moreover have "dropWhile js_space (rev ?s) = rev ?s" using d plain by simp
  ultimately have trim: "js_trim ?s = ?s" "dropWhile js_space ?s = ?s" by (simp_all add: js_trim_def)
  have tw: "takeWhile ch_digit ?s = ?s" using all by (simp add: takeWhile_eq_all_conv)
  have "digits_value ?s = k"
    using lexeme_nat_show [of k] by (auto simp: lexeme_nat_def digits_value_def split: if_splits)
  with plain c tw trim show ?thesis by (simp add: k show_int_def parse_int_def at_char_def Let_def)
qed

text \<open>The audit file has one writer: once a process holds the lock, another is refused for as long as that process is
  alive and either identifies itself as an agentwall or cannot be identified at all; it is let in only when the
  process is provably gone or its number belongs to something else.\<close>

theorem second_writer_is_refused:
  assumes "claimWriter probe self NoLock = Inr lock" "0 < self"
  shows "(\<exists>e. claimWriter probe other lock = Inl e) \<longleftrightarrow>
           lp_liveness probe self \<noteq> NoSuchProcess
         \<and> (case lp_cmdline probe self of Inl _ \<Rightarrow> True | Inr cmdline \<Rightarrow> js_includes cmdline ''agentwall'')"
  using assms parse_int_show [of self]
  by (auto simp: claimWriter_def classifyLockOwner_def split: sum.splits if_splits)

definition live_agentwall :: lock_owner_probe where
  "live_agentwall = \<lparr>lp_liveness = (\<lambda>pid. LiveOk), lp_cmdline = (\<lambda>pid. Inr ''node agentwall start'')\<rparr>"

lemma second_writer_is_refused_witness: "\<exists>e. claimWriter live_agentwall 9 (Locked (show_int 7)) = Inl e"
proof -
  have l: "claimWriter live_agentwall 7 NoLock = Inr (Locked (show_int 7))" by (simp add: claimWriter_def)
  have "js_includes ''node agentwall start'' ''agentwall''" by code_simp
  then show ?thesis using second_writer_is_refused [OF l, of 9] by (simp add: live_agentwall_def)
qed

end
