(* ===== verification/Audit_Tamper.thy ===== *)
theory Audit_Tamper
  imports Audit_File
begin

text \<open>
  What a verified file proves: the hash of its last record fixes every record before it, up to the order
  of members, unless two of the texts hashed for the records collide under SHA-256.
\<close>

subsection \<open>The records of a file and the texts hashed for them\<close>

definition line_record :: "string \<Rightarrow> members option" where
  "line_record line = (case json_parse line of Some (JObj ms) \<Rightarrow> Some ms | _ \<Rightarrow> None)"

definition file_records :: "string \<Rightarrow> members list" where
  "file_records text = List.map_filter line_record (map fst (file_lines text))"

definition integrity_member :: "string \<Rightarrow> members \<Rightarrow> json option" where
  "integrity_member k ev = member k (omap_get ev ''integrity'')"

definition chain_material :: "string \<Rightarrow> json option \<Rightarrow> json option \<Rightarrow> string" where
  "chain_material payload index prev =
     json_stringify (JObj (present [(''chainIndex'', index), (''previousHash'', prev),
       (''algorithm'', Some (JStr HASH_ALGORITHM)), (''payload'', Some (JStr payload))]))"

lemma hashChainMaterial_eq: "hashChainMaterial env payload index prev = ae_sha256 env (chain_material payload index prev)"
  by (simp add: hashChainMaterial_def chain_material_def)

definition record_materials :: "audit_env \<Rightarrow> members \<Rightarrow> string set" where
  "record_materials env ev =
     (\<lambda>t. chain_material t (integrity_member ''chainIndex'' ev) (integrity_member ''previousHash'' ev))
       ` payload_texts env (omap_del ''integrity'' ev)"

definition hashed_texts :: "audit_env \<Rightarrow> members list \<Rightarrow> string set" where
  "hashed_texts env evs = (\<Union>ev \<in> set evs. record_materials env ev)"

definition same_record :: "members \<Rightarrow> members \<Rightarrow> bool" where
  "same_record a b =
     (sort_members (JObj (omap_del ''integrity'' a)) = sort_members (JObj (omap_del ''integrity'' b))
      \<and> list_all (\<lambda>k. integrity_member k a = integrity_member k b) [''chainIndex'', ''previousHash'', ''hash''])"

subsection \<open>A verified file is linked\<close>

definition record_hashes :: "audit_env \<Rightarrow> members \<Rightarrow> bool" where
  "record_hashes env ev = (integrity_member ''hash'' ev = Some (JStr (rehashAuditEvent env ev)) \<and> members_ok ev)"

fun linked :: "audit_env \<Rightarrow> json option \<Rightarrow> members list \<Rightarrow> bool" where
  "linked env prev [] = True"
| "linked env prev (ev # evs) =
     (record_hashes env ev \<and> (prev = Some JNull \<or> integrity_member ''previousHash'' ev = prev)
      \<and> linked env (integrity_member ''hash'' ev) evs)"

lemma add_problem_ne [simp]: "cw_problems (add_problem p w) \<noteq> []"
  by (simp add: add_problem_def)

lemma add_note_walk [simp]:
  "cw_problems (add_note n w) = cw_problems w" "cw_expectedPrev (add_note n w) = cw_expectedPrev w"
  "cw_expectedIndex (add_note n w) = cw_expectedIndex w"
  by (simp_all add: add_note_def)

lemma add_problem_walk [simp]:
  "cw_expectedPrev (add_problem p w) = cw_expectedPrev w" "cw_expectedIndex (add_problem p w) = cw_expectedIndex w"
  by (simp_all add: add_problem_def)

lemma verify_record_clean:
  assumes "cw_problems (verify_record rehash env i ev integ w) = []"
  shows "cw_problems w = []" "member ''hash'' (Some integ) = Some (JStr (rehash ev))"
    "cw_expectedPrev w = Some JNull \<or> member ''previousHash'' (Some integ) = cw_expectedPrev w"
    "cw_expectedPrev (verify_record rehash env i ev integ w) = member ''hash'' (Some integ)"
  using assms by (auto simp: verify_record_def Let_def js_identical_def add_problem_def split: if_splits)

lemma verify_line_clean:
  assumes "cw_problems (verify_line (rehashAuditEvent env) env i line torn w) = []"
  shows "cw_problems w = [] \<and>
         (case line_record line of
            None \<Rightarrow> cw_expectedPrev (verify_line (rehashAuditEvent env) env i line torn w) = cw_expectedPrev w
          | Some ev \<Rightarrow> record_hashes env ev
              \<and> (cw_expectedPrev w = Some JNull \<or> integrity_member ''previousHash'' ev = cw_expectedPrev w)
              \<and> cw_expectedPrev (verify_line (rehashAuditEvent env) env i line torn w) = integrity_member ''hash'' ev)"
proof -
  from assms have dup: "findDuplicateKey line = None" by (cases "findDuplicateKey line") (auto simp: verify_line_def)
  show ?thesis
  proof (cases "json_parse line")
    case None
    with assms dup show ?thesis by (auto simp: verify_line_def line_record_def split: if_splits)
  next
    case (Some v)
    with assms dup obtain ev integ where v: "v = JObj ev" "omap_get ev ''integrity'' = Some integ" "json_truthy integ"
      by (cases v) (auto simp: verify_line_def split: option.splits if_splits)
    from Some obtain t where t: "json_tree line = Some t" "v = json_collapse t" by (auto simp: json_parse_def)
    from duplicate_scan_is_exact [OF t(1)] dup have "json_distinct t" "t = v" using t(2) by auto
    with json_tree_numbers [OF t(1)] v(1) have "members_ok ev" by (simp add: members_ok_def)
    moreover have "verify_line (rehashAuditEvent env) env i line torn w = verify_record (rehashAuditEvent env) env i ev integ w"
      using dup Some v by (simp add: verify_line_def)
    ultimately show ?thesis using verify_record_clean [of "rehashAuditEvent env" env i ev integ w] assms Some v
      by (simp add: line_record_def record_hashes_def integrity_member_def)
  qed
qed

lemma verify_lines_clean:
  "cw_problems (verify_lines (rehashAuditEvent env) env i lines w) = [] \<Longrightarrow>
     cw_problems w = [] \<and> linked env (cw_expectedPrev w) (List.map_filter line_record (map fst lines))"
proof (induction lines arbitrary: i w)
  case (Cons l lines)
  obtain line torn where l: "l = (line, torn)" by fastforce
  let ?w = "verify_line (rehashAuditEvent env) env (i + 1) line torn w"
  from Cons.IH [of "i + 1" ?w] Cons.prems l have
    rest: "cw_problems ?w = []" "linked env (cw_expectedPrev ?w) (List.map_filter line_record (map fst lines))" by auto
  from verify_line_clean [OF rest(1)] rest(2) show ?case
    by (cases "line_record line") (auto simp: l List.map_filter_def)
qed (simp add: List.map_filter_def)

lemma verified_linked:
  "cv_ok (verifyChainFile (rehashAuditEvent env) env (Some text)) \<Longrightarrow> linked env (Some JNull) (file_records text)"
  using verify_lines_clean [of env 0 "file_lines text" start_walk]
  by (simp add: verifyChainFile_def file_records_def start_walk_def Let_def)

subsection \<open>Equal hashes, equal records\<close>

lemma rehash_material: "\<exists>m \<in> record_materials env ev. rehashAuditEvent env ev = ae_sha256 env m"
  by (auto simp: rehashAuditEvent_def record_materials_def payload_texts_def integrity_member_def hashChainMaterial_eq Let_def)

lemma members_ok_parts:
  assumes "members_ok ev"
  shows "members_ok (omap_del k ev)" "integrity_member k ev = Some v \<Longrightarrow> json_numbers_ok v"
proof -
  have "map fst (omap_del k ev) = removeAll k (map fst ev)" by (rule fst_omap_del)
  then have d: "distinct (map fst ev) \<Longrightarrow> distinct (map fst (omap_del k ev))" by (simp add: distinct_removeAll)
  with assms show "members_ok (omap_del k ev)" by (auto simp: members_ok_def list_all_iff omap_del_mem)
  assume a: "integrity_member k ev = Some v"
  then obtain ms where ms: "omap_get ev ''integrity'' = Some (JObj ms)" "omap_get ms k = Some v"
    by (auto simp: integrity_member_def member_def split: option.splits json.splits)
  then have "(''integrity'', JObj ms) \<in> set ev" "(k, v) \<in> set ms" by (auto simp: omap_get_def dest: map_of_SomeD)
  with assms show "json_numbers_ok v" by (force simp: members_ok_def list_all_iff)
qed

lemma chain_material_inj:
  assumes "chain_material p i h = chain_material p' i' h'"
    and "\<And>v. i = Some v \<Longrightarrow> json_numbers_ok v" "\<And>v. h = Some v \<Longrightarrow> json_numbers_ok v"
    and "\<And>v. i' = Some v \<Longrightarrow> json_numbers_ok v" "\<And>v. h' = Some v \<Longrightarrow> json_numbers_ok v"
  shows "p = p' \<and> i = i' \<and> h = h'"
proof -
  let ?ms = "\<lambda>p i h. present [(''chainIndex'', i), (''previousHash'', h), (''algorithm'', Some (JStr HASH_ALGORITHM)), (''payload'', Some (JStr p))]"
  have get: "map_of (?ms p i h) ''payload'' = Some (JStr p)" "map_of (?ms p i h) ''chainIndex'' = i"
    "map_of (?ms p i h) ''previousHash'' = h" for p i h
    by (cases i; cases h; simp add: present_def List.map_filter_def)+
  have ok: "json_numbers_ok (JObj (?ms p i h))"
    if "\<And>v. i = Some v \<Longrightarrow> json_numbers_ok v" "\<And>v. h = Some v \<Longrightarrow> json_numbers_ok v" for p i h
    using that by (cases i; cases h) (simp_all add: present_def List.map_filter_def)
  have "json_tree (chain_material p i h) = Some (JObj (?ms p i h))"
    unfolding chain_material_def using ok [OF assms(2,3)] by (rule json_tree_print)
  moreover have "json_tree (chain_material p' i' h') = Some (JObj (?ms p' i' h'))"
    unfolding chain_material_def using ok [OF assms(4,5)] by (rule json_tree_print)
  ultimately have eq: "?ms p i h = ?ms p' i' h'" using assms(1) by (simp only: option.inject json.inject)
  show ?thesis 
    using get [where p = p and i = i and h = h, unfolded eq] get [where p = p' and i = i' and h = h'] by simp
qed

lemma equal_hash_equal_record:
  assumes "record_hashes env a" "record_hashes env b" "integrity_member ''hash'' a = integrity_member ''hash'' b"
    and "inj_on (ae_sha256 env) (record_materials env a \<union> record_materials env b)"
  shows "same_record a b"
proof -
  obtain m where m: "m \<in> record_materials env a" "rehashAuditEvent env a = ae_sha256 env m" using rehash_material by blast
  obtain n where n: "n \<in> record_materials env b" "rehashAuditEvent env b = ae_sha256 env n" using rehash_material by blast
  have "ae_sha256 env m = ae_sha256 env n" using assms(1-3) m n by (simp add: record_hashes_def)
  with assms(4) m(1) n(1) have mn: "m = n" by (auto dest: inj_onD)
  obtain s where s: "s \<in> payload_texts env (omap_del ''integrity'' a)"
    "m = chain_material s (integrity_member ''chainIndex'' a) (integrity_member ''previousHash'' a)"
    using m(1) by (auto simp: record_materials_def)
  obtain t where t: "t \<in> payload_texts env (omap_del ''integrity'' b)"
    "n = chain_material t (integrity_member ''chainIndex'' b) (integrity_member ''previousHash'' b)"
    using n(1) by (auto simp: record_materials_def)
  have ok: "members_ok a" "members_ok b" using assms(1,2) by (auto simp: record_hashes_def)
  from mn s(2) t(2) have "s = t \<and> integrity_member ''chainIndex'' a = integrity_member ''chainIndex'' b
      \<and> integrity_member ''previousHash'' a = integrity_member ''previousHash'' b"
    by (intro chain_material_inj) (auto intro: members_ok_parts(2) ok)
  with payload_texts_inj [OF members_ok_parts(1) [OF ok(1)] members_ok_parts(1) [OF ok(2)] s(1)] t(1) assms(3)
  show ?thesis by (simp add: same_record_def)
qed

lemma linked_snoc:
  "linked env prev (evs @ [ev]) \<longleftrightarrow>
     linked env prev evs \<and> record_hashes env ev
     \<and> (let before = (if evs = [] then prev else integrity_member ''hash'' (last evs))
        in before = Some JNull \<or> integrity_member ''previousHash'' ev = before)"
  by (induction evs arbitrary: prev) (auto simp: Let_def)

lemma linked_hashes: "linked env prev evs \<Longrightarrow> ev \<in> set evs \<Longrightarrow> record_hashes env ev"
  by (induction evs arbitrary: prev) auto

lemma linked_suffixes_agree:
  assumes "linked env (Some JNull) as" "linked env (Some JNull) bs" "as \<noteq> []" "bs \<noteq> []"
    and "integrity_member ''hash'' (last as) = integrity_member ''hash'' (last bs)"
    and "inj_on (ae_sha256 env) (hashed_texts env as \<union> hashed_texts env bs)"
  shows "i < length as \<Longrightarrow> i < length bs \<Longrightarrow> same_record (rev as ! i) (rev bs ! i)"
  using assms
proof (induction i arbitrary: as bs)
  case 0
  have lasts: "last as \<in> set as" "last bs \<in> set bs" using 0 by simp_all
  then have sub: "record_materials env (last as) \<union> record_materials env (last bs) \<subseteq> hashed_texts env as \<union> hashed_texts env bs"
    by (auto simp: hashed_texts_def)
  have "same_record (last as) (last bs)"
    using linked_hashes [OF 0(3) lasts(1)] linked_hashes [OF 0(4) lasts(2)] 0(7) inj_on_subset [OF 0(8) sub]
    by (rule equal_hash_equal_record)
  with 0 show ?case by (simp add: rev_nth last_conv_nth)
next
  case (Suc i)
  obtain as' a where a: "as = as' @ [a]" using Suc.prems(5) by (metis append_butlast_last_id)
  obtain bs' b where b: "bs = bs' @ [b]" using Suc.prems(6) by (metis append_butlast_last_id)
  have ne: "as' \<noteq> []" "bs' \<noteq> []" using Suc.prems(1,2) a b by auto
  have sub: "record_materials env a \<union> record_materials env b \<subseteq> hashed_texts env as \<union> hashed_texts env bs"
    "hashed_texts env as' \<union> hashed_texts env bs' \<subseteq> hashed_texts env as \<union> hashed_texts env bs"
    by (auto simp: hashed_texts_def a b)
  note inj = Suc.prems(8) [THEN inj_on_subset, OF sub(1)] Suc.prems(8) [THEN inj_on_subset, OF sub(2)]
  from Suc.prems(3,4) a b ne have links: "linked env (Some JNull) as'" "linked env (Some JNull) bs'"
    "record_hashes env a" "record_hashes env b"
    "integrity_member ''hash'' (last as') = Some JNull \<or> integrity_member ''previousHash'' a = integrity_member ''hash'' (last as')"
    "integrity_member ''hash'' (last bs') = Some JNull \<or> integrity_member ''previousHash'' b = integrity_member ''hash'' (last bs')"
    by (auto simp: linked_snoc Let_def)
  have "integrity_member ''hash'' a = integrity_member ''hash'' b" using Suc.prems(7) a b by simp
  from equal_hash_equal_record [OF links(3,4) this inj(1)] have "same_record a b" .
  then have "integrity_member ''previousHash'' a = integrity_member ''previousHash'' b" by (simp add: same_record_def)
  moreover have "record_hashes env (last as')" "record_hashes env (last bs')"
    using links(1,2) ne by (auto intro: linked_hashes)
  ultimately have "integrity_member ''hash'' (last as') = integrity_member ''hash'' (last bs')"
    using links(5,6) by (auto simp: record_hashes_def)
  from Suc.IH [OF _ _ links(1,2) ne this inj(2)] Suc.prems(1,2) show ?case by (simp add: a b)
qed

lemma linked_nth:
  "linked env prev evs \<Longrightarrow> Suc k < length evs \<Longrightarrow>
     integrity_member ''previousHash'' (evs ! Suc k) = Some (JStr (rehashAuditEvent env (evs ! k)))"
proof (induction evs arbitrary: prev k)
  case (Cons ev evs)
  show ?case
  proof (cases k)
    case 0
    with Cons.prems obtain ev' evs' where "evs = ev' # evs'" by (cases evs) auto
    with Cons.prems 0 show ?thesis by (auto simp: record_hashes_def)
  next
    case (Suc j)
    with Cons show ?thesis by auto
  qed
qed simp

lemma genesis_aligned:
  assumes "linked env (Some JNull) bs" "as \<noteq> []" "length as \<le> length bs"
    and "same_record (rev as ! (length as - 1)) (rev bs ! (length as - 1))"
    and "integrity_member ''previousHash'' (hd as) = Some JNull"
  shows "length as = length bs"
proof (rule ccontr)
  assume "length as \<noteq> length bs"
  with assms(3) have lt: "length as < length bs" by simp
  let ?k = "length bs - length as - 1"
  have pos: "0 < length as" using assms(2) by simp
  then have "rev as ! (length as - 1) = hd as" using assms(2) by (simp add: rev_nth hd_conv_nth)
  moreover have "length bs - Suc (length as - 1) = Suc ?k" using lt pos by arith
  then have "rev bs ! (length as - 1) = bs ! Suc ?k" using lt pos by (simp add: rev_nth)
  ultimately have "integrity_member ''previousHash'' (bs ! Suc ?k) = Some JNull"
    using assms(4,5) by (simp add: same_record_def)
  moreover have "Suc ?k < length bs" using lt pos by arith
  ultimately show False using linked_nth [OF assms(1)] by fastforce
qed


subsection \<open>Samples\<close>

text \<open>A hash without collisions, and one record written with its members in two orders.\<close>

definition sample_audit_env :: audit_env where
  "sample_audit_env = \<lparr>ae_sha256 = (\<lambda>t. t), ae_collate = (\<lambda>l r. True), ae_plus_one = (\<lambda>v. v)\<rparr>"

definition sample_payload :: members where
  "sample_payload = [(''id'', JStr ''e1''), (''action'', JStr ''tool.call'')]"

definition sample_file :: "members \<Rightarrow> string" where
  "sample_file p = file_of (chain_all sample_audit_env fresh_state [p])"

lemma file_records_of: "list_all members_ok es \<Longrightarrow> file_records (file_of es) = es"
  by (simp add: file_records_def file_lines_file_of comp_def)
    (induction es, simp_all add: List.map_filter_def line_record_def members_ok_line)


end
