(* ===== verification/Audit_Log.thy ===== *)
theory Audit_Log
  imports Audit_Tamper
begin

text \<open>
  The audit logger of \<open>audit/logger.ts\<close>: the registered sinks, the chain's state, which advances only past a
  record every durable sink took, and the account of the records they refused. A sink is a function on the
  world it writes to. The interface \<open>durable_stream\<close> says what the logger relies on: a write either stores
  the record at the end or leaves what is stored alone; the file sink provides it as long as the partial
  writes it has to undo can be undone.
\<close>

subsection \<open>State\<close>

record 'w audit_sink =
  as_fn :: nat \<comment> \<open>the identity of the function\<close>
  as_durable :: bool
  as_write :: "members \<Rightarrow> 'w \<Rightarrow> 'w \<times> string option"

record pending_gap =
  pg_count :: nat
  pg_firstFailureAt :: string
  pg_lastFailureAt :: string
  pg_reason :: string

record 'w audit_logger =
  lg_sinks :: "'w audit_sink list"
  lg_state :: audit_chain_state
  lg_gap :: "pending_gap option"
  lg_dropped :: nat
  lg_stderr :: "(string \<times> string \<times> members) list" \<comment> \<open>what was offered to stderr: when, why, the payload\<close>

record audit_drop_stats =
  ds_dropped :: nat
  ds_undeclared :: nat
  ds_since :: "string option"
  ds_reason :: "string option"

definition newLogger :: "'w audit_logger" where
  "newLogger = \<lparr>lg_sinks = [], lg_state = fresh_state, lg_gap = None, lg_dropped = 0, lg_stderr = []\<rparr>"

definition registerAuditSink :: "'w audit_sink \<Rightarrow> 'w audit_logger \<Rightarrow> 'w audit_logger" where
  "registerAuditSink sink lg =
     (if list_ex (\<lambda>registered. as_fn registered = as_fn sink) (lg_sinks lg) then lg
      else lg\<lparr>lg_sinks := lg_sinks lg @ [sink]\<rparr>)"

definition seedAuditChain :: "audit_chain_state \<Rightarrow> 'w audit_logger \<Rightarrow> 'w audit_logger" where
  "seedAuditChain state lg = lg\<lparr>lg_state := state\<rparr>"

definition resetAuditChain :: "'w audit_logger \<Rightarrow> 'w audit_logger" where
  "resetAuditChain lg = lg\<lparr>lg_sinks := [], lg_state := fresh_state, lg_gap := None, lg_dropped := 0\<rparr>"

definition auditDropStats :: "'w audit_logger \<Rightarrow> audit_drop_stats" where
  "auditDropStats lg =
     \<lparr>ds_dropped = lg_dropped lg,
      ds_undeclared = (case lg_gap lg of None \<Rightarrow> 0 | Some g \<Rightarrow> pg_count g),
      ds_since = map_option pg_firstFailureAt (lg_gap lg),
      ds_reason = map_option pg_reason (lg_gap lg)\<rparr>"

subsection \<open>Emitting\<close>

text \<open>
  The payload of a record, as the serializer writes it: the members of the context and of the result, given
  as the JSON they serialize to, without those that are undefined.
\<close>

definition event_payload :: "string \<Rightarrow> string \<Rightarrow> (string \<Rightarrow> json option) \<Rightarrow> (string \<Rightarrow> json option) \<Rightarrow> members" where
  "event_payload uuid now ctx result = present
     [(''id'', Some (JStr uuid)), (''timestamp'', Some (JStr now)), (''agentId'', ctx ''agentId''),
      (''sessionId'', ctx ''sessionId''), (''plane'', ctx ''plane''), (''action'', ctx ''action''),
      (''decision'', result ''decision''), (''riskLevel'', result ''riskLevel''),
      (''matchedRules'', result ''matchedRules''), (''reasons'', result ''reasons''),
      (''requiresApproval'', result ''requiresApproval''), (''highRiskFlow'', result ''highRiskFlow''),
      (''detections'', result ''detections''), (''metadata'', ctx ''metadata''), (''actor'', ctx ''actor''),
      (''provenance'', ctx ''provenance''), (''flow'', ctx ''flow'')]"

definition gapPayload :: "string \<Rightarrow> string \<Rightarrow> pending_gap \<Rightarrow> members" where
  "gapPayload uuid now gap =
     [(''id'', JStr uuid), (''timestamp'', JStr now), (''agentId'', JStr ''agentwall''), (''plane'', JStr ''governance''),
      (''action'', JStr AUDIT_CHAIN_GAP_ACTION), (''decision'', JStr ''deny''), (''riskLevel'', JStr ''critical''),
      (''matchedRules'', JArr []),
      (''reasons'', JArr [JStr (show_nat (pg_count gap) @ '' audit record(s) could not be written and are absent from this chain'')]),
      (''requiresApproval'', JBool False), (''highRiskFlow'', JBool False), (''detections'', JArr []),
      (''metadata'', JObj [(''droppedRecords'', JStr (show_nat (pg_count gap))),
                         (''firstFailureAt'', JStr (pg_firstFailureAt gap)),
                         (''lastFailureAt'', JStr (pg_lastFailureAt gap)), (''reason'', JStr (pg_reason gap))])]"

fun deliver_each :: "members \<Rightarrow> 'w audit_sink list \<Rightarrow> 'w \<Rightarrow> 'w \<times> string list" where
  "deliver_each event [] w = (w, [])"
| "deliver_each event (sink # sinks) w =
     (if \<not> as_durable sink then deliver_each event sinks w
      else let (w1, failure) = as_write sink event w; (w2, failures) = deliver_each event sinks w1
           in (w2, (case failure of None \<Rightarrow> failures | Some msg \<Rightarrow> msg # failures)))"

definition deliverDurable :: "members \<Rightarrow> 'w audit_logger \<Rightarrow> 'w \<Rightarrow> 'w \<times> string option" where
  "deliverDurable event lg w =
     (let (w', failures) = deliver_each event (lg_sinks lg) w
      in (w', if failures = [] then None else Some (js_join ''; '' failures)))"

fun observe_each :: "members \<Rightarrow> 'w audit_sink list \<Rightarrow> 'w \<Rightarrow> 'w" where
  "observe_each event [] w = w"
| "observe_each event (sink # sinks) w =
     observe_each event sinks (if as_durable sink then w else fst (as_write sink event w))"

definition commit :: "audit_env \<Rightarrow> members \<Rightarrow> 'w audit_logger \<Rightarrow> 'w \<Rightarrow> 'w audit_logger \<times> 'w" where
  "commit env event lg w =
     (lg\<lparr>lg_state := state_after env event\<rparr>, observe_each event (lg_sinks lg) w)"

definition dropRecord :: "string \<Rightarrow> members \<Rightarrow> string \<Rightarrow> 'w audit_logger \<Rightarrow> 'w audit_logger" where
  "dropRecord now payload reason lg =
     lg\<lparr>lg_dropped := lg_dropped lg + 1,
        lg_gap := Some (case lg_gap lg of
                          None \<Rightarrow> \<lparr>pg_count = 1, pg_firstFailureAt = now, pg_lastFailureAt = now, pg_reason = reason\<rparr>
                        | Some g \<Rightarrow> g\<lparr>pg_count := pg_count g + 1, pg_lastFailureAt := now\<rparr>),
        lg_stderr := lg_stderr lg @ [(now, reason, payload)]\<rparr>"

definition declarePendingGap :: "audit_env \<Rightarrow> string \<Rightarrow> string \<Rightarrow> 'w audit_logger \<Rightarrow> 'w \<Rightarrow> 'w audit_logger \<times> 'w" where
  "declarePendingGap env uuid now lg w =
     (case lg_gap lg of
        None \<Rightarrow> (lg, w)
      | Some gap \<Rightarrow>
          (let marker = chainAuditEvent env (gapPayload uuid now gap) (lg_state lg);
               (w1, failure) = deliverDurable marker lg w
           in case failure of
                Some _ \<Rightarrow> (lg, w1)
              | None \<Rightarrow> (let (lg2, w2) = commit env marker lg w1 in (lg2\<lparr>lg_gap := None\<rparr>, w2))))"

text \<open>What one call of \<open>emit\<close> is given: the ids and instants it draws, and the members of context and result.\<close>

record emit_call =
  ec_markerId :: string
  ec_markerAt :: string
  ec_id :: string
  ec_at :: string
  ec_dropAt :: string
  ec_ctx :: "string \<Rightarrow> json option"
  ec_result :: "string \<Rightarrow> json option"

definition call_payload :: "emit_call \<Rightarrow> members" where
  "call_payload c = event_payload (ec_id c) (ec_at c) (ec_ctx c) (ec_result c)"

definition emit :: "audit_env \<Rightarrow> emit_call \<Rightarrow> 'w audit_logger \<Rightarrow> 'w \<Rightarrow> 'w audit_logger \<times> 'w \<times> members" where
  "emit env c lg w =
     (let (lg1, w1) = declarePendingGap env (ec_markerId c) (ec_markerAt c) lg w;
          payload = call_payload c;
          event = chainAuditEvent env payload (lg_state lg1);
          (w2, failure) = deliverDurable event lg1 w1
      in case failure of
           None \<Rightarrow> (let (lg3, w3) = commit env event lg1 w2 in (lg3, w3, event))
         | Some reason \<Rightarrow> (dropRecord (ec_dropAt c) payload reason lg1, w2, event))"

fun emit_all :: "audit_env \<Rightarrow> emit_call list \<Rightarrow> 'w audit_logger \<Rightarrow> 'w \<Rightarrow> 'w audit_logger \<times> 'w" where
  "emit_all env [] lg w = (lg, w)"
| "emit_all env (c # cs) lg w = (let (lg1, w1, event) = emit env c lg w in emit_all env cs lg1 w1)"

subsection \<open>Payloads\<close>

lemma present_simps [simp]:
  "present [] = []" "present ((k, None) # ms) = present ms" "present ((k, Some v) # ms) = (k, v) # present ms"
  by (simp_all add: present_def List.map_filter_def)

lemma present_keys: "fst ` set (present ms) \<subseteq> fst ` set ms"
  by (force simp: present_def List.map_filter_def)

definition call_ok :: "emit_call \<Rightarrow> bool" where
  "call_ok c = (members_ok (call_payload c) \<and> omap_get (call_payload c) ''action'' \<noteq> Some (JStr AUDIT_CHAIN_GAP_ACTION))"

lemma call_payload_ok: "call_ok c \<Longrightarrow> payload_ok (call_payload c)"
proof -
  assume "call_ok c"
  have "fst ` set (call_payload c) \<subseteq> set [''id'', ''timestamp'', ''agentId'', ''sessionId'', ''plane'', ''action'', ''decision'',
      ''riskLevel'', ''matchedRules'', ''reasons'', ''requiresApproval'', ''highRiskFlow'', ''detections'', ''metadata'',
      ''actor'', ''provenance'', ''flow'']"
    unfolding call_payload_def event_payload_def by (rule subset_trans [OF present_keys]) simp
  then have "''integrity'' \<notin> fst ` set (call_payload c)" by auto
  with \<open>call_ok c\<close> show ?thesis by (simp add: payload_ok_def call_ok_def)
qed

lemma gapPayload_ok: "payload_ok (gapPayload uuid now g)"
  by (simp add: payload_ok_def members_ok_def gapPayload_def)

text \<open>What a payload declares lost, and what is not declared yet.\<close>

definition declared_drops :: "members \<Rightarrow> nat" where
  "declared_drops p =
     (if omap_get p ''action'' = Some (JStr AUDIT_CHAIN_GAP_ACTION)
      then case member ''droppedRecords'' (omap_get p ''metadata'') of Some (JStr n) \<Rightarrow> (case lexeme_nat n of Some k \<Rightarrow> k | None \<Rightarrow> 0) | _ \<Rightarrow> 0
      else 0)"

lemma declared_drops_gap: "declared_drops (gapPayload uuid now g) = pg_count g"
  by (simp add: declared_drops_def gapPayload_def member_def)

lemma declared_drops_call: "call_ok c \<Longrightarrow> declared_drops (call_payload c) = 0"
  by (simp add: declared_drops_def call_ok_def)

definition is_marker :: "members \<Rightarrow> bool" where
  "is_marker p = (omap_get p ''action'' = Some (JStr AUDIT_CHAIN_GAP_ACTION))"

lemma gap_marker: "is_marker (gapPayload uuid now g)"
  by (simp add: is_marker_def gapPayload_def)

lemma call_no_marker: "call_ok c \<Longrightarrow> \<not> is_marker (call_payload c)"
  by (simp add: is_marker_def call_ok_def)

definition undeclared :: "'w audit_logger \<Rightarrow> nat" where
  "undeclared lg = ds_undeclared (auditDropStats lg)"

lemma undeclared_eq: "undeclared lg = (case lg_gap lg of None \<Rightarrow> 0 | Some g \<Rightarrow> pg_count g)"
  by (simp add: undeclared_def auditDropStats_def)

subsection \<open>The durable stream\<close>

text \<open>
  What the logger needs of its one durable sink: a write stores the record after those already stored, or
  reports a refusal and stores nothing.
\<close>

locale durable_stream =
  fixes put :: "members \<Rightarrow> 'w \<Rightarrow> 'w \<times> string option"
    and stored :: "'w \<Rightarrow> members list"
    and good :: "'w \<Rightarrow> bool"
  assumes stores: "good w \<Longrightarrow> members_ok e \<Longrightarrow> put e w = (w', None) \<Longrightarrow> good w' \<and> stored w' = stored w @ [e]"
    and refuses: "good w \<Longrightarrow> members_ok e \<Longrightarrow> put e w = (w', Some msg) \<Longrightarrow> good w' \<and> stored w' = stored w"
begin

definition quiet :: "'w audit_sink \<Rightarrow> bool" where
  "quiet s = (\<not> as_durable s \<and> (\<forall>e w. good w \<longrightarrow> good (fst (as_write s e w)) \<and> stored (fst (as_write s e w)) = stored w))"

definition sinks_fit :: "'w audit_sink list \<Rightarrow> bool" where
  "sinks_fit sinks = (\<exists>a d b. sinks = a @ d # b \<and> as_durable d \<and> as_write d = put \<and> list_all quiet a \<and> list_all quiet b)"

lemma deliver_quiet: "list_all quiet sinks \<Longrightarrow> deliver_each e sinks w = (w, [])"
  by (induction sinks) (simp_all add: quiet_def)

lemma deliver_quiet_append: "list_all quiet a \<Longrightarrow> deliver_each e (a @ sinks) w = deliver_each e sinks w"
  by (induction a) (simp_all add: quiet_def)

lemma deliver: "sinks_fit (lg_sinks lg) \<Longrightarrow> deliverDurable e lg w = put e w"
proof -
  assume "sinks_fit (lg_sinks lg)"
  then obtain a d b where s: "lg_sinks lg = a @ d # b" "as_durable d" "as_write d = put" "list_all quiet a" "list_all quiet b"
    by (auto simp: sinks_fit_def)
  obtain w' f where wr: "put e w = (w', f)" by fastforce
  have "deliver_each e (lg_sinks lg) w = (w', (case f of None \<Rightarrow> [] | Some m \<Rightarrow> [m]))"
    using s by (simp add: deliver_quiet_append deliver_quiet wr)
  with wr show ?thesis by (cases f) (simp_all add: deliverDurable_def)
qed

lemma observe_sinks:
  "good w \<Longrightarrow> list_all (\<lambda>s. as_durable s \<or> quiet s) sinks \<Longrightarrow>
     good (observe_each e sinks w) \<and> stored (observe_each e sinks w) = stored w"
  by (induction sinks arbitrary: w) (auto simp: quiet_def)

lemma observe: "sinks_fit sinks \<Longrightarrow> good w \<Longrightarrow> good (observe_each e sinks w) \<and> stored (observe_each e sinks w) = stored w"
  by (rule observe_sinks) (auto simp: sinks_fit_def list_all_iff)

text \<open>The log's invariant: what is stored is one chain from \<open>st0\<close>, and every loss is declared in it or pending.\<close>

definition log_inv :: "audit_env \<Rightarrow> nat \<Rightarrow> audit_chain_state \<Rightarrow> members list \<Rightarrow> members list \<Rightarrow> 'w audit_logger \<Rightarrow> 'w \<Rightarrow> bool" where
  "log_inv env n st0 base ps lg w =
     (good w \<and> sinks_fit (lg_sinks lg) \<and> well_placed st0 \<and> list_all payload_ok ps \<and> stored w = base @ chain_all env st0 ps
      \<and> lg_state lg = chain_end env st0 ps \<and> lg_dropped lg = sum_list (map declared_drops ps) + undeclared lg
      \<and> length (filter (Not \<circ> is_marker) ps) + lg_dropped lg = n)"

lemma declare_inv:
  assumes "log_inv env n st0 base ps lg w" "declarePendingGap env uuid now lg w = (lg', w')"
  shows "\<exists>qs. log_inv env n st0 base (ps @ qs) lg' w' \<and> list_all (\<lambda>q. \<exists>g. q = gapPayload uuid now g) qs"
proof (cases "lg_gap lg")
  case None
  with assms show ?thesis by (intro exI [of _ "[]"]) (simp add: declarePendingGap_def)
next
  case (Some gap)
  let ?q = "gapPayload uuid now gap" and ?m = "chainAuditEvent env (gapPayload uuid now gap) (lg_state lg)"
  from assms(1) have inv: "good w" "sinks_fit (lg_sinks lg)" "well_placed (lg_state lg)"
    by (auto simp: log_inv_def chain_end_well_placed)
  have ok: "members_ok ?m" using gapPayload_ok inv(3) by (rule chained_members_ok)
  obtain w1 f where wr: "put ?m w = (w1, f)" by fastforce
  show ?thesis
  proof (cases f)
    case None
    with wr stores [OF inv(1) ok] have w1: "good w1" "stored w1 = stored w @ [?m]" by auto
    from assms(2) have lg': "lg' = lg\<lparr>lg_state := state_after env ?m, lg_gap := None\<rparr>" "w' = observe_each ?m (lg_sinks lg) w1"
      using deliver [OF inv(2), of ?m w] wr None \<open>lg_gap lg = Some gap\<close>
      by (auto simp: declarePendingGap_def commit_def Let_def simp del: state_after_chained)
    from assms(1) observe [OF inv(2) w1(1), of ?m] w1(2) Some gapPayload_ok have "log_inv env n st0 base (ps @ [?q]) lg' w'"
      by (auto simp: log_inv_def lg' chain_all_append undeclared_eq declared_drops_gap gap_marker simp del: state_after_chained)
    then show ?thesis by (intro exI [of _ "[?q]"]) auto
  next
    case failed: (Some msg)
    with wr refuses [OF inv(1) ok] have w1: "good w1" "stored w1 = stored w" by auto
    from assms(2) have "lg' = lg" "w' = w1"
      using deliver [OF inv(2), of ?m w] wr failed Some by (auto simp: declarePendingGap_def Let_def)
    with assms(1) w1 show ?thesis by (intro exI [of _ "[]"]) (simp add: log_inv_def)
  qed
qed

lemma emit_inv:
  assumes "log_inv env n st0 base ps lg w" "call_ok c" "emit env c lg w = (lg', w', event)"
  shows "\<exists>qs. log_inv env (Suc n) st0 base (ps @ qs) lg' w'"
proof -
  obtain lg1 w1 where d: "declarePendingGap env (ec_markerId c) (ec_markerAt c) lg w = (lg1, w1)" by fastforce
  from declare_inv [OF assms(1) d] obtain qs where inv1: "log_inv env n st0 base (ps @ qs) lg1 w1" by blast
  let ?p = "call_payload c" and ?e = "chainAuditEvent env (call_payload c) (lg_state lg1)"
  from inv1 have inv: "good w1" "sinks_fit (lg_sinks lg1)" "well_placed (lg_state lg1)"
    by (auto simp: log_inv_def chain_end_well_placed)
  have p: "payload_ok ?p" using assms(2) by (rule call_payload_ok)
  have ok: "members_ok ?e" using p inv(3) by (rule chained_members_ok)
  obtain w2 f where wr: "put ?e w1 = (w2, f)" by fastforce
  note emit = assms(3) [unfolded emit_def d Let_def prod.case deliver [OF inv(2)] wr]
  show ?thesis
  proof (cases f)
    case None
    with wr stores [OF inv(1) ok] have w2: "good w2" "stored w2 = stored w1 @ [?e]" by auto
    from emit None have lg': "lg' = lg1\<lparr>lg_state := state_after env ?e\<rparr>" "w' = observe_each ?e (lg_sinks lg1) w2"
      by (auto simp: commit_def simp del: state_after_chained)
    from inv1 observe [OF inv(2) w2(1), of ?e] w2(2) p have "log_inv env (Suc n) st0 base ((ps @ qs) @ [?p]) lg' w'"
      by (auto simp: log_inv_def lg' chain_all_append undeclared_eq declared_drops_call [OF assms(2)] call_no_marker [OF assms(2)] simp del: state_after_chained)
    then show ?thesis by (auto simp only: append_assoc)
  next
    case (Some msg)
    with wr refuses [OF inv(1) ok] have w2: "good w2" "stored w2 = stored w1" by auto
    from emit Some have "lg' = dropRecord (ec_dropAt c) ?p msg lg1" "w' = w2" by auto
    with inv1 w2 have "log_inv env (Suc n) st0 base (ps @ qs) lg' w'"
      by (auto simp: log_inv_def dropRecord_def undeclared_eq split: option.split)
    then show ?thesis by blast
  qed
qed

lemma emit_all_inv:
  assumes "log_inv env n st0 base ps lg w" "list_all call_ok cs" "emit_all env cs lg w = (lg', w')"
  shows "\<exists>qs. log_inv env (n + length cs) st0 base (ps @ qs) lg' w'"
  using assms
proof (induction cs arbitrary: n ps lg w)
  case Nil
  then show ?case by (intro exI [of _ "[]"]) simp
next
  case (Cons c cs)
  obtain lg1 w1 e where e: "emit env c lg w = (lg1, w1, e)" by (metis prod_cases3)
  from Cons.prems(2) emit_inv [OF Cons.prems(1) _ e] obtain qs where "log_inv env (Suc n) st0 base (ps @ qs) lg1 w1" by auto
  from Cons.IH [OF this] Cons.prems(2,3) e obtain rs where "log_inv env (Suc n + length cs) st0 base ((ps @ qs) @ rs) lg' w'" by auto
  then show ?case by (auto simp: append_assoc)
qed

end

subsection \<open>The file sink provides it\<close>

text \<open>
  The world of a process that logs to a file: the sink, and what the file system will do at each append
  (completing once the script is used up).
\<close>

record file_world =
  fw_sink :: file_sink
  fw_script :: "(append_outcome \<times> bool) list"

definition file_write :: "members \<Rightarrow> file_world \<Rightarrow> file_world \<times> string option" where
  "file_write event w =
     (let (outcome, repairable) = (case fw_script w of [] \<Rightarrow> (Appended, True) | next_step # _ \<Rightarrow> next_step);
          (sink, failure) = sink_write event outcome repairable (fw_sink w)
      in (w\<lparr>fw_sink := sink, fw_script := drop 1 (fw_script w)\<rparr>, failure))"

definition stored_records :: "file_world \<Rightarrow> members list" where
  "stored_records w = file_records (file_text (fk_file (fw_sink w)))"

definition well_kept :: "file_world \<Rightarrow> bool" where
  "well_kept w =
     (file_text (fk_file (fw_sink w)) = file_of (stored_records w) \<and> list_all members_ok (stored_records w)
      \<and> fk_committed (fw_sink w) = length (file_text (fk_file (fw_sink w))) \<and> list_all snd (fw_script w))"

lemma well_keptI:
  assumes "list_all members_ok es" "file_text (fk_file (fw_sink w)) = file_of es"
    "fk_committed (fw_sink w) = length (file_of es)" "list_all snd (fw_script w)"
  shows "well_kept w \<and> stored_records w = es"
  using assms by (simp add: well_kept_def stored_records_def file_records_of)

lemma take_boundary:
  "0 < length (file_of es) \<Longrightarrow> (file_of es @ x) ! (length (file_of es) - 1) = CHR 0x0A"
proof -
  assume ne: "0 < length (file_of es)"
  then have "es \<noteq> []" by auto
  then have "last (file_of es) = CHR 0x0A" "file_of es \<noteq> []" using file_of_last by auto
  then show ?thesis by (simp add: nth_append last_conv_nth)
qed

lemma sink_write_kept:
  assumes "file_text (fk_file sink) = file_of es" "fk_committed sink = length (file_of es)"
    and "sink_write e outcome True sink = (sink', failure)"
  shows "fk_committed sink' = length (file_text (fk_file sink'))"
    and "file_text (fk_file sink') = file_of (case failure of None \<Rightarrow> es @ [e] | Some _ \<Rightarrow> es)"
proof -
  have "fk_committed sink' = length (file_text (fk_file sink'))
      \<and> file_text (fk_file sink') = file_of (case failure of None \<Rightarrow> es @ [e] | Some _ \<Rightarrow> es)"
  proof (cases outcome)
    case Appended
    with assms show ?thesis by (auto simp: sink_write_def file_text_def Let_def)
  next
    case (AppendFailed landed msg)
    show ?thesis
    proof (cases landed)
      case None
      have "discardPartialAppend True (fk_file sink) (length (file_of es)) = (False, fk_file sink)"
        using assms(1) by (auto simp: discardPartialAppend_def file_text_def split: option.split)
      with assms AppendFailed None show ?thesis by (auto simp: sink_write_def Let_def)
    next
      case (Some k)
      have "snd (discardPartialAppend True (Some (file_of es @ take k (audit_line e))) (length (file_of es))) = Some (file_of es)"
        using take_boundary [of es] by (auto simp: discardPartialAppend_def min_def audit_line_def split: if_splits)
      with assms AppendFailed Some show ?thesis
        by (auto simp: sink_write_def Let_def file_text_def split: prod.splits)
    qed
  qed
  then show "fk_committed sink' = length (file_text (fk_file sink'))"
    "file_text (fk_file sink') = file_of (case failure of None \<Rightarrow> es @ [e] | Some _ \<Rightarrow> es)" by blast+
qed

lemma file_write_kept:
  assumes "well_kept w" "members_ok e" "file_write e w = (w', failure)"
  shows "well_kept w' \<and> stored_records w' = (case failure of None \<Rightarrow> stored_records w @ [e] | Some _ \<Rightarrow> stored_records w)"
proof -
  obtain outcome r where o: "(case fw_script w of [] \<Rightarrow> (Appended, True) | next_step # _ \<Rightarrow> next_step) = (outcome, r)" by fastforce
  have "r" "list_all snd (drop 1 (fw_script w))" using assms(1) o by (auto simp: well_kept_def split: list.splits)
  moreover obtain sink where "sink_write e outcome r (fw_sink w) = (sink, failure)"
    "w' = w\<lparr>fw_sink := sink, fw_script := drop 1 (fw_script w)\<rparr>"
    using assms(3) by (auto simp: file_write_def o Let_def split: prod.splits)
  ultimately show ?thesis
    using sink_write_kept [of "fw_sink w" "stored_records w" e outcome sink failure] assms(1,2)
    by (intro well_keptI) (auto simp: well_kept_def split: option.splits)
qed

interpretation file_log: durable_stream file_write stored_records well_kept
  by unfold_locales (auto dest: file_write_kept)

subsection \<open>A server's lives\<close>

text \<open>
  Start-up (\<open>server.ts\<close>, lines 93 to 108): resume the chain from the file, seed the logger, register the
  file sink as the durable one and standard output, which keeps nothing, as an observer.
\<close>

definition stdoutSink :: "file_world audit_sink" where
  "stdoutSink = \<lparr>as_fn = 1, as_durable = False, as_write = (\<lambda>e w. (w, None))\<rparr>"

definition fileSink :: "file_world audit_sink" where
  "fileSink = \<lparr>as_fn = 0, as_durable = True, as_write = file_write\<rparr>"

definition readable :: "string option \<Rightarrow> readable_file" where
  "readable file = (case file of None \<Rightarrow> NoFile | Some text \<Rightarrow> Contents text)"

definition boot_audit :: "audit_env \<Rightarrow> string \<Rightarrow> string option \<Rightarrow> (append_outcome \<times> bool) list \<Rightarrow> file_world audit_logger \<times> file_world" where
  "boot_audit env path file script =
     (let resumed = resumeChainState env (readable file)
      in (registerAuditSink stdoutSink (registerAuditSink fileSink (seedAuditChain (fst resumed) newLogger)),
          \<lparr>fw_sink = createFileSink path file, fw_script = script\<rparr>))"

fun server_lives :: "audit_env \<Rightarrow> string \<Rightarrow> (emit_call list \<times> (append_outcome \<times> bool) list) list \<Rightarrow> string option \<Rightarrow> string option" where
  "server_lives env path [] file = file"
| "server_lives env path ((calls, script) # lives) file =
     (let (lg, w) = boot_audit env path file script
      in server_lives env path lives (fk_file (fw_sink (snd (emit_all env calls lg w)))))"

lemma honest_life:
  assumes "file_text file = file_of (chain_all env fresh_state ps)" "list_all payload_ok ps"
    and "list_all call_ok calls" "list_all snd script"
    and "boot_audit env path file script = (lg, w)" "emit_all env calls lg w = (lg', w')"
  shows "\<exists>qs. list_all payload_ok (ps @ qs)
       \<and> file_text (fk_file (fw_sink w')) = file_of (chain_all env fresh_state (ps @ qs))
       \<and> stored_records w' = chain_all env fresh_state (ps @ qs)
       \<and> lg_dropped lg' = sum_list (map declared_drops qs) + undeclared lg'
       \<and> length (filter (Not \<circ> is_marker) qs) + lg_dropped lg' = length calls"
proof -
  let ?es = "chain_all env fresh_state ps" and ?st = "chain_end env fresh_state ps"
  have ok: "list_all members_ok ?es" using assms(2) by (rule chain_all_ok) simp
  have "fst (resumeChainState env (readable file)) = ?st"
  proof (cases "ps = []")
    case True
    with assms(1) show ?thesis by (cases "file") (auto simp: readable_def resumeChainState_def file_text_def)
  next
    case False
    then have "?es \<noteq> []" by (cases ps) auto
    then have "file_of ?es \<noteq> []" using file_of_last by blast
    with assms(1) have "readable file = Contents (file_of ?es)" by (cases "file") (auto simp: readable_def file_text_def)
    with resume_honest [OF assms(2) _ False] show ?thesis by simp
  qed
  with assms(5) have boot: "lg_state lg = ?st" "lg_sinks lg = [fileSink, stdoutSink]" "lg_gap lg = None" "lg_dropped lg = 0"
    "fw_sink w = createFileSink path file" "fw_script w = script"
    by (auto simp: boot_audit_def registerAuditSink_def seedAuditChain_def newLogger_def fileSink_def stdoutSink_def Let_def)
  have "well_kept w \<and> stored_records w = ?es"
    using ok assms(1,4) by (intro well_keptI) (auto simp: boot(5,6) createFileSink_def file_text_def split: option.splits)
  moreover have "file_log.sinks_fit [fileSink, stdoutSink]"
    unfolding file_log.sinks_fit_def
    by (intro exI [of _ "[]"] exI [of _ fileSink] exI [of _ "[stdoutSink]"])
      (simp add: fileSink_def file_log.quiet_def stdoutSink_def)
  moreover have "well_placed ?st" by (rule chain_end_well_placed) simp
  ultimately have "file_log.log_inv env 0 ?st ?es [] lg w"
    by (simp add: file_log.log_inv_def boot undeclared_eq)
  from file_log.emit_all_inv [OF this assms(3,6)]  obtain qs where inv: "file_log.log_inv env (length calls) ?st ?es qs lg' w'" by auto
  then have "stored_records w' = chain_all env fresh_state (ps @ qs)" "well_kept w'"
    by (auto simp: file_log.log_inv_def chain_all_append)
  with inv assms(2) show ?thesis
    by (intro exI [of _ qs]) (auto simp: file_log.log_inv_def well_kept_def)
qed

lemma honest_lives:
  assumes "file_text file = file_of (chain_all env fresh_state ps)" "list_all payload_ok ps"
    and "list_all (\<lambda>(calls, script). list_all call_ok calls \<and> list_all snd script) lives"
  shows "\<exists>qs. list_all payload_ok (ps @ qs)
       \<and> file_text (server_lives env path lives file) = file_of (chain_all env fresh_state (ps @ qs))"
  using assms
proof (induction lives arbitrary: "file" ps)
  case Nil
  then show ?case by (intro exI [of _ "[]"]) simp
next
  case (Cons life lives)
  obtain calls script where life: "life = (calls, script)" by fastforce
  obtain lg w where boot: "boot_audit env path file script = (lg, w)" by fastforce
  obtain lg' w' where run: "emit_all env calls lg w = (lg', w')" by fastforce
  from honest_life [OF Cons.prems(1,2) _ _ boot run] Cons.prems(3) life obtain qs where
    qs: "list_all payload_ok (ps @ qs)" "file_text (fk_file (fw_sink w')) = file_of (chain_all env fresh_state (ps @ qs))" by auto
  from Cons.IH [OF qs(2,1)] Cons.prems(3) obtain rs where "list_all payload_ok ((ps @ qs) @ rs)"
    "file_text (server_lives env path lives (fk_file (fw_sink w'))) = file_of (chain_all env fresh_state ((ps @ qs) @ rs))" by auto
  then show ?case by (intro exI [of _ "qs @ rs"]) (simp add: life boot run)
qed

lemma chained_marks:
  "map declared_drops (chain_all env st ps) = map declared_drops ps"
  "map is_marker (chain_all env st ps) = map is_marker ps"
  by (induction ps arbitrary: st) (simp_all add: declared_drops_def is_marker_def chainAuditEvent_def)

lemma honest_lives_from_nothing:
  assumes "list_all (\<lambda>(calls, script). list_all call_ok calls \<and> list_all snd script) lives"
  obtains ps where "list_all payload_ok ps" "file_text (server_lives env path lives None) = file_of (chain_all env fresh_state ps)"
  using honest_lives [of None env "[]" lives path] assms by (auto simp: file_text_def)

text \<open>C4: an honest log verifies: over any number of server lives, each resuming the chain from the file the last one left,
  any events and any storage failures, before a byte is written or part way through a record, as long as the partial
  writes can be undone, verification of the file finds no problem, and reads back every record that was stored. A
  full disk never looks like tampering.\<close>

theorem honest_log_verifies:
  assumes "list_all (\<lambda>(calls, script). list_all call_ok calls \<and> list_all snd script) lives"
    and "server_lives env path lives None = Some text"
  shows "cv_problems (verifyChainFile (rehashAuditEvent env) env (Some text)) = []
       \<and> cv_ok (verifyChainFile (rehashAuditEvent env) env (Some text))
       \<and> cv_records (verifyChainFile (rehashAuditEvent env) env (Some text)) = length (file_records text)
       \<and> text = file_of (file_records text)"
proof -
  obtain ps where ps: "list_all payload_ok ps" "text = file_of (chain_all env fresh_state ps)"
    using honest_lives_from_nothing [OF assms(1), of env path] assms(2) by (auto simp: file_text_def)
  have "file_records text = chain_all env fresh_state ps"
    unfolding ps(2) by (rule file_records_of) (simp add: chain_all_ok ps(1))
  with honest_file_verifies [OF ps(1) fresh_well_placed, of env] ps(2) show ?thesis by simp
qed


text \<open>A loss is declared as soon as storage takes records again: when the append succeeds, the next event is preceded in
  the file by one marker that states how many records are missing, both chained without a break, and nothing is left
  undeclared or newly dropped.\<close>

theorem recovery_declares_the_loss:
  assumes "lg_sinks lg = [fileSink, stdoutSink]" "fw_script w = []" "lg_gap lg = Some gap" "emit env c lg w = (lg', w', event)"
  shows "\<exists>marker. marker = chainAuditEvent env (gapPayload (ec_markerId c) (ec_markerAt c) gap) (lg_state lg)
       \<and> event = chainAuditEvent env (call_payload c) (state_after env marker)
       \<and> fk_file (fw_sink w') = Some (file_text (fk_file (fw_sink w)) @ audit_line marker @ audit_line event)
       \<and> declared_drops (gapPayload (ec_markerId c) (ec_markerAt c) gap) = ds_undeclared (auditDropStats lg)
       \<and> ds_undeclared (auditDropStats lg') = 0 \<and> ds_dropped (auditDropStats lg') = ds_dropped (auditDropStats lg)"
proof -
  have deliver: "deliverDurable e lg2 w2 = (w2\<lparr>fw_sink := fw_sink w2\<lparr>fk_file := Some (file_text (fk_file (fw_sink w2)) @ audit_line e),
      fk_committed := fk_committed (fw_sink w2) + length (audit_line e)\<rparr>\<rparr>, None)"
    if "lg_sinks lg2 = [fileSink, stdoutSink]" "fw_script w2 = []" for e and lg2 :: "file_world audit_logger" and w2
    using that by (simp add: deliverDurable_def fileSink_def stdoutSink_def file_write_def sink_write_def Let_def)
  have observe: "observe_each e [fileSink, stdoutSink] w2 = w2" for e w2 by (simp add: fileSink_def stdoutSink_def)
  show ?thesis
    using assms(4)
    by (auto simp: emit_def declarePendingGap_def assms(1-3) deliver commit_def observe auditDropStats_def file_text_def
        declared_drops_gap Let_def simp del: state_after_chained observe_each.simps)
qed

subsection \<open>Samples\<close>

text \<open>Three events; the second append of the first life runs out of space after three characters.\<close>

definition log_env :: audit_env where
  "log_env = \<lparr>ae_sha256 = (\<lambda>t. ''h''), ae_collate = (\<lambda>l r. True), ae_plus_one = (\<lambda>v. v)\<rparr>"

definition sample_call :: "string \<Rightarrow> emit_call" where
  "sample_call uuid = \<lparr>ec_markerId = ''m'', ec_markerAt = ''t1'', ec_id = uuid, ec_at = ''t2'', ec_dropAt = ''t3'',
     ec_ctx = map_of [(''agentId'', JStr ''a''), (''action'', JStr ''read'')], ec_result = map_of [(''decision'', JStr ''allow'')]\<rparr>"

definition sample_lives :: "(emit_call list \<times> (append_outcome \<times> bool) list) list" where
  "sample_lives = [([sample_call ''e1'', sample_call ''e2''], [(Appended, True), (AppendFailed (Some 3) ''ENOSPC'', True)]),
     ([sample_call ''e3''], [])]"

lemma sample_lives_ok: "list_all (\<lambda>(calls, script). list_all call_ok calls \<and> list_all snd script) sample_lives"
  by code_simp

lemma honest_log_verifies_witness:
  "\<exists>text. server_lives log_env ''f'' sample_lives None = Some text
     \<and> cv_ok (verifyChainFile (rehashAuditEvent log_env) log_env (Some text))"
proof -
  have "server_lives log_env ''f'' sample_lives None \<noteq> None" by code_simp
  then obtain f where t: "server_lives log_env ''f'' sample_lives None = Some f" by auto
  from honest_log_verifies [OF sample_lives_ok t] t show ?thesis by blast
qed


definition sample_outage :: "file_world audit_logger \<times> file_world" where
  "sample_outage =
     (let (lg, w) = boot_audit log_env ''f'' None [(AppendFailed (Some 3) ''ENOSPC'', True)]
      in emit_all log_env [sample_call ''e1''] lg w)"

lemma recovery_declares_the_loss_witness:
  "ds_undeclared (auditDropStats (fst sample_outage)) = 1
   \<and> ds_undeclared (auditDropStats (fst (emit log_env (sample_call ''e2'') (fst sample_outage) (snd sample_outage)))) = 0"
proof -
  have sinks: "lg_sinks (fst sample_outage) = [fileSink, stdoutSink]"
    by (simp add: sample_outage_def boot_audit_def registerAuditSink_def seedAuditChain_def newLogger_def fileSink_def
        stdoutSink_def readable_def resumeChainState_def emit_def declarePendingGap_def deliverDurable_def file_write_def
        sink_write_def createFileSink_def file_text_def discardPartialAppend_def dropRecord_def Let_def split: prod.split)
  have state: "fw_script (snd sample_outage) = []" "map_option pg_count (lg_gap (fst sample_outage)) = Some 1" by code_simp+
  then obtain gap where gap: "lg_gap (fst sample_outage) = Some gap" "pg_count gap = 1" by auto
  obtain lg' w' event where e: "emit log_env (sample_call ''e2'') (fst sample_outage) (snd sample_outage) = (lg', w', event)"
    by (metis prod_cases3)
  from recovery_declares_the_loss [OF sinks state(1) gap(1) e] gap e show ?thesis by (simp add: auditDropStats_def)
qed

text \<open>
  A restart after a hard kill breaks the file: the torn fragment at the tail is reported as discarded when the
  chain is resumed, but it stays in the file, and the first record of the new life is written onto its line. The file
  that verified with a note now has a line that is not JSON, and the record on it is lost.
\<close>

lemma restart_after_torn_tail:
  "let torn = file_of (chain_all log_env fresh_state [call_payload (sample_call ''e1'')]) @ take 9 (audit_line (call_payload (sample_call ''e2'')));
       after = server_lives log_env ''f'' [([sample_call ''e2''], [])] (Some torn)
   in cv_ok (verifyChainFile (rehashAuditEvent log_env) log_env (Some torn))
      \<and> snd (resumeChainState log_env (Contents torn))
          = Some ''resumed from the last intact record; discarded 1 torn record(s) at the tail''
      \<and> cv_problems (verifyChainFile (rehashAuditEvent log_env) log_env after) = [NotValidJson 2]"
  by code_simp

text \<open>
  A gap declaration can be forged through the front door: the action of an event is whatever the agent says, so an event
  whose action is the marker's is reported by the verifier as the writer's own statement that records are missing,
  with the number the agent put into its metadata.
\<close>

lemma forged_gap_declaration:
  assumes "payload_ok (call_payload c)" "ec_ctx c ''action'' = Some (JStr AUDIT_CHAIN_GAP_ACTION)"
  shows "cv_notes (verifyChainFile (rehashAuditEvent env) env (Some (file_of (chain_all env fresh_state [call_payload c]))))
           = [GapDeclared 1 (member ''droppedRecords'' (omap_get (call_payload c) ''metadata''))]"
proof -
  have get: "omap_get (present ((k, v) # ms)) k' = (if k' = k \<and> v \<noteq> None then v else omap_get (present ms) k')" for k k' v ms
    by (cases v) auto
  have "omap_get (call_payload c) ''action'' = Some (JStr AUDIT_CHAIN_GAP_ACTION)"
    by (simp add: call_payload_def event_payload_def get assms(2) del: present_simps)
  with honest_file_verifies [of "[call_payload c]" fresh_state env] assms(1) show ?thesis by (simp add: gap_notes_def)
qed

end
