(* ===== verification/Json_Pretty.thy ===== *)
theory Json_Pretty
  imports Json_Parse
begin

text \<open>
  \<open>JSON.stringify(value, null, 2)\<close>, the form in which the files of the server are written, and the
  proof that \<open>JSON.parse\<close> gives the value back: whatever the store writes it can read.
\<close>

definition json_newline :: "nat \<Rightarrow> string" where
  "json_newline i = CHR 0x0A # replicate i (CHR '' '')"

fun json_pretty :: "nat \<Rightarrow> json \<Rightarrow> string" where
  "json_pretty i (JArr xs) =
     (if xs = [] then ''[]''
      else ''['' @ json_newline (i + 2) @ js_join ('','' @ json_newline (i + 2)) (map (json_pretty (i + 2)) xs)
             @ json_newline i @ '']'')"
| "json_pretty i (JObj members) =
     (if members = [] then ''{}''
      else ''{'' @ json_newline (i + 2)
             @ js_join ('','' @ json_newline (i + 2))
                 (map (\<lambda>m. json_quote (fst m) @ '': '' @ json_pretty (i + 2) (snd m)) members)
             @ json_newline i @ ''}'')"
| "json_pretty i v = json_stringify v"

definition pretty_member :: "nat \<Rightarrow> string \<times> json \<Rightarrow> string" where
  "pretty_member i m = json_quote (fst m) @ '': '' @ json_pretty i (snd m)"

lemma json_pretty_obj:
  "members \<noteq> [] \<Longrightarrow> json_pretty i (JObj members) =
     ''{'' @ json_newline (i + 2) @ js_join ('','' @ json_newline (i + 2)) (map (pretty_member (i + 2)) members)
       @ json_newline i @ ''}''"
  by (simp add: pretty_member_def [abs_def])

subsection \<open>White space before a token\<close>

lemma json_ws_newline [simp]: "json_ws (CHR 0x0A)" "json_ws (CHR '' '')"
  by (simp_all add: json_ws_def ch_in_def)

lemma skip_ws_newline [simp]: "skip_ws (json_newline i @ s) = skip_ws s"
proof -
  have "skip_ws (replicate i (CHR '' '') @ s) = skip_ws s" by (induction i) simp_all
  then show ?thesis by (simp add: json_newline_def)
qed

lemma parse_value_skip: "skip_ws s = skip_ws t \<Longrightarrow> parse_value n s = parse_value n t"
  by (cases n) simp_all

lemma expect_skip: "skip_ws s = skip_ws t \<Longrightarrow> expect c s = expect c t"
  by (metis expect_simps(3))

lemma parse_elements_skip: "skip_ws s = skip_ws t \<Longrightarrow> parse_elements n s = parse_elements n t"
  by (cases n) (simp_all add: parse_value_skip [of s t])

lemma parse_members_skip: "skip_ws s = skip_ws t \<Longrightarrow> parse_members n s = parse_members n t"
  by (cases n) (simp_all add: expect_skip [of s t])

lemma stops_newline [simp]: "stops (json_newline i @ r)"
  by (simp add: stops_def json_newline_def json_stop_def ch_in_def)

lemma json_newline_head: "json_newline i @ r = CHR 0x0A # (replicate i (CHR '' '') @ r)"
  by (simp add: json_newline_def)

lemma expect_newline [simp]: "expect c (json_newline i @ s) = expect c s"
  by (rule expect_skip) simp

lemma parse_value_newline [simp]:
  "parse_value n (json_newline i @ s) = parse_value n s"
  "parse_elements n (json_newline i @ s) = parse_elements n s"
  "parse_members n (json_newline i @ s) = parse_members n s"
  by (rule parse_value_skip parse_elements_skip parse_members_skip; simp)+

lemma parse_value_space: "parse_value n (CHR '' '' # s) = parse_value n s"
  by (rule parse_value_skip) simp

lemma json_pretty_first: "json_numbers_ok v \<Longrightarrow> \<exists>c t. json_pretty i v = c # t \<and> \<not> json_ws c \<and> \<not> json_stop c"
proof -
  assume v: "json_numbers_ok v"
  have plain: ?thesis if "json_pretty i v = json_stringify v"
    unfolding that using json_stringify_first [OF v] by blast
  show ?thesis
  proof (cases v)
    case (JArr xs)
    then show ?thesis by (simp add: json_stop_def ch_in_def)
  next
    case (JObj ms)
    then show ?thesis by (simp add: json_stop_def ch_in_def)
  qed (rule plain; simp)+
qed

lemma length_newline [simp]: "length (json_newline i) = Suc i"
  by (simp add: json_newline_def)

subsection \<open>Reading what was written\<close>

lemma parse_pretty:
  shows "json_numbers_ok v \<Longrightarrow> stops r \<Longrightarrow> length (json_pretty i v) < n \<Longrightarrow>
           parse_value n (json_pretty i v @ r) = Some (v, r)"
    and "xs \<noteq> [] \<Longrightarrow> list_all json_numbers_ok xs \<Longrightarrow>
           length (js_join ('','' @ json_newline j) (map (json_pretty j) xs)) + 1 < n \<Longrightarrow>
           parse_elements n (js_join ('','' @ json_newline j) (map (json_pretty j) xs) @ json_newline i @ CHR '']'' # r)
             = Some (xs, r)"
    and "ms \<noteq> [] \<Longrightarrow> list_all (\<lambda>m. json_numbers_ok (snd m)) ms \<Longrightarrow>
           length (js_join ('','' @ json_newline j) (map (pretty_member j) ms)) + 1 < n \<Longrightarrow>
           parse_members n (js_join ('','' @ json_newline j) (map (pretty_member j) ms) @ json_newline i @ CHR ''}'' # r)
             = Some (ms, r)"
proof (induction n arbitrary: v r xs ms i j)
  case (Suc n)
  { case 1
    then show ?case
    proof (cases v)
      case (JNum l)
      with 1 parse_literal_number [of l r] show ?thesis by auto
    next
      case (JArr xs)
      show ?thesis
      proof (cases "xs = []")
        case False
        then obtain y ys where xs: "xs = y # ys" by (cases xs) auto
        with 1 JArr obtain c t where c: "json_pretty (Suc (Suc i)) y = c # t" "\<not> json_ws c" "\<not> json_stop c"
          using json_pretty_first [of y "Suc (Suc i)"] by auto
        then have "c \<noteq> CHR '']''" by (auto simp: json_stop_def ch_in_def)
        with Suc(2) [OF False, of "i + 2" i r] 1 JArr xs c show ?thesis by (simp add: js_join_Cons)
      qed (simp add: JArr)
    next
      case (JObj ms)
      show ?thesis
      proof (cases "ms = []")
        case False
        then obtain y ys where ms: "ms = y # ys" by (cases ms) auto
        have len: "length (json_pretty i v) =
            length (js_join ('','' @ json_newline (i + 2)) (map (pretty_member (i + 2)) ms)) + 2 * i + 6"
          unfolding JObj json_pretty_obj [OF False] by simp
        have "parse_members n (js_join ('','' @ json_newline (i + 2)) (map (pretty_member (i + 2)) ms)
                @ json_newline i @ CHR ''}'' # r) = Some (ms, r)"
          by (rule Suc(3) [OF False]) (use 1 JObj len in auto)
        moreover obtain t where "js_join ('','' @ json_newline (i + 2)) (map (pretty_member (i + 2)) ms) = CHR 0x22 # t"
          by (simp add: ms js_join_Cons pretty_member_def [of _ y] json_quote_def)
        then have "expect (CHR ''}'') (json_newline (i + 2) @ js_join ('','' @ json_newline (i + 2))
            (map (pretty_member (i + 2)) ms) @ json_newline i @ CHR ''}'' # r) = None" by simp
        ultimately show ?thesis
          unfolding JObj json_pretty_obj [OF False] by simp
      qed (simp add: JObj)
    qed (auto simp: json_quote_def parse_chars_quote parse_literal_def split: bool.split)
  next
    case 2
    then obtain y ys where xs: "xs = y # ys" by (cases xs) auto
    let ?rest = "(if ys = [] then [] else CHR '','' # json_newline j @ js_join ('','' @ json_newline j) (map (json_pretty j) ys))
                   @ json_newline i @ CHR '']'' # r"
    from 2 xs have "parse_value n (json_pretty j y @ ?rest) = Some (y, ?rest)"
      by (intro Suc(1)) (auto simp: js_join_Cons split: if_splits)
    moreover have "parse_elements n (js_join ('','' @ json_newline j) (map (json_pretty j) ys) @ json_newline i @ CHR '']'' # r)
        = Some (ys, r)" if "ys \<noteq> []"
      using 2 xs that by (intro Suc(2)) (auto simp: js_join_Cons)
    ultimately show ?case using xs by (auto simp: js_join_Cons)
  next
    case 3
    then obtain k y ys where ms: "ms = (k, y) # ys" by (cases ms) auto
    let ?rest = "(if ys = [] then [] else CHR '','' # json_newline j @ js_join ('','' @ json_newline j) (map (pretty_member j) ys))
                   @ json_newline i @ CHR ''}'' # r"
    from 3 ms have "parse_value n (json_pretty j y @ ?rest) = Some (y, ?rest)"
      by (intro Suc(1)) (auto simp: js_join_Cons pretty_member_def split: if_splits)
    moreover have "parse_members n (js_join ('','' @ json_newline j) (map (pretty_member j) ys) @ json_newline i @ CHR ''}'' # r)
        = Some (ys, r)" if "ys \<noteq> []"
      using 3 ms that by (intro Suc(3)) (auto simp: js_join_Cons)
    ultimately show ?case using ms
      by (auto simp: js_join_Cons pretty_member_def [of _ "(k, y)"] json_quote_def parse_chars_quote parse_value_space) }
qed simp_all

theorem json_parse_pretty:
  assumes "json_numbers_ok v" "json_distinct v"
  shows "json_parse (json_pretty 0 v @ [CHR 0x0A]) = Some v"
proof -
  have "stops [CHR 0x0A]" by (simp add: stops_def json_stop_def ch_in_def)
  then have "parse_value (2 * length (json_pretty 0 v @ [CHR 0x0A]) + 2) (json_pretty 0 v @ [CHR 0x0A])
      = Some (v, [CHR 0x0A])"
    by (intro parse_pretty(1) [OF assms(1)]) simp_all
  then have "json_tree (json_pretty 0 v @ [CHR 0x0A]) = Some v" unfolding json_tree_def by simp
  then show ?thesis by (simp add: json_parse_def json_collapse_distinct [OF assms(2)])
qed

end
