(* ===== verification/Mcp_Baseline.thy ===== *)
theory Mcp_Baseline
  imports Json_Pretty
begin

text \<open>
  The accepted tool inventories of \<open>mcp/baseline.ts\<close>: a versioned JSON file holding one inventory per
  agent, server and command hash, read and rewritten under a lock file and replaced by a rename. The
  schema library, the secret scanner and what the file system answers are parameters; a thrown error
  is \<open>Inl\<close> its message. An inventory is kept as the JSON value it is, since the code casts what it
  reads back after a redaction without looking at it again.
\<close>

subsection \<open>Errors as values\<close>

fun attempt :: "'e + 'a \<Rightarrow> ('a \<Rightarrow> 'e + 'b) \<Rightarrow> 'e + 'b" where
  "attempt (Inl e) f = Inl e"
| "attempt (Inr x) f = f x"

lemma attempt_Inr: "attempt r f = Inr y \<longleftrightarrow> (\<exists>x. r = Inr x \<and> f x = Inr y)"
  by (cases r) simp_all

lemma attempt_Inl: "attempt r f = Inl e \<longleftrightarrow> r = Inl e \<or> (\<exists>x. r = Inr x \<and> f x = Inl e)"
  by (cases r) simp_all

subsection \<open>The document\<close>

record baseline_key =
  bk_agentId :: string
  bk_serverName :: string
  bk_commandHash :: "string option"

record stored_baseline =
  sb_key :: baseline_key
  sb_tools :: json

type_synonym baseline_document = "(string \<times> stored_baseline) list"

record dlp_answer =
  ds_containsSecrets :: bool
  ds_secretTypes :: "string list"
  ds_redactedText :: "string option"

record baseline_env =
  be_scanText :: "string \<Rightarrow> string + dlp_answer" \<comment> \<open>\<open>scanText(text, true)\<close>\<close>
  be_parseError :: "string \<Rightarrow> string" \<comment> \<open>what \<open>JSON.parse\<close> says of a text it refuses\<close>
  be_tools :: "json \<Rightarrow> string + json" \<comment> \<open>\<open>ToolInventorySchema.parse\<close>\<close>
  be_key :: "baseline_key \<Rightarrow> string + baseline_key" \<comment> \<open>\<open>BaselineKeySchema.parse\<close>\<close>
  be_document :: "json \<Rightarrow> string + baseline_document" \<comment> \<open>\<open>BaselineDocumentSchema.parse\<close>\<close>

definition STORE_VERSION :: string where "STORE_VERSION = ''1''"
definition WRITE_LOCK_TIMEOUT_MS :: int where "WRITE_LOCK_TIMEOUT_MS = 5000"
definition STALE_LOCK_TIMEOUT_MS :: int where "STALE_LOCK_TIMEOUT_MS = 60000"

definition json_opt :: "string option \<Rightarrow> json" where
  "json_opt s = (case s of None \<Rightarrow> JNull | Some t \<Rightarrow> JStr t)"

definition keyId :: "baseline_key \<Rightarrow> string" where
  "keyId key = json_stringify (JArr [JStr (bk_agentId key), JStr (bk_serverName key), json_opt (bk_commandHash key)])"

definition sanitizeTools :: "baseline_env \<Rightarrow> json \<Rightarrow> string + json" where
  "sanitizeTools env v =
     attempt (be_tools env v) (\<lambda>tools.
     attempt (be_scanText env (json_stringify tools)) (\<lambda>dlp.
       if \<not> ds_containsSecrets dlp then Inr tools
       else case ds_redactedText dlp of
              None \<Rightarrow> Inl ''the tool inventory could not be safely redacted''
            | Some redacted \<Rightarrow>
                (case json_parse redacted of
                   Some parsed \<Rightarrow> Inr parsed
                 | None \<Rightarrow> Inl (''the tool inventory could not be safely redacted: '' @ be_parseError env redacted))))"

definition parseDocument :: "baseline_env \<Rightarrow> string \<Rightarrow> string + baseline_document" where
  "parseDocument env raw =
     (case json_parse raw of
        None \<Rightarrow> Inl (''JSON parse failed: '' @ be_parseError env raw)
      | Some parsed \<Rightarrow>
          attempt (be_document env parsed) (\<lambda>document.
            if list_all (\<lambda>(entry, stored). entry = keyId (sb_key stored)) document then Inr document
            else Inl ''an entry key does not match its identity''))"

definition key_json :: "baseline_key \<Rightarrow> json" where
  "key_json key =
     JObj ([(''agentId'', JStr (bk_agentId key)), (''serverName'', JStr (bk_serverName key))]
           @ (case bk_commandHash key of None \<Rightarrow> [] | Some h \<Rightarrow> [(''commandHash'', JStr h)]))"

definition stored_json :: "stored_baseline \<Rightarrow> json" where
  "stored_json stored = JObj [(''key'', key_json (sb_key stored)), (''tools'', sb_tools stored)]"

definition document_json :: "baseline_document \<Rightarrow> json" where
  "document_json document =
     JObj [(''version'', JNum STORE_VERSION),
           (''entries'', JObj (map (\<lambda>e. (fst e, stored_json (snd e))) document))]"

definition document_text :: "baseline_document \<Rightarrow> string" where
  "document_text document = json_pretty 0 (document_json document) @ [CHR 0x0A]"

subsection \<open>The store\<close>

datatype inventory_file = StoreAbsent | StoreUnreadable string | StoreText string

record baseline_store =
  bs_path :: string
  bs_file :: inventory_file

definition newBaselineStore :: "(string \<Rightarrow> string) \<Rightarrow> inventory_file \<Rightarrow> string \<Rightarrow> string + baseline_store" where
  "newBaselineStore resolvePath disk filePath =
     (if js_trim filePath = [] then Inl ''MCP baseline file path is empty''
      else Inr \<lparr>bs_path = resolvePath filePath, bs_file = disk\<rparr>)"

definition readDocument :: "baseline_env \<Rightarrow> baseline_store \<Rightarrow> string + baseline_document" where
  "readDocument env store =
     (let malformed = (\<lambda>e. Inl (''MCP baseline file '' @ bs_path store @ '' is malformed: '' @ e))
      in case bs_file store of
           StoreAbsent \<Rightarrow> Inr []
         | StoreUnreadable e \<Rightarrow> malformed e
         | StoreText raw \<Rightarrow> (case parseDocument env raw of Inl e \<Rightarrow> malformed e | Inr document \<Rightarrow> Inr document))"

definition readBaseline :: "baseline_env \<Rightarrow> baseline_store \<Rightarrow> baseline_key \<Rightarrow> string + json option" where
  "readBaseline env store key =
     attempt (readDocument env store) (\<lambda>document.
       case omap_get document (keyId key) of
         None \<Rightarrow> Inr None
       | Some stored \<Rightarrow> attempt (sanitizeTools env (sb_tools stored)) (\<lambda>tools. Inr (Some tools)))"

subsection \<open>The write lock\<close>

text \<open>
  What one attempt at the lock file meets: created, not created for another reason than that it
  exists, or there already, and then how old it is, or gone or unreadable when looked at.
\<close>

datatype lock_probe =
    LockCreated
  | LockCreateError string
  | LockHeldFor int
  | LockVanished
  | LockStatError string

datatype lock_result = LockAcquired | LockRefused string | LockPending

fun acquireLock :: "string \<Rightarrow> int \<Rightarrow> (lock_probe \<times> int) list \<Rightarrow> lock_result" where
  "acquireLock path deadline [] = LockPending"
| "acquireLock path deadline ((probe, now) # later) =
     (case probe of
        LockCreated \<Rightarrow> LockAcquired
      | LockCreateError e \<Rightarrow> LockRefused e
      | LockStatError e \<Rightarrow> LockRefused e
      | LockVanished \<Rightarrow> acquireLock path deadline later
      | LockHeldFor age \<Rightarrow>
          if age > STALE_LOCK_TIMEOUT_MS then
            LockRefused (''MCP baseline file '' @ path
              @ '' has an old lock whose owner cannot be proven dead; remove it manually'')
          else if now \<ge> deadline then LockRefused (''MCP baseline file '' @ path @ '' is busy'')
          else acquireLock path deadline later)"

datatype lock_end = LockReads string | LockMissing | LockReadError string

text \<open>The lock is removed only while it still names this writer; the flag says whether it was.\<close>

fun releaseLock :: "string \<Rightarrow> lock_end \<Rightarrow> string + bool" where
  "releaseLock owner (LockReads content) = Inr (content = owner)"
| "releaseLock owner LockMissing = Inr False"
| "releaseLock owner (LockReadError e) = Inl e"

record write_io =
  io_startedAt :: int
  io_attempts :: "(lock_probe \<times> int) list"
  io_owner :: string
  io_tempError :: "string option"
  io_renameError :: "string option"
  io_cleanupError :: "string option"
  io_lockEnd :: lock_end

definition replace_file :: "write_io \<Rightarrow> baseline_document \<Rightarrow> baseline_store \<Rightarrow> baseline_store \<times> (string + unit)" where
  "replace_file io document store =
     (let (store1, result) =
        (case io_tempError io of
           Some e \<Rightarrow> (store, Inl e)
         | None \<Rightarrow>
             (case io_renameError io of
                Some e \<Rightarrow> (store, Inl e)
              | None \<Rightarrow> (store\<lparr>bs_file := StoreText (document_text document)\<rparr>, Inr ())))
      in (store1, case io_cleanupError io of Some e \<Rightarrow> Inl e | None \<Rightarrow> result))"

definition write_entry ::
  "baseline_env \<Rightarrow> write_io \<Rightarrow> baseline_key \<Rightarrow> json \<Rightarrow> baseline_store \<Rightarrow> baseline_store \<times> (string + unit)" where
  "write_entry env io key tools store =
     (case attempt (readDocument env store) (\<lambda>document.
           attempt (be_key env key) (\<lambda>sanitizedKey.
           attempt (sanitizeTools env tools) (\<lambda>clean.
             Inr (omap_put (keyId sanitizedKey) \<lparr>sb_key = sanitizedKey, sb_tools = clean\<rparr> document)))) of
        Inl e \<Rightarrow> (store, Inl e)
      | Inr document \<Rightarrow> replace_file io document store)"

definition withWriteLock ::
  "write_io \<Rightarrow> (baseline_store \<Rightarrow> baseline_store \<times> (string + unit)) \<Rightarrow> baseline_store \<Rightarrow> (baseline_store \<times> (string + unit)) option" where
  "withWriteLock io operation store =
     (case acquireLock (bs_path store) (io_startedAt io + WRITE_LOCK_TIMEOUT_MS) (io_attempts io) of
        LockPending \<Rightarrow> None
      | LockRefused e \<Rightarrow> Some (store, Inl e)
      | LockAcquired \<Rightarrow>
          (let (store1, result) = operation store
           in Some (store1, case releaseLock (io_owner io) (io_lockEnd io) of Inl e \<Rightarrow> Inl e | Inr _ \<Rightarrow> result)))"

text \<open>\<open>None\<close> is a writer still waiting for the lock when the attempts given end.\<close>

definition writeBaseline ::
  "baseline_env \<Rightarrow> write_io \<Rightarrow> baseline_key \<Rightarrow> json \<Rightarrow> baseline_store \<Rightarrow> (baseline_store \<times> (string + unit)) option" where
  "writeBaseline env io key tools = withWriteLock io (write_entry env io key tools)"

subsection \<open>Identities\<close>

lemma json_opt_inj [simp]: "json_opt s = json_opt t \<longleftrightarrow> s = t"
  by (simp add: json_opt_def split: option.splits)

lemma keyId_inj [simp]: "keyId k = keyId k' \<longleftrightarrow> k = k'"
proof
  have parsed: "json_tree (keyId q) =
      Some (JArr [JStr (bk_agentId q), JStr (bk_serverName q), json_opt (bk_commandHash q)])" for q
    unfolding keyId_def by (rule json_tree_print) (simp add: json_opt_def split: option.split)
  assume "keyId k = keyId k'"
  then have "json_tree (keyId k) = json_tree (keyId k')" by simp
  then show "k = k'" by (simp add: parsed)
qed simp

definition json_clean :: "json \<Rightarrow> bool" where
  "json_clean v = (json_numbers_ok v \<and> json_distinct v)"

definition document_ok :: "baseline_document \<Rightarrow> bool" where
  "document_ok document =
     (distinct (map fst document)
      \<and> list_all (\<lambda>(entry, stored). entry = keyId (sb_key stored) \<and> json_clean (sb_tools stored)) document)"

lemma document_ok_Nil [simp]: "document_ok []"
  by (simp add: document_ok_def)

lemma omap_put_set: "p \<in> set (omap_put k v m) \<Longrightarrow> p = (k, v) \<or> p \<in> set m"
  by (induction k v m rule: omap_put.induct) (auto split: if_splits)

lemma distinct_omap_put: "distinct (map fst m) \<Longrightarrow> distinct (map fst (omap_put k v m))"
  by (simp add: fst_omap_put)

lemma document_ok_put:
  "document_ok document \<Longrightarrow> json_clean tools \<Longrightarrow> document_ok (omap_put (keyId k) \<lparr>sb_key = k, sb_tools = tools\<rparr> document)"
  by (auto simp: document_ok_def distinct_omap_put list_all_iff dest!: omap_put_set)

lemma stored_json_clean: "json_clean (stored_json stored) = json_clean (sb_tools stored)"
  by (auto simp: json_clean_def stored_json_def key_json_def split: option.split)

lemma document_json_clean: "document_ok document \<Longrightarrow> json_clean (document_json document)"
proof -
  have one: "json_clean (JNum STORE_VERSION)" by (simp add: STORE_VERSION_def json_clean_def) code_simp
  have fsts: "map fst (map (\<lambda>e. (fst e, stored_json (snd e))) document) = map fst document" by simp
  assume ok: "document_ok document"
  then have "json_clean (stored_json (snd e))" if "e \<in> set document" for e
    using that by (auto simp: stored_json_clean document_ok_def list_all_iff)
  then show ?thesis
    using ok one by (auto simp: json_clean_def document_json_def document_ok_def list_all_iff comp_def
        simp del: json_numbers_ok.simps(1))
qed

lemma readDocument_written:
  assumes schema: "\<And>d. document_ok d \<Longrightarrow> be_document env (document_json d) = Inr d"
    and "document_ok document" "bs_file store = StoreText (document_text document)"
  shows "readDocument env store = Inr document"
proof -
  have "json_parse (document_text document) = Some (document_json document)"
    using document_json_clean [OF assms(2)] by (simp add: document_text_def json_clean_def json_parse_pretty)
  moreover have "list_all (\<lambda>(entry, stored). entry = keyId (sb_key stored)) document"
    using assms(2) by (auto simp: document_ok_def list_all_iff)
  ultimately show ?thesis
    using assms by (simp add: readDocument_def parseDocument_def)
qed

subsection \<open>What a write does\<close>

lemma replace_file_cases:
  "replace_file io document store = (store', r) \<Longrightarrow>
     store' = store \<and> r \<noteq> Inr () \<or> store' = store\<lparr>bs_file := StoreText (document_text document)\<rparr>
       \<and> io_tempError io = None \<and> io_renameError io = None"
  by (auto simp: replace_file_def split: option.splits)

lemma writeBaseline_success:
  assumes "writeBaseline env io key tools store = Some (store', Inr ())"
  obtains document k clean where
    "acquireLock (bs_path store) (io_startedAt io + WRITE_LOCK_TIMEOUT_MS) (io_attempts io) = LockAcquired"
    "readDocument env store = Inr document" "be_key env key = Inr k" "sanitizeTools env tools = Inr clean"
    "store' = store\<lparr>bs_file :=
        StoreText (document_text (omap_put (keyId k) \<lparr>sb_key = k, sb_tools = clean\<rparr> document))\<rparr>"
proof -
  from assms obtain r where acq: "acquireLock (bs_path store) (io_startedAt io + WRITE_LOCK_TIMEOUT_MS) (io_attempts io) = LockAcquired"
    and op: "write_entry env io key tools store = (store', r)" "r = Inr ()"
    by (auto simp: writeBaseline_def withWriteLock_def split: lock_result.splits prod.splits sum.splits)
  from op obtain document' where d: "attempt (readDocument env store) (\<lambda>document.
           attempt (be_key env key) (\<lambda>sanitizedKey.
           attempt (sanitizeTools env tools) (\<lambda>clean.
             Inr (omap_put (keyId sanitizedKey) \<lparr>sb_key = sanitizedKey, sb_tools = clean\<rparr> document)))) = Inr document'"
    and "replace_file io document' store = (store', Inr ())"
    by (auto simp: write_entry_def split: sum.splits)
  from replace_file_cases [OF this(2)]
  have "store' = store\<lparr>bs_file := StoreText (document_text document')\<rparr>" by simp
  with d acq that show thesis by (auto simp: attempt_Inr)
qed

text \<open>A writer that could not take the lock, or failed before the rename, changed nothing.\<close>

lemma failed_write_changes_nothing:
  assumes "writeBaseline env io key tools store = Some (store', Inl e)"
    and "io_cleanupError io = None" "\<And>m. io_lockEnd io \<noteq> LockReadError m"
  shows "store' = store"
proof -
  have rel: "\<exists>b. releaseLock (io_owner io) (io_lockEnd io) = Inr b"
    using assms(3) by (cases "io_lockEnd io") auto
  have "replace_file io document store = (s, Inl e') \<Longrightarrow> s = store" for document s e'
    using assms(2) by (auto simp: replace_file_def split: option.splits)
  then have "write_entry env io key tools store = (s, Inl e') \<Longrightarrow> s = store" for s e'
    by (auto simp: write_entry_def split: sum.splits)
  with assms(1) rel show ?thesis
    by (auto simp: writeBaseline_def withWriteLock_def split: lock_result.splits prod.splits sum.splits)
qed

lemma acquired_only_if_created:
  "acquireLock path deadline probes = LockAcquired \<Longrightarrow> \<exists>now. (LockCreated, now) \<in> set probes"
  by (induction path deadline probes rule: acquireLock.induct) (auto split: lock_probe.splits if_splits)

lemma waiting_ends_at_the_deadline:
  "(LockHeldFor age, now) \<in> set probes \<Longrightarrow> deadline \<le> now \<Longrightarrow> acquireLock path deadline probes \<noteq> LockPending"
  by (induction path deadline probes rule: acquireLock.induct) (auto split: lock_probe.splits)


subsection \<open>An instance\<close>

text \<open>The schemas, on the values the store writes.\<close>

definition plain_key :: "json \<Rightarrow> baseline_key option" where
  "plain_key v =
     (case v of
        JObj m \<Rightarrow> (case omap_get m ''agentId'' of
                     Some (JStr a) \<Rightarrow> (case omap_get m ''serverName'' of
                        Some (JStr s) \<Rightarrow> Some \<lparr>bk_agentId = a, bk_serverName = s,
                           bk_commandHash = (case omap_get m ''commandHash'' of Some (JStr h) \<Rightarrow> Some h | _ \<Rightarrow> None)\<rparr>
                      | _ \<Rightarrow> None)
                   | _ \<Rightarrow> None)
      | _ \<Rightarrow> None)"

definition plain_stored :: "json \<Rightarrow> stored_baseline option" where
  "plain_stored v =
     (case v of
        JObj m \<Rightarrow> do {
          key \<leftarrow> Option.bind (omap_get m ''key'') plain_key;
          tools \<leftarrow> omap_get m ''tools'';
          Some \<lparr>sb_key = key, sb_tools = tools\<rparr>
        }
      | _ \<Rightarrow> None)"

fun plain_entries :: "(string \<times> json) list \<Rightarrow> baseline_document option" where
  "plain_entries [] = Some []"
| "plain_entries ((entry, v) # rest) =
     do {
       stored \<leftarrow> plain_stored v;
       document \<leftarrow> plain_entries rest;
       Some ((entry, stored) # document)
     }"

definition plain_document :: "json \<Rightarrow> string + baseline_document" where
  "plain_document v =
     (case v of
        JObj m \<Rightarrow> (case omap_get m ''entries'' of
                     Some (JObj entries) \<Rightarrow> (case plain_entries entries of Some d \<Rightarrow> Inr d | None \<Rightarrow> Inl ''Invalid input'')
                   | _ \<Rightarrow> Inl ''Invalid input'')
      | _ \<Rightarrow> Inl ''Invalid input'')"

definition plain_env :: baseline_env where
  "plain_env = \<lparr>be_scanText = (\<lambda>s. Inr \<lparr>ds_containsSecrets = False, ds_secretTypes = [], ds_redactedText = Some s\<rparr>),
     be_parseError = (\<lambda>s. ''Unexpected token''), be_tools = Inr, be_key = Inr, be_document = plain_document\<rparr>"

lemma plain_key_json: "plain_key (key_json k) = Some k"
  by (cases k) (simp add: plain_key_def key_json_def split: option.split)

lemma plain_document_json: "plain_document (document_json d) = Inr d"
proof -
  have "plain_stored (stored_json x) = Some x" for x
    by (cases x) (simp add: plain_stored_def stored_json_def plain_key_json)
  then have "plain_entries (map (\<lambda>e. (fst e, stored_json (snd e))) d) = Some d"
    by (induction d) auto
  then show ?thesis by (simp add: plain_document_def document_json_def)
qed

definition quiet_write :: write_io where
  "quiet_write = \<lparr>io_startedAt = 0, io_attempts = [(LockHeldFor 20, 1), (LockCreated, 11)], io_owner = ''w'',
     io_tempError = None, io_renameError = None, io_cleanupError = None, io_lockEnd = LockReads ''w''\<rparr>"

lemma quiet_write_succeeds:
  "\<exists>store'. writeBaseline plain_env quiet_write k v \<lparr>bs_path = p, bs_file = StoreAbsent\<rparr> = Some (store', Inr ())"
  by (simp add: writeBaseline_def withWriteLock_def quiet_write_def STALE_LOCK_TIMEOUT_MS_def
      WRITE_LOCK_TIMEOUT_MS_def write_entry_def readDocument_def plain_env_def sanitizeTools_def replace_file_def)


end
