(* ===== verification/Mcp_Gates.thy ===== *)
theory Mcp_Gates
  imports Policy_Engine Mcp_Baseline Js_Values "HOL-Library.Sublist"
begin

text \<open>
  The MCP gate pipeline of \<open>mcp/gates.ts\<close> with the inventory page of \<open>mcp/inventory.ts\<close>: one frame in, one
  decision out. A gate reads the session's context and threads the run (markers, a rewritten frame, an
  inventory to be learned); what it throws is \<open>Inl\<close> and keeps what the run had gathered before. The
  content scanners and the schema library are parameters, the engine is \<open>Policy_Engine\<close>, the persistent
  inventory is \<open>Mcp_Baseline\<close>.
\<close>

subsection \<open>Frames, gates and outcomes\<close>

type_synonym jframe = "(string \<times> json) list"

datatype frame_direction = ClientToServer | ServerToClient

fun direction_str :: "frame_direction \<Rightarrow> string" where
  "direction_str ClientToServer = ''client_to_server''"
| "direction_str ServerToClient = ''server_to_client''"

datatype mcp_gate_name = FrameIntegrity | ToolInventory | InputScan | PolicyGate | ResponseScan

fun gate_str :: "mcp_gate_name \<Rightarrow> string" where
  "gate_str FrameIntegrity = ''frame_integrity''"
| "gate_str ToolInventory = ''tool_inventory''"
| "gate_str InputScan = ''input_scan''"
| "gate_str PolicyGate = ''policy''"
| "gate_str ResponseScan = ''response_scan''"

record gate_outcome =
  go_gate :: mcp_gate_name
  go_decision :: decision
  go_riskLevel :: risk_level
  go_reasons :: "string list"
  go_detectionIds :: "string list"

record mcp_evaluation =
  me_decision :: decision
  me_riskLevel :: risk_level
  me_reasons :: "string list"
  me_detectionIds :: "string list"
  me_blockingGate :: "mcp_gate_name option"
  me_outcomes :: "gate_outcome list"
  me_redactedFrame :: "jframe option"

record mcp_server_identity =
  ms_serverName :: string
  ms_command :: "string list"
  ms_commandHash :: "string option"

datatype baseline_mode = BaselineOff | BaselineLearn | BaselineLock

fun baseline_mode_str :: "baseline_mode \<Rightarrow> string" where
  "baseline_mode_str BaselineOff = ''off''"
| "baseline_mode_str BaselineLearn = ''learn''"
| "baseline_mode_str BaselineLock = ''lock''"

datatype baseline_state = StateMissing | StateMatched | StateLearned | StateDrift

record baseline_decision =
  bd_state :: baseline_state
  bd_drift :: "string list"

text \<open>The tables mirror the engine's.\<close>

fun DECISION_PRECEDENCE :: "decision \<Rightarrow> nat" where
  "DECISION_PRECEDENCE Allow = 0"
| "DECISION_PRECEDENCE Redact = 1"
| "DECISION_PRECEDENCE Approve = 2"
| "DECISION_PRECEDENCE Deny = 3"

fun RISK_PRECEDENCE :: "risk_level \<Rightarrow> nat" where
  "RISK_PRECEDENCE Low = 0"
| "RISK_PRECEDENCE Medium = 1"
| "RISK_PRECEDENCE High = 2"
| "RISK_PRECEDENCE Critical = 3"

definition maxDecision :: "decision \<Rightarrow> decision \<Rightarrow> decision" where
  "maxDecision current candidate =
     (if DECISION_PRECEDENCE candidate > DECISION_PRECEDENCE current then candidate else current)"

definition maxRisk :: "risk_level \<Rightarrow> risk_level \<Rightarrow> risk_level" where
  "maxRisk current candidate =
     (if RISK_PRECEDENCE candidate > RISK_PRECEDENCE current then candidate else current)"

definition GATE_ORDER :: "mcp_gate_name list" where
  "GATE_ORDER = [FrameIntegrity, ToolInventory, InputScan, PolicyGate, ResponseScan]"

subsection \<open>What the gates read\<close>

record injection_scan =
  ij_containsInjection :: bool
  ij_patternIds :: "string list"

record tool_call_params =
  tc_name :: "string option"
  tc_arguments :: "(string \<times> json) list option"
  tc_data :: "(string \<times> json) list"

record inventory_page =
  ip_tools :: "json list"
  ip_nextCursor :: "string option"

record gate_env =
  ge_baseline :: baseline_env
  ge_scanInjection :: "string \<Rightarrow> string + injection_scan"
  ge_object :: "json \<Rightarrow> (string \<times> json) list option" \<comment> \<open>\<open>JsonObjectSchema.safeParse\<close>\<close>
  ge_callParams :: "json option \<Rightarrow> tool_call_params option" \<comment> \<open>\<open>ToolCallParamsSchema.safeParse\<close>\<close>
  ge_error :: "json \<Rightarrow> json option" \<comment> \<open>\<open>JsonRpcErrorSchema.safeParse\<close>\<close>
  ge_tool :: "json \<Rightarrow> string + json" \<comment> \<open>\<open>McpToolDescriptorSchema.parse\<close>\<close>
  ge_page :: "json \<Rightarrow> (string list \<times> string) list + inventory_page"
    \<comment> \<open>\<open>McpToolInventoryPageSchema.safeParse\<close>: the issues by path and message, or the page\<close>

definition scan_content :: "gate_env \<Rightarrow> string \<Rightarrow> string + dlp_answer" where
  "scan_content env = be_scanText (ge_baseline env)"

record gate_context =
  gx_agentId :: string
  gx_sessionId :: "string option"
  gx_server :: mcp_server_identity
  gx_engine :: policy_snapshot
  gx_approvedTools :: "json list option"
  gx_baselineMode :: "baseline_mode option"
  gx_baselineStore :: "baseline_store option"
  gx_baselineKey :: "baseline_key option"
  gx_baselineDecision :: "baseline_decision option"
  gx_inventoryCandidate :: "json list option"
  gx_inventoryComplete :: "bool option"
  gx_inventoryError :: "string option"

record pipeline_run =
  gr_markers :: "(string \<times> string) list"
  gr_redactedFrame :: "jframe option"
  gr_pendingBaselineLearn :: "(baseline_store \<times> baseline_key \<times> json list) option"

definition empty_run :: pipeline_run where
  "empty_run = \<lparr>gr_markers = [], gr_redactedFrame = None, gr_pendingBaselineLearn = None\<rparr>"

definition mark :: "string \<Rightarrow> string \<Rightarrow> pipeline_run \<Rightarrow> pipeline_run" where
  "mark k v run = run\<lparr>gr_markers := omap_put k v (gr_markers run)\<rparr>"

definition hasKey :: "jframe \<Rightarrow> string \<Rightarrow> bool" where
  "hasKey frame k = omap_has frame k"

definition string_at :: "jframe \<Rightarrow> string \<Rightarrow> string option" where
  "string_at frame k = (case omap_get frame k of Some (JStr s) \<Rightarrow> Some s | _ \<Rightarrow> None)"

text \<open>The verdict a gate builds up before it returns.\<close>

record findings =
  fi_decision :: decision
  fi_riskLevel :: risk_level
  fi_reasons :: "string list"
  fi_detectionIds :: "string list"

definition no_findings :: findings where
  "no_findings = \<lparr>fi_decision = Allow, fi_riskLevel = Low, fi_reasons = [], fi_detectionIds = []\<rparr>"

definition escalate :: "decision \<Rightarrow> risk_level \<Rightarrow> findings \<Rightarrow> findings" where
  "escalate d r f = f\<lparr>fi_decision := maxDecision (fi_decision f) d, fi_riskLevel := maxRisk (fi_riskLevel f) r\<rparr>"

definition detected :: "string \<Rightarrow> findings \<Rightarrow> findings" where
  "detected d f = f\<lparr>fi_detectionIds := fi_detectionIds f @ [d]\<rparr>"

definition because :: "string \<Rightarrow> findings \<Rightarrow> findings" where
  "because r f = f\<lparr>fi_reasons := fi_reasons f @ [r]\<rparr>"

definition outcome_of :: "mcp_gate_name \<Rightarrow> findings \<Rightarrow> gate_outcome" where
  "outcome_of gate f = \<lparr>go_gate = gate, go_decision = fi_decision f, go_riskLevel = fi_riskLevel f,
     go_reasons = fi_reasons f, go_detectionIds = fi_detectionIds f\<rparr>"

type_synonym gate_result = "gate_context \<times> pipeline_run \<times> (string + gate_outcome option)"

subsection \<open>Gate 1: the envelope\<close>

definition quoted :: "string \<Rightarrow> string" where
  "quoted s = CHR 0x22 # s @ [CHR 0x22]"

definition integrity_reasons :: "jframe \<Rightarrow> string \<Rightarrow> string list" where
  "integrity_reasons frame declared =
     (let carriesMethod = hasKey frame ''method''; carriesId = hasKey frame ''id'';
          carriesResult = hasKey frame ''result''; carriesError = hasKey frame ''error''
      in (if omap_get frame ''jsonrpc'' \<noteq> Some (JStr ''2.0'')
          then [''Frame declares jsonrpc '' @ quoted declared @ ''; only '' @ quoted ''2.0'' @ '' is valid''] else [])
       @ (if carriesResult \<and> carriesError then [''Frame carries both result and error; a response is one or the other''] else [])
       @ (if \<not> carriesMethod \<and> carriesId \<and> \<not> carriesResult \<and> \<not> carriesError
          then [''Response frame carries neither result nor error''] else [])
       @ (if carriesMethod \<and> string_at frame ''method'' = None
          then [''Frame declares a method that is not a string''] else [])
       @ (if \<not> carriesMethod \<and> \<not> carriesId
          then [''Frame is neither a request nor a response: it has no method and no id''] else []))"

definition gateFrameIntegrity :: "jframe \<Rightarrow> string + gate_outcome" where
  "gateFrameIntegrity frame =
     (let verdict = (\<lambda>reasons.
            if reasons \<noteq> [] then
              \<lparr>go_gate = FrameIntegrity, go_decision = Deny, go_riskLevel = Medium, go_reasons = reasons, go_detectionIds = []\<rparr>
            else
              \<lparr>go_gate = FrameIntegrity, go_decision = Allow, go_riskLevel = Low,
               go_reasons = [''Frame is a well-formed JSON-RPC 2.0 message''], go_detectionIds = []\<rparr>)
      in if omap_get frame ''jsonrpc'' = Some (JStr ''2.0'') then Inr (verdict (integrity_reasons frame []))
         else case js_String_opt (omap_get frame ''jsonrpc'') of
                None \<Rightarrow> Inl ''Cannot convert object to primitive value''
              | Some declared \<Rightarrow> Inr (verdict (integrity_reasons frame declared)))"

subsection \<open>Gate 2: the inventory\<close>

text \<open>\<open>parseMcpToolInventoryPage\<close>\<close>

datatype page_parse = NotInventory | MalformedPage string | ValidPage inventory_page

definition issue_text :: "string list \<times> string \<Rightarrow> string" where
  "issue_text issue =
     (let path = js_join ''.'' (fst issue) in (if path = [] then ''result'' else path) @ '': '' @ snd issue)"

definition parseMcpToolInventoryPage :: "gate_env \<Rightarrow> json option \<Rightarrow> page_parse" where
  "parseMcpToolInventoryPage env v =
     (case v of
        Some (JObj members) \<Rightarrow>
          if \<not> omap_has members ''tools'' then NotInventory
          else (case ge_page env (JObj members) of
                  Inl issues \<Rightarrow> MalformedPage (js_join ''; '' (map issue_text issues))
                | Inr page \<Rightarrow> ValidPage page)
      | _ \<Rightarrow> NotInventory)"

text \<open>\<open>tool.name\<close>, which throws on null, and its text in a message.\<close>

definition tool_name :: "json \<Rightarrow> string + json option" where
  "tool_name tool =
     (case tool of
        JNull \<Rightarrow> Inl ''Cannot read properties of null''
      | JObj members \<Rightarrow> Inr (omap_get members ''name'')
      | _ \<Rightarrow> Inr None)"

definition name_text :: "json option \<Rightarrow> string + string" where
  "name_text name = (case js_String_opt name of None \<Rightarrow> Inl ''Cannot convert object to primitive value'' | Some s \<Rightarrow> Inr s)"

definition description_of :: "json \<Rightarrow> json" where
  "description_of tool =
     (case tool of
        JObj members \<Rightarrow> (case omap_get members ''description'' of None \<Rightarrow> JStr [] | Some JNull \<Rightarrow> JStr [] | Some v \<Rightarrow> v)
      | _ \<Rightarrow> JStr [])"

fun js_is_object :: "json \<Rightarrow> bool" where
  "js_is_object (JArr xs) = True"
| "js_is_object (JObj ms) = True"
| "js_is_object _ = False"

definition tool_changed :: "bool \<Rightarrow> json \<Rightarrow> json \<Rightarrow> bool" where
  "tool_changed compareFullDescriptor approved tool =
     (if compareFullDescriptor then \<not> json_same approved tool
      else js_is_object (description_of approved) \<or> description_of approved \<noteq> description_of tool)"

fun collect :: "('a \<Rightarrow> 'e + 'b) \<Rightarrow> 'a list \<Rightarrow> 'e + 'b list" where
  "collect f [] = Inr []"
| "collect f (x # xs) = attempt (f x) (\<lambda>y. attempt (collect f xs) (\<lambda>ys. Inr (y # ys)))"

text \<open>One advertised tool against the approved ones: its drift, if any.\<close>

definition advertised_drift :: "bool \<Rightarrow> (json option \<times> json) list \<Rightarrow> json \<Rightarrow> string + string list" where
  "advertised_drift compareFullDescriptor approvedByName tool =
     attempt (tool_name tool) (\<lambda>name.
       case (case omap_get approvedByName name of Some a \<Rightarrow> if json_truthy a then Some a else None | None \<Rightarrow> None) of
         None \<Rightarrow> attempt (name_text name) (\<lambda>n. Inr [quoted n @ '' is new since approval''])
       | Some approved \<Rightarrow>
           if tool_changed compareFullDescriptor approved tool then
             attempt (name_text name) (\<lambda>n.
               Inr [if compareFullDescriptor then quoted n @ '' changed since approval''
                    else quoted n @ '' changed its description since approval''])
           else Inr [])"

definition withdrawn_drift :: "json option list \<Rightarrow> json option \<Rightarrow> string + string list" where
  "withdrawn_drift advertisedNames name =
     (if name \<in> set advertisedNames then Inr []
      else attempt (name_text name) (\<lambda>n. Inr [quoted n @ '' was withdrawn since approval'']))"

definition inventoryDrift :: "json \<Rightarrow> json list \<Rightarrow> bool \<Rightarrow> bool \<Rightarrow> string + string list" where
  "inventoryDrift baseline advertised compareFullDescriptor inventoryComplete =
     (case baseline of
        JArr approved \<Rightarrow>
          attempt (collect tool_name approved) (\<lambda>approvedNames.
          attempt (collect (advertised_drift compareFullDescriptor
                     (foldl (\<lambda>m (k, v). omap_put k v m) [] (zip approvedNames approved))) advertised) (\<lambda>drift.
          attempt (collect tool_name advertised) (\<lambda>advertisedNames.
            if inventoryComplete then
              attempt (collect (withdrawn_drift advertisedNames) approvedNames) (\<lambda>gone. Inr (concat drift @ concat gone))
            else Inr (concat drift))))
      | _ \<Rightarrow> Inl ''baseline.map is not a function'')"

definition normalizeInventoryForForwarding :: "gate_env \<Rightarrow> json list \<Rightarrow> string + json list" where
  "normalizeInventoryForForwarding env tools =
     (let encoded = json_stringify (JArr tools)
      in attempt (scan_content env encoded) (\<lambda>dlp.
           case (if ds_containsSecrets dlp then ds_redactedText dlp else Some encoded) of
             None \<Rightarrow> Inl ''the MCP tool inventory could not be safely redacted''
           | Some normalized \<Rightarrow>
               (case json_parse normalized of
                  None \<Rightarrow> Inl (be_parseError (ge_baseline env) normalized)
                | Some (JArr reparsed) \<Rightarrow> collect (ge_tool env) reparsed
                | Some _ \<Rightarrow> Inl ''the redacted MCP tool inventory is not an array'')))"

text \<open>Instruction content in a descriptor of this page; a marker set before a scan throws stays set.\<close>

definition poisoned_reason :: "string \<Rightarrow> injection_scan \<Rightarrow> string" where
  "poisoned_reason name scanned =
     ''Tool '' @ quoted name @ '' advertises instructions to the model rather than a description (''
       @ js_join '', '' (dedupe (ij_patternIds scanned)) @ '')''"

fun poison_scan :: "gate_env \<Rightarrow> json list \<Rightarrow> findings \<Rightarrow> pipeline_run \<Rightarrow> pipeline_run \<times> (string + findings)" where
  "poison_scan env [] f run = (run, Inr f)"
| "poison_scan env (tool # tools) f run =
     (case ge_scanInjection env (json_stringify tool) of
        Inl e \<Rightarrow> (run, Inl e)
      | Inr scanned \<Rightarrow>
          if \<not> ij_containsInjection scanned then poison_scan env tools f run
          else
            (let run' = mark ''mcpToolPoisoned'' ''true'' run
             in case attempt (tool_name tool) name_text of
                  Inl e \<Rightarrow> (run', Inl e)
                | Inr name \<Rightarrow>
                    poison_scan env tools
                      (because (poisoned_reason name scanned) (detected ''det.mcp.tool.poisoned'' (escalate Deny Critical f)))
                      run'))"

text \<open>The two places that raise drift.\<close>

definition raise_drift :: "string \<Rightarrow> string list \<Rightarrow> findings \<Rightarrow> findings" where
  "raise_drift what drift f =
     because (what @ js_join ''; '' drift) (detected ''det.mcp.tool.drift'' (escalate Approve High f))"

definition mark_drift :: "pipeline_run \<Rightarrow> pipeline_run" where
  "mark_drift run = mark ''mcpToolDrift'' ''true'' run"

definition complete :: "gate_context \<Rightarrow> bool" where
  "complete ctx = (gx_inventoryComplete ctx \<noteq> Some False)"

definition compared :: "baseline_state \<Rightarrow> string list \<Rightarrow> gate_context \<Rightarrow> gate_context" where
  "compared state drift ctx = ctx\<lparr>gx_baselineDecision := Some \<lparr>bd_state = state, bd_drift = drift\<rparr>\<rparr>"

definition compare_found :: "string \<Rightarrow> string list \<Rightarrow> findings \<Rightarrow> pipeline_run \<Rightarrow> gate_context
    \<Rightarrow> gate_context \<times> pipeline_run \<times> (string + findings)" where
  "compare_found what drift f run ctx =
     (if drift = [] then (compared StateMatched [] ctx, run, Inr f)
      else (compared StateDrift drift ctx, mark_drift run, Inr (raise_drift what drift f)))"

definition session_baseline :: "gate_env \<Rightarrow> json list \<Rightarrow> findings \<Rightarrow> pipeline_run \<Rightarrow> gate_context
    \<Rightarrow> gate_context \<times> pipeline_run \<times> (string + findings)" where
  "session_baseline env tools f run ctx =
     (case normalizeInventoryForForwarding env tools of
        Inl e \<Rightarrow> (ctx, run, Inl e)
      | Inr forwardedTools \<Rightarrow>
          (case gx_approvedTools ctx of
             None \<Rightarrow> (compared StateMissing [] ctx, run, Inr f)
           | Some sessionBaseline \<Rightarrow>
               (case inventoryDrift (JArr sessionBaseline) forwardedTools True (complete ctx) of
                  Inl e \<Rightarrow> (ctx, run, Inl e)
                | Inr drift \<Rightarrow>
                    compare_found ''Advertised tool inventory drifted from the approved set: '' drift f run ctx)))"

definition nothing_stored :: "gate_env \<Rightarrow> baseline_mode \<Rightarrow> baseline_store \<Rightarrow> baseline_key \<Rightarrow> json list \<Rightarrow> json list
    \<Rightarrow> findings \<Rightarrow> pipeline_run \<Rightarrow> gate_context \<Rightarrow> gate_context \<times> pipeline_run \<times> (string + findings)" where
  "nothing_stored env mode store key tools baselineTools f run ctx =
     (if fi_decision f = Deny then (compared StateMissing [] ctx, run, Inr f)
      else if mode = BaselineLearn \<and> complete ctx then
        (compared StateMissing [] ctx, run\<lparr>gr_pendingBaselineLearn := Some (store, key, baselineTools)\<rparr>,
         Inr (because (''Prepared the first clean inventory with '' @ show_nat (length tools)
                         @ '' tool(s) for final gate acceptance'') f))
      else if mode = BaselineLearn then (compared StateMissing [] ctx, run, Inr f)
      else
        (case collect (\<lambda>tool. attempt (tool_name tool) (\<lambda>name. attempt (name_text name) (\<lambda>n.
                 Inr (quoted n @ '' is new because no baseline exists'')))) tools of
           Inl e \<Rightarrow> (ctx, run, Inl e)
         | Inr fresh \<Rightarrow>
             (let drift = (if fresh = [] then [''No accepted baseline exists for this server''] else fresh)
              in (compared StateMissing drift ctx, mark_drift run,
                  Inr (raise_drift ''No locked tool inventory exists: '' drift f)))))"

text \<open>
  Learn and lock mode. In learn mode an unreadable store returns at once: with the warning among its
  reasons that is what falling through to the end of the gate returns.
\<close>

definition stored_baseline_check :: "gate_env \<Rightarrow> baseline_mode \<Rightarrow> json list \<Rightarrow> findings \<Rightarrow> pipeline_run \<Rightarrow> gate_context
    \<Rightarrow> gate_context \<times> pipeline_run \<times> (string + findings)" where
  "stored_baseline_check env mode tools f run ctx =
     (case (gx_baselineStore ctx, gx_baselineKey ctx) of
        (Some store, Some key) \<Rightarrow>
          (case normalizeInventoryForForwarding env tools of
             Inl e \<Rightarrow> (ctx, run, Inl e)
           | Inr baselineTools \<Rightarrow>
               (case readBaseline (ge_baseline env) store key of
                  Inl warning \<Rightarrow>
                    (compared StateMissing [warning] ctx, run,
                     if mode = BaselineLock then Inl warning
                     else Inr (because (warning @ ''; learn mode left the file unchanged'') f))
                | Inr None \<Rightarrow> nothing_stored env mode store key tools baselineTools f run ctx
                | Inr (Some baseline) \<Rightarrow>
                    (case inventoryDrift baseline baselineTools True (complete ctx) of
                       Inl e \<Rightarrow> (ctx, run, Inl e)
                     | Inr drift \<Rightarrow>
                         compare_found ''Advertised tool inventory drifted from the locked set: '' drift f run ctx)))
      | _ \<Rightarrow> (ctx, run, Inl (baseline_mode_str mode @ '' mode needs a baseline store and baseline key'')))"

definition malformed_inventory :: "string \<Rightarrow> gate_outcome" where
  "malformed_inventory reason =
     \<lparr>go_gate = ToolInventory, go_decision = Deny, go_riskLevel = High, go_reasons = [reason],
      go_detectionIds = [''det.mcp.tool.malformed'']\<rparr>"

definition inventory_outcome :: "gate_context \<Rightarrow> inventory_page \<Rightarrow> json list \<Rightarrow> findings \<Rightarrow> gate_outcome" where
  "inventory_outcome ctx page tools f =
     (let said = (if fi_reasons f \<noteq> [] then f
                  else if complete ctx then
                    because (''Server advertised '' @ show_nat (length tools) @ '' tool(s); none carry injected instructions'') f
                  else
                    because (''Received '' @ show_nat (length (ip_tools page)) @ '' tool(s); waiting for the final tools/list page'') f)
      in outcome_of ToolInventory (said\<lparr>fi_detectionIds := dedupe (fi_detectionIds said)\<rparr>))"

definition mode_of :: "gate_context \<Rightarrow> baseline_mode" where
  "mode_of ctx = (case gx_baselineMode ctx of None \<Rightarrow> BaselineOff | Some mode \<Rightarrow> mode)"

definition baseline_check :: "gate_env \<Rightarrow> json list \<Rightarrow> findings \<Rightarrow> pipeline_run \<Rightarrow> gate_context
    \<Rightarrow> gate_context \<times> pipeline_run \<times> (string + findings)" where
  "baseline_check env tools f run ctx =
     (if mode_of ctx = BaselineOff then session_baseline env tools f run ctx
      else stored_baseline_check env (mode_of ctx) tools f run ctx)"

definition candidate_tools :: "gate_context \<Rightarrow> inventory_page \<Rightarrow> json list" where
  "candidate_tools ctx page = (case gx_inventoryCandidate ctx of Some candidate \<Rightarrow> candidate | None \<Rightarrow> ip_tools page)"

definition gateToolInventory :: "gate_env \<Rightarrow> jframe \<Rightarrow> frame_direction \<Rightarrow> gate_context \<Rightarrow> pipeline_run \<Rightarrow> gate_result" where
  "gateToolInventory env frame direction ctx run =
     (case gx_inventoryError ctx of
        Some e \<Rightarrow> (ctx, run, Inr (Some (malformed_inventory e)))
      | None \<Rightarrow>
          if direction \<noteq> ServerToClient then (ctx, run, Inr None)
          else case parseMcpToolInventoryPage env (omap_get frame ''result'') of
                 NotInventory \<Rightarrow> (ctx, run, Inr None)
               | MalformedPage e \<Rightarrow> (ctx, run, Inr (Some (malformed_inventory (''Malformed MCP tool inventory: '' @ e))))
               | ValidPage page \<Rightarrow>
                   (let tools = candidate_tools ctx page
                    in case poison_scan env (ip_tools page) no_findings run of
                         (run1, Inl e) \<Rightarrow> (ctx, run1, Inl e)
                       | (run1, Inr f) \<Rightarrow>
                           (case baseline_check env tools f run1 ctx of
                              (ctx2, run2, Inl e) \<Rightarrow> (ctx2, run2, Inl e)
                            | (ctx2, run2, Inr f2) \<Rightarrow>
                                (ctx2, run2, Inr (Some (inventory_outcome ctx page tools f2))))))"

subsection \<open>Gate 3: the arguments\<close>

definition rewriteToolArguments :: "gate_env \<Rightarrow> jframe \<Rightarrow> string option \<Rightarrow> jframe option" where
  "rewriteToolArguments env frame redactedText =
     (case redactedText of None \<Rightarrow> None | Some redacted \<Rightarrow>
     (case ge_callParams env (omap_get frame ''params'') of None \<Rightarrow> None | Some params \<Rightarrow>
     (case json_parse redacted of None \<Rightarrow> None | Some reparsed \<Rightarrow>
     (case ge_object env reparsed of None \<Rightarrow> None | Some args \<Rightarrow>
        Some (omap_put ''params'' (JObj (omap_put ''arguments'' (JObj args) (tc_data params))) frame)))))"

definition call_arguments :: "gate_env \<Rightarrow> jframe \<Rightarrow> (string \<times> json) list" where
  "call_arguments env frame =
     (case ge_callParams env (omap_get frame ''params'') of
        None \<Rightarrow> []
      | Some params \<Rightarrow> (case tc_arguments params of None \<Rightarrow> [] | Some args \<Rightarrow> args))"

definition credential_reason :: "string \<Rightarrow> dlp_answer \<Rightarrow> string" where
  "credential_reason what dlp = what @ '' ('' @ js_join '', '' (ds_secretTypes dlp) @ '')''"

definition mark_secret :: "string \<Rightarrow> dlp_answer \<Rightarrow> pipeline_run \<Rightarrow> pipeline_run" where
  "mark_secret k dlp run = mark ''mcpSecretTypes'' (js_join '','' (ds_secretTypes dlp)) (mark k ''true'' run)"

definition input_secrets :: "gate_env \<Rightarrow> jframe \<Rightarrow> dlp_answer \<Rightarrow> findings \<Rightarrow> pipeline_run \<Rightarrow> findings \<times> pipeline_run" where
  "input_secrets env frame dlp f run =
     (if \<not> ds_containsSecrets dlp then (f, run)
      else
        (let f1 = because (credential_reason ''Tool arguments carry credential material'' dlp
                            @ ''; forwarding the raw values would hand them to the server'')
                    (detected ''det.mcp.input.secret'' (escalate Redact High f));
             run1 = mark_secret ''mcpInputSecret'' dlp run
         in case rewriteToolArguments env frame (ds_redactedText dlp) of
              Some rewritten \<Rightarrow> (f1, run1\<lparr>gr_redactedFrame := Some rewritten\<rparr>)
            | None \<Rightarrow>
                (because ''Redacted arguments could not be reserialized; denying rather than forwarding them intact''
                   (escalate Deny Critical f1), run1)))"

definition input_injection :: "injection_scan \<Rightarrow> findings \<Rightarrow> pipeline_run \<Rightarrow> findings \<times> pipeline_run" where
  "input_injection injection f run =
     (if \<not> ij_containsInjection injection then (f, run)
      else (because (''Tool arguments carry injected instructions ('' @ js_join '', '' (dedupe (ij_patternIds injection)) @ '')'')
              (detected ''det.mcp.input.injection'' (escalate Deny High f)),
            mark ''mcpInputInjection'' ''true'' run))"

definition gateInputScan :: "gate_env \<Rightarrow> jframe \<Rightarrow> frame_direction \<Rightarrow> pipeline_run \<Rightarrow> pipeline_run \<times> (string + gate_outcome option)" where
  "gateInputScan env frame direction run =
     (if direction \<noteq> ClientToServer \<or> omap_get frame ''method'' \<noteq> Some (JStr ''tools/call'') then (run, Inr None)
      else
        (let serialized = json_stringify (JObj (call_arguments env frame))
         in case attempt (scan_content env serialized) (\<lambda>dlp.
                   attempt (ge_scanInjection env serialized) (\<lambda>injection. Inr (dlp, injection))) of
              Inl e \<Rightarrow> (run, Inl e)
            | Inr (dlp, injection) \<Rightarrow>
                (let (f1, run1) = input_secrets env frame dlp no_findings run;
                     (f2, run2) = input_injection injection f1 run1;
                     f3 = (if fi_reasons f2 = []
                           then because ''Tool arguments carry no credential material or injected instructions'' f2 else f2)
                 in (run2, Inr (Some (outcome_of InputScan f3))))))"

subsection \<open>Gate 4: the operator's rules\<close>

definition policyOutcome :: "mcp_gate_name \<Rightarrow> policy_snapshot \<Rightarrow> agent_context \<Rightarrow> gate_outcome" where
  "policyOutcome gate engine agentCtx =
     (let result = evaluate engine agentCtx
      in if pr_matchedRules result = [] then
           \<lparr>go_gate = gate, go_decision = Allow, go_riskLevel = pr_riskLevel result,
            go_reasons = [''No policy rule matched '' @ cx_action agentCtx], go_detectionIds = []\<rparr>
         else
           \<lparr>go_gate = gate, go_decision = pr_decision result, go_riskLevel = pr_riskLevel result,
            go_reasons = pr_reasons result @ [''Matched policy rules: '' @ js_join '', '' (pr_matchedRules result)],
            go_detectionIds = map dm_id (pr_detections result)\<rparr>)"

definition put_all :: "(string \<times> 'v) list \<Rightarrow> (string \<times> 'v) list \<Rightarrow> (string \<times> 'v) list" where
  "put_all m extra = foldl (\<lambda>m (k, v). omap_put k v m) m extra"

definition call_metadata :: "gate_context \<Rightarrow> string \<Rightarrow> frame_direction \<Rightarrow> tool_call_params option \<Rightarrow> pipeline_run
    \<Rightarrow> (string \<times> string) list" where
  "call_metadata ctx rpcMethod direction params run =
     (let base = put_all [(''mcpServer'', ms_serverName (gx_server ctx)), (''mcpMethod'', rpcMethod),
                          (''mcpDirection'', direction_str direction)] (gr_markers run);
          named = (case params of
                     Some p \<Rightarrow> if rpcMethod = ''tools/call'' \<and> truthy (tc_name p)
                               then omap_put ''mcpTool'' (the (tc_name p)) base else base
                   | None \<Rightarrow> base)
      in if truthy (ms_commandHash (gx_server ctx))
         then omap_put ''mcpServerHash'' (the (ms_commandHash (gx_server ctx))) named else named)"

definition call_context :: "gate_env \<Rightarrow> jframe \<Rightarrow> string \<Rightarrow> frame_direction \<Rightarrow> gate_context \<Rightarrow> pipeline_run \<Rightarrow> agent_context" where
  "call_context env frame rpcMethod direction ctx run =
     (let params = ge_callParams env (omap_get frame ''params'')
      in \<lparr>cx_agentId = gx_agentId ctx, cx_sessionId = gx_sessionId ctx, cx_plane = Tool,
          cx_action = ''mcp:'' @ rpcMethod,
          cx_payload = (case params of
                          None \<Rightarrow> []
                        | Some p \<Rightarrow> if rpcMethod = ''tools/call'' then (case tc_arguments p of None \<Rightarrow> [] | Some args \<Rightarrow> args)
                                    else tc_data p),
          cx_metadata = Some (call_metadata ctx rpcMethod direction params run),
          cx_actor = None, cx_control = None, cx_provenance = None, cx_flow = None\<rparr>)"

definition gatePolicy :: "gate_env \<Rightarrow> jframe \<Rightarrow> frame_direction \<Rightarrow> gate_context \<Rightarrow> pipeline_run \<Rightarrow> gate_outcome option" where
  "gatePolicy env frame direction ctx run =
     (if direction \<noteq> ClientToServer then None
      else case string_at frame ''method'' of
             None \<Rightarrow> None
           | Some rpcMethod \<Rightarrow>
               Some (policyOutcome PolicyGate (gx_engine ctx) (call_context env frame rpcMethod direction ctx run)))"

subsection \<open>Gate 5: the answer\<close>

definition rewriteResponse :: "gate_env \<Rightarrow> jframe \<Rightarrow> string option \<Rightarrow> bool \<Rightarrow> jframe option" where
  "rewriteResponse env frame redactedText carriesResult =
     (case redactedText of None \<Rightarrow> None | Some redacted \<Rightarrow>
     (case json_parse redacted of None \<Rightarrow> None | Some reparsed \<Rightarrow>
        if carriesResult then Some (omap_put ''result'' reparsed frame)
        else (case ge_error env reparsed of None \<Rightarrow> None | Some err \<Rightarrow> Some (omap_put ''error'' err frame))))"

definition response_injection :: "injection_scan \<Rightarrow> findings \<Rightarrow> pipeline_run \<Rightarrow> findings \<times> pipeline_run" where
  "response_injection injection f run =
     (if \<not> ij_containsInjection injection then (f, run)
      else (because (''Tool output carries instructions aimed at the agent ('' @ js_join '', '' (dedupe (ij_patternIds injection)) @ '')'')
              (detected ''det.mcp.response.injection'' (escalate Deny Critical f)),
            mark ''mcpResponseInjection'' ''true'' run))"

definition response_secrets :: "gate_env \<Rightarrow> jframe \<Rightarrow> bool \<Rightarrow> dlp_answer \<Rightarrow> findings \<Rightarrow> pipeline_run \<Rightarrow> findings \<times> pipeline_run" where
  "response_secrets env frame carriesResult dlp f run =
     (if \<not> ds_containsSecrets dlp then (f, run)
      else
        (let f1 = because (credential_reason ''Tool output contains credential material'' dlp)
                    (detected ''det.mcp.response.secret'' (escalate Redact High f));
             run1 = mark_secret ''mcpResponseSecret'' dlp run
         in case rewriteResponse env frame (ds_redactedText dlp) carriesResult of
              Some rewritten \<Rightarrow> (f1, run1\<lparr>gr_redactedFrame := Some rewritten\<rparr>)
            | None \<Rightarrow>
                (because ''Redacted response could not be reserialized; denying rather than returning it intact''
                   (escalate Deny Critical f1), run1)))"

definition response_body :: "jframe \<Rightarrow> json" where
  "response_body frame =
     (case omap_get frame ''result'' of
        Some result \<Rightarrow> result
      | None \<Rightarrow> (case omap_get frame ''error'' of Some err \<Rightarrow> err | None \<Rightarrow> JNull))"

definition response_context :: "jframe \<Rightarrow> frame_direction \<Rightarrow> gate_context \<Rightarrow> pipeline_run \<Rightarrow> agent_context" where
  "response_context frame direction ctx run =
     (let carriesResult = hasKey frame ''result''
      in \<lparr>cx_agentId = gx_agentId ctx, cx_sessionId = gx_sessionId ctx, cx_plane = Content,
          cx_action = ''mcp:tool_result'',
          cx_payload = [(if carriesResult then ''result'' else ''error'', response_body frame)],
          cx_metadata = Some (put_all [(''mcpServer'', ms_serverName (gx_server ctx)),
                                       (''mcpDirection'', direction_str direction),
                                       (''mcpFrameKind'', if carriesResult then ''result'' else ''error'')] (gr_markers run)),
          cx_actor = None, cx_control = None,
          cx_provenance = Some [\<lparr>pt_source = ToolOutput, pt_trustLabel = Untrusted, pt_labels = None,
                                 pt_derivedFrom = None, pt_justification = None\<rparr>],
          cx_flow = Some \<lparr>fl_direction = Ingress, fl_channel = None, fl_target = None, fl_labels = None,
                          fl_crossesBoundary = None, fl_highRisk = None\<rparr>\<rparr>)"

definition add_policy :: "gate_outcome \<Rightarrow> findings \<Rightarrow> findings" where
  "add_policy p f =
     \<lparr>fi_decision = maxDecision (fi_decision f) (go_decision p), fi_riskLevel = maxRisk (fi_riskLevel f) (go_riskLevel p),
      fi_reasons = fi_reasons f @ go_reasons p, fi_detectionIds = dedupe (fi_detectionIds f @ go_detectionIds p)\<rparr>"

definition gateResponseScan :: "gate_env \<Rightarrow> jframe \<Rightarrow> frame_direction \<Rightarrow> gate_context \<Rightarrow> pipeline_run
    \<Rightarrow> pipeline_run \<times> (string + gate_outcome option)" where
  "gateResponseScan env frame direction ctx run =
     (if direction \<noteq> ServerToClient \<or> (\<not> hasKey frame ''result'' \<and> \<not> hasKey frame ''error'') then (run, Inr None)
      else
        (let serialized = json_stringify (response_body frame)
         in case attempt (ge_scanInjection env serialized) (\<lambda>injection.
                   attempt (scan_content env serialized) (\<lambda>dlp. Inr (injection, dlp))) of
              Inl e \<Rightarrow> (run, Inl e)
            | Inr (injection, dlp) \<Rightarrow>
                (let (f1, run1) = response_injection injection no_findings run;
                     (f2, run2) = response_secrets env frame (hasKey frame ''result'') dlp f1 run1;
                     policy = policyOutcome ResponseScan (gx_engine ctx) (response_context frame direction ctx run2)
                 in (run2, Inr (Some (outcome_of ResponseScan (add_policy policy f2)))))))"

subsection \<open>The pipeline\<close>

definition runGate :: "gate_env \<Rightarrow> mcp_gate_name \<Rightarrow> jframe \<Rightarrow> frame_direction \<Rightarrow> gate_context \<Rightarrow> pipeline_run \<Rightarrow> gate_result" where
  "runGate env gate frame direction ctx run =
     (case gate of
        FrameIntegrity \<Rightarrow> (ctx, run, map_sum id Some (gateFrameIntegrity frame))
      | ToolInventory \<Rightarrow> gateToolInventory env frame direction ctx run
      | InputScan \<Rightarrow> (ctx, gateInputScan env frame direction run)
      | PolicyGate \<Rightarrow> (ctx, run, Inr (gatePolicy env frame direction ctx run))
      | ResponseScan \<Rightarrow> (ctx, gateResponseScan env frame direction ctx run))"

definition failed_gate :: "mcp_gate_name \<Rightarrow> string \<Rightarrow> gate_outcome" where
  "failed_gate gate e =
     \<lparr>go_gate = gate, go_decision = Deny, go_riskLevel = High,
      go_reasons = [''Gate '' @ gate_str gate @ '' failed internally and the frame was denied: '' @ e], go_detectionIds = []\<rparr>"

text \<open>One gate inside its try block: a gate that throws contributes a deny naming itself.\<close>

definition isolated :: "gate_env \<Rightarrow> mcp_gate_name \<Rightarrow> jframe \<Rightarrow> frame_direction \<Rightarrow> gate_context \<Rightarrow> pipeline_run
    \<Rightarrow> gate_context \<times> pipeline_run \<times> gate_outcome option" where
  "isolated env gate frame direction ctx run =
     (case runGate env gate frame direction ctx run of
        (ctx', run', Inr outcome) \<Rightarrow> (ctx', run', outcome)
      | (ctx', run', Inl e) \<Rightarrow> (ctx', run', Some (failed_gate gate e)))"

fun run_gates :: "gate_env \<Rightarrow> jframe \<Rightarrow> frame_direction \<Rightarrow> mcp_gate_name list \<Rightarrow> gate_context \<Rightarrow> pipeline_run
    \<Rightarrow> gate_context \<times> pipeline_run \<times> gate_outcome list \<times> mcp_gate_name option" where
  "run_gates env frame direction [] ctx run = (ctx, run, [], None)"
| "run_gates env frame direction (gate # gates) ctx run =
     (case isolated env gate frame direction ctx run of
        (ctx1, run1, None) \<Rightarrow> run_gates env frame direction gates ctx1 run1
      | (ctx1, run1, Some outcome) \<Rightarrow>
          if go_decision outcome = Deny then (ctx1, run1, [outcome], Some gate)
          else (case run_gates env frame direction gates ctx1 run1 of
                  (ctx2, run2, outcomes, blockingGate) \<Rightarrow> (ctx2, run2, outcome # outcomes, blockingGate)))"

definition aggregate :: "gate_outcome list \<Rightarrow> findings" where
  "aggregate outcomes =
     foldl (\<lambda>f outcome.
         \<lparr>fi_decision = maxDecision (fi_decision f) (go_decision outcome),
          fi_riskLevel = maxRisk (fi_riskLevel f) (go_riskLevel outcome),
          fi_reasons = fi_reasons f @ go_reasons outcome,
          fi_detectionIds = fi_detectionIds f @ go_detectionIds outcome\<rparr>) no_findings outcomes"

text \<open>
  The inventory prepared for learning is written only now that the whole frame is accepted. \<open>None\<close> is
  the store's writer still waiting for its lock.
\<close>

definition learn_pending :: "gate_env \<Rightarrow> write_io \<Rightarrow> findings \<Rightarrow> pipeline_run \<Rightarrow> gate_context \<Rightarrow> (gate_context \<times> findings) option" where
  "learn_pending env io f run ctx =
     (case gr_pendingBaselineLearn run of
        None \<Rightarrow> Some (ctx, f)
      | Some (store, key, tools) \<Rightarrow>
          if fi_decision f = Allow \<or> fi_decision f = Redact then
            (case writeBaseline (ge_baseline env) io key (JArr tools) store of
               None \<Rightarrow> None
             | Some (store', Inr u) \<Rightarrow> Some (compared StateLearned [] (ctx\<lparr>gx_baselineStore := Some store'\<rparr>), f)
             | Some (store', Inl warning) \<Rightarrow>
                 Some (compared StateMissing [warning] (ctx\<lparr>gx_baselineStore := Some store'\<rparr>),
                       because (''The clean inventory was not learned: '' @ warning) f))
          else Some (ctx, f))"

definition evaluateFrame :: "gate_env \<Rightarrow> write_io \<Rightarrow> jframe \<Rightarrow> frame_direction \<Rightarrow> gate_context
    \<Rightarrow> (gate_context \<times> mcp_evaluation) option" where
  "evaluateFrame env io frame direction ctx =
     (case run_gates env frame direction GATE_ORDER ctx empty_run of
        (ctx1, run, outcomes, blockingGate) \<Rightarrow>
          (case learn_pending env io (aggregate outcomes) run ctx1 of
             None \<Rightarrow> None
           | Some (ctx2, f) \<Rightarrow>
               Some (ctx2,
                 \<lparr>me_decision = fi_decision f, me_riskLevel = fi_riskLevel f, me_reasons = dedupe (fi_reasons f),
                  me_detectionIds = dedupe (fi_detectionIds f), me_blockingGate = blockingGate, me_outcomes = outcomes,
                  me_redactedFrame = (if fi_decision f \<noteq> Deny then gr_redactedFrame run else None)\<rparr>)))"

definition recordToolInventory :: "gate_env \<Rightarrow> json list \<Rightarrow> gate_context \<Rightarrow> string + gate_context" where
  "recordToolInventory env tools ctx =
     attempt (collect (\<lambda>tool. attempt (ge_tool env tool) (\<lambda>parsed.
                case json_parse (json_stringify parsed) of
                  None \<Rightarrow> Inl (be_parseError (ge_baseline env) (json_stringify parsed))
                | Some copy \<Rightarrow> ge_tool env copy)) tools)
       (\<lambda>approved. Inr (ctx\<lparr>gx_approvedTools := Some approved\<rparr>))"

subsection \<open>The verdict of the pipeline\<close>

lemma maxDecision_max: "maxDecision a b = max a b"
  by (cases a; cases b) (simp_all add: maxDecision_def max_def less_eq_decision_def)

lemma maxRisk_max: "maxRisk a b = max a b"
  by (cases a; cases b) (simp_all add: maxRisk_def max_def less_eq_risk_level_def)

lemma decision_Allow_le [simp]: "Allow \<le> d"
  by (simp add: less_eq_decision_def)

lemma aggregate_snoc:
  "aggregate (outs @ [oc]) =
     \<lparr>fi_decision = max (fi_decision (aggregate outs)) (go_decision oc),
      fi_riskLevel = max (fi_riskLevel (aggregate outs)) (go_riskLevel oc),
      fi_reasons = fi_reasons (aggregate outs) @ go_reasons oc,
      fi_detectionIds = fi_detectionIds (aggregate outs) @ go_detectionIds oc\<rparr>"
  by (simp add: aggregate_def maxDecision_max maxRisk_max)

lemma aggregate_Nil [simp]: "aggregate [] = no_findings"
  by (simp add: aggregate_def)

lemma aggregate_decision: "fi_decision (aggregate outs) = Max (insert Allow (go_decision ` set outs))"
proof (induction outs rule: rev_induct)
  case (snoc oc outs)
  have "finite (insert Allow (go_decision ` set outs))" by simp
  then have "Max (insert (go_decision oc) (insert Allow (go_decision ` set outs))) =
      max (go_decision oc) (Max (insert Allow (go_decision ` set outs)))"
    by (rule Max_insert) simp
  with snoc show ?case by (simp add: aggregate_snoc insert_commute max.commute)
qed (simp add: no_findings_def)

lemma aggregate_ge: "oc \<in> set outs \<Longrightarrow> go_decision oc \<le> fi_decision (aggregate outs)"
  by (simp add: aggregate_decision Max_ge_iff)

lemma aggregate_attained:
  "fi_decision (aggregate outs) = Allow \<or> (\<exists>oc \<in> set outs. go_decision oc = fi_decision (aggregate outs))"
proof -
  have "fi_decision (aggregate outs) \<in> insert Allow (go_decision ` set outs)"
    unfolding aggregate_decision by (rule Max_in) simp_all
  then show ?thesis by auto
qed

lemma aggregate_Deny: "fi_decision (aggregate outs) = Deny \<longleftrightarrow> (\<exists>oc \<in> set outs. go_decision oc = Deny)"
  using aggregate_ge [of _ outs] aggregate_attained [of outs] by fastforce

lemma learn_pending_decision: "learn_pending env io f run ctx = Some (ctx', f') \<Longrightarrow> fi_decision f' = fi_decision f"
  by (auto simp: learn_pending_def because_def split: option.splits prod.splits sum.splits if_splits)

text \<open>A gate's outcome carries its own name.\<close>

lemma outcome_of_simps [simp]:
  "go_gate (outcome_of g f) = g" "go_decision (outcome_of g f) = fi_decision f"
  "go_reasons (outcome_of g f) = fi_reasons f"
  by (simp_all add: outcome_of_def)

lemma policyOutcome_gate [simp]: "go_gate (policyOutcome g engine c) = g"
  by (simp add: policyOutcome_def Let_def)

lemma inventory_outcome_simps [simp]:
  "go_gate (inventory_outcome ctx page tools f) = ToolInventory"
  "go_decision (inventory_outcome ctx page tools f) = fi_decision f"
  by (simp_all add: inventory_outcome_def Let_def because_def)

lemma malformed_inventory_simps [simp]:
  "go_gate (malformed_inventory e) = ToolInventory" "go_decision (malformed_inventory e) = Deny"
  by (simp_all add: malformed_inventory_def)

lemma failed_gate_simps [simp]: "go_gate (failed_gate g e) = g" "go_decision (failed_gate g e) = Deny"
  by (simp_all add: failed_gate_def)

lemma gateToolInventory_gate:
  "gateToolInventory env frame direction ctx run = (c, r, Inr (Some oc)) \<Longrightarrow> go_gate oc = ToolInventory"
  by (auto simp: gateToolInventory_def Let_def split: option.splits page_parse.splits prod.splits sum.splits if_splits)

lemma isolated_gate:
  assumes "isolated env gate frame direction ctx run = (c, r, Some oc)"
  shows "go_gate oc = gate"
proof (cases gate)
  case ToolInventory
  with assms show ?thesis
    by (auto simp: isolated_def runGate_def split: prod.splits sum.splits dest: gateToolInventory_gate)
next
  case FrameIntegrity
  with assms show ?thesis
    by (auto simp: isolated_def runGate_def gateFrameIntegrity_def Let_def split: sum.splits option.splits if_splits)
next
  case InputScan
  with assms show ?thesis
    by (auto simp: isolated_def runGate_def gateInputScan_def Let_def split: prod.splits sum.splits if_splits)
next
  case PolicyGate
  with assms show ?thesis
    by (auto simp: isolated_def runGate_def gatePolicy_def split: prod.splits option.splits if_splits)
next
  case ResponseScan
  with assms show ?thesis
    by (auto simp: isolated_def runGate_def gateResponseScan_def Let_def split: prod.splits sum.splits if_splits)
qed

lemma run_gates_shape:
  assumes "run_gates env frame direction gates ctx run = (c, r, outs, blocking)"
  shows "(case blocking of
            None \<Rightarrow> \<forall>oc \<in> set outs. go_decision oc \<noteq> Deny
          | Some g \<Rightarrow> \<exists>front final. outs = front @ [final] \<and> go_gate final = g \<and> go_decision final = Deny
                        \<and> (\<forall>oc \<in> set front. go_decision oc \<noteq> Deny))"
    and "subseq (map go_gate outs) gates"
  using assms
proof (induction gates arbitrary: ctx run outs)
  case (Cons gate gates)
  case 1
  obtain c1 r1 oc where iso: "isolated env gate frame direction ctx run = (c1, r1, oc)" by (metis prod_cases3)
  show ?case
  proof (cases oc)
    case None
    with 1 iso Cons(1) show ?thesis by simp
  next
    case (Some o1)
    show ?thesis
    proof (cases "go_decision o1 = Deny")
      case True
      with 1 iso Some isolated_gate [of env gate frame direction ctx run c1 r1 o1] show ?thesis by auto
    next
      case False
      with 1 iso Some obtain outs1 where run: "run_gates env frame direction gates c1 r1 = (c, r, outs1, blocking)"
        and outs: "outs = o1 # outs1" by (auto split: prod.splits)
      from Cons(1) [OF run] False show ?thesis
        by (auto simp: outs split: option.splits)
    qed
  qed
next
  case (Cons gate gates)
  case 2
  obtain c1 r1 oc where iso: "isolated env gate frame direction ctx run = (c1, r1, oc)" by (metis prod_cases3)
  then show ?case
    using 2 Cons(2) isolated_gate [of env gate frame direction ctx run c1 r1]
    by (auto split: option.splits prod.splits if_splits)
qed auto

text \<open>When nothing blocks, every gate has run, each in the state the one before it left.\<close>

lemma run_gates_Cons_None:
  "run_gates env frame direction (gate # gates) ctx run = (c, r, outs, None) \<longleftrightarrow>
     (\<exists>c1 r1 oc outs1. isolated env gate frame direction ctx run = (c1, r1, oc)
        \<and> run_gates env frame direction gates c1 r1 = (c, r, outs1, None)
        \<and> (case oc of None \<Rightarrow> outs = outs1 | Some o1 \<Rightarrow> go_decision o1 \<noteq> Deny \<and> outs = o1 # outs1))"
  by (auto split: prod.splits option.splits)

declare run_gates.simps(2) [simp del]

lemma run_gates_append:
  "run_gates env frame direction (gs @ hs) ctx run = (c, r, outs, None) \<longleftrightarrow>
     (\<exists>c1 r1 outs1 outs2. run_gates env frame direction gs ctx run = (c1, r1, outs1, None)
        \<and> run_gates env frame direction hs c1 r1 = (c, r, outs2, None) \<and> outs = outs1 @ outs2)"
proof (induction gs arbitrary: ctx run outs)
  case (Cons gate gates)
  obtain c1 r1 oc where iso: "isolated env gate frame direction ctx run = (c1, r1, oc)" by (metis prod_cases3)
  show ?case
    unfolding append_Cons run_gates_Cons_None Cons iso
    by (cases oc) auto
qed simp

lemma run_gates_one:
  "run_gates env frame direction [gate] ctx run = (c, r, outs, None) \<longleftrightarrow>
     (\<exists>oc. isolated env gate frame direction ctx run = (c, r, oc)
        \<and> (case oc of None \<Rightarrow> outs = [] | Some o1 \<Rightarrow> outs = [o1] \<and> go_decision o1 \<noteq> Deny))"
  by (auto simp: run_gates_Cons_None split: option.splits)

text \<open>Which gates touch the rewritten frame.\<close>

lemma mark_frame [simp]: "gr_redactedFrame (mark k v run) = gr_redactedFrame run"
  by (simp add: mark_def)

lemma mark_pending [simp]: "gr_pendingBaselineLearn (mark k v run) = gr_pendingBaselineLearn run"
  by (simp add: mark_def)

lemma poison_scan_frame:
  "poison_scan env tools f run = (run', r) \<Longrightarrow>
     gr_redactedFrame run' = gr_redactedFrame run \<and> gr_pendingBaselineLearn run' = gr_pendingBaselineLearn run"
  by (induction env tools f run rule: poison_scan.induct) (auto simp: Let_def split: sum.splits if_splits)

lemmas baseline_defs = baseline_check_def session_baseline_def stored_baseline_check_def compare_found_def
  nothing_stored_def mark_drift_def

lemma baseline_check_frame:
  "baseline_check env tools f run ctx = (ctx', run', r) \<Longrightarrow> gr_redactedFrame run' = gr_redactedFrame run"
  by (auto simp: baseline_defs Let_def split: sum.splits option.splits prod.splits if_splits)

lemma gateToolInventory_frame:
  "gateToolInventory env frame direction ctx run = (ctx', run', r) \<Longrightarrow> gr_redactedFrame run' = gr_redactedFrame run"
  by (auto simp: gateToolInventory_def Let_def dest!: poison_scan_frame baseline_check_frame
      split: option.splits page_parse.splits prod.splits sum.splits if_splits)

lemma isolated_inventory_client:
  "isolated env ToolInventory frame ClientToServer ctx run = (ctx', run', oc) \<Longrightarrow> ctx' = ctx \<and> run' = run"
  by (auto simp: isolated_def runGate_def gateToolInventory_def split: option.splits)

lemma isolated_simps:
  "isolated env FrameIntegrity frame direction ctx run = (ctx', run', oc) \<Longrightarrow> ctx' = ctx \<and> run' = run"
  "isolated env PolicyGate frame direction ctx run = (ctx, run, gatePolicy env frame direction ctx run)"
  "isolated env InputScan frame ServerToClient ctx run = (ctx, run, None)"
  "isolated env ResponseScan frame ClientToServer ctx run = (ctx, run, None)"
  by (auto simp: isolated_def runGate_def gateInputScan_def gateResponseScan_def split: sum.splits prod.splits)

text \<open>The runs that end without a block, one direction at a time.\<close>

lemma client_run:
  assumes "run_gates env frame ClientToServer GATE_ORDER ctx empty_run = (c, r, outs, None)"
  obtains front oc rest where
    "isolated env InputScan frame ClientToServer ctx empty_run = (ctx, r, oc)" "c = ctx"
    "\<forall>o1. oc = Some o1 \<longrightarrow> go_decision o1 \<noteq> Deny"
    "outs = front @ (case oc of None \<Rightarrow> [] | Some o1 \<Rightarrow> [o1]) @ rest"
    "\<forall>p. gatePolicy env frame ClientToServer ctx r = Some p \<longrightarrow> p \<in> set rest"
proof -
  have order: "GATE_ORDER = [FrameIntegrity] @ [ToolInventory] @ [InputScan] @ [PolicyGate] @ [ResponseScan]"
    by (simp add: GATE_ORDER_def)
  from assms obtain c1 r1 o1 c2 r2 o2 c3 r3 o3 o4 o5 where
      "run_gates env frame ClientToServer [FrameIntegrity] ctx empty_run = (c1, r1, o1, None)"
      "run_gates env frame ClientToServer [ToolInventory] c1 r1 = (c2, r2, o2, None)"
      and input: "run_gates env frame ClientToServer [InputScan] c2 r2 = (c3, r3, o3, None)"
      and policy: "run_gates env frame ClientToServer [PolicyGate] c3 r3 = (c, r, o4, None)"
      and outs: "outs = o1 @ o2 @ o3 @ o4 @ o5"
    unfolding order run_gates_append by (auto simp: run_gates_one isolated_simps)
  then have "c2 = ctx" "r2 = empty_run"
    by (auto simp: run_gates_one dest!: isolated_simps(1) isolated_inventory_client)
  moreover from policy have "c = c3" "r = r3" by (auto simp: run_gates_one isolated_simps)
  moreover have "c3 = c2"
    using input by (auto simp: run_gates_one isolated_def runGate_def split: sum.splits prod.splits)
  ultimately show thesis
    using input policy outs that [of _ "o1 @ o2" "o4 @ o5"]
    by (auto simp: run_gates_one isolated_simps split: option.splits)
qed

lemma server_run:
  assumes "run_gates env frame ServerToClient GATE_ORDER ctx empty_run = (c, r, outs, None)"
  obtains front r2 oi oc where
    "isolated env ToolInventory frame ServerToClient ctx empty_run = (c, r2, oi)"
    "\<forall>o1. oi = Some o1 \<longrightarrow> go_decision o1 \<noteq> Deny"
    "isolated env ResponseScan frame ServerToClient c r2 = (c, r, oc)"
    "\<forall>o1. oc = Some o1 \<longrightarrow> go_decision o1 \<noteq> Deny"
    "outs = front @ (case oi of None \<Rightarrow> [] | Some o1 \<Rightarrow> [o1]) @ (case oc of None \<Rightarrow> [] | Some o1 \<Rightarrow> [o1])"
proof -
  have order: "GATE_ORDER = [FrameIntegrity] @ [ToolInventory] @ [InputScan] @ [PolicyGate] @ [ResponseScan]"
    by (simp add: GATE_ORDER_def)
  from assms obtain c1 r1 o1 c2 r2 o2 o5 where
      "run_gates env frame ServerToClient [FrameIntegrity] ctx empty_run = (c1, r1, o1, None)"
      and inv: "run_gates env frame ServerToClient [ToolInventory] c1 r1 = (c2, r2, o2, None)"
      and resp: "run_gates env frame ServerToClient [ResponseScan] c2 r2 = (c, r, o5, None)"
      and outs: "outs = o1 @ o2 @ o5"
    unfolding order run_gates_append by (auto simp: run_gates_one isolated_simps gatePolicy_def)
  then have "c1 = ctx" "r1 = empty_run"
    by (auto simp: run_gates_one dest!: isolated_simps(1))
  moreover have "c = c2"
    using resp by (auto simp: run_gates_one isolated_def runGate_def split: sum.splits prod.splits)
  ultimately show thesis
    using inv resp outs that [of r2 _ _ o1]
    by (auto simp: run_gates_one split: option.splits)
qed

end
