(* ===== verification/Mcp_Gate_Laws.thy ===== *)
theory Mcp_Gate_Laws
  imports Mcp_Gates
begin

text \<open>
  What the MCP pipeline guarantees: the verdict is the strongest gate's and names the gate that refused,
  nothing is forwarded unscanned or with a secret in it, a locked session forwards only the inventory it
  accepted, and an inventory is learned only from a frame every gate let through.
\<close>

lemma evaluateFrame_Some:
  "evaluateFrame env io frame direction ctx = Some (ctx', ev) \<Longrightarrow>
     (\<exists>ctx1 run outs blocking f. run_gates env frame direction GATE_ORDER ctx empty_run = (ctx1, run, outs, blocking)
        \<and> learn_pending env io (aggregate outs) run ctx1 = Some (ctx', f)
        \<and> ev = \<lparr>me_decision = fi_decision (aggregate outs), me_riskLevel = fi_riskLevel f, me_reasons = dedupe (fi_reasons f),
                 me_detectionIds = dedupe (fi_detectionIds f), me_blockingGate = blocking, me_outcomes = outs,
                 me_redactedFrame = (if fi_decision (aggregate outs) \<noteq> Deny then gr_redactedFrame run else None)\<rparr>)"
proof -
  assume ev: "evaluateFrame env io frame direction ctx = Some (ctx', ev)"
  obtain ctx1 run outs blocking where run: "run_gates env frame direction GATE_ORDER ctx empty_run = (ctx1, run, outs, blocking)"
    by (metis prod_cases4)
  with ev obtain f where f: "learn_pending env io (aggregate outs) run ctx1 = Some (ctx', f)"
    by (auto simp: evaluateFrame_def split: option.splits)
  from learn_pending_decision [OF f] ev run f show ?thesis
    by (auto simp: evaluateFrame_def)
qed

lemma blocking_iff_Deny:
  assumes "run_gates env frame direction gates ctx run = (c, r, outs, blocking)"
  shows "blocking = None \<longleftrightarrow> fi_decision (aggregate outs) \<noteq> Deny"
  using run_gates_shape(1) [OF assms] by (cases blocking) (auto simp: aggregate_Deny)

text \<open>C22: The verdict on a frame is the strongest any gate gave: no gate's decision is above it and it is
  one a gate gave, or allow when none objected. The gates that ran are a subsequence of the contractual
  order. The frame is denied exactly when a blocking gate is named, and that gate is the last that ran, the
  first and only one that denied; a denied frame carries no rewritten copy.\<close>

theorem verdict_is_the_strongest_gate:
  assumes "evaluateFrame env io frame direction ctx = Some (ctx', ev)"
  shows "(\<forall>oc \<in> set (me_outcomes ev). go_decision oc \<le> me_decision ev)
    \<and> me_decision ev \<in> insert Allow (go_decision ` set (me_outcomes ev))
    \<and> subseq (map go_gate (me_outcomes ev)) GATE_ORDER
    \<and> (me_decision ev = Deny \<longleftrightarrow> me_blockingGate ev \<noteq> None)
    \<and> (\<forall>g. me_blockingGate ev = Some g \<longrightarrow>
          me_redactedFrame ev = None
          \<and> (\<exists>front final. me_outcomes ev = front @ [final] \<and> go_gate final = g \<and> go_decision final = Deny
               \<and> (\<forall>oc \<in> set front. go_decision oc \<noteq> Deny)))"
proof -
  from assms obtain ctx1 run where run:
      "run_gates env frame direction GATE_ORDER ctx empty_run = (ctx1, run, me_outcomes ev, me_blockingGate ev)"
    and ev: "me_decision ev = fi_decision (aggregate (me_outcomes ev))"
      "me_redactedFrame ev = (if me_decision ev \<noteq> Deny then gr_redactedFrame run else None)"
    by (auto dest!: evaluateFrame_Some)
  have strongest: "\<forall>oc \<in> set (me_outcomes ev). go_decision oc \<le> me_decision ev"
      "me_decision ev \<in> insert Allow (go_decision ` set (me_outcomes ev))"
    unfolding ev by (simp_all add: aggregate_ge) (metis aggregate_attained image_eqI)
  have deny: "me_decision ev = Deny \<longleftrightarrow> me_blockingGate ev \<noteq> None"
    using blocking_iff_Deny [OF run] ev by auto
  show ?thesis
    using strongest deny run_gates_shape [OF run] ev(2) by (auto split: option.splits)
qed

subsection \<open>Nothing is forwarded unscanned\<close>

text \<open>The text the two scanners see of a frame, if the frame is one they look at.\<close>

definition scanned_text :: "gate_env \<Rightarrow> jframe \<Rightarrow> frame_direction \<Rightarrow> string option" where
  "scanned_text env frame direction =
     (case direction of
        ClientToServer \<Rightarrow>
          if omap_get frame ''method'' = Some (JStr ''tools/call'')
          then Some (json_stringify (JObj (call_arguments env frame))) else None
      | ServerToClient \<Rightarrow>
          if hasKey frame ''result'' \<or> hasKey frame ''error'' then Some (json_stringify (response_body frame)) else None)"

definition rewritten :: "gate_env \<Rightarrow> jframe \<Rightarrow> frame_direction \<Rightarrow> string option \<Rightarrow> jframe option" where
  "rewritten env frame direction redactedText =
     (case direction of
        ClientToServer \<Rightarrow> rewriteToolArguments env frame redactedText
      | ServerToClient \<Rightarrow> rewriteResponse env frame redactedText (hasKey frame ''result''))"

lemma findings_simps [simp]:
  "fi_decision (escalate d r f) = max (fi_decision f) d"
  "fi_decision (detected i f) = fi_decision f" "fi_decision (because s f) = fi_decision f"
  "fi_decision (add_policy p f) = max (fi_decision f) (go_decision p)"
  "fi_decision no_findings = Allow"
  by (simp_all add: escalate_def detected_def because_def add_policy_def no_findings_def maxDecision_max)

lemma because_reasons [simp]: "fi_reasons (because s f) \<noteq> []"
  by (simp add: because_def)

lemma decision_max_simps [simp]:
  "max d Deny = Deny" "max Deny d = Deny" "max Allow d = (d :: decision)" "max d Allow = (d :: decision)"
  by (cases d; simp add: max_def less_eq_decision_def)+

lemma decision_max_Deny [simp]: "max d e = Deny \<longleftrightarrow> d = Deny \<or> e = Deny"
  by (cases d; cases e) (simp_all add: max_def less_eq_decision_def)

lemma redact_le_max: "Redact \<le> d \<Longrightarrow> Redact \<le> max d e"
  by (simp add: le_max_iff_disj)

lemma input_scan_passed:
  assumes "isolated env InputScan frame ClientToServer ctx empty_run = (c, r, oc)"
    and "omap_get frame ''method'' = Some (JStr ''tools/call'')"
    and "\<forall>o1. oc = Some o1 \<longrightarrow> go_decision o1 \<noteq> Deny"
  obtains dlp inj where "scan_content env (json_stringify (JObj (call_arguments env frame))) = Inr dlp"
    "ge_scanInjection env (json_stringify (JObj (call_arguments env frame))) = Inr inj"
    "\<not> ij_containsInjection inj"
    "ds_containsSecrets dlp \<Longrightarrow> \<exists>o1 f. oc = Some o1 \<and> Redact \<le> go_decision o1 \<and> gr_redactedFrame r = Some f
       \<and> rewriteToolArguments env frame (ds_redactedText dlp) = Some f"
    "\<not> ds_containsSecrets dlp \<Longrightarrow> gr_redactedFrame r = None"
proof -
  let ?t = "json_stringify (JObj (call_arguments env frame))"
  from assms obtain dlp where dlp: "scan_content env ?t = Inr dlp"
    by (cases "scan_content env ?t") (auto simp: isolated_def runGate_def gateInputScan_def)
  from assms dlp obtain inj where inj: "ge_scanInjection env ?t = Inr inj"
    by (cases "ge_scanInjection env ?t") (auto simp: isolated_def runGate_def gateInputScan_def)
  from assms(1,2) dlp inj obtain o1 where o1: "oc = Some o1"
    and d: "go_decision o1 = fi_decision (fst (input_injection inj (fst (input_secrets env frame dlp no_findings empty_run))
              (snd (input_secrets env frame dlp no_findings empty_run))))"
    and r: "gr_redactedFrame r = gr_redactedFrame (snd (input_secrets env frame dlp no_findings empty_run))"
    by (auto simp: isolated_def runGate_def gateInputScan_def Let_def input_injection_def split: prod.splits if_splits)
  from assms(3) o1 d have "\<not> ij_containsInjection inj" by (auto simp: input_injection_def)
  moreover have "\<exists>f. Redact \<le> go_decision o1 \<and> gr_redactedFrame r = Some f
       \<and> rewriteToolArguments env frame (ds_redactedText dlp) = Some f" if "ds_containsSecrets dlp"
    using that d r assms(3) o1 calculation
    by (cases "rewriteToolArguments env frame (ds_redactedText dlp)")
      (auto simp: input_secrets_def input_injection_def Let_def mark_secret_def)
  moreover have "gr_redactedFrame r = None" if "\<not> ds_containsSecrets dlp"
    using that r by (simp add: input_secrets_def empty_run_def)
  ultimately show thesis using that [OF dlp inj] o1 by blast
qed

lemma isolated_inventory_frame:
  "isolated env ToolInventory frame direction ctx run = (c, r, oc) \<Longrightarrow> gr_redactedFrame r = gr_redactedFrame run"
  by (auto simp: isolated_def runGate_def split: prod.splits sum.splits dest: gateToolInventory_frame)

lemma response_secrets_Deny:
  "fi_decision f = Deny \<Longrightarrow> fi_decision (fst (response_secrets env frame carries dlp f run)) = Deny"
  by (simp add: response_secrets_def Let_def split: option.split)

lemma response_scan_passed:
  assumes "isolated env ResponseScan frame ServerToClient ctx run = (c, r, oc)"
    and "hasKey frame ''result'' \<or> hasKey frame ''error''"
    and "\<forall>o1. oc = Some o1 \<longrightarrow> go_decision o1 \<noteq> Deny"
  obtains dlp inj where "scan_content env (json_stringify (response_body frame)) = Inr dlp"
    "ge_scanInjection env (json_stringify (response_body frame)) = Inr inj"
    "\<not> ij_containsInjection inj"
    "ds_containsSecrets dlp \<Longrightarrow> \<exists>o1 f. oc = Some o1 \<and> Redact \<le> go_decision o1 \<and> gr_redactedFrame r = Some f
       \<and> rewriteResponse env frame (ds_redactedText dlp) (hasKey frame ''result'') = Some f"
    "\<not> ds_containsSecrets dlp \<Longrightarrow> gr_redactedFrame r = gr_redactedFrame run"
proof -
  let ?t = "json_stringify (response_body frame)"
  from assms obtain inj where inj: "ge_scanInjection env ?t = Inr inj"
    by (cases "ge_scanInjection env ?t") (auto simp: isolated_def runGate_def gateResponseScan_def)
  from assms inj obtain dlp where dlp: "scan_content env ?t = Inr dlp"
    by (cases "scan_content env ?t") (auto simp: isolated_def runGate_def gateResponseScan_def)
  let ?f1 = "fst (response_injection inj no_findings run)" and ?r1 = "snd (response_injection inj no_findings run)"
  from assms(1,2) dlp inj obtain o1 p where o1: "oc = Some o1"
    and d: "go_decision o1 = max (fi_decision (fst (response_secrets env frame (hasKey frame ''result'') dlp ?f1 ?r1))) p"
    and r: "gr_redactedFrame r = gr_redactedFrame (snd (response_secrets env frame (hasKey frame ''result'') dlp ?f1 ?r1))"
    by (auto simp: isolated_def runGate_def gateResponseScan_def Let_def split: prod.splits if_splits)
  from assms(3) o1 d have no: "\<not> ij_containsInjection inj"
    by (auto simp: response_injection_def response_secrets_Deny)
  moreover have "\<exists>f. Redact \<le> go_decision o1 \<and> gr_redactedFrame r = Some f
       \<and> rewriteResponse env frame (ds_redactedText dlp) (hasKey frame ''result'') = Some f" if "ds_containsSecrets dlp"
    using that d r assms(3) o1 no
    by (cases "rewriteResponse env frame (ds_redactedText dlp) (hasKey frame ''result'')")
      (auto simp: response_secrets_def response_injection_def Let_def mark_secret_def intro: redact_le_max)
  moreover have "gr_redactedFrame r = gr_redactedFrame run" if "\<not> ds_containsSecrets dlp"
    using that r by (simp add: response_secrets_def response_injection_def)
  ultimately show thesis using that [OF dlp inj] o1 by blast
qed

text \<open>
  A frame whose arguments or answer are scanned is let through only if both scanners returned and no
  instruction was found; if a secret was found the verdict is at least redact and carries the frame
  rewritten from the redacted text, and otherwise no rewritten frame exists.
\<close>

lemma forwarded_frames_are_scanned:
  assumes "evaluateFrame env io frame direction ctx = Some (ctx', ev)" "me_decision ev \<noteq> Deny"
    and "scanned_text env frame direction = Some t"
  shows "\<exists>dlp inj. scan_content env t = Inr dlp \<and> ge_scanInjection env t = Inr inj \<and> \<not> ij_containsInjection inj
    \<and> (ds_containsSecrets dlp \<longrightarrow> Redact \<le> me_decision ev
         \<and> (\<exists>f. me_redactedFrame ev = Some f \<and> rewritten env frame direction (ds_redactedText dlp) = Some f))
    \<and> (\<not> ds_containsSecrets dlp \<longrightarrow> me_redactedFrame ev = None)"
proof -
  from assms(1,2) obtain ctx1 run where run:
      "run_gates env frame direction GATE_ORDER ctx empty_run = (ctx1, run, me_outcomes ev, None)"
    and ev: "me_decision ev = fi_decision (aggregate (me_outcomes ev))" "me_redactedFrame ev = gr_redactedFrame run"
    by (auto dest!: evaluateFrame_Some blocking_iff_Deny [THEN iffD2, rotated])
  show ?thesis
  proof (cases direction)
    case ClientToServer
    with assms(3) have m: "omap_get frame ''method'' = Some (JStr ''tools/call'')"
      and t: "t = json_stringify (JObj (call_arguments env frame))" by (auto simp: scanned_text_def split: if_splits)
    from run [unfolded ClientToServer] obtain front oc rest where
        iso: "isolated env InputScan frame ClientToServer ctx empty_run = (ctx, run, oc)"
      and nd: "\<forall>o1. oc = Some o1 \<longrightarrow> go_decision o1 \<noteq> Deny"
      and outs: "me_outcomes ev = front @ (case oc of None \<Rightarrow> [] | Some o1 \<Rightarrow> [o1]) @ rest"
      by (rule client_run)
    have le: "go_decision o1 \<le> me_decision ev" if "oc = Some o1" for o1
      unfolding ev by (rule aggregate_ge) (simp add: outs that)
    show ?thesis
      by (rule input_scan_passed [OF iso m nd])
        (use le ev(2) ClientToServer in \<open>force simp: t rewritten_def intro: order_trans\<close>)
  next
    case ServerToClient
    with assms(3) have m: "hasKey frame ''result'' \<or> hasKey frame ''error''"
      and t: "t = json_stringify (response_body frame)" by (auto simp: scanned_text_def split: if_splits)
    from run [unfolded ServerToClient] obtain front r2 oi oc where
        iso: "isolated env ResponseScan frame ServerToClient ctx1 r2 = (ctx1, run, oc)"
      and nd: "\<forall>o1. oc = Some o1 \<longrightarrow> go_decision o1 \<noteq> Deny"
      and inv: "isolated env ToolInventory frame ServerToClient ctx empty_run = (ctx1, r2, oi)"
      and outs: "me_outcomes ev = front @ (case oi of None \<Rightarrow> [] | Some o1 \<Rightarrow> [o1]) @ (case oc of None \<Rightarrow> [] | Some o1 \<Rightarrow> [o1])"
      by (rule server_run)
    have le: "go_decision o1 \<le> me_decision ev" if "oc = Some o1" for o1
      unfolding ev by (rule aggregate_ge) (simp add: outs that)
    show ?thesis
      by (rule response_scan_passed [OF iso m nd])
        (use le ev(2) ServerToClient isolated_inventory_frame [OF inv] in
          \<open>force simp: t rewritten_def empty_run_def intro: order_trans\<close>)
  qed
qed

lemma unscanned_frames_are_not_rewritten:
  assumes "evaluateFrame env io frame direction ctx = Some (ctx', ev)" "scanned_text env frame direction = None"
  shows "me_redactedFrame ev = None"
proof (cases "me_decision ev = Deny")
  case True
  with assms(1) show ?thesis by (auto dest!: evaluateFrame_Some)
next
  case False
  with assms(1) obtain ctx1 run where run:
      "run_gates env frame direction GATE_ORDER ctx empty_run = (ctx1, run, me_outcomes ev, None)"
    and ev: "me_redactedFrame ev = gr_redactedFrame run"
    by (auto dest!: evaluateFrame_Some blocking_iff_Deny [THEN iffD2, rotated])
  show ?thesis
  proof (cases direction)
    case ClientToServer
    show ?thesis
      by (rule client_run [OF run [unfolded ClientToServer]])
        (use assms(2) ClientToServer ev in
          \<open>auto simp: scanned_text_def isolated_def runGate_def gateInputScan_def empty_run_def split: if_splits\<close>)
  next
    case ServerToClient
    show ?thesis
      by (rule server_run [OF run [unfolded ServerToClient]])
        (use assms(2) ServerToClient ev in
          \<open>auto simp: scanned_text_def isolated_def [of _ ResponseScan] runGate_def gateResponseScan_def empty_run_def
             dest!: isolated_inventory_frame split: if_splits\<close>)
  qed
qed

subsection \<open>What drift means\<close>

lemma collect_Inr: "collect f xs = Inr ys \<longleftrightarrow> list_all2 (\<lambda>x y. f x = Inr y) xs ys"
  by (induction xs arbitrary: ys) (auto simp: attempt_Inr list_all2_Cons1)

lemma collect_image: "collect f xs = Inr ys \<Longrightarrow> f ` set xs = Inr ` set ys"
  by (induction xs arbitrary: ys) (simp, clarsimp simp: attempt_Inr)

lemma collect_concat_Nil:
  "collect f xs = Inr yss \<Longrightarrow> concat yss = [] \<Longrightarrow> x \<in> set xs \<Longrightarrow> f x = Inr []"
  by (fastforce simp: collect_Inr list_all2_conv_all_nth in_set_conv_nth)

lemma foldl_omap_get:
  "omap_get (foldl (\<lambda>m (k, v). omap_put k v m) m kvs) k = Some v \<Longrightarrow> omap_get m k = Some v \<or> (k, v) \<in> set kvs"
proof (induction kvs arbitrary: m)
  case (Cons kv kvs)
  obtain k' v' where "kv = (k', v')" by (cases kv)
  with Cons.IH [of "omap_put k' v' m"] Cons.prems show ?case by (auto split: if_splits)
qed simp

text \<open>No drift: every advertised tool is an approved one, unchanged in every member, and none is missing.\<close>

lemma no_drift:
  assumes "inventoryDrift baseline advertised True compl = Inr []"
  obtains approved where "baseline = JArr approved"
    "\<forall>tool \<in> set advertised. \<exists>a \<in> set approved. tool_name a = tool_name tool \<and> json_same a tool"
    "compl \<Longrightarrow> tool_name ` set approved \<subseteq> tool_name ` set advertised"
proof -
  from assms obtain approved names drift adv where b: "baseline = JArr approved"
    and names: "collect tool_name approved = Inr names"
    and drift: "collect (advertised_drift True (foldl (\<lambda>m (k, v). omap_put k v m) [] (zip names approved))) advertised = Inr drift"
    and adv: "collect tool_name advertised = Inr adv" and dn: "concat drift = []"
    and gone: "compl \<Longrightarrow> \<exists>g. collect (withdrawn_drift adv) names = Inr g \<and> concat g = []"
    by (auto simp: inventoryDrift_def attempt_Inr split: json.splits if_splits)
  have name: "tool_name a = Inr n" if "(n, a) \<in> set (zip names approved)" for n a
    using that names by (auto simp: collect_Inr list_all2_conv_all_nth set_zip)
  have "\<exists>a \<in> set approved. tool_name a = tool_name tool \<and> json_same a tool" if "tool \<in> set advertised" for tool
  proof -
    have none: "advertised_drift True (foldl (\<lambda>m (k, v). omap_put k v m) [] (zip names approved)) tool = Inr []"
      using collect_concat_Nil [OF drift dn that] .
    then obtain n a where n: "tool_name tool = Inr n"
      and a: "omap_get (foldl (\<lambda>m (k, v). omap_put k v m) [] (zip names approved)) n = Some a" and same: "json_same a tool"
      by (auto simp: advertised_drift_def attempt_Inr tool_changed_def split: option.splits if_splits)
    from foldl_omap_get [OF a] have mem: "(n, a) \<in> set (zip names approved)" by simp
    with name n same show ?thesis by (metis set_zip_rightD)
  qed
  moreover have "tool_name ` set approved \<subseteq> tool_name ` set advertised" if compl
  proof -
    from gone [OF that] obtain g where g: "collect (withdrawn_drift adv) names = Inr g" "concat g = []" by blast
    have "n \<in> set adv" if "n \<in> set names" for n
      using collect_concat_Nil [OF g that] by (auto simp: withdrawn_drift_def attempt_Inr split: if_splits)
    moreover have "tool_name ` set approved = Inr ` set names" "tool_name ` set advertised = Inr ` set adv"
      using names adv by (simp_all add: collect_image)
    ultimately show ?thesis by auto
  qed
  ultimately show thesis using that b by blast
qed

subsection \<open>The locked inventory\<close>

lemma poison_scan_ge: "poison_scan env tools f run = (run', Inr f') \<Longrightarrow> fi_decision f \<le> fi_decision f'"
proof (induction env tools f run rule: poison_scan.induct)
  case (2 env tool tools f run)
  then show ?case
    by (auto simp: Let_def split: sum.splits if_splits)
qed simp

text \<open>What the inventory gate let through, when it did not object.\<close>

lemma inventory_gate_passed:
  assumes "isolated env ToolInventory frame ServerToClient ctx run = (c, r, oi)"
    and "parseMcpToolInventoryPage env (omap_get frame ''result'') = ValidPage page"
    and "\<forall>o1. oi = Some o1 \<longrightarrow> go_decision o1 < Approve"
  obtains run1 f f2 where "poison_scan env (ip_tools page) no_findings run = (run1, Inr f)"
    "baseline_check env (candidate_tools ctx page) f run1 ctx = (c, r, Inr f2)"
    "oi = Some (inventory_outcome ctx page (candidate_tools ctx page) f2)" "fi_decision f2 < Approve"
    "gx_inventoryError ctx = None"
  using assms
  by (auto simp: isolated_def runGate_def gateToolInventory_def Let_def less_decision_def
      split: option.splits prod.splits sum.splits)

lemma raise_drift_decision [simp]: "fi_decision (raise_drift what drift f) = max (fi_decision f) Approve"
  by (simp add: raise_drift_def)

lemma not_approve_max: "max d Approve < Approve \<longleftrightarrow> False" "max d Deny < Approve \<longleftrightarrow> False" "Deny < Approve \<longleftrightarrow> False"
  by (cases d; simp add: max_def less_eq_decision_def less_decision_def)+

lemma compare_found_passed:
  "compare_found what drift f run ctx = (c, r, Inr f2) \<Longrightarrow> fi_decision f2 < Approve \<Longrightarrow> drift = []"
  by (auto simp: compare_found_def not_approve_max split: if_splits)

lemma nothing_locked:
  "nothing_stored env BaselineLock store key tools bt f run ctx = (c, r, Inr f2) \<Longrightarrow> \<not> fi_decision f2 < Approve"
  by (auto simp: nothing_stored_def Let_def not_approve_max split: if_splits sum.splits)


subsection \<open>Learning\<close>

lemma compared_store [simp]: "gx_baselineStore (compared st d ctx) = gx_baselineStore ctx"
  by (simp add: compared_def)

lemma input_scan_pending:
  "isolated env InputScan frame direction ctx run = (c, r, oc) \<Longrightarrow>
     gr_pendingBaselineLearn r = gr_pendingBaselineLearn run"
  by (auto simp: isolated_def runGate_def gateInputScan_def input_secrets_def input_injection_def mark_secret_def Let_def
      split: prod.splits sum.splits if_splits option.splits)

lemma response_scan_pending:
  assumes "isolated env ResponseScan frame direction ctx run = (c, r, oc)"
  shows "gr_pendingBaselineLearn r = gr_pendingBaselineLearn run"
proof -
  have inj: "gr_pendingBaselineLearn (snd (response_injection i f q)) = gr_pendingBaselineLearn q" for i f q
    by (simp add: response_injection_def)
  have sec: "gr_pendingBaselineLearn (snd (response_secrets env frame b d f q)) = gr_pendingBaselineLearn q" for b d f q
    by (simp add: response_secrets_def Let_def mark_secret_def split: option.split)
  have "gr_pendingBaselineLearn (fst (gateResponseScan env frame direction ctx run)) = gr_pendingBaselineLearn run"
    using sec inj by (auto simp: gateResponseScan_def Let_def split_beta split: sum.splits)
  with assms show ?thesis
    by (auto simp: isolated_def runGate_def split: prod.splits sum.splits)
qed

lemma baseline_check_pending:
  assumes "baseline_check env tools f run ctx = (c, r, Inr f2)" "gr_pendingBaselineLearn run = None"
    "gr_pendingBaselineLearn r = Some (store, key, learned)"
  shows "mode_of ctx = BaselineLearn \<and> complete ctx \<and> gx_baselineStore ctx = Some store \<and> gx_baselineKey ctx = Some key
    \<and> normalizeInventoryForForwarding env tools = Inr learned
    \<and> readBaseline (ge_baseline env) store key = Inr None \<and> fi_decision f \<noteq> Deny"
proof (cases "mode_of ctx = BaselineOff")
  case True
  with assms show ?thesis
    by (auto simp: baseline_check_def session_baseline_def compare_found_def mark_drift_def
        split: sum.splits option.splits if_splits)
next
  case False
  with assms(1) obtain st k bt where st: "gx_baselineStore ctx = Some st" "gx_baselineKey ctx = Some k"
    and bt: "normalizeInventoryForForwarding env tools = Inr bt"
    by (auto simp: baseline_check_def stored_baseline_check_def split: option.splits sum.splits)
  have cf: "compare_found w d f run ctx = (c, r, Inr f2) \<Longrightarrow> False" for w d
    using assms(2,3) by (auto simp: compare_found_def mark_drift_def split: if_splits)
  have ns: "nothing_stored env (mode_of ctx) st k tools bt f run ctx = (c, r, Inr f2) \<Longrightarrow>
      mode_of ctx = BaselineLearn \<and> complete ctx \<and> fi_decision f \<noteq> Deny \<and> st = store \<and> k = key \<and> bt = learned"
    using assms(2,3) by (auto simp: nothing_stored_def mark_drift_def Let_def split: if_splits sum.splits)
  show ?thesis
    using assms False st bt ns cf
    by (auto simp: baseline_check_def stored_baseline_check_def split: sum.splits option.splits if_splits)
qed

lemma baseline_check_store:
  "baseline_check env tools f run ctx = (c, r, x) \<Longrightarrow> gx_baselineStore c = gx_baselineStore ctx"
  by (auto simp: baseline_defs Let_def split: sum.splits option.splits prod.splits if_splits)

lemma poison_scan_clean:
  "poison_scan env tools f run = (run', Inr f') \<Longrightarrow> fi_decision f' \<noteq> Deny \<Longrightarrow>
     \<forall>tool \<in> set tools. \<exists>scanned. ge_scanInjection env (json_stringify tool) = Inr scanned \<and> \<not> ij_containsInjection scanned"
proof (induction env tools f run rule: poison_scan.induct)
  case (2 env tool tools f run)
  show ?case
  proof (cases "ge_scanInjection env (json_stringify tool)")
    case (Inl e)
    with 2 show ?thesis by simp
  next
    case (Inr scanned)
    show ?thesis
    proof (cases "ij_containsInjection scanned")
      case True
      with 2(3) Inr obtain n where "poison_scan env tools
          (because (poisoned_reason n scanned) (detected ''det.mcp.tool.poisoned'' (escalate Deny Critical f)))
          (mark ''mcpToolPoisoned'' ''true'' run) = (run', Inr f')"
        by (auto simp: Let_def split: sum.splits)
      from poison_scan_ge [OF this] 2(4) show ?thesis by simp
    next
      case False
      with 2 Inr show ?thesis by simp
    qed
  qed
qed simp

lemma isolated_inventory_store:
  "isolated env ToolInventory frame direction ctx run = (c, r, oc) \<Longrightarrow> gx_baselineStore c = gx_baselineStore ctx"
  by (auto simp: isolated_def runGate_def gateToolInventory_def Let_def dest!: baseline_check_store
      split: option.splits page_parse.splits prod.splits sum.splits if_splits)

lemma isolated_store:
  "isolated env gate frame direction ctx run = (c, r, oc) \<Longrightarrow> gx_baselineStore c = gx_baselineStore ctx"
  using isolated_inventory_store [of env frame direction ctx run c r oc]
  by (cases gate) (auto simp: isolated_def runGate_def split: sum.splits prod.splits)

lemma run_gates_store:
  "run_gates env frame direction gates ctx run = (c, r, outs, b) \<Longrightarrow> gx_baselineStore c = gx_baselineStore ctx"
proof (induction gates arbitrary: ctx run outs)
  case (Cons gate gates)
  obtain c1 r1 oc where iso: "isolated env gate frame direction ctx run = (c1, r1, oc)" by (metis prod_cases3)
  with Cons isolated_store [OF iso] show ?case
    by (auto simp: run_gates.simps split: option.splits prod.splits if_splits)
qed simp

lemma learn_pending_store:
  assumes "learn_pending env io f run ctx1 = Some (ctx', f')" "gx_baselineStore ctx' \<noteq> gx_baselineStore ctx1"
  obtains store key learned store' result where "gr_pendingBaselineLearn run = Some (store, key, learned)"
    "fi_decision f \<in> {Allow, Redact}"
    "writeBaseline (ge_baseline env) io key (JArr learned) store = Some (store', result)"
    "gx_baselineStore ctx' = Some store'"
  using assms by (auto simp: learn_pending_def split: option.splits prod.splits sum.splits if_splits)


subsection \<open>Concrete frames\<close>

definition plain_params :: "json option \<Rightarrow> tool_call_params option" where
  "plain_params v =
     (case v of
        Some (JObj m) \<Rightarrow> Some \<lparr>tc_name = string_at m ''name'',
            tc_arguments = (case omap_get m ''arguments'' of Some (JObj args) \<Rightarrow> Some args | _ \<Rightarrow> None), tc_data = m\<rparr>
      | _ \<Rightarrow> None)"

definition plain_page :: "json \<Rightarrow> (string list \<times> string) list + inventory_page" where
  "plain_page v =
     (case v of
        JObj m \<Rightarrow> (case omap_get m ''tools'' of
                     Some (JArr tools) \<Rightarrow> Inr \<lparr>ip_tools = tools, ip_nextCursor = string_at m ''nextCursor''\<rparr>
                   | _ \<Rightarrow> Inl [([''tools''], ''expected array'')])
      | _ \<Rightarrow> Inl [([], ''expected object'')])"

text \<open>A scanner that takes \<open>sk-\<close> for a credential, and one that takes \<open>ignore\<close> for an instruction.\<close>

definition toy_scan :: "string \<Rightarrow> string + dlp_answer" where
  "toy_scan s =
     (if js_includes s ''sk-''
      then Inr \<lparr>ds_containsSecrets = True, ds_secretTypes = [''key''], ds_redactedText = Some ''{}''\<rparr>
      else Inr \<lparr>ds_containsSecrets = False, ds_secretTypes = [], ds_redactedText = Some s\<rparr>)"

definition toy_env :: gate_env where
  "toy_env = \<lparr>ge_baseline = plain_env\<lparr>be_scanText := toy_scan\<rparr>,
     ge_scanInjection = (\<lambda>s. Inr \<lparr>ij_containsInjection = js_includes s ''ignore'', ij_patternIds = [''i'']\<rparr>),
     ge_object = (\<lambda>v. case v of JObj m \<Rightarrow> Some m | _ \<Rightarrow> None), ge_callParams = plain_params, ge_error = Some,
     ge_tool = Inr, ge_page = plain_page\<rparr>"

definition toy_key :: baseline_key where
  "toy_key = \<lparr>bk_agentId = ''a'', bk_serverName = ''s'', bk_commandHash = None\<rparr>"

definition toy_tools :: "json list" where "toy_tools = [JObj [(''name'', JStr ''t'')]]"

definition toy_context :: "baseline_mode \<Rightarrow> inventory_file \<Rightarrow> gate_context" where
  "toy_context mode disk =
     \<lparr>gx_agentId = ''a'', gx_sessionId = None,
      gx_server = \<lparr>ms_serverName = ''s'', ms_command = [''s''], ms_commandHash = None\<rparr>,
      gx_engine = newEngine [] Deny, gx_approvedTools = None, gx_baselineMode = Some mode,
      gx_baselineStore = Some \<lparr>bs_path = ''b'', bs_file = disk\<rparr>, gx_baselineKey = Some toy_key,
      gx_baselineDecision = None, gx_inventoryCandidate = None, gx_inventoryComplete = None, gx_inventoryError = None\<rparr>"

definition toy_call :: jframe where
  "toy_call = [(''jsonrpc'', JStr ''2.0''), (''id'', JNum ''1''), (''method'', JStr ''tools/call''),
               (''params'', JObj [(''name'', JStr ''t''), (''arguments'', JObj [(''k'', JStr ''sk-1'')])])]"

definition toy_answer :: jframe where
  "toy_answer = [(''jsonrpc'', JStr ''2.0''), (''id'', JNum ''1''), (''result'', JObj [(''tools'', JArr toy_tools)])]"

definition verdict :: "(gate_context \<times> mcp_evaluation) option \<Rightarrow> decision option" where
  "verdict = map_option (\<lambda>r. me_decision (snd r))"

lemma verdict_Some: "verdict x = Some d \<Longrightarrow> \<exists>ctx ev. x = Some (ctx, ev) \<and> me_decision ev = d"
  by (auto simp: verdict_def)

lemma toy_call_redacted:
  "verdict (evaluateFrame toy_env quiet_write toy_call ClientToServer (toy_context BaselineOff StoreAbsent)) = Some Redact"
  by code_simp

lemma toy_answer_learned:
  "verdict (evaluateFrame toy_env quiet_write toy_answer ServerToClient (toy_context BaselineLearn StoreAbsent)) = Some Allow"
  by code_simp

lemma toy_answer_stored:
  "map_option (\<lambda>r. bs_file (the (gx_baselineStore (fst r))) = StoreAbsent)
     (evaluateFrame toy_env quiet_write toy_answer ServerToClient (toy_context BaselineLearn StoreAbsent)) = Some False"
  by code_simp

definition toy_locked :: gate_context where
  "toy_locked = toy_context BaselineLock
     (StoreText (document_text [(keyId toy_key, \<lparr>sb_key = toy_key, sb_tools = JArr toy_tools\<rparr>)]))"

lemma toy_answer_locked:
  "verdict (evaluateFrame toy_env quiet_write toy_answer ServerToClient toy_locked) = Some Allow"
  by code_simp

lemma toy_answer_page:
  "parseMcpToolInventoryPage toy_env (omap_get toy_answer ''result'') = ValidPage \<lparr>ip_tools = toy_tools, ip_nextCursor = None\<rparr>"
  by code_simp

theorem verdict_is_the_strongest_gate_witness:
  "\<exists>ctx' ev. evaluateFrame toy_env quiet_write toy_call ClientToServer (toy_context BaselineOff StoreAbsent) = Some (ctx', ev)
     \<and> me_decision ev = Redact \<and> Redact \<in> go_decision ` set (me_outcomes ev) \<and> me_blockingGate ev = None"
proof -
  obtain ctx' ev where ev: "evaluateFrame toy_env quiet_write toy_call ClientToServer (toy_context BaselineOff StoreAbsent) = Some (ctx', ev)"
    and d: "me_decision ev = Redact"
    using verdict_Some [OF toy_call_redacted] by blast
  from verdict_is_the_strongest_gate [OF ev] ev d show ?thesis by auto
qed



end
