(* ===== verification/Mcp_Wrap.thy ===== *)
theory Mcp_Wrap
  imports Mcp_Gate_Laws
begin

text \<open>
  The composition layer of the MCP plane, \<open>mcp/wrap.ts\<close>: one session's state (the requests in flight, the
  tool inventories under way, their cursors, the gate context, the records handed to the audit log) and
  the handling of one frame, from its classification over the gates and the record to the action the
  transport performs. The frame is handled without interruption, as the synchronous body of the handler is.
\<close>

subsection \<open>State\<close>

definition MAX_TRACKED_REQUESTS :: nat where "MAX_TRACKED_REQUESTS = 512"
definition UNKNOWN_METHOD :: string where "UNKNOWN_METHOD = ''unknown''"
definition DEFAULT_AGENT_ID :: string where "DEFAULT_AGENT_ID = ''unattributed''"
definition MCP_BLOCKED_ERROR_CODE :: int where "MCP_BLOCKED_ERROR_CODE = -32001"

record pending_call =
  pc_method :: string
  pc_toolName :: "string option"
  pc_sequenceId :: "string option"

datatype mcp_transport = StdioTransport | HttpTransport

fun transport_str :: "mcp_transport \<Rightarrow> string" where
  "transport_str StdioTransport = ''stdio''"
| "transport_str HttpTransport = ''http''"

record block_error =
  be_code :: int
  be_message :: string
  be_detections :: "string list"
  be_gate :: "mcp_gate_name option"

datatype frame_action = Forward jframe | Block block_error

type_synonym advertised = "(json option \<times> json) list"

record wrap_args =
  wa_server :: mcp_server_identity
  wa_transport :: mcp_transport
  wa_baseMetadata :: "(string \<times> string) list"
  wa_baselineMode :: baseline_mode
  wa_baselinePath :: "string option"
  wa_uuid :: "nat \<Rightarrow> string"

record wrap_state =
  wr_ctx :: gate_context
  wr_inFlight :: "(string \<times> pending_call) list"
  wr_sequences :: "(string \<times> advertised) list"
  wr_cursors :: "(string \<times> string) list"
  wr_issued :: nat
  wr_records :: "(agent_context \<times> policy_result) list"

subsection \<open>Correlating requests and responses\<close>

definition requestKey :: "jframe \<Rightarrow> string option" where
  "requestKey frame =
     (case omap_get frame ''id'' of
        Some (JNum l) \<Rightarrow> Some (''n:'' @ l)
      | Some (JStr s) \<Rightarrow> Some (''s:'' @ s)
      | _ \<Rightarrow> None)"

definition called_tool :: "jframe \<Rightarrow> string \<Rightarrow> string option" where
  "called_tool frame rpcMethod =
     (if rpcMethod \<noteq> ''tools/call'' then None
      else case omap_get frame ''params'' of
             Some (JObj params) \<Rightarrow>
               (case string_at params ''name'' of Some n \<Rightarrow> if n \<noteq> [] then Some n else None | None \<Rightarrow> None)
           | _ \<Rightarrow> None)"

definition track :: "string \<Rightarrow> pending_call \<Rightarrow> (string \<times> pending_call) list \<Rightarrow> (string \<times> pending_call) list" where
  "track key call inFlight =
     omap_put key call (if length inFlight \<ge> MAX_TRACKED_REQUESTS then omap_del (fst (hd inFlight)) inFlight else inFlight)"

definition classifyFrame :: "jframe \<Rightarrow> (string \<times> pending_call) list \<Rightarrow> pending_call \<times> (string \<times> pending_call) list" where
  "classifyFrame frame inFlight =
     (let unknown = \<lparr>pc_method = UNKNOWN_METHOD, pc_toolName = None, pc_sequenceId = None\<rparr>
      in if truthy (string_at frame ''method'') then
           (let rpcMethod = the (string_at frame ''method'');
                call = \<lparr>pc_method = rpcMethod, pc_toolName = called_tool frame rpcMethod, pc_sequenceId = None\<rparr>
            in (call, case requestKey frame of Some key \<Rightarrow> track key call inFlight | None \<Rightarrow> inFlight))
         else case requestKey frame of
                None \<Rightarrow> (unknown, inFlight)
              | Some key \<Rightarrow>
                  (case omap_get inFlight key of
                     None \<Rightarrow> (unknown, inFlight)
                   | Some remembered \<Rightarrow> (remembered, omap_del key inFlight)))"

subsection \<open>From the verdict to the record and the client\<close>

definition detectionById :: "(string \<times> detection_match) list" where
  "detectionById = foldl (\<lambda>m d. omap_put (dm_id d) d m) [] detectionCatalog"

definition uncatalogued :: "gate_outcome \<Rightarrow> string \<Rightarrow> detection_match" where
  "uncatalogued outcome i =
     \<lparr>dm_id = i, dm_ruleId = ''mcp:'' @ gate_str (go_gate outcome), dm_name = i,
      dm_description = ''Raised by the MCP ''
        @ map (\<lambda>c. if c = CHR ''_'' then CHR '' '' else c) (gate_str (go_gate outcome)) @ '' gate.'',
      dm_severity = go_riskLevel outcome, dm_mitre = None\<rparr>"

definition resolve_detection :: "gate_outcome \<Rightarrow> (string \<times> detection_match) list \<Rightarrow> string \<Rightarrow> (string \<times> detection_match) list" where
  "resolve_detection outcome resolved i =
     (if omap_has resolved i then resolved
      else omap_put i (case omap_get detectionById i of Some known \<Rightarrow> known | None \<Rightarrow> uncatalogued outcome i) resolved)"

definition resolveDetections :: "mcp_evaluation \<Rightarrow> detection_match list" where
  "resolveDetections evaluation =
     map snd (foldl (\<lambda>resolved outcome. foldl (resolve_detection outcome) resolved (go_detectionIds outcome))
                [] (me_outcomes evaluation))"

definition toPolicyResult :: "mcp_evaluation \<Rightarrow> policy_result" where
  "toPolicyResult evaluation =
     \<lparr>pr_decision = me_decision evaluation, pr_riskLevel = me_riskLevel evaluation,
      pr_matchedRules = map (\<lambda>outcome. ''mcp:'' @ gate_str (go_gate outcome))
                          (filter (\<lambda>outcome. go_decision outcome \<noteq> Allow) (me_outcomes evaluation)),
      pr_reasons = me_reasons evaluation,
      pr_requiresApproval = (me_decision evaluation = Approve),
      pr_highRiskFlow = (me_riskLevel evaluation = High \<or> me_riskLevel evaluation = Critical),
      pr_detections = resolveDetections evaluation\<rparr>"

definition blockReason :: "mcp_evaluation \<Rightarrow> string \<Rightarrow> string" where
  "blockReason evaluation fallback =
     (let blocking = (case me_blockingGate evaluation of
                        None \<Rightarrow> None
                      | Some gate \<Rightarrow> find (\<lambda>outcome. go_gate outcome = gate) (me_outcomes evaluation));
          restrictive = (case blocking of
                           Some outcome \<Rightarrow> Some outcome
                         | None \<Rightarrow> find (\<lambda>outcome. go_decision outcome \<noteq> Allow) (me_outcomes evaluation))
      in case restrictive of
           Some outcome \<Rightarrow> (case go_reasons outcome of reason # _ \<Rightarrow> reason | [] \<Rightarrow> fallback)
         | None \<Rightarrow> fallback)"

definition blockAction :: "mcp_evaluation \<Rightarrow> string \<Rightarrow> frame_action" where
  "blockAction evaluation message =
     Block \<lparr>be_code = MCP_BLOCKED_ERROR_CODE, be_message = message,
            be_detections = me_detectionIds evaluation, be_gate = me_blockingGate evaluation\<rparr>"

fun baseline_state_str :: "baseline_state \<Rightarrow> string" where
  "baseline_state_str StateMissing = ''missing''"
| "baseline_state_str StateMatched = ''matched''"
| "baseline_state_str StateLearned = ''learned''"
| "baseline_state_str StateDrift = ''drift''"

definition put_opt :: "string \<Rightarrow> string option \<Rightarrow> (string \<times> string) list \<Rightarrow> (string \<times> string) list" where
  "put_opt k v m = (case v of None \<Rightarrow> m | Some s \<Rightarrow> omap_put k s m)"

definition record_metadata :: "wrap_args \<Rightarrow> gate_context \<Rightarrow> frame_direction \<Rightarrow> string \<Rightarrow> string option \<Rightarrow> mcp_gate_name option
    \<Rightarrow> (string \<times> string) list \<Rightarrow> (string \<times> string) list" where
  "record_metadata args ctx direction rpcMethod toolName gate extra =
     (let m1 = put_all (put_all [(''mcpServer'', ms_serverName (wa_server args)), (''mcpMethod'', rpcMethod),
                                 (''mcpTransport'', transport_str (wa_transport args)), (''direction'', direction_str direction)]
                          (wa_baseMetadata args)) extra;
          m2 = put_opt ''mcpBaselinePath'' (wa_baselinePath args)
                 (omap_put ''mcpBaselineMode'' (baseline_mode_str (wa_baselineMode args)) m1);
          m3 = (case gx_baselineDecision ctx of
                  None \<Rightarrow> m2
                | Some d \<Rightarrow> omap_put ''mcpBaselineDrift'' (json_stringify (JArr (map JStr (bd_drift d))))
                              (omap_put ''mcpBaselineState'' (baseline_state_str (bd_state d)) m2))
      in put_opt ''mcpGate'' (map_option gate_str gate)
           (put_opt ''commandHash'' (ms_commandHash (wa_server args)) (put_opt ''mcpTool'' toolName m3)))"

definition record_event :: "wrap_args \<Rightarrow> frame_direction \<Rightarrow> string \<Rightarrow> string option \<Rightarrow> mcp_gate_name option \<Rightarrow> (string \<times> string) list
    \<Rightarrow> string \<Rightarrow> policy_result \<Rightarrow> wrap_state \<Rightarrow> wrap_state" where
  "record_event args direction rpcMethod toolName gate extra action result st =
     st\<lparr>wr_records := wr_records st @
        [(\<lparr>cx_agentId = gx_agentId (wr_ctx st), cx_sessionId = gx_sessionId (wr_ctx st),
           cx_plane = (if direction = ClientToServer then Tool else Content),
           cx_action = action, cx_payload = [],
           cx_metadata = Some (record_metadata args (wr_ctx st) direction rpcMethod toolName gate extra),
           cx_actor = None, cx_control = None,
           cx_provenance = (if direction = ServerToClient
                            then Some [\<lparr>pt_source = ToolOutput, pt_trustLabel = Untrusted, pt_labels = None,
                                        pt_derivedFrom = None, pt_justification = None\<rparr>] else None),
           cx_flow = None\<rparr>, result)]\<rparr>"

subsection \<open>The inventory of a session\<close>

definition clearInventoryContext :: "wrap_state \<Rightarrow> wrap_state" where
  "clearInventoryContext st =
     st\<lparr>wr_ctx := (wr_ctx st)\<lparr>gx_inventoryCandidate := None, gx_inventoryComplete := None, gx_inventoryError := None\<rparr>\<rparr>"

definition discardInventorySequence :: "string option \<Rightarrow> wrap_state \<Rightarrow> wrap_state" where
  "discardInventorySequence sequenceId st =
     (case sequenceId of
        None \<Rightarrow> st
      | Some s \<Rightarrow> st\<lparr>wr_sequences := omap_del s (wr_sequences st),
                     wr_cursors := filter (\<lambda>(cursor, owner). owner \<noteq> s) (wr_cursors st)\<rparr>)"

definition inventory_error :: "string \<Rightarrow> wrap_state \<Rightarrow> wrap_state" where
  "inventory_error e st = st\<lparr>wr_ctx := (wr_ctx st)\<lparr>gx_inventoryError := Some e\<rparr>\<rparr>"

text \<open>\<open>call.inventorySequenceId = \<dots>\<close>: the call is the object the map of requests in flight holds.\<close>

definition link_call :: "string \<Rightarrow> string \<Rightarrow> pending_call \<Rightarrow> wrap_state \<Rightarrow> wrap_state \<times> pending_call" where
  "link_call key sequenceId call st =
     (let call' = call\<lparr>pc_sequenceId := Some sequenceId\<rparr>
      in (st\<lparr>wr_inFlight := omap_put key call' (wr_inFlight st)\<rparr>, call'))"

definition request_cursor :: "jframe \<Rightarrow> json option" where
  "request_cursor frame =
     (case omap_get frame ''params'' of Some (JObj params) \<Rightarrow> omap_get params ''cursor'' | _ \<Rightarrow> None)"

definition open_inventory :: "wrap_args \<Rightarrow> jframe \<Rightarrow> pending_call \<Rightarrow> wrap_state \<Rightarrow> wrap_state \<times> pending_call" where
  "open_inventory args frame call st =
     (case requestKey frame of
        None \<Rightarrow> (inventory_error ''Malformed MCP tools/list request: a correlatable request id is required'' st, call)
      | Some key \<Rightarrow>
          (case request_cursor frame of
             None \<Rightarrow>
               if length (wr_sequences st) \<ge> MAX_TRACKED_REQUESTS
               then (inventory_error ''Too many incomplete MCP tool inventory sequences'' st, call)
               else
                 (let s = wa_uuid args (wr_issued st)
                  in link_call key s call
                       (st\<lparr>wr_sequences := omap_put s [] (wr_sequences st), wr_issued := wr_issued st + 1\<rparr>))
           | Some (JStr cursor) \<Rightarrow>
               if cursor = []
               then (inventory_error ''Malformed MCP tools/list cursor: expected a non-empty string'' st, call)
               else
                 (case Option.bind (omap_get (wr_cursors st) cursor)
                         (\<lambda>s. map_option (\<lambda>_. s) (omap_get (wr_sequences st) s)) of
                    None \<Rightarrow> (inventory_error (''Unknown or expired MCP tools/list cursor '' @ quoted cursor) st, call)
                  | Some s \<Rightarrow> link_call key s call (st\<lparr>wr_cursors := omap_del cursor (wr_cursors st)\<rparr>))
           | Some _ \<Rightarrow> (inventory_error ''Malformed MCP tools/list cursor: expected a non-empty string'' st, call)))"

text \<open>\<open>for (const tool of tools) m.set(tool.name, tool)\<close>\<close>

fun advertise :: "json list \<Rightarrow> advertised \<Rightarrow> string + advertised" where
  "advertise [] m = Inr m"
| "advertise (tool # tools) m = attempt (tool_name tool) (\<lambda>name. advertise tools (omap_put name tool m))"

record answer =
  an_state :: wrap_state
  an_sequence :: "(string \<times> advertised) option"
  an_ended :: bool

definition active_sequence :: "pending_call \<Rightarrow> wrap_state \<Rightarrow> (string \<times> advertised) option" where
  "active_sequence call st =
     (case pc_sequenceId call of
        None \<Rightarrow> None
      | Some s \<Rightarrow> map_option (\<lambda>adv. (s, adv)) (omap_get (wr_sequences st) s))"

definition foreign_cursor :: "string option \<Rightarrow> string \<Rightarrow> wrap_state \<Rightarrow> bool" where
  "foreign_cursor nextCursor s st =
     (case Option.bind nextCursor (omap_get (wr_cursors st)) of None \<Rightarrow> False | Some owner \<Rightarrow> owner \<noteq> s)"

definition answer_inventory :: "gate_env \<Rightarrow> jframe \<Rightarrow> pending_call \<Rightarrow> wrap_state \<Rightarrow> string + answer" where
  "answer_inventory env frame call st =
     (let current = active_sequence call st;
          done = (\<lambda>st'. Inr \<lparr>an_state = st', an_sequence = current, an_ended = False\<rparr>)
      in if hasKey frame ''error'' then Inr \<lparr>an_state = st, an_sequence = current, an_ended = True\<rparr>
         else case current of
                None \<Rightarrow> done (inventory_error ''MCP tools/list response has no active inventory sequence'' st)
              | Some (s, adv) \<Rightarrow>
                  (case parseMcpToolInventoryPage env (omap_get frame ''result'') of
                     NotInventory \<Rightarrow>
                       done (inventory_error ''Malformed MCP tools/list response: result does not contain a tool inventory'' st)
                   | MalformedPage e \<Rightarrow> done (inventory_error (''Malformed MCP tools/list response: '' @ e) st)
                   | ValidPage page \<Rightarrow>
                       attempt (advertise (ip_tools page) adv) (\<lambda>candidate.
                         if foreign_cursor (ip_nextCursor page) s st then
                           done (inventory_error (''MCP tools/list cursor '' @ quoted (the (ip_nextCursor page))
                                                    @ '' belongs to another inventory sequence'') st)
                         else
                           done (st\<lparr>wr_ctx := (wr_ctx st)\<lparr>gx_inventoryCandidate := Some (map snd candidate),
                                                          gx_inventoryComplete := Some (ip_nextCursor page = None)\<rparr>\<rparr>))))"

text \<open>What the page that was really forwarded adds to the session.\<close>

definition settle_inventory :: "gate_env \<Rightarrow> jframe \<Rightarrow> pending_call \<Rightarrow> answer \<Rightarrow> wrap_state \<Rightarrow> wrap_state \<times> (string + unit)" where
  "settle_inventory env forwarded call ans st =
     (if an_ended ans then (discardInventorySequence (pc_sequenceId call) st, Inr ())
      else case an_sequence ans of
             None \<Rightarrow> (st, Inr ())
           | Some (s, adv) \<Rightarrow>
               (case parseMcpToolInventoryPage env (omap_get forwarded ''result'') of
                  ValidPage page \<Rightarrow>
                    (case advertise (ip_tools page) adv of
                       Inl e \<Rightarrow> (st, Inl e)
                     | Inr adv' \<Rightarrow>
                         (let st1 = st\<lparr>wr_sequences := omap_put s adv' (wr_sequences st)\<rparr>
                          in case ip_nextCursor page of
                               None \<Rightarrow>
                                 (case recordToolInventory env (map snd adv') (wr_ctx st1) of
                                    Inl e \<Rightarrow> (st1, Inl e)
                                  | Inr ctx' \<Rightarrow> (discardInventorySequence (Some s) (st1\<lparr>wr_ctx := ctx'\<rparr>), Inr ()))
                             | Some nextCursor \<Rightarrow> (st1\<lparr>wr_cursors := omap_put nextCursor s (wr_cursors st1)\<rparr>, Inr ())))
                | _ \<Rightarrow> (st, Inr ())))"

subsection \<open>One frame\<close>

definition is_inventory_request :: "jframe \<Rightarrow> frame_direction \<Rightarrow> bool" where
  "is_inventory_request frame direction =
     (direction = ClientToServer \<and> omap_get frame ''method'' = Some (JStr ''tools/list''))"

definition is_inventory_answer :: "pending_call \<Rightarrow> frame_direction \<Rightarrow> bool" where
  "is_inventory_answer call direction = (direction = ServerToClient \<and> pc_method call = ''tools/list'')"

definition prepare :: "gate_env \<Rightarrow> wrap_args \<Rightarrow> jframe \<Rightarrow> frame_direction \<Rightarrow> wrap_state
    \<Rightarrow> wrap_state \<times> pending_call \<times> (string + answer)" where
  "prepare env args frame direction st =
     (let st0 = clearInventoryContext st;
          (call, inFlight) = classifyFrame frame (wr_inFlight st0);
          st1 = st0\<lparr>wr_inFlight := inFlight\<rparr>;
          (st2, call2) = (if is_inventory_request frame direction then open_inventory args frame call st1 else (st1, call))
      in (st2, call2,
          if is_inventory_answer call2 direction then answer_inventory env frame call2 st2
          else Inr \<lparr>an_state = st2, an_sequence = None, an_ended = False\<rparr>))"

definition forget_request :: "jframe \<Rightarrow> frame_direction \<Rightarrow> wrap_state \<Rightarrow> wrap_state" where
  "forget_request frame direction st =
     (if direction = ClientToServer then
        (case requestKey frame of None \<Rightarrow> st | Some key \<Rightarrow> st\<lparr>wr_inFlight := omap_del key (wr_inFlight st)\<rparr>)
      else st)"

definition refusal :: "pending_call \<Rightarrow> mcp_evaluation \<Rightarrow> frame_action" where
  "refusal call ev =
     (if me_decision ev = Deny then
        blockAction ev (blockReason ev (''MCP '' @ pc_method call @ '' blocked by AgentWall.''))
      else
        blockAction ev (''MCP '' @ pc_method call @ '' requires operator approval: ''
                          @ blockReason ev ''policy holds this call for a human.''))"

definition forwarded_frame :: "mcp_evaluation \<Rightarrow> jframe \<Rightarrow> jframe" where
  "forwarded_frame ev frame =
     (case me_redactedFrame ev of Some f \<Rightarrow> if me_decision ev = Redact then f else frame | None \<Rightarrow> frame)"

text \<open>\<open>Inl\<close> is a handler that threw; \<open>None\<close> is one still waiting for the lock of the baseline file.\<close>

definition handleFrame :: "gate_env \<Rightarrow> wrap_args \<Rightarrow> write_io \<Rightarrow> jframe \<Rightarrow> frame_direction \<Rightarrow> wrap_state
    \<Rightarrow> (wrap_state \<times> (string + frame_action)) option" where
  "handleFrame env args io frame direction st =
     (case prepare env args frame direction st of
        (st2, call, Inl e) \<Rightarrow> Some (st2, Inl e)
      | (st2, call, Inr ans) \<Rightarrow>
          (case evaluateFrame env io frame direction (wr_ctx (an_state ans)) of
             None \<Rightarrow> None
           | Some (ctx', ev) \<Rightarrow>
               (let st3 = record_event args direction (pc_method call) (pc_toolName call) (me_blockingGate ev) []
                            (''mcp:'' @ pc_method call) (toPolicyResult ev) ((an_state ans)\<lparr>wr_ctx := ctx'\<rparr>)
                in if me_decision ev = Deny \<or> me_decision ev = Approve then
                     Some (clearInventoryContext (forget_request frame direction
                             (discardInventorySequence (pc_sequenceId call) st3)), Inr (refusal call ev))
                   else
                     (let forwarded = forwarded_frame ev frame
                      in case (if is_inventory_answer call direction then settle_inventory env forwarded call ans st3
                               else (st3, Inr ())) of
                           (st4, Inl e) \<Rightarrow> Some (st4, Inl e)
                         | (st4, Inr u) \<Rightarrow> Some (clearInventoryContext st4, Inr (Forward forwarded))))))"

definition recordMalformed :: "wrap_args \<Rightarrow> nat \<Rightarrow> frame_direction \<Rightarrow> wrap_state \<Rightarrow> wrap_state \<times> jframe option" where
  "recordMalformed args byteLength direction st =
     (record_event args direction UNKNOWN_METHOD None (Some FrameIntegrity) [(''mcpFrameBytes'', show_nat byteLength)]
        ''mcp:malformed''
        \<lparr>pr_decision = Deny, pr_riskLevel = High, pr_matchedRules = [''mcp:frame_integrity''],
         pr_reasons = [''Unparseable JSON-RPC frame on the '' @ direction_str direction @ '' stream; it was not forwarded.''],
         pr_requiresApproval = False, pr_highRiskFlow = True, pr_detections = []\<rparr> st,
      if direction \<noteq> ServerToClient then None
      else Some [(''jsonrpc'', JStr ''2.0''), (''id'', JNull),
                 (''error'', JObj [(''code'', JNum (show_int MCP_BLOCKED_ERROR_CODE)),
                                   (''message'', JStr ''agentwall: malformed MCP response blocked''),
                                   (''data'', JObj [(''gate'', JStr ''frame_integrity'')])])])"

text \<open>The session as \<open>createFrameHandling\<close> builds it.\<close>

definition createFrameHandling :: "mcp_server_identity \<Rightarrow> string option \<Rightarrow> string \<Rightarrow> policy_snapshot \<Rightarrow> baseline_mode
    \<Rightarrow> baseline_store option \<Rightarrow> string + wrap_state" where
  "createFrameHandling server agentId sessionId engine mode store =
     (let agent = (case agentId of None \<Rightarrow> DEFAULT_AGENT_ID | Some a \<Rightarrow> a)
      in if mode \<noteq> BaselineOff \<and> store = None
         then Inl (''MCP baseline '' @ baseline_mode_str mode @ '' mode needs a baseline file.'')
         else Inr
           \<lparr>wr_ctx = \<lparr>gx_agentId = agent, gx_sessionId = Some sessionId, gx_server = server, gx_engine = engine,
                      gx_approvedTools = None, gx_baselineMode = Some mode,
                      gx_baselineStore = (if mode = BaselineOff then None else store),
                      gx_baselineKey = (if mode = BaselineOff then None
                                        else Some \<lparr>bk_agentId = agent, bk_serverName = ms_serverName server,
                                                   bk_commandHash = ms_commandHash server\<rparr>),
                      gx_baselineDecision = None, gx_inventoryCandidate = None, gx_inventoryComplete = None,
                      gx_inventoryError = None\<rparr>,
            wr_inFlight = [], wr_sequences = [], wr_cursors = [], wr_issued = 0, wr_records = []\<rparr>)"

end
