(* ===== verification/Mcp_Session.thy ===== *)
theory Mcp_Session
  imports Mcp_Wrap
begin

text \<open>
  What a wrapped MCP session guarantees, frame by frame and over any run: the action is the recorded
  verdict, what is forwarded was scanned, and the state kept for correlation is bounded. The last section
  holds two ways in which the correlation by request id alone can be defeated.
\<close>

subsection \<open>The shape of a handled frame\<close>

lemma record_event_simps [simp]:
  "wr_ctx (record_event args d m tn g x a res st) = wr_ctx st"
  "wr_inFlight (record_event args d m tn g x a res st) = wr_inFlight st"
  "wr_sequences (record_event args d m tn g x a res st) = wr_sequences st"
  "wr_cursors (record_event args d m tn g x a res st) = wr_cursors st"
  "wr_issued (record_event args d m tn g x a res st) = wr_issued st"
  "map snd (wr_records (record_event args d m tn g x a res st)) = map snd (wr_records st) @ [res]"
  by (simp_all add: record_event_def)

lemma handleFrame_Some:
  assumes "handleFrame env args io frame direction st = Some (st', Inr act)"
  obtains st2 call ans ctx' ev st3 where
    "prepare env args frame direction st = (st2, call, Inr ans)"
    "evaluateFrame env io frame direction (wr_ctx (an_state ans)) = Some (ctx', ev)"
    "st3 = record_event args direction (pc_method call) (pc_toolName call) (me_blockingGate ev) []
             (''mcp:'' @ pc_method call) (toPolicyResult ev) ((an_state ans)\<lparr>wr_ctx := ctx'\<rparr>)"
    "(me_decision ev \<in> {Deny, Approve} \<and> act = refusal call ev
        \<and> st' = clearInventoryContext (forget_request frame direction (discardInventorySequence (pc_sequenceId call) st3)))
     \<or> (me_decision ev \<in> {Allow, Redact} \<and> act = Forward (forwarded_frame ev frame)
        \<and> (\<exists>st4. st' = clearInventoryContext st4
             \<and> (if is_inventory_answer call direction
                then settle_inventory env (forwarded_frame ev frame) call ans st3 = (st4, Inr ()) else st4 = st3)))"
proof -
  obtain st2 call r where p: "prepare env args frame direction st = (st2, call, r)" by (metis prod_cases3)
  with assms obtain ans where r: "r = Inr ans" by (cases r) (auto simp: handleFrame_def)
  with p assms obtain ctx' ev where ev: "evaluateFrame env io frame direction (wr_ctx (an_state ans)) = Some (ctx', ev)"
    by (auto simp: handleFrame_def split: option.splits)
  have two: "me_decision ev \<in> {Allow, Redact}" if "me_decision ev \<noteq> Deny" "me_decision ev \<noteq> Approve"
    using that by (cases "me_decision ev") auto
  show thesis
    by (rule that [OF p [unfolded r] ev refl])
      (use assms p r ev two in \<open>auto simp: handleFrame_def Let_def split: if_splits prod.splits sum.splits\<close>)
qed

lemma discard_records [simp]: "wr_records (discardInventorySequence s st) = wr_records st"
  by (simp add: discardInventorySequence_def split: option.split)

lemma clear_records [simp]: "wr_records (clearInventoryContext st) = wr_records st"
  by (simp add: clearInventoryContext_def)

lemma forget_records [simp]: "wr_records (forget_request frame direction st) = wr_records st"
  by (simp add: forget_request_def split: option.split)

lemma inventory_error_records [simp]: "wr_records (inventory_error e st) = wr_records st"
  by (simp add: inventory_error_def)

lemma settle_records: "settle_inventory env f call ans st = (st', r) \<Longrightarrow> wr_records st' = wr_records st"
  by (auto simp: settle_inventory_def Let_def split: if_splits option.splits page_parse.splits sum.splits)

lemma open_inventory_records: "wr_records (fst (open_inventory args frame call st)) = wr_records st"
  by (auto simp: open_inventory_def link_call_def Let_def split: option.split json.split)

lemma answer_inventory_records:
  "answer_inventory env frame call st = Inr ans \<Longrightarrow> wr_records (an_state ans) = wr_records st"
  by (auto simp: answer_inventory_def Let_def attempt_Inr split: if_splits option.splits prod.splits page_parse.splits)

lemma prepare_records:
  assumes "prepare env args frame direction st = (st2, call, Inr ans)"
  shows "wr_records (an_state ans) = wr_records st"
proof -
  obtain c1 fl where cl: "classifyFrame frame (wr_inFlight (clearInventoryContext st)) = (c1, fl)" by (cases rule: prod.exhaust)
  let ?s1 = "(clearInventoryContext st)\<lparr>wr_inFlight := fl\<rparr>"
  obtain s2 c2 where op: "(if is_inventory_request frame direction then open_inventory args frame c1 ?s1 else (?s1, c1)) = (s2, c2)"
    by (cases rule: prod.exhaust)
  from op open_inventory_records [of args frame c1 ?s1] have "wr_records s2 = wr_records st" by (auto split: if_splits)
  with assms cl op show ?thesis
    by (auto simp: prepare_def Let_def dest: answer_inventory_records split: if_splits)
qed


lemma refusal_blocks: "refusal call ev \<noteq> Forward f"
  by (simp add: refusal_def blockAction_def)

lemma handleFrame_forward:
  assumes "handleFrame env args io frame direction st = Some (st', Inr (Forward f))"
  obtains ctx ctx' ev where "evaluateFrame env io frame direction ctx = Some (ctx', ev)"
    "me_decision ev \<in> {Allow, Redact}" "f = forwarded_frame ev frame"
proof -
  obtain st2 call ans ctx' ev st3 where ev: "evaluateFrame env io frame direction (wr_ctx (an_state ans)) = Some (ctx', ev)"
    and alt: "(me_decision ev \<in> {Deny, Approve} \<and> Forward f = refusal call ev
        \<and> st' = clearInventoryContext (forget_request frame direction (discardInventorySequence (pc_sequenceId call) st3)))
     \<or> (me_decision ev \<in> {Allow, Redact} \<and> Forward f = Forward (forwarded_frame ev frame)
        \<and> (\<exists>st4. st' = clearInventoryContext st4
             \<and> (if is_inventory_answer call direction
                then settle_inventory env (forwarded_frame ev frame) call ans st3 = (st4, Inr ()) else st4 = st3)))"
    by (rule handleFrame_Some [OF assms])
  from alt refusal_blocks [of call ev f] have "me_decision ev \<in> {Allow, Redact}" "f = forwarded_frame ev frame"
    by auto
  with ev show thesis by (rule that)
qed


subsection \<open>The state kept for correlation is bounded\<close>

text \<open>
  An inventory under way is held by one place at most: the call in flight that will bring its next page, or
  the cursor a later call may present. The frame being handled may hold one itself.
\<close>

datatype holder = InCall string | InCursor string

fun holds :: "wrap_state \<Rightarrow> holder \<Rightarrow> string option" where
  "holds st (InCall key) = Option.bind (omap_get (wr_inFlight st) key) pc_sequenceId"
| "holds st (InCursor cursor) = omap_get (wr_cursors st) cursor"

definition held_once :: "string option \<Rightarrow> wrap_state \<Rightarrow> bool" where
  "held_once h st =
     ((\<forall>a b s. holds st a = Some s \<longrightarrow> holds st b = Some s \<longrightarrow> a = b)
      \<and> (\<forall>a s. holds st a = Some s \<longrightarrow> omap_has (wr_sequences st) s \<and> h \<noteq> Some s)
      \<and> omap_wf (wr_cursors st)
      \<and> length (wr_inFlight st) \<le> MAX_TRACKED_REQUESTS \<and> length (wr_sequences st) \<le> MAX_TRACKED_REQUESTS)"

definition issued_ids :: "wrap_args \<Rightarrow> wrap_state \<Rightarrow> bool" where
  "issued_ids args st = (\<forall>s. omap_has (wr_sequences st) s \<longrightarrow> (\<exists>n < wr_issued st. s = wa_uuid args n))"

lemma length_omap_put: "length (omap_put k v m) = (if omap_has m k then length m else Suc (length m))"
  by (induction k v m rule: omap_put.induct) auto

lemma length_omap_del: "length (omap_del k m) \<le> length m"
  by (simp add: omap_del_def)

lemma length_omap_del_hd: "m \<noteq> [] \<Longrightarrow> length (omap_del (fst (hd m)) m) < length m"
  by (cases m) (auto simp: omap_del_def intro: le_imp_less_Suc)

lemma held_once_cong:
  "wr_inFlight st' = wr_inFlight st \<Longrightarrow> wr_cursors st' = wr_cursors st \<Longrightarrow> wr_sequences st' = wr_sequences st \<Longrightarrow>
     held_once h st' = held_once h st"
proof -
  assume e: "wr_inFlight st' = wr_inFlight st" "wr_cursors st' = wr_cursors st" "wr_sequences st' = wr_sequences st"
  then have "holds st' a = holds st a" for a by (cases a) simp_all
  with e show ?thesis by (simp add: held_once_def)
qed

lemma held_once_weaken: "held_once h st \<Longrightarrow> held_once None st"
  by (simp add: held_once_def)

text \<open>Giving up places that held something keeps the invariant.\<close>

lemma held_once_less:
  assumes "held_once h st" "\<And>a s. holds st' a = Some s \<Longrightarrow> holds st a = Some s"
    and "\<And>a s. holds st' a = Some s \<Longrightarrow> omap_has (wr_sequences st') s \<and> h' \<noteq> Some s"
    and "omap_wf (wr_cursors st')" "length (wr_inFlight st') \<le> MAX_TRACKED_REQUESTS"
    and "length (wr_sequences st') \<le> MAX_TRACKED_REQUESTS"
  shows "held_once h' st'"
  unfolding held_once_def using assms(2-) assms(1) [unfolded held_once_def] by blast

lemma track_length: "length fl \<le> MAX_TRACKED_REQUESTS \<Longrightarrow> length (track key call fl) \<le> MAX_TRACKED_REQUESTS"
proof -
  assume fl: "length fl \<le> MAX_TRACKED_REQUESTS"
  show ?thesis
  proof (cases "length fl \<ge> MAX_TRACKED_REQUESTS")
    case True
    then have "fl \<noteq> []" by (auto simp: MAX_TRACKED_REQUESTS_def)
    from length_omap_del_hd [OF this] True fl show ?thesis
      by (auto simp: track_def length_omap_put)
  next
    case False
    then show ?thesis by (auto simp: track_def length_omap_put)
  qed
qed

lemma track_lookup:
  "omap_get (track key call fl) k = (if k = key then Some call else
     if length fl \<ge> MAX_TRACKED_REQUESTS \<and> k = fst (hd fl) then None else omap_get fl k)"
  by (simp add: track_def)

lemma classify_holds:
  assumes "classifyFrame frame (wr_inFlight st) = (call, fl)"
  shows "holds (st\<lparr>wr_inFlight := fl\<rparr>) a = Some s \<Longrightarrow>
           holds st a = Some s \<and> (pc_sequenceId call = Some s \<longrightarrow> (\<exists>b. b \<noteq> a \<and> holds st b = Some s))"
    and "length (wr_inFlight st) \<le> MAX_TRACKED_REQUESTS \<Longrightarrow> length fl \<le> MAX_TRACKED_REQUESTS"
proof -
  show "length (wr_inFlight st) \<le> MAX_TRACKED_REQUESTS \<Longrightarrow> length fl \<le> MAX_TRACKED_REQUESTS"
    using assms track_length
    by (auto simp: classifyFrame_def Let_def split: if_splits option.splits intro: le_trans [OF length_omap_del])
  assume h: "holds (st\<lparr>wr_inFlight := fl\<rparr>) a = Some s"
  show "holds st a = Some s \<and> (pc_sequenceId call = Some s \<longrightarrow> (\<exists>b. b \<noteq> a \<and> holds st b = Some s))"
  proof (cases "truthy (string_at frame ''method'')")
    case True
    with assms have "pc_sequenceId call = None" by (auto simp: classifyFrame_def Let_def split: option.splits)
    with True h assms show ?thesis
      by (cases a) (auto simp: classifyFrame_def Let_def track_lookup split: option.splits if_splits)
  next
    case False
    show ?thesis
    proof (cases "Option.bind (requestKey frame) (omap_get (wr_inFlight st))")
      case None
      with False assms h show ?thesis
        by (cases a) (auto simp: classifyFrame_def Let_def split: option.splits)
    next
      case (Some remembered)
      then obtain key where key: "requestKey frame = Some key" "omap_get (wr_inFlight st) key = Some remembered"
        by (auto simp: bind_eq_Some_conv)
      with False assms have "call = remembered" "fl = omap_del key (wr_inFlight st)"
        by (auto simp: classifyFrame_def Let_def)
      with key h show ?thesis
        by (cases a) (auto simp: bind_eq_Some_conv split: if_splits intro: exI [of _ "InCall key"])
    qed
  qed
qed

lemma held_once_classify:
  assumes "held_once None st" "classifyFrame frame (wr_inFlight st) = (call, fl)"
  shows "held_once (pc_sequenceId call) (st\<lparr>wr_inFlight := fl\<rparr>)"
proof (rule held_once_less [OF assms(1)])
  fix a s assume h: "holds (st\<lparr>wr_inFlight := fl\<rparr>) a = Some s"
  then have sa: "holds st a = Some s" and two: "pc_sequenceId call = Some s \<Longrightarrow> \<exists>b. b \<noteq> a \<and> holds st b = Some s"
    using classify_holds(1) [OF assms(2)] by blast+
  show "holds st a = Some s" by (rule sa)
  have "omap_has (wr_sequences st) s" using assms(1) sa unfolding held_once_def by blast
  moreover have "pc_sequenceId call \<noteq> Some s" using assms(1) sa two unfolding held_once_def by metis
  ultimately show "omap_has (wr_sequences (st\<lparr>wr_inFlight := fl\<rparr>)) s \<and> pc_sequenceId call \<noteq> Some s" by simp
qed (use assms classify_holds(2) [OF assms(2)] in \<open>auto simp: held_once_def\<close>)

lemma held_once_link:
  assumes "held_once None st" "\<And>a. holds st a \<noteq> Some s" "omap_has (wr_sequences st) s"
    and "omap_has (wr_inFlight st) key" "link_call key s call st = (st', call')"
  shows "held_once None st'" "holds st' (InCall key) = Some s" "pc_sequenceId call' = Some s"
    "wr_sequences st' = wr_sequences st" "wr_issued st' = wr_issued st"
proof -
  have st': "st' = st\<lparr>wr_inFlight := omap_put key (call\<lparr>pc_sequenceId := Some s\<rparr>) (wr_inFlight st)\<rparr>"
    and c: "call' = call\<lparr>pc_sequenceId := Some s\<rparr>"
    using assms(5) by (auto simp: link_call_def Let_def)
  have holds': "holds st' a = (if a = InCall key then Some s else holds st a)" for a
    by (cases a) (auto simp: st')
  show "holds st' (InCall key) = Some s" using holds' [of "InCall key"] by simp
  show "pc_sequenceId call' = Some s" by (simp add: c)
  show "wr_sequences st' = wr_sequences st" "wr_issued st' = wr_issued st" by (simp_all add: st')
  have "length (wr_inFlight st') = length (wr_inFlight st)" using assms(4) by (simp add: st' length_omap_put)
  then show "held_once None st'"
    using assms(1-3) unfolding held_once_def holds' by (auto simp: st' split: if_splits)
qed

lemma held_once_open:
  assumes "held_once None st" "issued_ids args st" "inj (wa_uuid args)" "pc_sequenceId call = None"
    and "\<And>key. requestKey frame = Some key \<Longrightarrow> omap_has (wr_inFlight st) key"
    and "open_inventory args frame call st = (st', call')"
  shows "held_once None st' \<and> issued_ids args st'
    \<and> (pc_sequenceId call' = None \<or> (\<exists>key. requestKey frame = Some key \<and> holds st' (InCall key) = pc_sequenceId call'))"
proof -
  have err: "held_once None (inventory_error e st) \<and> issued_ids args (inventory_error e st)" for e
    using assms(1,2) held_once_cong [of "inventory_error e st" st None]
    by (simp add: inventory_error_def issued_ids_def)
  consider (error) e where "st' = inventory_error e st" "call' = call"
    | (fresh) key s st1 where "requestKey frame = Some key" "s = wa_uuid args (wr_issued st)"
        "length (wr_sequences st) < MAX_TRACKED_REQUESTS"
        "st1 = st\<lparr>wr_sequences := omap_put s [] (wr_sequences st), wr_issued := wr_issued st + 1\<rparr>"
        "link_call key s call st1 = (st', call')"
    | (resumed) key cursor s st1 where "requestKey frame = Some key" "omap_get (wr_cursors st) cursor = Some s"
        "st1 = st\<lparr>wr_cursors := omap_del cursor (wr_cursors st)\<rparr>" "link_call key s call st1 = (st', call')"
    using assms(6) by (auto simp: open_inventory_def Let_def bind_eq_Some_conv not_le split: option.splits json.splits if_splits)
  then show ?thesis
  proof cases
    case error
    with err assms(4) show ?thesis by simp
  next
    case fresh
    have new: "\<not> omap_has (wr_sequences st) s"
    proof
      assume "omap_has (wr_sequences st) s"
      with assms(2) fresh(2) obtain n where "n < wr_issued st" "wa_uuid args (wr_issued st) = wa_uuid args n"
        by (auto simp: issued_ids_def)
      with assms(3) show False by (auto dest: injD)
    qed
    have same: "holds st1 a = holds st a" for a by (cases a) (simp_all add: fresh(4))
    with new assms(1) have no: "holds st1 a \<noteq> Some s" for a unfolding held_once_def by metis
    have "held_once None st1"
      using assms(1) fresh(3) new unfolding held_once_def same by (auto simp: fresh(4) length_omap_put)
    from held_once_link [OF this no _ _ fresh(5)] fresh(1,2,4) assms(2,5) show ?thesis
      by (auto simp: issued_ids_def less_Suc_eq)
  next
    case resumed
    have holds1: "holds st1 a = (if a = InCursor cursor then None else holds st a)" for a
      by (cases a) (auto simp: resumed(3))
    have c: "holds st (InCursor cursor) = Some s" using resumed(2) by simp
    with assms(1) have no: "holds st1 a \<noteq> Some s" for a unfolding held_once_def holds1 by metis
    have "omap_has (wr_sequences st) s" using assms(1) c unfolding held_once_def by metis
    then have seq: "omap_has (wr_sequences st1) s" by (simp add: resumed(3))
    have sub: "holds st a = Some q" if "holds st1 a = Some q" for a q
      using that holds1 [of a] by (auto split: if_splits)
    have "held_once None st1"
    proof (rule held_once_less [OF assms(1) sub])
      fix a q assume "holds st1 a = Some q"
      then have "holds st a = Some q" by (rule sub)
      with assms(1) have "omap_has (wr_sequences st) q" unfolding held_once_def by metis
      then show "omap_has (wr_sequences st1) q \<and> None \<noteq> Some q" by (simp add: resumed(3))
    qed (use assms(1) in \<open>auto simp: resumed(3) held_once_def omap_wf_def fst_omap_del distinct_removeAll\<close>)
    from held_once_link [OF this no seq _ resumed(4)] resumed(1,3) assms(2,5) show ?thesis
      by (auto simp: issued_ids_def)
  qed
qed

lemma held_once_discard:
  assumes "held_once (Some s) st" shows "held_once None (discardInventorySequence (Some s) st)"
proof -
  let ?st = "discardInventorySequence (Some s) st"
  have sub: "holds ?st a = Some q \<Longrightarrow> holds st a = Some q" for a q
    using assms by (cases a) (auto simp: discardInventorySequence_def held_once_def omap_get_def omap_wf_def
        dest!: map_of_SomeD)
  have no: "holds st a = Some q \<Longrightarrow> omap_has (wr_sequences st) q \<and> q \<noteq> s" for a q
    using assms unfolding held_once_def by blast
  show ?thesis
  proof (rule held_once_less [OF assms sub])
    fix a q assume "holds ?st a = Some q"
    from no [OF sub [OF this]] show "omap_has (wr_sequences ?st) q \<and> None \<noteq> Some q"
      by (simp add: discardInventorySequence_def)
  qed (use assms in \<open>auto simp: discardInventorySequence_def held_once_def omap_wf_def distinct_map_filter
        intro: le_trans [OF length_omap_del]\<close>)
qed

definition session_ok :: "wrap_args \<Rightarrow> string option \<Rightarrow> wrap_state \<Rightarrow> bool" where
  "session_ok args h st = (held_once h st \<and> issued_ids args st)"

definition same_tables :: "wrap_state \<Rightarrow> wrap_state \<Rightarrow> bool" where
  "same_tables st st' = (wr_inFlight st' = wr_inFlight st \<and> wr_cursors st' = wr_cursors st
      \<and> wr_sequences st' = wr_sequences st \<and> wr_issued st' = wr_issued st)"

lemma session_ok_same: "same_tables st st' \<Longrightarrow> session_ok args h st' = session_ok args h st"
  using held_once_cong [of st' st h] by (simp add: same_tables_def session_ok_def issued_ids_def)

lemma same_tables_simps [simp]:
  "same_tables st st" "same_tables st (clearInventoryContext st)" "same_tables st (inventory_error e st)"
  "same_tables st (record_event args d m tn g x a res st)" "same_tables st (st\<lparr>wr_ctx := c\<rparr>)"
  by (simp_all add: same_tables_def clearInventoryContext_def inventory_error_def record_event_def)

lemma same_tables_trans: "same_tables a b \<Longrightarrow> same_tables b c \<Longrightarrow> same_tables a c"
  by (simp add: same_tables_def)

lemma session_ok_discard: "session_ok args s st \<Longrightarrow> session_ok args None (discardInventorySequence s st)"
proof (cases s)
  case (Some q)
  assume "session_ok args s st"
  with Some held_once_discard [of q st] show ?thesis
    by (auto simp: session_ok_def issued_ids_def discardInventorySequence_def split: if_splits)
qed (simp add: discardInventorySequence_def)

lemma session_ok_forget: "session_ok args h st \<Longrightarrow> session_ok args h (forget_request frame direction st)"
proof -
  assume ok: "session_ok args h st"
  let ?st = "forget_request frame direction st"
  have sub: "holds ?st a = Some q \<Longrightarrow> holds st a = Some q" for a q
    by (cases a) (auto simp: forget_request_def bind_eq_Some_conv split: option.splits if_splits)
  have eq: "wr_sequences ?st = wr_sequences st" "wr_cursors ?st = wr_cursors st" "wr_issued ?st = wr_issued st"
    by (simp_all add: forget_request_def split: option.split)
  have len: "length (wr_inFlight ?st) \<le> length (wr_inFlight st)"
    by (simp add: forget_request_def length_omap_del split: option.split)
  from ok have h: "held_once h st" by (simp add: session_ok_def)
  have "held_once h ?st"
  proof (rule held_once_less [OF h sub])
    fix a q assume "holds ?st a = Some q"
    from sub [OF this] h show "omap_has (wr_sequences ?st) q \<and> h \<noteq> Some q" unfolding eq held_once_def by metis
  qed (use h len in \<open>auto simp: eq held_once_def\<close>)
  with ok show ?thesis by (simp add: session_ok_def issued_ids_def eq)
qed

text \<open>A refused call that was linked to an inventory takes it along.\<close>

lemma session_ok_refused_link:
  assumes "session_ok args None st" "holds st (InCall key) = Some s" "requestKey frame = Some key"
  shows "session_ok args None (forget_request frame ClientToServer (discardInventorySequence (Some s) st))"
proof -
  let ?st = "forget_request frame ClientToServer st"
  have comm: "forget_request frame ClientToServer (discardInventorySequence (Some s) st) = discardInventorySequence (Some s) ?st"
    using assms(3) by (simp add: forget_request_def discardInventorySequence_def)
  have holds: "holds ?st a = (if a = InCall key then None else holds st a)" for a
    using assms(3) by (cases a) (auto simp: forget_request_def)
  from assms(1) have once: "held_once None st" by (simp add: session_ok_def)
  have "holds ?st a \<noteq> Some s" for a
    using once assms(2) unfolding held_once_def holds by metis
  moreover have "session_ok args None ?st" by (rule session_ok_forget [OF assms(1)])
  ultimately have "session_ok args (Some s) ?st" unfolding session_ok_def held_once_def by metis
  then show ?thesis unfolding comm by (rule session_ok_discard)
qed

lemma session_ok_weaken: "session_ok args h st \<Longrightarrow> session_ok args None st"
  by (auto simp: session_ok_def dest: held_once_weaken)

lemma session_ok_settle:
  assumes "session_ok args (pc_sequenceId call) st" "an_sequence ans = active_sequence call st"
    and "settle_inventory env f call ans st = (st', r)"
  shows "session_ok args None st'"
proof (cases "an_ended ans")
  case True
  with assms(1,3) session_ok_discard show ?thesis by (auto simp: settle_inventory_def)
next
  case False
  show ?thesis
  proof (cases "an_sequence ans")
    case None
    with False assms(1,3) session_ok_weaken show ?thesis by (auto simp: settle_inventory_def)
  next
    case (Some sa)
    then obtain s adv where s: "an_sequence ans = Some (s, adv)" by (cases sa) auto
    have "active_sequence call st = Some (s, adv)" using assms(2) s by simp
    then have call: "pc_sequenceId call = Some s" and has: "omap_has (wr_sequences st) s"
      by (auto simp: active_sequence_def split: option.splits)
    have put: "session_ok args (Some s) (st\<lparr>wr_sequences := omap_put s adv' (wr_sequences st)\<rparr>)" (is "session_ok args _ (?st1 adv')") for adv'
    proof -
      have "holds (?st1 adv') a = holds st a" for a by (cases a) simp_all
      with assms(1) has show ?thesis
        unfolding session_ok_def held_once_def issued_ids_def call by (auto simp: length_omap_put)
    qed
    have cursor: "session_ok args None ((?st1 adv')\<lparr>wr_cursors := omap_put c s (wr_cursors st)\<rparr>)" (is "session_ok args None ?st2") for adv' c
    proof -
      have h: "holds ?st2 a = (if a = InCursor c then Some s else holds (?st1 adv') a)" for a by (cases a) auto
      have wf: "omap_wf (omap_put c s (wr_cursors st))"
        using assms(1) by (simp add: session_ok_def held_once_def omap_wf_def distinct_omap_put)
      show ?thesis
        using put [of adv'] has wf unfolding session_ok_def held_once_def issued_ids_def h by (auto split: if_splits)
    qed
    from assms(3) False s consider "st' = st" | adv' where "st' = ?st1 adv'"
      | adv' c where "st' = (?st1 adv')\<lparr>wr_cursors := omap_put c s (wr_cursors st)\<rparr>"
      | adv' c where "st' = discardInventorySequence (Some s) ((?st1 adv')\<lparr>wr_ctx := c\<rparr>)"
      by (auto simp: settle_inventory_def Let_def split: page_parse.splits sum.splits option.splits)
    then show ?thesis
    proof cases
      case 1
      with assms(1) session_ok_weaken show ?thesis by blast
    next
      case 2
      with put session_ok_weaken show ?thesis by blast
    next
      case 3
      with cursor show ?thesis by simp
    next
      case 4
      have "session_ok args (Some s) ((?st1 adv')\<lparr>wr_ctx := c\<rparr>)" for adv' c
        using put [of adv'] session_ok_same [of "?st1 adv'"] same_tables_simps(5) by blast
      with 4 session_ok_discard show ?thesis by blast
    qed
  qed
qed

lemma classified_request:
  assumes "classifyFrame frame fl = (call, fl')" "is_inventory_request frame direction"
  shows "pc_sequenceId call = None" "\<And>key. requestKey frame = Some key \<Longrightarrow> omap_has fl' key"
proof -
  from assms(2) have "truthy (string_at frame ''method'')" by (simp add: is_inventory_request_def string_at_def)
  with assms(1) show "pc_sequenceId call = None" "\<And>key. requestKey frame = Some key \<Longrightarrow> omap_has fl' key"
    by (auto simp: classifyFrame_def Let_def track_lookup split: option.splits)
qed

lemma answer_inventory_same:
  "answer_inventory env frame call st = Inr ans \<Longrightarrow> same_tables st (an_state ans) \<and> an_sequence ans = active_sequence call st"
  by (auto simp: answer_inventory_def Let_def attempt_Inr same_tables_def inventory_error_def
      split: if_splits option.splits prod.splits page_parse.splits)

lemma prepare_ok:
  assumes "session_ok args None st" "inj (wa_uuid args)" "prepare env args frame direction st = (st2, call, r)"
  shows "\<exists>h. session_ok args h st2
    \<and> (pc_sequenceId call = h
        \<or> (direction = ClientToServer \<and> (\<exists>key. requestKey frame = Some key \<and> holds st2 (InCall key) = pc_sequenceId call)))
    \<and> (\<forall>ans. r = Inr ans \<longrightarrow> same_tables st2 (an_state ans)
        \<and> (is_inventory_answer call direction \<longrightarrow> an_sequence ans = active_sequence call st2))"
proof -
  let ?s0 = "clearInventoryContext st"
  obtain c1 fl where cl: "classifyFrame frame (wr_inFlight ?s0) = (c1, fl)" by (cases rule: prod.exhaust)
  let ?s1 = "?s0\<lparr>wr_inFlight := fl\<rparr>"
  have "session_ok args None ?s0" using assms(1) session_ok_same same_tables_simps(2) by blast
  then have s1: "session_ok args (pc_sequenceId c1) ?s1"
    using held_once_classify [OF _ cl] by (simp add: session_ok_def issued_ids_def)
  from assms(3) cl have st2: "(st2, call) = (if is_inventory_request frame direction then open_inventory args frame c1 ?s1 else (?s1, c1))"
    and r: "r = (if is_inventory_answer call direction then answer_inventory env frame call st2
                 else Inr \<lparr>an_state = st2, an_sequence = None, an_ended = False\<rparr>)"
    by (auto simp: prepare_def Let_def split: prod.splits)
  have ans: "\<forall>ans. r = Inr ans \<longrightarrow> same_tables st2 (an_state ans)
        \<and> (is_inventory_answer call direction \<longrightarrow> an_sequence ans = active_sequence call st2)"
    using r answer_inventory_same by (auto split: if_splits)
  show ?thesis
  proof (cases "is_inventory_request frame direction")
    case True
    with st2 have op: "open_inventory args frame c1 ?s1 = (st2, call)" by simp
    note rq = classified_request [OF cl True]
    from s1 rq(1) have "held_once None ?s1" "issued_ids args ?s1" by (simp_all add: session_ok_def)
    from held_once_open [OF this assms(2) rq(1) _ op] rq(2) have "session_ok args None st2"
        "pc_sequenceId call = None \<or> (\<exists>key. requestKey frame = Some key \<and> holds st2 (InCall key) = pc_sequenceId call)"
      by (auto simp: session_ok_def)
    with True ans show ?thesis by (auto simp: is_inventory_request_def)
  next
    case False
    with st2 s1 ans show ?thesis by auto
  qed
qed

lemma handleFrame_ok:
  assumes "session_ok args None st" "inj (wa_uuid args)" "handleFrame env args io frame direction st = Some (st', r)"
  shows "session_ok args None st'"
proof -
  obtain st2 call pr where p: "prepare env args frame direction st = (st2, call, pr)" by (metis prod_cases3)
  from prepare_ok [OF assms(1,2) p] obtain h where h: "session_ok args h st2"
    and link: "pc_sequenceId call = h
        \<or> (direction = ClientToServer \<and> (\<exists>key. requestKey frame = Some key \<and> holds st2 (InCall key) = pc_sequenceId call))"
    and same: "\<And>ans. pr = Inr ans \<Longrightarrow> same_tables st2 (an_state ans)
        \<and> (is_inventory_answer call direction \<longrightarrow> an_sequence ans = active_sequence call st2)" by blast
  show ?thesis
  proof (cases pr)
    case (Inl e)
    with assms(3) p h session_ok_weaken show ?thesis by (auto simp: handleFrame_def)
  next
    case (Inr ans)
    with assms(3) p obtain ctx' ev where ev: "evaluateFrame env io frame direction (wr_ctx (an_state ans)) = Some (ctx', ev)"
      by (auto simp: handleFrame_def split: option.splits)
    let ?st3 = "record_event args direction (pc_method call) (pc_toolName call) (me_blockingGate ev) []
                  (''mcp:'' @ pc_method call) (toPolicyResult ev) ((an_state ans)\<lparr>wr_ctx := ctx'\<rparr>)"
    from same [OF Inr] have tables: "same_tables st2 ?st3"
      and seq: "is_inventory_answer call direction \<longrightarrow> an_sequence ans = active_sequence call st2"
      by (auto simp: same_tables_def)
    have st3: "session_ok args h ?st3" using h session_ok_same [OF tables] by simp
    have holds3: "holds ?st3 a = holds st2 a" for a using tables by (cases a) (auto simp: same_tables_def)
    show ?thesis
    proof (cases "me_decision ev = Deny \<or> me_decision ev = Approve")
      case True
      let ?d = "forget_request frame direction (discardInventorySequence (pc_sequenceId call) ?st3)"
      from True p Inr ev assms(3) have st': "st' = clearInventoryContext ?d" by (auto simp: handleFrame_def Let_def)
      have "session_ok args None ?d"
      proof (cases "pc_sequenceId call = h")
        case True
        with st3 show ?thesis by (simp add: session_ok_discard session_ok_forget)
      next
        case False
        with link obtain key where k: "direction = ClientToServer" "requestKey frame = Some key"
            "holds st2 (InCall key) = pc_sequenceId call" by blast
        show ?thesis
        proof (cases "pc_sequenceId call")
          case None
          with st3 session_ok_weaken show ?thesis by (auto simp: discardInventorySequence_def intro: session_ok_forget)
        next
          case (Some s)
          with k holds3 have "holds ?st3 (InCall key) = Some s" by metis
          from session_ok_refused_link [OF session_ok_weaken [OF st3] this k(2)] Some k(1) show ?thesis by metis
        qed
      qed
      then show ?thesis unfolding st' using session_ok_same same_tables_simps(2) by blast
    next
      case False
      then obtain st4 q where st4: "(if is_inventory_answer call direction
            then settle_inventory env (forwarded_frame ev frame) call ans ?st3 else (?st3, Inr ())) = (st4, q)"
          by (cases rule: prod.exhaust)
      have "session_ok args None st4"
      proof (cases "is_inventory_answer call direction")
        case True
        with link have "pc_sequenceId call = h" by (auto simp: is_inventory_answer_def)
        moreover have "an_sequence ans = active_sequence call ?st3"
          using seq True tables by (simp add: active_sequence_def same_tables_def cong: option.case_cong)
        ultimately show ?thesis using session_ok_settle [of args call ?st3 ans] st3 st4 True by auto
      next
        case False
        with st4 st3 session_ok_weaken show ?thesis by auto
      qed
      moreover have "st' = st4 \<or> st' = clearInventoryContext st4"
        using False p Inr ev assms(3) st4 by (auto simp: handleFrame_def Let_def split: if_splits sum.splits prod.splits)
      ultimately show ?thesis using session_ok_same same_tables_simps(2) by blast
    qed
  qed
qed

subsection \<open>A session\<close>

datatype session_event = GotFrame jframe frame_direction write_io | GotMalformed nat frame_direction

fun session_run :: "gate_env \<Rightarrow> wrap_args \<Rightarrow> session_event list \<Rightarrow> wrap_state \<Rightarrow> wrap_state option" where
  "session_run env args [] st = Some st"
| "session_run env args (GotFrame frame direction io # events) st =
     (case handleFrame env args io frame direction st of
        None \<Rightarrow> None
      | Some (st', r) \<Rightarrow> session_run env args events st')"
| "session_run env args (GotMalformed n direction # events) st =
     session_run env args events (fst (recordMalformed args n direction st))"

lemma session_run_ok:
  "session_run env args events st = Some st' \<Longrightarrow> inj (wa_uuid args) \<Longrightarrow> session_ok args None st \<Longrightarrow> session_ok args None st'"
proof (induction env args events st rule: session_run.induct)
  case (2 env args frame direction io events st)
  then show ?case using handleFrame_ok by (fastforce split: option.splits prod.splits)
next
  case (3 env args n direction events st)
  have "same_tables st (fst (recordMalformed args n direction st))" by (simp add: recordMalformed_def)
  from 3 session_ok_same [OF this] show ?case by simp
qed simp

lemma createFrameHandling_ok:
  "createFrameHandling server agentId sessionId engine mode store = Inr st \<Longrightarrow> session_ok args None st"
proof -
  assume "createFrameHandling server agentId sessionId engine mode store = Inr st"
  then have empty: "wr_inFlight st = []" "wr_sequences st = []" "wr_cursors st = []"
    by (auto simp: createFrameHandling_def Let_def split: if_splits)
  then have "holds st a = None" for a by (cases a) simp_all
  with empty show ?thesis by (simp add: session_ok_def held_once_def issued_ids_def omap_wf_def)
qed

lemma cursors_bounded:
  assumes "held_once h st" shows "length (wr_cursors st) \<le> length (wr_sequences st)"
proof -
  have wf: "distinct (map fst (wr_cursors st))" using assms by (simp add: held_once_def omap_wf_def)
  have get: "holds st (InCursor c) = Some s" if "(c, s) \<in> set (wr_cursors st)" for c s
    using that wf by (simp add: omap_get_def)
  have "inj_on snd (set (wr_cursors st))"
  proof (rule inj_onI)
    fix p q assume pq: "p \<in> set (wr_cursors st)" "q \<in> set (wr_cursors st)" "snd p = snd q"
    obtain c d v where "p = (c, v)" "q = (d, v)" using pq(3) by (cases p; cases q) simp
    with pq get have "holds st (InCursor (fst p)) = Some (snd p)" "holds st (InCursor (fst q)) = Some (snd p)" by auto
    with assms have "InCursor (fst p) = InCursor (fst q)" unfolding held_once_def by metis
    with pq show "p = q" by (simp add: prod_eq_iff)
  qed
  moreover have "snd ` set (wr_cursors st) \<subseteq> fst ` set (wr_sequences st)"
  proof
    fix s assume "s \<in> snd ` set (wr_cursors st)"
    then obtain c where "(c, s) \<in> set (wr_cursors st)" by force
    then have "holds st (InCursor c) = Some s" by (rule get)
    with assms have "omap_has (wr_sequences st) s" unfolding held_once_def by metis
    then show "s \<in> fst ` set (wr_sequences st)" by (auto simp: omap_get_def map_of_eq_None_iff)
  qed
  ultimately have "card (set (wr_cursors st)) \<le> card (fst ` set (wr_sequences st))"
    by (metis List.finite_set card_image card_mono finite_imageI)
  also have "\<dots> \<le> length (wr_sequences st)" by (metis card_length list.set_map length_map)
  finally show ?thesis using wf by (simp add: distinct_card distinct_map)
qed

text \<open>C16: Whatever a client and a server send, in any order and however many calls stay unanswered, the state a
  session keeps to correlate them is bounded: at most 512 requests in flight, at most 512 inventories under
  way, and no more cursors than inventories, because an inventory is held by one call or one cursor at a time.\<close>

theorem session_state_is_bounded:
  assumes "createFrameHandling server agentId sessionId engine mode store = Inr st0" "inj (wa_uuid args)"
    and "session_run env args events st0 = Some st"
  shows "length (wr_inFlight st) \<le> MAX_TRACKED_REQUESTS \<and> length (wr_sequences st) \<le> MAX_TRACKED_REQUESTS
    \<and> length (wr_cursors st) \<le> length (wr_sequences st)"
proof -
  have "session_ok args None st"
    by (rule session_run_ok [OF assms(3,2) createFrameHandling_ok [OF assms(1)]])
  then show ?thesis using cursors_bounded [of None st] by (auto simp: session_ok_def held_once_def)
qed

subsection \<open>Concrete sessions\<close>

definition toy_args :: wrap_args where
  "toy_args = \<lparr>wa_server = \<lparr>ms_serverName = ''s'', ms_command = [''s''], ms_commandHash = None\<rparr>,
     wa_transport = StdioTransport, wa_baseMetadata = [], wa_baselineMode = BaselineOff, wa_baselinePath = None,
     wa_uuid = show_nat\<rparr>"

definition toy_session :: wrap_state where
  "toy_session = (case createFrameHandling (wa_server toy_args) None ''x'' (newEngine [] Deny) BaselineOff None of
      Inr st \<Rightarrow> st | Inl e \<Rightarrow> undefined)"

definition toy_list :: jframe where
  "toy_list = [(''jsonrpc'', JStr ''2.0''), (''id'', JNum ''1''), (''method'', JStr ''tools/list'')]"

definition toy_ping :: jframe where
  "toy_ping = [(''jsonrpc'', JStr ''2.0''), (''id'', JNum ''1''), (''method'', JStr ''ping'')]"

lemma toy_session_created:
  "createFrameHandling (wa_server toy_args) None ''x'' (newEngine [] Deny) BaselineOff None = Inr toy_session"
  by (simp add: toy_session_def createFrameHandling_def)

lemma inj_show_nat: "inj show_nat"
  by (rule injI) (rule show_nat_inj)

definition acted :: "(wrap_state \<times> (string + frame_action)) option \<Rightarrow> frame_action option" where
  "acted r = (case r of Some (st, Inr act) \<Rightarrow> Some act | _ \<Rightarrow> None)"

lemma acted_Some: "acted r = Some act \<Longrightarrow> \<exists>st. r = Some (st, Inr act)"
  by (auto simp: acted_def split: option.splits prod.splits sum.splits)

definition toy_redacted_call :: jframe where
  "toy_redacted_call = [(''jsonrpc'', JStr ''2.0''), (''id'', JNum ''1''), (''method'', JStr ''tools/call''),
               (''params'', JObj [(''name'', JStr ''t''), (''arguments'', JObj [])])]"

lemma toy_call_forwarded:
  "acted (handleFrame toy_env toy_args quiet_write toy_call ClientToServer toy_session) = Some (Forward toy_redacted_call)"
  by code_simp



lemma toy_listing:
  "map_option (\<lambda>st. gx_approvedTools (wr_ctx st)) (session_run toy_env toy_args
     [GotFrame toy_list ClientToServer quiet_write, GotFrame toy_answer ServerToClient quiet_write] toy_session)
   = Some (Some toy_tools)"
  by code_simp

theorem session_state_is_bounded_witness:
  "\<exists>st. session_run toy_env toy_args
       [GotFrame toy_list ClientToServer quiet_write, GotFrame toy_answer ServerToClient quiet_write] toy_session = Some st
     \<and> length (wr_cursors st) \<le> length (wr_sequences st)"
proof -
  obtain st where run: "session_run toy_env toy_args
       [GotFrame toy_list ClientToServer quiet_write, GotFrame toy_answer ServerToClient quiet_write] toy_session = Some st"
    using toy_listing by (auto simp del: session_run.simps)
  have "inj (wa_uuid toy_args)" by (simp add: toy_args_def inj_show_nat)
  from session_state_is_bounded [OF toy_session_created this run] run show ?thesis by blast
qed

text \<open>
  Requests of both sides share one table keyed by the id alone. A server that first sends a request of its
  own under the id of the client's pending \<open>tools/list\<close> has its inventory forwarded without becoming the
  session's baseline: no later change of it is ever drift.
\<close>

lemma server_request_hides_the_inventory:
  "map_option (\<lambda>st. gx_approvedTools (wr_ctx st)) (session_run toy_env toy_args
     [GotFrame toy_list ClientToServer quiet_write, GotFrame toy_ping ServerToClient quiet_write,
      GotFrame toy_answer ServerToClient quiet_write] toy_session)
   = Some None"
  by code_simp

text \<open>
  An inventory nobody holds any more is never given up: here a client that reuses an id leaves one behind,
  with no call in flight and no cursor to finish it. When 512 are left behind the session refuses every
  further \<open>tools/list\<close>.
\<close>

lemma abandoned_inventory_stays:
  "map_option (\<lambda>st. (length (wr_sequences st), wr_inFlight st, wr_cursors st)) (session_run toy_env toy_args
     [GotFrame toy_list ClientToServer quiet_write, GotFrame toy_list ClientToServer quiet_write,
      GotFrame toy_answer ServerToClient quiet_write] toy_session)
   = Some (1, [], [])"
  by code_simp

lemma inventory_error_denies:
  assumes "gx_inventoryError ctx = Some e" "evaluateFrame env io frame direction ctx = Some (ctx', ev)"
  shows "me_decision ev = Deny"
proof (rule ccontr)
  assume "me_decision ev \<noteq> Deny"
  with assms(2) obtain c r where
      "run_gates env frame direction ([FrameIntegrity] @ [ToolInventory] @ [InputScan, PolicyGate, ResponseScan]) ctx empty_run
         = (c, r, me_outcomes ev, None)"
    by (auto dest!: evaluateFrame_Some blocking_iff_Deny [THEN iffD2, rotated] simp: GATE_ORDER_def)
  then obtain c1 r1 o1 c2 r2 o2 where "run_gates env frame direction [FrameIntegrity] ctx empty_run = (c1, r1, o1, None)"
      "run_gates env frame direction [ToolInventory] c1 r1 = (c2, r2, o2, None)"
    unfolding run_gates_append by blast
  then show False
    using assms(1) by (auto simp: run_gates_one isolated_def [of _ ToolInventory] runGate_def gateToolInventory_def
        dest!: isolated_simps(1))
qed

lemma full_table_refuses:
  assumes "MAX_TRACKED_REQUESTS \<le> length (wr_sequences st)" "is_inventory_request frame ClientToServer"
    and "request_cursor frame = None" "requestKey frame = Some key"
    and "handleFrame env args io frame ClientToServer st = Some (st', Inr act)"
  shows "\<exists>e. act = Block e"
proof -
  obtain c1 fl where cl: "classifyFrame frame (wr_inFlight (clearInventoryContext st)) = (c1, fl)"
    by (cases rule: prod.exhaust)
  from assms(5) obtain st2 call ans ctx' ev where
      prep: "prepare env args frame ClientToServer st = (st2, call, Inr ans)"
    and ev: "evaluateFrame env io frame ClientToServer (wr_ctx (an_state ans)) = Some (ctx', ev)"
    and act: "me_decision ev \<in> {Deny, Approve} \<and> act = refusal call ev \<or> me_decision ev \<in> {Allow, Redact}"
    by (rule handleFrame_Some) blast
  from prep cl assms(1-4) have "gx_inventoryError (wr_ctx (an_state ans)) = Some ''Too many incomplete MCP tool inventory sequences''"
    by (auto simp: prepare_def Let_def open_inventory_def clearInventoryContext_def inventory_error_def is_inventory_answer_def
        split: if_splits)
  from inventory_error_denies [OF this ev] act show ?thesis by (auto simp: refusal_def blockAction_def)
qed

end
