(* ===== verification/Js_Regex.thy ===== *)
theory Js_Regex
  imports Prelude "HOL-Library.Char_ord"
begin

text \<open>
  The regular expressions of the language, as far as the program's patterns use them: character classes, sequences,
  alternatives, greedy and lazy repetition, word boundaries, line anchors and the assertions, with the flags \<open>i\<close> and
  \<open>m\<close>. A text is its list of UTF-16 code units. \<open>ends\<close> is the list of the positions at which a match that starts at a
  given position can end, in the order in which backtracking tries them, so its head is the match \<open>exec\<close> reports.

  \<open>residue\<close> is a static analysis on top: it follows the literal text a match must contain, and its soundness is what
  shows that a pre-filter by literals loses no match.
\<close>

type_synonym units = "nat list"

definition units_of :: "string \<Rightarrow> units" where
  "units_of s = map of_char s"

datatype regex =
    Nothing_To_Match
  | Class bool "(nat \<times> nat) list" \<comment> \<open>negated, ranges of code units\<close>
  | Seq regex regex
  | Alt regex regex
  | Rep bool nat "nat option" regex \<comment> \<open>greedy, least and largest number\<close>
  | Word_Boundary
  | Line_Start
  | Line_End
  | Ahead bool regex \<comment> \<open>negated\<close>
  | Behind bool bool "(nat \<times> nat) list" \<comment> \<open>negated, and the class of the one unit looked at\<close>

record re_flags =
  ignoreCase :: bool
  multiline :: bool

subsection \<open>Matching\<close>

definition in_ranges :: "(nat \<times> nat) list \<Rightarrow> nat \<Rightarrow> bool" where
  "in_ranges rs n = list_ex (\<lambda>(a, b). a \<le> n \<and> n \<le> b) rs"

definition swap_case :: "nat \<Rightarrow> nat" where
  "swap_case n = (if 65 \<le> n \<and> n \<le> 90 then n + 32 else if 97 \<le> n \<and> n \<le> 122 then n - 32 else n)"

text \<open>
  With the flag \<open>i\<close> a unit belongs to a class when some member has the same upper case. A unit outside ASCII never has
  the upper case of an ASCII one, and the classes of the program hold letters of ASCII only.
\<close>

definition class_has :: "bool \<Rightarrow> bool \<Rightarrow> (nat \<times> nat) list \<Rightarrow> nat \<Rightarrow> bool" where
  "class_has ic neg rs n = ((in_ranges rs n \<or> ic \<and> in_ranges rs (swap_case n)) \<noteq> neg)"

definition word_ranges :: "(nat \<times> nat) list" where
  "word_ranges = [(97, 122), (65, 90), (48, 57), (95, 95)]"

definition space_ranges :: "(nat \<times> nat) list" where
  "space_ranges = [(9, 13), (32, 32), (160, 160), (0x1680, 0x1680), (0x2000, 0x200A), (0x2028, 0x2029),
     (0x202F, 0x202F), (0x205F, 0x205F), (0x3000, 0x3000), (0xFEFF, 0xFEFF)]"

definition line_break :: "nat \<Rightarrow> bool" where
  "line_break n = in_ranges [(10, 10), (13, 13), (0x2028, 0x2029)] n"

definition word_at :: "units \<Rightarrow> nat \<Rightarrow> bool" where
  "word_at s i = (i < length s \<and> in_ranges word_ranges (s ! i))"

definition word_boundary :: "units \<Rightarrow> nat \<Rightarrow> bool" where
  "word_boundary s i = ((0 < i \<and> word_at s (i - 1)) \<noteq> word_at s i)"

text \<open>
  A repetition: \<open>m\<close> more iterations are mandatory, then up to \<open>e\<close> optional ones, each of which must consume something.
\<close>

fun repeats :: "(nat \<Rightarrow> nat list) \<Rightarrow> bool \<Rightarrow> nat \<Rightarrow> nat \<Rightarrow> nat \<Rightarrow> nat list" where
  "repeats f greedy (Suc m) e i = concat (map (repeats f greedy m e) (f i))"
| "repeats f greedy 0 0 i = [i]"
| "repeats f greedy 0 (Suc e) i =
     (let more = concat (map (\<lambda>j. if j = i then [] else repeats f greedy 0 e j) (f i)) in
      if greedy then more @ [i] else i # more)"

text \<open>Without a largest number the optional iterations are bounded by what is left of the text.\<close>

definition optional_iterations :: "nat \<Rightarrow> nat option \<Rightarrow> units \<Rightarrow> nat \<Rightarrow> nat" where
  "optional_iterations least most s i = (case most of Some n \<Rightarrow> n - least | None \<Rightarrow> length s - i)"

fun ends :: "re_flags \<Rightarrow> regex \<Rightarrow> units \<Rightarrow> nat \<Rightarrow> nat list" where
  "ends fl Nothing_To_Match s i = [i]"
| "ends fl (Class neg rs) s i = (if i < length s \<and> class_has (ignoreCase fl) neg rs (s ! i) then [Suc i] else [])"
| "ends fl (Seq r q) s i = concat (map (ends fl q s) (ends fl r s i))"
| "ends fl (Alt r q) s i = ends fl r s i @ ends fl q s i"
| "ends fl (Rep greedy least most r) s i =
     repeats (ends fl r s) greedy least (optional_iterations least most s i) i"
| "ends fl Word_Boundary s i = (if word_boundary s i then [i] else [])"
| "ends fl Line_Start s i = (if i = 0 \<or> multiline fl \<and> line_break (s ! (i - 1)) then [i] else [])"
| "ends fl Line_End s i = (if i = length s \<or> multiline fl \<and> line_break (s ! i) then [i] else [])"
| "ends fl (Ahead neg r) s i = (if (ends fl r s i \<noteq> []) \<noteq> neg then [i] else [])"
| "ends fl (Behind neg cneg rs) s i =
     (if (0 < i \<and> class_has (ignoreCase fl) cneg rs (s ! (i - 1))) \<noteq> neg then [i] else [])"

text \<open>\<open>exec\<close> from \<open>lastIndex\<close>: the first position that has a match, and where that match ends.\<close>

definition regex_exec :: "re_flags \<Rightarrow> regex \<Rightarrow> units \<Rightarrow> nat \<Rightarrow> (nat \<times> nat) option" where
  "regex_exec fl r s k = (case find (\<lambda>i. ends fl r s i \<noteq> []) [k ..< Suc (length s)] of
     None \<Rightarrow> None
   | Some i \<Rightarrow> Some (i, hd (ends fl r s i)))"

definition regex_test :: "re_flags \<Rightarrow> regex \<Rightarrow> units \<Rightarrow> bool" where
  "regex_test fl r s = (regex_exec fl r s 0 \<noteq> None)"

definition js_slice :: "'a list \<Rightarrow> nat \<Rightarrow> nat \<Rightarrow> 'a list" where
  "js_slice s i j = take (j - i) (drop i s)"

subsection \<open>Writing patterns\<close>

fun pairs :: "string \<Rightarrow> (nat \<times> nat) list" where
  "pairs (a # b # s) = (of_char a, of_char b) # pairs s"
| "pairs s = []"

text \<open>\<open>cls\<close> lists a class by the first and last character of each of its ranges, as in \<open>cls ''azAZ''\<close>.\<close>

definition cls :: "string \<Rightarrow> regex" where
  "cls s = Class False (pairs s)"

definition not_cls :: "string \<Rightarrow> regex" where
  "not_cls s = Class True (pairs s)"

definition cat :: "regex list \<Rightarrow> regex" where
  "cat rs = foldr Seq rs Nothing_To_Match"

fun alt :: "regex list \<Rightarrow> regex" where
  "alt [] = Class False []"
| "alt [r] = r"
| "alt (r # q # rs) = Alt r (alt (q # rs))"

definition str :: "string \<Rightarrow> regex" where
  "str s = cat (map (\<lambda>c. Class False [(of_char c, of_char c)]) s)"

definition opt :: "regex \<Rightarrow> regex" where
  "opt r = Rep True 0 (Some 1) r"

definition many :: "regex \<Rightarrow> regex" where \<comment> \<open>\<open>*\<close>\<close>
  "many r = Rep True 0 None r"

definition many1 :: "regex \<Rightarrow> regex" where \<comment> \<open>\<open>+\<close>\<close>
  "many1 r = Rep True 1 None r"

definition exactly :: "nat \<Rightarrow> regex \<Rightarrow> regex" where
  "exactly n r = Rep True n (Some n) r"

definition at_least :: "nat \<Rightarrow> regex \<Rightarrow> regex" where
  "at_least n r = Rep True n None r"

definition between :: "nat \<Rightarrow> nat \<Rightarrow> regex \<Rightarrow> regex" where
  "between n m r = Rep True n (Some m) r"

definition lazily :: "nat \<Rightarrow> nat \<Rightarrow> regex \<Rightarrow> regex" where
  "lazily n m r = Rep False n (Some m) r"

definition space :: regex where
  "space = Class False space_ranges"

definition word_char :: regex where
  "word_char = Class False word_ranges"

lemmas regex_defs = cls_def not_cls_def cat_def str_def opt_def many_def many1_def exactly_def at_least_def
  between_def lazily_def space_def word_char_def

subsection \<open>What a match is\<close>

lemma slice_same [simp]: "js_slice s i i = []"
  by (simp add: js_slice_def)

lemma slice_Suc: "i < length s \<Longrightarrow> js_slice s i (Suc i) = [s ! i]"
  by (simp add: js_slice_def take_Suc_conv_app_nth Cons_nth_drop_Suc [symmetric] del: drop_Suc_Cons)

lemma slice_join: "i \<le> j \<Longrightarrow> j \<le> k \<Longrightarrow> js_slice s i j @ js_slice s j k = js_slice s i k"
proof -
  assume a: "i \<le> j" "j \<le> k"
  then have "k - i = (j - i) + (k - j)" "drop (j - i) (drop i s) = drop j s" by simp_all
  then show ?thesis by (simp only: js_slice_def take_add)
qed

lemma length_slice: "j \<le> length s \<Longrightarrow> length (js_slice s i j) = j - i"
  by (simp add: js_slice_def)

lemma sublist_slice: "sublist (js_slice s i j) s"
proof -
  have "s = take i s @ js_slice s i j @ drop (j - i) (drop i s)" unfolding js_slice_def by (metis append_take_drop_id)
  then show ?thesis by (metis sublist_appendI)
qed

lemma map_slice: "map f (js_slice s i j) = js_slice (map f s) i j"
  by (simp add: js_slice_def take_map drop_map)

lemma repeats_chain:
  assumes "Q i" and "\<And>j k. Q j \<Longrightarrow> k \<in> set (f j) \<Longrightarrow> Q k" and "j \<in> set (repeats f g m e i)"
  shows "Q j"
  using assms
  by (induction f g m e i rule: repeats.induct) (auto simp: Let_def split: if_splits)

lemma repeats_once: "set (repeats f g 0 (Suc 0) i) = insert i (set (f i))"
  by (auto simp: Let_def split: if_splits)

lemma ends_bounds: "j \<in> set (ends fl r s i) \<Longrightarrow> i \<le> length s \<Longrightarrow> i \<le> j \<and> j \<le> length s"
proof (induction r arbitrary: i j)
  case (Rep greedy least most r)
  show ?case
    by (rule repeats_chain [OF _ _ Rep.prems(1) [unfolded ends.simps]]) (use Rep in force)+
next
  case (Seq r q)
  from Seq.prems obtain k where "k \<in> set (ends fl r s i)" "j \<in> set (ends fl q s k)" by auto
  with Seq show ?case by (meson order.trans)
qed (auto split: if_splits)

lemma exec_None: "regex_exec fl r s k = None \<longleftrightarrow> (\<forall>i. k \<le> i \<longrightarrow> i \<le> length s \<longrightarrow> ends fl r s i = [])"
proof -
  have "regex_exec fl r s k = None \<longleftrightarrow> find (\<lambda>i. ends fl r s i \<noteq> []) [k ..< Suc (length s)] = None"
    by (simp add: regex_exec_def split: option.split)
  then show ?thesis unfolding find_None_iff by (auto simp: less_Suc_eq_le simp del: upt_Suc)
qed

lemma exec_Some:
  assumes "regex_exec fl r s k = Some (i, j)"
  shows "k \<le> i" "i \<le> length s" "ends fl r s i \<noteq> []" "j = hd (ends fl r s i)"
    "\<And>h. k \<le> h \<Longrightarrow> h < i \<Longrightarrow> ends fl r s h = []"
proof -
  from assms have j: "j = hd (ends fl r s i)" and "find (\<lambda>i. ends fl r s i \<noteq> []) [k ..< Suc (length s)] = Some i"
    by (simp_all add: regex_exec_def del: upt_Suc split: option.splits)
  then obtain n where n: "n < length [k ..< Suc (length s)]" "ends fl r s ([k ..< Suc (length s)] ! n) \<noteq> []"
    "i = [k ..< Suc (length s)] ! n" "\<forall>m<n. ends fl r s ([k ..< Suc (length s)] ! m) = []"
    unfolding find_Some_iff by blast
  then have i: "i = k + n" "k + n < Suc (length s)" by (simp_all del: upt_Suc)
  show "k \<le> i" "i \<le> length s" "ends fl r s i \<noteq> []" "j = hd (ends fl r s i)" using i n j by simp_all
  show "ends fl r s h = []" if h: "k \<le> h" "h < i" for h
  proof -
    from h i have m: "h - k < n" by simp
    with n(4) have "ends fl r s ([k ..< Suc (length s)] ! (h - k)) = []" by blast
    with m i h show ?thesis by (simp del: upt_Suc)
  qed
qed

lemma exec_bounds:
  assumes "regex_exec fl r s k = Some (i, j)"
  shows "k \<le> i \<and> i \<le> j \<and> j \<le> length s"
  using exec_Some [OF assms] ends_bounds [of j fl r s i] by force

lemma exec_skip:
  "regex_exec fl r s k = (if length s < k then None
     else case ends fl r s k of [] \<Rightarrow> regex_exec fl r s (Suc k) | j # js \<Rightarrow> Some (k, j))"
proof (cases "length s < k")
  case False
  then have "[k ..< Suc (length s)] = k # [Suc k ..< Suc (length s)]" by (simp add: upt_conv_Cons)
  with False show ?thesis by (simp add: regex_exec_def split: list.split)
qed (simp add: regex_exec_def)

subsection \<open>Global matching\<close>

text \<open>
  A loop over \<open>exec\<close> of a global expression whose candidates may be rejected: an empty match advances by one, a
  rejected one resumes one unit past its start, an accepted one at its end. These are the matches it accepts.
\<close>

definition match_from :: "re_flags \<Rightarrow> regex \<Rightarrow> units \<Rightarrow> nat \<Rightarrow> nat option" where
  "match_from fl r s i = (case ends fl r s i of [] \<Rightarrow> None | j # js \<Rightarrow> Some j)"

function global_matches ::
  "re_flags \<Rightarrow> regex \<Rightarrow> units \<Rightarrow> (nat \<Rightarrow> nat \<Rightarrow> bool) \<Rightarrow> nat \<Rightarrow> (nat \<times> nat) list" where
  "global_matches fl r s rejected k = (case regex_exec fl r s k of
     None \<Rightarrow> []
   | Some (i, j) \<Rightarrow> if j = i then global_matches fl r s rejected (j + 1)
       else if rejected i j then global_matches fl r s rejected (i + 1)
       else (i, j) # global_matches fl r s rejected j)"
  by pat_completeness auto
termination
  by (relation "measure (\<lambda>(fl, r, s, rejected, k). Suc (length s) - k)") (auto dest!: exec_bounds)

declare global_matches.simps [simp del]

lemma exec_match:
  assumes "regex_exec fl r s k = Some (i, j)"
  shows "k \<le> i" "i \<le> j" "j \<le> length s" "match_from fl r s i = Some j"
    "\<And>h. k \<le> h \<Longrightarrow> h < i \<Longrightarrow> match_from fl r s h = None"
  using exec_bounds [OF assms] exec_Some [OF assms] by (auto simp: match_from_def split: list.splits)

lemma exec_no_match: "regex_exec fl r s k = None \<Longrightarrow> k \<le> h \<Longrightarrow> h \<le> length s \<Longrightarrow> match_from fl r s h = None"
  by (simp add: exec_None match_from_def)

lemma global_matches_sound:
  "(i, j) \<in> set (global_matches fl r s rejected k) \<Longrightarrow>
    k \<le> i \<and> i < j \<and> j \<le> length s \<and> match_from fl r s i = Some j \<and> \<not> rejected i j"
proof (induction fl r s rejected k rule: global_matches.induct)
  case (1 fl r s rejected k)
  show ?case
  proof (cases "regex_exec fl r s k")
    case None
    with "1.prems" show ?thesis by (simp add: global_matches.simps [of fl r s rejected k])
  next
    case (Some p)
    obtain a b where p: "p = (a, b)" by (cases p)
    note x = Some [unfolded p]
    note m = exec_match [OF x]
    consider "b = a" "(i, j) \<in> set (global_matches fl r s rejected (b + 1))"
      | "b \<noteq> a" "rejected a b" "(i, j) \<in> set (global_matches fl r s rejected (a + 1))"
      | "b \<noteq> a" "\<not> rejected a b" "(i, j) = (a, b)"
      | "b \<noteq> a" "\<not> rejected a b" "(i, j) \<in> set (global_matches fl r s rejected b)"
      using "1.prems" by (auto simp: global_matches.simps [of fl r s rejected k] x split: if_splits)
    then show ?thesis
    proof cases
      case 1
      with "1.IH"(1) [OF x refl] m show ?thesis by auto
    next
      case 2
      with "1.IH"(2) [OF x refl] m show ?thesis by auto
    next
      case 3
      with m show ?thesis by auto
    next
      case 4
      with "1.IH"(3) [OF x refl] m show ?thesis by auto
    qed
  qed
qed

text \<open>A candidate that is rejected hides no other: the loop finds something exactly when some position has a match.\<close>

lemma global_matches_complete:
  "k \<le> i \<Longrightarrow> i \<le> length s \<Longrightarrow> match_from fl r s i = Some j \<Longrightarrow> i < j \<Longrightarrow> \<not> rejected i j \<Longrightarrow>
    global_matches fl r s rejected k \<noteq> []"
proof (induction fl r s rejected k rule: global_matches.induct)
  case (1 fl r s rejected k)
  show ?case
  proof (cases "regex_exec fl r s k")
    case None
    with "1.prems" show ?thesis by (auto dest: exec_no_match)
  next
    case (Some p)
    obtain a b where p: "p = (a, b)" by (cases p)
    note x = Some [unfolded p]
    note m = exec_match [OF x]
    have ai: "a \<le> i" using m(5) [of i] "1.prems" by force
    have skip: "a + 1 \<le> i" if "b = a \<or> rejected a b"
      using ai that "1.prems" m(4) by (cases "a = i") auto
    consider "b = a" | "b \<noteq> a" "rejected a b" | "b \<noteq> a" "\<not> rejected a b" by blast
    then show ?thesis
    proof cases
      case 1
      with skip "1.IH"(1) [OF x refl 1] "1.prems" show ?thesis by (simp add: global_matches.simps [of fl r s rejected k] x)
    next
      case 2
      with skip "1.IH"(2) [OF x refl 2] "1.prems" show ?thesis by (simp add: global_matches.simps [of fl r s rejected k] x)
    qed (simp add: global_matches.simps [of fl r s rejected k] x)
  qed
qed

lemma global_matches_iff:
  "global_matches fl r s rejected 0 \<noteq> [] \<longleftrightarrow>
     (\<exists>i \<le> length s. \<exists>j. match_from fl r s i = Some j \<and> i < j \<and> \<not> rejected i j)"
proof
  assume "global_matches fl r s rejected 0 \<noteq> []"
  then obtain i j where "(i, j) \<in> set (global_matches fl r s rejected 0)" by (metis list.set_sel(1) surj_pair)
  from global_matches_sound [OF this] show "\<exists>i \<le> length s. \<exists>j. match_from fl r s i = Some j \<and> i < j \<and> \<not> rejected i j"
    by (intro exI [of _ i] conjI exI [of _ j]) auto
qed (use global_matches_complete in blast)

subsection \<open>Literals every match contains\<close>

text \<open>
  \<open>follow\<close> reads the pattern from left to right and keeps the texts that may have been read last, in lower case, as
  long as they contain none of the literals \<open>ms\<close>. A piece of unbounded or varied content leaves nothing known.
\<close>

definition few_chars :: "(nat \<times> nat) list \<Rightarrow> string option" where
  "few_chars rs = (if length rs \<le> 4 \<and> list_all (\<lambda>(a, b). a = b \<and> b < 128) rs
     then Some (map (\<lambda>(a, b). char_of a) rs) else None)"

definition contains_any :: "string list \<Rightarrow> string \<Rightarrow> bool" where
  "contains_any ms w = list_ex (js_includes w) ms"

definition forget :: "string list \<Rightarrow> string list" where
  "forget known = (if known = [] then [] else [[]])"

definition read_on :: "string list \<Rightarrow> string \<Rightarrow> string list \<Rightarrow> string list" where
  "read_on ms cs known = filter (\<lambda>w. \<not> contains_any ms w)
     (concat (map (\<lambda>w. map (\<lambda>c. w @ [lower_char c]) cs) known))"

fun follow :: "string list \<Rightarrow> regex \<Rightarrow> string list \<Rightarrow> string list" where
  "follow ms (Class neg rs) known = (case (if neg then None else few_chars rs) of
     None \<Rightarrow> forget known
   | Some cs \<Rightarrow> read_on ms cs known)"
| "follow ms (Seq r q) known = follow ms q (follow ms r known)"
| "follow ms (Alt r q) known = follow ms r known @ follow ms q known"
| "follow ms (Rep greedy least most r) known =
     (if least = 0 \<and> most = Some 1 then known @ follow ms r known else forget known)"
| "follow ms r known = known"

definition must_contain :: "string list \<Rightarrow> regex \<Rightarrow> bool" where
  "must_contain ms r = (follow ms r [[]] = [])"

text \<open>What \<open>follow\<close> keeps: the text read so far contains a literal or ends in one of the kept texts.\<close>

definition tracked :: "string list \<Rightarrow> string list \<Rightarrow> string \<Rightarrow> bool" where
  "tracked ms known w = (contains_any ms w \<or> (\<exists>t \<in> set known. suffix t w))"

lemma contains_any_mono: "contains_any ms w \<Longrightarrow> sublist w w' \<Longrightarrow> contains_any ms w'"
  by (auto simp: contains_any_def list_ex_iff js_includes_sublist intro: sublist_order.order.trans)

lemma tracked_forget: "tracked ms known w \<Longrightarrow> tracked ms (forget known) (w @ v)"
  by (auto simp: tracked_def forget_def intro: contains_any_mono)

lemma tracked_mono: "tracked ms known w \<Longrightarrow> set known \<subseteq> set known' \<Longrightarrow> tracked ms known' w"
  by (auto simp: tracked_def)

lemma lower_az: "list_all (\<lambda>n. lower_char (char_of (n + 32)) = lower_char (char_of n)) [65 ..< 91]"
  by code_simp

lemma lower_swap_case: "lower_char (char_of (swap_case n)) = lower_char (char_of n)"
proof -
  have az: "lower_char (char_of (k + 32)) = lower_char (char_of k)" if "65 \<le> k" "k \<le> 90" for k :: nat
    using lower_az that unfolding list_all_iff by (auto simp del: upt_rec_numeral upt_conv_Cons)
  consider "65 \<le> n" "n \<le> 90" | "97 \<le> n" "n \<le> 122" | "swap_case n = n"
    unfolding swap_case_def by presburger
  then show ?thesis
  proof cases
    case 2
    then show ?thesis using az [of "n - 32"] by (simp add: swap_case_def)
  qed (simp_all add: az swap_case_def)
qed

lemma few_chars_has: "few_chars rs = Some cs \<Longrightarrow> in_ranges rs n \<Longrightarrow> n < 128 \<and> char_of n \<in> set cs"
  by (fastforce simp: few_chars_def in_ranges_def list_ex_iff list_all_iff split: if_splits)

lemma class_few:
  assumes "few_chars rs = Some cs" and "class_has ic False rs (of_char c)"
  shows "lower_char c \<in> lower_char ` set cs"
proof -
  from assms(2) consider "in_ranges rs (of_char c)" | "in_ranges rs (swap_case (of_char c))"
    by (auto simp: class_has_def)
  then show ?thesis
  proof cases
    case 1
    from few_chars_has [OF assms(1) 1] show ?thesis by force
  next
    case 2
    from few_chars_has [OF assms(1) 2] have n: "swap_case (of_char c) < 128" "char_of (swap_case (of_char c)) \<in> set cs"
      by simp_all
    have "lower_char c = lower_char (char_of (swap_case (of_char c)))" by (simp add: lower_swap_case)
    then show ?thesis using n(2) by (rule image_eqI)
  qed
qed

lemma read_on_tracked:
  assumes "tracked ms known w" and "lower_char c \<in> lower_char ` set cs"
  shows "tracked ms (read_on ms cs known) (w @ [lower_char c])"
proof (cases "contains_any ms (w @ [lower_char c])")
  case False
  with assms(1) obtain t where t: "t \<in> set known" "suffix t w"
    by (auto simp: tracked_def intro: contains_any_mono)
  then have suf: "suffix (t @ [lower_char c]) (w @ [lower_char c])" by (simp add: suffix_def)
  with False have "\<not> contains_any ms (t @ [lower_char c])"
    using contains_any_mono suffix_imp_sublist by blast
  moreover from assms(2) obtain d where "d \<in> set cs" "lower_char c = lower_char d" by blast
  ultimately have "t @ [lower_char c] \<in> set (read_on ms cs known)" using t(1) by (auto simp: read_on_def)
  with suf show ?thesis by (auto simp: tracked_def)
qed (simp add: tracked_def)

lemma length_units [simp]: "length (units_of t) = length t"
  by (simp add: units_of_def)

lemma follow_sound:
  "j \<in> set (ends fl r (units_of t) i) \<Longrightarrow> i \<le> length t \<Longrightarrow> tracked ms known w \<Longrightarrow>
    tracked ms (follow ms r known) (w @ js_lower (js_slice t i j))"
proof (induction r arbitrary: i j w known)
  case (Class neg rs)
  then have i: "i < length t" "j = Suc i" and has: "class_has (ignoreCase fl) neg rs (of_char (t ! i))"
    by (auto simp: units_of_def split: if_splits)
  have w: "w @ js_lower (js_slice t i j) = w @ [lower_char (t ! i)]" using i by (simp add: slice_Suc js_lower_Cons)
  show ?case
  proof (cases "if neg then None else few_chars rs")
    case (Some cs)
    then have "few_chars rs = Some cs" "\<not> neg" by (simp_all split: if_splits)
    with class_few [of rs cs] has have "lower_char (t ! i) \<in> lower_char ` set cs" by simp
    from read_on_tracked [OF Class.prems(3) this] show ?thesis unfolding w by (simp add: Some)
  qed (use tracked_forget [OF Class.prems(3)] in simp)
next
  case (Seq r q)
  from Seq.prems(1) obtain k where k: "k \<in> set (ends fl r (units_of t) i)" "j \<in> set (ends fl q (units_of t) k)" by auto
  then have b: "i \<le> k" "k \<le> length t" "k \<le> j"
    using ends_bounds [of k fl r "units_of t" i] ends_bounds [of j fl q "units_of t" k] Seq.prems(2) by auto
  have "tracked ms (follow ms (Seq r q) known) ((w @ js_lower (js_slice t i k)) @ js_lower (js_slice t k j))"
    unfolding follow.simps by (intro Seq.IH(2) Seq.IH(1) k b Seq.prems)
  then show ?case using slice_join [OF b(1) b(3), of t] by (metis append.assoc js_lower_append)
next
  case (Alt r q)
  then have "tracked ms (follow ms r known) (w @ js_lower (js_slice t i j))
      \<or> tracked ms (follow ms q known) (w @ js_lower (js_slice t i j))"
    by auto
  then show ?case by (auto elim!: tracked_mono)
next
  case (Rep greedy least most r)
  show ?case
  proof (cases "least = 0 \<and> most = Some 1")
    case True
    with Rep.prems(1) consider "j = i" | "j \<in> set (ends fl r (units_of t) i)"
      by (auto simp: optional_iterations_def repeats_once simp del: repeats.simps)
    then show ?thesis
    proof cases
      case 1
      with True Rep.prems(3) show ?thesis by (auto intro: tracked_mono)
    next
      case 2
      from Rep.IH [OF 2 Rep.prems(2,3)] True show ?thesis by (auto intro: tracked_mono)
    qed
  next
    case False
    then have "follow ms (Rep greedy least most r) known = forget known" by auto
    with tracked_forget [OF Rep.prems(3)] show ?thesis by metis
  qed
qed (auto split: if_splits)

text \<open>So a text in which no literal occurs has no match.\<close>

lemma must_contain_sound:
  assumes "must_contain ms r" and "regex_exec fl r (units_of t) k = Some (i, j)"
  shows "contains_any ms (js_lower t)"
proof -
  have "j \<in> set (ends fl r (units_of t) i)" "i \<le> length t"
    using exec_Some [OF assms(2)] by simp_all
  from follow_sound [OF this, of ms "[[]]" "[]"]
  have "tracked ms (follow ms r [[]]) (js_lower (js_slice t i j))" by (simp add: tracked_def)
  with assms(1) have "contains_any ms (js_lower (js_slice t i j))" by (simp add: must_contain_def tracked_def)
  then show ?thesis using contains_any_mono sublist_slice map_slice js_lower_def by metis
qed

text \<open>The analysis of the combinators, on characters.\<close>

fun single_chars :: "string \<Rightarrow> string option" where
  "single_chars (a # b # s) = (if a = b \<and> \<not> digit7 a then map_option (Cons a) (single_chars s) else None)"
| "single_chars s = Some []"

lemma digit7_code: "(of_char c :: nat) < 128 \<longleftrightarrow> \<not> digit7 c"
  by (cases c) (simp add: horner_sum_simps)

lemma single_pairs:
  "(if list_all (\<lambda>(a, b). a = b \<and> b < 128) (pairs s) then Some (map (\<lambda>(a, b). char_of a) (pairs s)) else None)
     = single_chars s"
  by (induction s rule: single_chars.induct) (auto simp: digit7_code split: if_splits, metis option.simps(9))

lemma length_pairs: "length (pairs s) = length s div 2"
  by (induction s rule: pairs.induct) auto

lemma follow_cls: "follow ms (cls s) known = (case (if length s \<le> 9 then single_chars s else None) of
    None \<Rightarrow> forget known | Some cs \<Rightarrow> read_on ms cs known)"
proof -
  have "length s div 2 \<le> 4 \<longleftrightarrow> length s \<le> 9" by presburger
  then have "few_chars (pairs s) = (if length s \<le> 9 then single_chars s else None)"
    unfolding few_chars_def single_pairs [symmetric] length_pairs by simp
  then show ?thesis by (simp add: cls_def)
qed

lemma follow_not_cls: "follow ms (not_cls s) known = forget known"
  by (simp add: not_cls_def)

lemma follow_space: "follow ms space known = forget known"
  by (simp add: space_def few_chars_def space_ranges_def)

lemma follow_word_char: "follow ms word_char known = forget known"
  by (simp add: word_char_def few_chars_def word_ranges_def)

lemma follow_cat: "follow ms (cat []) known = known"
  "follow ms (cat (r # rs)) known = follow ms (cat rs) (follow ms r known)"
  by (simp_all add: cat_def)

lemma follow_str: "follow ms (str []) known = known"
  "\<not> digit7 c \<Longrightarrow> follow ms (str (c # s)) known = follow ms (str s) (read_on ms [c] known)"
  by (simp_all add: str_def cat_def few_chars_def digit7_code)

lemma follow_counts:
  "follow ms (opt r) known = known @ follow ms r known"
  "follow ms (many r) known = forget known"
  "follow ms (many1 r) known = forget known"
  "0 < n \<Longrightarrow> follow ms (exactly n r) known = forget known"
  "follow ms (at_least n r) known = forget known"
  "m \<noteq> 1 \<Longrightarrow> follow ms (between n m r) known = forget known"
  by (simp_all add: opt_def many_def many1_def exactly_def at_least_def between_def)

text \<open>The lower case of an ASCII character, read off its bits.\<close>

lemma lower_char_bits:
  "lower_char (Char b0 b1 b2 b3 b4 b5 b6 False) =
     Char b0 b1 b2 b3 b4 (b5 \<or> b6 \<and> (b0 \<or> b1 \<or> b2 \<or> b3 \<or> b4) \<and> \<not> (b4 \<and> b3 \<and> (b2 \<or> b0 \<and> b1))) b6 False"
  by (cases b0; cases b1; cases b2; cases b3; cases b4; cases b5; cases b6;
      simp add: lower_char_def upper_chars_def lower_chars_def)

lemma follow_nothing: "follow ms r [] = []"
  by (induction ms r "[] :: string list" rule: follow.induct) (auto simp: forget_def read_on_def split: option.split)

lemmas follow_eval = follow_nothing follow_cls follow_not_cls follow_space follow_word_char follow_cat follow_str follow_counts
  lower_char_bits read_on_def contains_any_def forget_def must_contain_def

end
