(* ===== verification/Text_Pieces.thy ===== *)
theory Text_Pieces
  imports Js_Regex
begin

text \<open>
  What it means that some ranges of a text were replaced and the rest kept: the vocabulary in which the redaction of
  the content scanner and the stripping of the injection scanner are specified.
\<close>

text \<open>
  A redacted text is a sequence of pieces, each a character of the original text, named by its position, or a
  replacement.
\<close>

definition render :: "'a list \<Rightarrow> (nat + 'a list) list \<Rightarrow> 'a list" where
  "render t ps = concat (map (case_sum (\<lambda>i. [t ! i]) (\<lambda>r. r)) ps)"

definition kept :: "(nat + 'a list) list \<Rightarrow> nat list" where
  "kept ps = concat (map (case_sum (\<lambda>i. [i]) (\<lambda>r. [])) ps)"

definition written :: "(nat + 'a list) list \<Rightarrow> 'a list list" where
  "written ps = concat (map (case_sum (\<lambda>i. []) (\<lambda>r. [r])) ps)"

definition covered :: "(nat \<times> nat) list \<Rightarrow> nat \<Rightarrow> bool" where
  "covered ms i = list_ex (\<lambda>(a, b). a \<le> i \<and> i < b) ms"

lemma render_positions: "b \<le> length t \<Longrightarrow> render t (map Inl [a ..< b]) = js_slice t a b"
proof (induction b)
  case (Suc b)
  show ?case
  proof (cases "a \<le> b")
    case True
    with Suc have "render t (map Inl [a ..< Suc b]) = js_slice t a b @ js_slice t b (Suc b)"
      by (simp add: render_def slice_Suc)
    with True show ?thesis by (simp add: slice_join del: upt_Suc)
  qed (simp add: render_def js_slice_def)
qed (simp add: render_def js_slice_def)

lemma pieces_append [simp]:
  "render t (ps @ qs) = render t ps @ render t qs" "kept (ps @ qs) = kept ps @ kept qs"
  "written (ps @ qs) = written ps @ written qs"
  "kept (map Inl is) = is" "written (map Inl is) = []"
  "render t (Inr r # ps) = r @ render t ps" "kept (Inr r # ps) = kept ps" "written (Inr r # ps) = r # written ps"
  by (simp_all add: render_def kept_def written_def o_def)

lemma covered_simps [simp]:
  "\<not> covered [] i" "covered (m # ms) i \<longleftrightarrow> fst m \<le> i \<and> i < snd m \<or> covered ms i"
  by (auto simp: covered_def split: prod.split)

lemma upt_join: "a \<le> b \<Longrightarrow> b \<le> c \<Longrightarrow> [a ..< b] @ [b ..< c] = [a ..< c]"
  by (metis le_add_diff_inverse upt_add_eq_append)

end
