(* ===== verification/Dlp_Validators.thy ===== *)
theory Dlp_Validators
  imports Complex_Main Prelude "HOL-Library.Word" "HOL-Library.Char_ord"
begin

unbundle bit_operations_syntax

text \<open>
  The structural checks of \<open>planes/identity/dlp.ts\<close>: a pattern nominates a candidate and one of these decides. SHA-256
  and the floating-point sum of \<open>shannonEntropy\<close> are the parameters \<open>dlp_env\<close>; everything else is computed here.
  Code units are numbers where the source compares codes, since the upper case of three Latin-1 letters lies outside
  Latin-1.
\<close>

record dlp_env =
  de_entropy :: "string \<Rightarrow> rat" \<comment> \<open>\<open>shannonEntropy\<close>, the number its sum of logarithms comes to\<close>
  de_sha256 :: "nat list \<Rightarrow> nat list"

subsection \<open>Characters\<close>

definition charCode :: "char \<Rightarrow> nat" where
  "charCode c = of_char c"

definition is_digit :: "char \<Rightarrow> bool" where
  "is_digit c = (48 \<le> charCode c \<and> charCode c \<le> 57)"

definition is_upper_az :: "char \<Rightarrow> bool" where
  "is_upper_az c = (65 \<le> charCode c \<and> charCode c \<le> 90)"

definition is_lower_az :: "char \<Rightarrow> bool" where
  "is_lower_az c = (97 \<le> charCode c \<and> charCode c \<le> 122)"

text \<open>\<open>toUpperCase\<close> on the Latin-1 range, as code units.\<close>

definition upper_units :: "string \<Rightarrow> nat list" where
  "upper_units s = concat (map (\<lambda>c. let n = charCode c in
     if n = 223 then [83, 83]
     else if n = 181 then [924]
     else if n = 255 then [376]
     else if 97 \<le> n \<and> n \<le> 122 \<or> 224 \<le> n \<and> n \<le> 254 \<and> n \<noteq> 247 then [n - 32]
     else [n]) s)"

lemma space_tokens_shrinks:
  assumes "dropWhile js_space s \<noteq> []"
  shows "length (dropWhile (Not \<circ> js_space) (dropWhile js_space s)) < length s"
proof -
  obtain c cs where c: "dropWhile js_space s = c # cs" using assms by (cases "dropWhile js_space s") auto
  then have "\<not> js_space c" using hd_dropWhile [OF assms] by simp
  then have "length (dropWhile (Not \<circ> js_space) (c # cs)) \<le> length cs" by (simp add: length_dropWhile_le)
  also have "\<dots> < length s" using c length_dropWhile_le [of js_space s] by simp
  finally show ?thesis by (simp add: c)
qed

text \<open>The tokens of \<open>split(/\s+/)\<close> that are not empty.\<close>

function space_tokens :: "string \<Rightarrow> string list" where
  "space_tokens s = (let r = dropWhile js_space s in
     if r = [] then [] else takeWhile (Not \<circ> js_space) r # space_tokens (dropWhile (Not \<circ> js_space) r))"
  by auto
termination
  by (relation "measure length") (auto simp: space_tokens_shrinks)

declare space_tokens.simps [simp del]

subsection \<open>Keys and labelled values\<close>

definition characterClassCount :: "string \<Rightarrow> nat" where
  "characterClassCount value =
     (if list_ex is_lower_az value then 1 else 0)
   + (if list_ex is_upper_az value then 1 else 0)
   + (if list_ex is_digit value then 1 else 0)
   + (if list_ex (\<lambda>c. \<not> is_lower_az c \<and> \<not> is_upper_az c \<and> \<not> is_digit c) value then 1 else 0)"

definition isHighEntropySecret :: "dlp_env \<Rightarrow> string \<Rightarrow> bool" where
  "isHighEntropySecret env value = (3 \<le> characterClassCount value \<and> 7 / 2 \<le> de_entropy env value)"

definition PLACEHOLDER_MARKERS :: "string list" where
  "PLACEHOLDER_MARKERS = [''your'', ''example'', ''placeholder'', ''changeme'', ''change-me'', ''change_me'',
     ''redacted'', ''dummy'', ''sample'', ''insert'', ''todo'', ''xxxx'', ''notarealkey'', ''somekey'', ''myapikey'']"

definition quote_mark :: "char \<Rightarrow> bool" where
  "quote_mark c = (charCode c = 34 \<or> charCode c = 39)"

definition unquoted :: "string \<Rightarrow> string" where \<comment> \<open>\<open>replace(/^["']|["']$/g, "")\<close>\<close>
  "unquoted s = (let t = (if s \<noteq> [] \<and> quote_mark (hd s) then tl s else s) in
     if t \<noteq> [] \<and> quote_mark (last t) then butlast t else t)"

definition isLikelySecretValue :: "dlp_env \<Rightarrow> string \<Rightarrow> bool" where
  "isLikelySecretValue env m = (case dropWhile (\<lambda>c. c \<noteq> CHR '':'' \<and> c \<noteq> CHR ''='') m of
     [] \<Rightarrow> False
   | separator # rest \<Rightarrow>
       (let value = unquoted (js_trim rest) in
        if length value < 20 then False
        else if list_ex (js_includes (js_lower value)) PLACEHOLDER_MARKERS then False
        else 5 / 2 \<le> de_entropy env value))"

subsection \<open>Check digits\<close>

definition luhn_digit :: "bool \<Rightarrow> int \<Rightarrow> int" where
  "luhn_digit double digit = (if double then (if digit * 2 > 9 then digit * 2 - 9 else digit * 2) else digit)"

fun luhn_sum :: "string \<Rightarrow> bool \<Rightarrow> int \<Rightarrow> int" where \<comment> \<open>the loop, over the digits from the last one\<close>
  "luhn_sum [] double acc = acc"
| "luhn_sum (c # cs) double acc = luhn_sum cs (\<not> double) (acc + luhn_digit double (int (charCode c) - 48))"

definition passesLuhn :: "string \<Rightarrow> bool" where
  "passesLuhn digits = (luhn_sum (rev digits) False 0 mod 10 = 0)"

fun iban_remainder :: "nat list \<Rightarrow> nat \<Rightarrow> nat option" where
  "iban_remainder [] remainder = Some remainder"
| "iban_remainder (n # ns) remainder =
     (if 48 \<le> n \<and> n \<le> 57 then iban_remainder ns ((remainder * 10 + (n - 48)) mod 97)
      else if 65 \<le> n \<and> n \<le> 90
      then (let mapped = n - 55;
                r = (remainder * 10 + mapped div 10) mod 97 in
            iban_remainder ns ((r * 10 + mapped mod 10) mod 97))
      else None)"

definition isValidIban :: "string \<Rightarrow> bool" where
  "isValidIban candidate = (let value = upper_units (filter (\<lambda>c. \<not> js_space c) candidate) in
     if length value < 15 \<or> 34 < length value then False
     else iban_remainder (drop 4 value @ take 4 value) 0 = Some 1)"

subsection \<open>Base58 and bech32\<close>

fun index_in :: "char \<Rightarrow> string \<Rightarrow> nat option" where \<comment> \<open>\<open>indexOf\<close> of one character\<close>
  "index_in c [] = None"
| "index_in c (d # s) = (if c = d then Some 0 else map_option Suc (index_in c s))"

definition BASE58_ALPHABET :: string where
  "BASE58_ALPHABET = ''123456789ABCDEFGHJKLMNPQRSTUVWXYZabcdefghijkmnopqrstuvwxyz''"

fun base58_value :: "string \<Rightarrow> nat \<Rightarrow> nat option" where
  "base58_value [] accumulator = Some accumulator"
| "base58_value (c # cs) accumulator = (case index_in c BASE58_ALPHABET of
     None \<Rightarrow> None
   | Some digit \<Rightarrow> base58_value cs (accumulator * 58 + digit))"

fun bytes_of :: "nat \<Rightarrow> nat list" where
  "bytes_of n = (if n = 0 then [] else bytes_of (n div 256) @ [n mod 256])"

declare bytes_of.simps [simp del]

definition base58Decode :: "string \<Rightarrow> nat list option" where
  "base58Decode value = (case base58_value value 0 of
     None \<Rightarrow> None
   | Some n \<Rightarrow> Some (replicate (length (takeWhile (\<lambda>c. c = CHR ''1'') value)) 0 @ bytes_of n))"

definition isBase58Check :: "dlp_env \<Rightarrow> string \<Rightarrow> bool" where
  "isBase58Check env value = (case base58Decode value of
     None \<Rightarrow> False
   | Some decoded \<Rightarrow> length decoded = 25
       \<and> (let expected = de_sha256 env (de_sha256 env (take 21 decoded)) in
          list_all (\<lambda>i. i < length expected \<and> decoded ! (21 + i) = expected ! i) [0 ..< 4]))"

definition BECH32_CHARSET :: string where
  "BECH32_CHARSET = ''qpzry9x8gf2tvdw0s3jn54khce6mua7l''"

definition BECH32_GENERATOR :: "32 word list" where
  "BECH32_GENERATOR = [0x3b6a57b2, 0x26508e6d, 0x1ea119fa, 0x3d4233dd, 0x2a1462b3]"

definition bech32_feedback :: "32 word \<Rightarrow> 32 word \<Rightarrow> 32 word" where \<comment> \<open>the inner loop\<close>
  "bech32_feedback high checksum = fold (\<lambda>(i, g) checksum.
     if drop_bit i high AND 1 = 1 then checksum XOR g else checksum) (enumerate 0 BECH32_GENERATOR) checksum"

fun bech32Polymod :: "32 word \<Rightarrow> 32 word list \<Rightarrow> 32 word" where
  "bech32Polymod checksum [] = checksum"
| "bech32Polymod checksum (value # values) =
     bech32Polymod (bech32_feedback (drop_bit 25 checksum) (push_bit 5 (checksum AND 0x1ffffff) XOR value)) values"

definition last_index :: "char \<Rightarrow> string \<Rightarrow> nat option" where
  "last_index c s = map_option (\<lambda>i. length s - Suc i) (index_in c (rev s))"

fun bech32_data :: "string \<Rightarrow> 32 word list option" where
  "bech32_data [] = Some []"
| "bech32_data (c # cs) = (case index_in c BECH32_CHARSET of
     None \<Rightarrow> None
   | Some digit \<Rightarrow> map_option (\<lambda>ds. of_nat digit # ds) (bech32_data cs))"

definition bech32_expand :: "string \<Rightarrow> 32 word list" where
  "bech32_expand hrp = map (\<lambda>c. drop_bit 5 (of_nat (charCode c))) hrp @ [0] @ map (\<lambda>c. of_nat (charCode c) AND 31) hrp"

definition isBech32 :: "string \<Rightarrow> bool" where
  "isBech32 address = (case last_index CHR ''1'' address of
     None \<Rightarrow> False
   | Some separator \<Rightarrow>
       if separator < 1 \<or> length address < separator + 7 then False
       else (case bech32_data (drop (Suc separator) address) of
         None \<Rightarrow> False
       | Some data \<Rightarrow>
           (let checksum = bech32Polymod 1 (bech32_expand (take separator address) @ data) in
            checksum = 1 \<or> checksum = 0x2bc830a3)))"

definition isBitcoinAddress :: "dlp_env \<Rightarrow> string \<Rightarrow> bool" where
  "isBitcoinAddress env candidate =
     (if prefix ''bc1'' candidate then isBech32 candidate else isBase58Check env candidate)"

definition isSolanaAddress :: "string \<Rightarrow> bool" where
  "isSolanaAddress candidate = (case base58Decode candidate of None \<Rightarrow> False | Some decoded \<Rightarrow> length decoded = 32)"

definition isMoneroAddress :: "string \<Rightarrow> bool" where
  "isMoneroAddress candidate =
     (length candidate = 95 \<and> list_all (\<lambda>c. index_in c BASE58_ALPHABET \<noteq> None) candidate)"

subsection \<open>Keccak-256 and EIP-55\<close>

text \<open>A lane is a big integer masked to 64 bits, a machine word of that width; the state is the array of 25 lanes.\<close>

definition KECCAK_ROUND_CONSTANTS :: "64 word list" where
  "KECCAK_ROUND_CONSTANTS =
    [0x0000000000000001, 0x0000000000008082, 0x800000000000808a, 0x8000000080008000,
     0x000000000000808b, 0x0000000080000001, 0x8000000080008081, 0x8000000000008009,
     0x000000000000008a, 0x0000000000000088, 0x0000000080008009, 0x000000008000000a,
     0x000000008000808b, 0x800000000000008b, 0x8000000000008089, 0x8000000000008003,
     0x8000000000008002, 0x8000000000000080, 0x000000000000800a, 0x800000008000000a,
     0x8000000080008081, 0x8000000000008080, 0x0000000080000001, 0x8000000080008008]"

definition KECCAK_ROTATIONS :: "nat list list" where
  "KECCAK_ROTATIONS =
    [[0, 36, 3, 41, 18], [1, 44, 10, 45, 2], [62, 6, 43, 15, 61], [28, 55, 25, 21, 56], [27, 20, 39, 8, 14]]"

definition keccakRotate :: "64 word \<Rightarrow> nat \<Rightarrow> 64 word" where
  "keccakRotate lane offset = (if offset = 0 then lane else push_bit offset lane OR drop_bit (64 - offset) lane)"

definition keccak_theta :: "64 word list \<Rightarrow> 64 word list" where \<comment> \<open>the first three loops of a round\<close>
  "keccak_theta state = (let
     c = map (\<lambda>x. state ! x XOR state ! (x + 5) XOR state ! (x + 10) XOR state ! (x + 15) XOR state ! (x + 20)) [0 ..< 5];
     d = map (\<lambda>x. c ! ((x + 4) mod 5) XOR keccakRotate (c ! ((x + 1) mod 5)) 1) [0 ..< 5] in
     map (\<lambda>i. state ! i XOR d ! (i mod 5)) [0 ..< 25])"

definition keccak_rho_pi :: "64 word list \<Rightarrow> 64 word list" where \<comment> \<open>the fourth, writing \<open>b\<close>\<close>
  "keccak_rho_pi state = fold (\<lambda>(x, y) b.
       b[y + 5 * ((2 * x + 3 * y) mod 5) := keccakRotate (state ! (x + 5 * y)) (KECCAK_ROTATIONS ! x ! y)])
     (List.product [0 ..< 5] [0 ..< 5]) (replicate 25 0)"

definition keccak_chi :: "64 word list \<Rightarrow> 64 word list" where \<comment> \<open>the fifth\<close>
  "keccak_chi b = map (\<lambda>i. let x = i mod 5; y = i div 5 in
     b ! (x + 5 * y) XOR (NOT (b ! ((x + 1) mod 5 + 5 * y)) AND b ! ((x + 2) mod 5 + 5 * y))) [0 ..< 25]"

definition keccak_round :: "64 word \<Rightarrow> 64 word list \<Rightarrow> 64 word list" where
  "keccak_round constant state =
     (let state = keccak_chi (keccak_rho_pi (keccak_theta state)) in state[0 := state ! 0 XOR constant])"

definition keccakPermute :: "64 word list \<Rightarrow> 64 word list" where
  "keccakPermute state = fold keccak_round KECCAK_ROUND_CONSTANTS state"

definition keccak_rate :: nat where
  "keccak_rate = 136"

definition keccak_padded :: "nat list \<Rightarrow> nat list" where
  "keccak_padded message = (let
     padded = message @ replicate (keccak_rate - length message mod keccak_rate) 0;
     padded = padded[length message := padded ! length message XOR 1];
     l = length padded - 1 in
     padded[l := padded ! l XOR 128])"

definition keccak_lane :: "nat list \<Rightarrow> nat \<Rightarrow> 64 word" where \<comment> \<open>eight bytes, the least significant first\<close>
  "keccak_lane padded start =
     fold (\<lambda>byte value. push_bit 8 value OR of_nat (padded ! (start + byte))) [7, 6, 5, 4, 3, 2, 1, 0] 0"

definition keccak_absorb :: "nat list \<Rightarrow> nat \<Rightarrow> 64 word list \<Rightarrow> 64 word list" where
  "keccak_absorb padded offset state = keccakPermute
     (fold (\<lambda>lane state. state[lane := state ! lane XOR keccak_lane padded (offset + lane * 8)])
       [0 ..< keccak_rate div 8] state)"

definition hex_digit :: "nat \<Rightarrow> char" where
  "hex_digit n = ''0123456789abcdef'' ! n"

definition lane_hex :: "64 word \<Rightarrow> string" where
  "lane_hex value = concat (map (\<lambda>byte. let n = unat (drop_bit (8 * byte) value AND 0xff) in
     [hex_digit (n div 16), hex_digit (n mod 16)]) [0 ..< 8])"

definition keccak256Hex :: "string \<Rightarrow> string" where
  "keccak256Hex input = (let
     padded = keccak_padded (map charCode input);
     state = fold (\<lambda>block. keccak_absorb padded (block * keccak_rate)) [0 ..< length padded div keccak_rate] (replicate 25 0) in
     concat (map lane_hex (take 4 state)))"

text \<open>
  The loop reads 40 positions of a candidate that has 40 of them behind \<open>0x\<close>, since the pattern demands as many.
\<close>

definition isEthereumAddress :: "string \<Rightarrow> bool" where
  "isEthereumAddress candidate = (let body = drop 2 candidate; lowered = js_lower body in
     if body = lowered \<or> map charCode body = upper_units body then True
     else (let digest = keccak256Hex lowered in
       list_all (\<lambda>i. let ch = lowered ! i in
         charCode ch < 97 \<or> 102 < charCode ch
         \<or> (digest ! i \<in> set ''89abcdef'') = (charCode (body ! i) = charCode ch - 32)) [0 ..< 40]))"

subsection \<open>Seed phrases and addresses\<close>

definition ENGLISH_FUNCTION_WORDS :: "string list" where
  "ENGLISH_FUNCTION_WORDS = [
    ''the'', ''and'', ''but'', ''for'', ''nor'', ''not'', ''was'', ''were'', ''are'', ''you'', ''your'',
    ''his'', ''her'', ''its'', ''our'', ''their'', ''them'', ''they'', ''she'', ''who'', ''whom'', ''whose'',
    ''which'', ''what'', ''when'', ''where'', ''why'', ''how'', ''has'', ''had'', ''have'', ''this'', ''that'',
    ''these'', ''those'', ''with'', ''from'', ''than'', ''then'', ''there'', ''here'', ''into'', ''onto'',
    ''because'', ''while'', ''during'', ''would'', ''could'', ''should'', ''shall'', ''does'', ''did'',
    ''been'', ''being'', ''very'', ''just'', ''only'', ''also'', ''such'', ''each'', ''another'', ''please'',
    ''thanks'', ''okay'', ''yes'', ''too'', ''out'', ''all'', ''can'', ''may'', ''must'', ''might'',
    ''however'', ''therefore'', ''though'', ''although'', ''whether'']"

definition bip39_word :: "string \<Rightarrow> bool" where \<comment> \<open>\<open>/^[a-z]{3,8}$/\<close>\<close>
  "bip39_word w = (3 \<le> length w \<and> length w \<le> 8 \<and> list_all is_lower_az w)"

definition isBip39Shaped :: "string \<Rightarrow> bool" where
  "isBip39Shaped m = (let
     words = rev (takeWhile bip39_word (rev (space_tokens m)));
     count = length words in
     if count \<notin> {12, 15, 18, 21, 24} then False
     else if 10 * length (remdups words) < 9 * count then False
     else length (filter (\<lambda>w. w \<in> set ENGLISH_FUNCTION_WORDS) words) < 2)"

definition isPlausibleIpv6 :: "string \<Rightarrow> bool" where
  "isPlausibleIpv6 candidate = (let
     compressed = js_includes candidate ''::'';
     groups = filter (\<lambda>g. g \<noteq> []) (js_split CHR '':'' candidate) in
     if length groups < 3 then False
     else if \<not> compressed \<and> length groups \<noteq> 8 then False
     else 8 \<le> sum_list (map length groups))"

subsection \<open>What the check digits promise\<close>

lemma luhn_sum_acc: "luhn_sum cs b acc = acc + luhn_sum cs b 0"
proof (induction cs arbitrary: b acc)
  case (Cons c cs)
  show ?case
    using Cons [of "\<not> b" "acc + luhn_digit b (int (charCode c) - 48)"] Cons [of "\<not> b" "luhn_digit b (int (charCode c) - 48)"]
    by simp
qed simp

lemma luhn_sum_append:
  "luhn_sum (cs @ ds) b 0 = luhn_sum cs b 0 + luhn_sum ds (if even (length cs) then b else \<not> b) 0"
proof (induction cs arbitrary: b)
  case (Cons c cs)
  show ?case
    using Cons [of "\<not> b"] luhn_sum_acc [of "cs @ ds" "\<not> b" "luhn_digit b (int (charCode c) - 48)"]
      luhn_sum_acc [of cs "\<not> b" "luhn_digit b (int (charCode c) - 48)"]
    by simp
qed simp

lemma decimal_value_cases:
  "(0 :: int) \<le> x \<Longrightarrow> x \<le> 9 \<Longrightarrow> x = 0 \<or> x = 1 \<or> x = 2 \<or> x = 3 \<or> x = 4 \<or> x = 5 \<or> x = 6 \<or> x = 7 \<or> x = 8 \<or> x = 9"
  by arith

lemma luhn_digit_inj:
  assumes "0 \<le> x" "x \<le> 9" "0 \<le> y" "y \<le> 9" "luhn_digit b x mod 10 = luhn_digit b y mod 10"
  shows "x = y"
  using decimal_value_cases [OF assms(1,2)] decimal_value_cases [OF assms(3,4)] assms(5)
  by (cases b) (elim disjE; simp add: luhn_digit_def)+

lemma luhn_digit_swap:
  assumes "0 \<le> x" "x \<le> 9" "0 \<le> y" "y \<le> 9"
    "(luhn_digit b x + luhn_digit (\<not> b) y) mod 10 = (luhn_digit b y + luhn_digit (\<not> b) x) mod 10"
  shows "x = y \<or> x = 0 \<and> y = 9 \<or> x = 9 \<and> y = 0"
  using decimal_value_cases [OF assms(1,2)] decimal_value_cases [OF assms(3,4)] assms(5)
  by (cases b) (elim disjE; simp add: luhn_digit_def)+

lemma digit_code_value: "is_digit c \<Longrightarrow> 0 \<le> int (charCode c) - 48 \<and> int (charCode c) - 48 \<le> 9"
  by (auto simp: is_digit_def)

lemma charCode_inj: "charCode c = charCode d \<longleftrightarrow> c = d"
  by (simp add: charCode_def)

lemma luhn_middle:
  "\<exists>k b. \<forall>m. length m = n \<longrightarrow> passesLuhn (before @ m @ after) = ((k + luhn_sum (rev m) b 0) mod 10 = 0)"
proof -
  let ?b = "\<not> even (length after)"
  have "luhn_sum (rev (before @ m @ after)) False 0
      = (luhn_sum (rev after) False 0 + luhn_sum (rev before) (if even n then ?b else \<not> ?b) 0) + luhn_sum (rev m) ?b 0"
    if "length m = n" for m
    using that by (simp add: luhn_sum_append)
  then show ?thesis unfolding passesLuhn_def by metis
qed

lemma same_residue: "(k + x) mod 10 = 0 \<Longrightarrow> (k + y) mod 10 = 0 \<Longrightarrow> x mod 10 = (y :: int) mod 10"
  by presburger

text \<open>The checksum of card numbers catches the errors it is there for: of two numbers that differ in one digit at
  most one passes, and of two numbers that differ by exchanging two adjacent digits both pass only if those are 0 and 9.\<close>

theorem luhn_catches_single_errors:
  assumes "is_digit c" "is_digit d" "c \<noteq> d"
  shows "\<not> (passesLuhn (before @ [c] @ after) \<and> passesLuhn (before @ [d] @ after))
    \<and> (passesLuhn (before @ [c, d] @ after) \<and> passesLuhn (before @ [d, c] @ after) \<longrightarrow> {c, d} = {CHR ''0'', CHR ''9''})"
proof (intro conjI notI impI; elim conjE)
  let ?v = "\<lambda>c. int (charCode c) - 48"
  note v = digit_code_value [OF assms(1)] digit_code_value [OF assms(2)]
  have ne: "?v c \<noteq> ?v d" using assms(3) by (simp add: charCode_inj)
  {
    assume p: "passesLuhn (before @ [c] @ after)" "passesLuhn (before @ [d] @ after)"
    from luhn_middle [of 1 before after] obtain k b where
      "\<forall>m. length m = 1 \<longrightarrow> passesLuhn (before @ m @ after) = ((k + luhn_sum (rev m) b 0) mod 10 = 0)" by blast
    from this [rule_format, of "[c]"] this [rule_format, of "[d]"] p
    have "(k + luhn_digit b (?v c)) mod 10 = 0" "(k + luhn_digit b (?v d)) mod 10 = 0" by simp_all
    then have "luhn_digit b (?v c) mod 10 = luhn_digit b (?v d) mod 10" by (rule same_residue)
    from luhn_digit_inj [OF _ _ _ _ this] v ne show False by blast
  }
  assume p: "passesLuhn (before @ [c, d] @ after)" "passesLuhn (before @ [d, c] @ after)"
  from luhn_middle [of 2 before after] obtain k b where
    k: "\<forall>m. length m = 2 \<longrightarrow> passesLuhn (before @ m @ after) = ((k + luhn_sum (rev m) b 0) mod 10 = 0)" by blast
  have "(luhn_digit b (?v d) + luhn_digit (\<not> b) (?v c)) mod 10 = (luhn_digit b (?v c) + luhn_digit (\<not> b) (?v d)) mod 10"
    by (rule same_residue [of k]) (use p k [rule_format, of "[c, d]"] k [rule_format, of "[d, c]"] in simp_all)
  from luhn_digit_swap [OF _ _ _ _ this] v ne have "?v c = 0 \<and> ?v d = 9 \<or> ?v c = 9 \<and> ?v d = 0" by auto
  then have "charCode c = charCode CHR ''0'' \<and> charCode d = charCode CHR ''9''
      \<or> charCode c = charCode CHR ''9'' \<and> charCode d = charCode CHR ''0''"
    by (auto simp: charCode_def)
  then show "{c, d} = {CHR ''0'', CHR ''9''}" unfolding charCode_inj by auto
qed

theorem luhn_catches_single_errors_witness:
  "passesLuhn ''4111111111111111'' \<and> \<not> passesLuhn ''4111111121111111''"
proof
  show p: "passesLuhn ''4111111111111111''" by code_simp
  have "is_digit CHR ''1''" "is_digit CHR ''2''" by code_simp+
  then show "\<not> passesLuhn ''4111111121111111''"
    using luhn_catches_single_errors [of "CHR ''1''" "CHR ''2''" "''41111111''" "''1111111''", THEN conjunct1] p by simp
qed

text \<open>The remainder is that of the decimal number the rotated account number spells, letters as two digits.\<close>

definition iban_digits :: "nat \<Rightarrow> nat list" where
  "iban_digits n = (if 48 \<le> n \<and> n \<le> 57 then [n - 48] else [(n - 55) div 10, (n - 55) mod 10])"

definition decimal_number :: "nat list \<Rightarrow> nat" where
  "decimal_number ds = foldl (\<lambda>acc d. acc * 10 + d) 0 ds"

definition alphanumeric_unit :: "nat \<Rightarrow> bool" where
  "alphanumeric_unit n = (48 \<le> n \<and> n \<le> 57 \<or> 65 \<le> n \<and> n \<le> 90)"

lemma mod_step: "(a mod 97 * 10 + d) mod 97 = (a * 10 + d) mod (97 :: nat)"
  by (metis mod_add_left_eq mod_mult_left_eq)

lemma foldl_mod: "foldl (\<lambda>acc d. (acc * 10 + d) mod 97) (a mod 97) ds = foldl (\<lambda>acc d. acc * 10 + d) a ds mod (97 :: nat)"
proof (induction ds arbitrary: a)
  case (Cons d ds)
  then show ?case using Cons [of "a * 10 + d"] by (simp only: foldl.simps mod_step)
qed simp

lemma iban_remainder_Cons:
  "iban_remainder (n # ns) r = (if alphanumeric_unit n
     then iban_remainder ns (foldl (\<lambda>acc d. (acc * 10 + d) mod 97) r (iban_digits n)) else None)"
  by (auto simp: alphanumeric_unit_def iban_digits_def Let_def)

lemma iban_remainder_fold:
  "iban_remainder ns r = (if list_all alphanumeric_unit ns
     then Some (foldl (\<lambda>acc d. (acc * 10 + d) mod 97) r (concat (map iban_digits ns))) else None)"
  by (induction ns arbitrary: r) (simp_all add: iban_remainder_Cons del: iban_remainder.simps(2))

text \<open>C39: The check of account numbers that proceeds digit by digit with small remainders is the definition of the
  standard: stripped of white space and in upper case the candidate has 15 to 34 letters and digits, and the decimal
  number that its rotation spells leaves the remainder 1 modulo 97.\<close>

theorem iban_is_mod_97:
  "isValidIban candidate = (let account = upper_units (filter (\<lambda>c. \<not> js_space c) candidate) in
     15 \<le> length account \<and> length account \<le> 34 \<and> list_all alphanumeric_unit account
     \<and> decimal_number (concat (map iban_digits (drop 4 account @ take 4 account))) mod 97 = 1)"
proof -
  have rotated: "list_all alphanumeric_unit (drop 4 a @ take 4 a) = list_all alphanumeric_unit a" for a
  proof -
    have "list_all alphanumeric_unit (drop 4 a @ take 4 a) = list_all alphanumeric_unit (take 4 a @ drop 4 a)"
      by (simp only: list_all_append conj_commute)
    then show ?thesis by simp
  qed
  have "iban_remainder ns 0 = Some 1 \<longleftrightarrow> list_all alphanumeric_unit ns
      \<and> decimal_number (concat (map iban_digits ns)) mod 97 = 1" for ns
    using foldl_mod [of 0 "concat (map iban_digits ns)"] by (simp add: iban_remainder_fold decimal_number_def)
  then show ?thesis by (auto simp: isValidIban_def Let_def rotated not_less simp del: list_all_append)
qed

end
