(* ===== verification/Dlp_Patterns.thy ===== *)
theory Dlp_Patterns
  imports Dlp_Validators Js_Regex
begin

text \<open>
  The pattern table of \<open>planes/identity/dlp.ts\<close>, in the source's order and cut at its section comments. An entry is
  the record \<open>dlp_match\<close>; its regular expression is the abstract syntax of \<open>Js_Regex\<close>, with a group that captures
  written as one that does not, since only whole matches are read. The lemmas show that the markers of every entry are
  what the source says they are, literals that occur in every text the entry can match.
\<close>

datatype risk_label = SecretRisk | PiiRisk

record dlp_match =
  dm_type :: string
  dm_pattern :: regex
  dm_flags :: re_flags
  dm_riskLabel :: risk_label
  dm_redactReplacement :: string
  dm_markers :: "string list option"
  dm_validate :: "(string \<Rightarrow> bool) option"

definition detector ::
  "string \<Rightarrow> re_flags \<Rightarrow> risk_label \<Rightarrow> string \<Rightarrow> regex \<Rightarrow> string list option \<Rightarrow> (string \<Rightarrow> bool) option \<Rightarrow> dlp_match" where
  "detector type flags risk replacement pattern markers validate =
     \<lparr>dm_type = type, dm_pattern = pattern, dm_flags = flags, dm_riskLabel = risk,
      dm_redactReplacement = replacement, dm_markers = markers, dm_validate = validate\<rparr>"

definition plain :: re_flags where "plain = \<lparr>ignoreCase = False, multiline = False\<rparr>"
definition caseless :: re_flags where "caseless = \<lparr>ignoreCase = True, multiline = False\<rparr>"
definition by_line :: re_flags where "by_line = \<lparr>ignoreCase = False, multiline = True\<rparr>"

definition quotes :: regex where \<comment> \<open>the class of the two quotation marks\<close>
  "quotes = Class False [(34, 34), (39, 39)]"

subsection \<open>The table\<close>

definition dlp_core :: "dlp_env \<Rightarrow> dlp_match list" where
  "dlp_core env = [
    detector ''aws-access-key'' plain SecretRisk ''[REDACTED:AWS-KEY]''
      (cat [Word_Boundary, str ''AKIA'', exactly 16 (cls ''09AZ''), Word_Boundary])
      (Some [''akia'']) None,
    detector ''aws-secret-key'' plain SecretRisk ''[REDACTED:AWS-SECRET]''
      (cat [Behind True False (pairs ''AZaz09//++''), exactly 40 (cls ''AZaz09//++''),
        Ahead True (cls ''AZaz09//++'')])
      None (Some (isHighEntropySecret env)),
    detector ''github-pat'' plain SecretRisk ''[REDACTED:GH-PAT]''
      (cat [Word_Boundary, str ''ghp_'', at_least 36 (cls ''AZaz09''), Word_Boundary])
      (Some [''ghp_'']) None,
    detector ''github-oauth'' plain SecretRisk ''[REDACTED:GH-OAUTH]''
      (cat [Word_Boundary, str ''gho_'', at_least 36 (cls ''AZaz09''), Word_Boundary])
      (Some [''gho_'']) None,
    detector ''openai-key'' plain SecretRisk ''[REDACTED:OPENAI-KEY]''
      (cat [Word_Boundary, str ''sk-'', at_least 32 (cls ''AZaz09''), Word_Boundary])
      (Some [''sk-'']) None,
    detector ''slack-bot-token'' plain SecretRisk ''[REDACTED:SLACK-TOKEN]''
      (cat [Word_Boundary, str ''xoxb-'', between 50 256 (cls ''AZaz09--''), Word_Boundary])
      (Some [''xoxb-'']) None,
    detector ''slack-user-token'' plain SecretRisk ''[REDACTED:SLACK-TOKEN]''
      (cat [Word_Boundary, str ''xoxp-'', between 50 256 (cls ''AZaz09--''), Word_Boundary])
      (Some [''xoxp-'']) None,
    detector ''private-key'' plain SecretRisk ''[REDACTED:PRIVATE-KEY]''
      (cat [str ''-----BEGIN '', opt (alt [str ''RSA '', str ''EC '', str ''OPENSSH '', str ''DSA '']),
        str ''PRIVATE KEY-----''])
      (Some [''private key'']) None,
    detector ''jwt'' plain SecretRisk ''[REDACTED:JWT]''
      (cat [Word_Boundary, str ''ey'', between 20 4096 (cls ''AZaz09__--''), str ''.'',
        between 20 8192 (cls ''AZaz09__--''), str ''.'', between 20 4096 (cls ''AZaz09__--''), Word_Boundary])
      (Some [''ey'']) None,
    detector ''generic-api-key'' caseless SecretRisk ''[REDACTED:API-KEY]''
      (cat [alt [cat [str ''api'', opt (cls ''__--''), str ''key''], str ''apikey'', cat [str ''api'',
        opt (cls ''__--''), str ''secret'']], many space, cls ''::=='', many space,
        opt (quotes), at_least 20 (cls ''AZaz09__--''),
        opt (quotes)])
      (Some [''api'']) (Some (isLikelySecretValue env)),
    detector ''ssn'' plain PiiRisk ''[REDACTED:SSN]''
      (cat [Word_Boundary, exactly 3 (cls ''09''), str ''-'', exactly 2 (cls ''09''), str ''-'',
        exactly 4 (cls ''09''), Word_Boundary])
      None None,
    detector ''credit-card'' plain PiiRisk ''[REDACTED:CC]''
      (cat [Word_Boundary, alt [cat [str ''4'', exactly 12 (cls ''09''), opt (exactly 3 (cls ''09''))],
        cat [str ''5'', cls ''15'', exactly 14 (cls ''09'')], cat [str ''3'', cls ''4477'',
        exactly 13 (cls ''09'')], cat [str ''3'', alt [cat [str ''0'', cls ''05''], cat [cls ''6688'', cls ''09'']],
        exactly 11 (cls ''09'')], cat [str ''6'', alt [str ''011'', cat [str ''5'', exactly 2 (cls ''09'')]],
        exactly 12 (cls ''09'')]], Word_Boundary])
      None (Some passesLuhn),
    detector ''email'' plain PiiRisk ''[REDACTED:EMAIL]''
      (cat [Word_Boundary, between 1 64 (cls ''AZaz09..__%%++--''), str ''@'', between 1 253 (cls ''AZaz09..--''),
        str ''.'', between 2 24 (cls ''AZaz''), Word_Boundary])
      None None,
    detector ''phone-us'' plain PiiRisk ''[REDACTED:PHONE]''
      (cat [Word_Boundary, opt (cat [str ''+1'', opt (Class False (space_ranges @ pairs ''--..''))]),
        opt (str ''(''), exactly 3 (cls ''09''), opt (str '')''), opt (Class False (space_ranges @ pairs ''--..'')),
        exactly 3 (cls ''09''), opt (Class False (space_ranges @ pairs ''--..'')), exactly 4 (cls ''09''),
        Word_Boundary])
      None None]"

definition dlp_cloud :: "dlp_match list" where
  "dlp_cloud = [
    detector ''aws-session-token'' plain SecretRisk ''[REDACTED:AWS-SESSION]''
      (cat [Word_Boundary, str ''ASIA'', exactly 16 (cls ''09AZ''), Word_Boundary])
      (Some [''asia'']) None,
    detector ''gcp-service-account-key'' plain SecretRisk ''[REDACTED:GCP-SA-KEY]''
      (cat [str ([CHR 0x22] @ ''type'' @ [CHR 0x22]), many space, str '':'', many space,
        str ([CHR 0x22] @ ''service_account'' @ [CHR 0x22])])
      (Some [''service_account'']) None,
    detector ''gcp-api-key'' plain SecretRisk ''[REDACTED:GCP-API-KEY]''
      (cat [Word_Boundary, str ''AIza'', exactly 35 (cls ''09AZaz__--''), Word_Boundary])
      (Some [''aiza'']) None,
    detector ''azure-storage-key'' plain SecretRisk ''[REDACTED:AZURE-STORAGE-KEY]''
      (cat [Word_Boundary, str ''AccountKey='', exactly 86 (cls ''AZaz09++//''), str ''==''])
      (Some [''accountkey='']) None,
    detector ''azure-sas-token'' plain SecretRisk ''[REDACTED:AZURE-SAS]''
      (cat [Word_Boundary, str ''sv='', exactly 4 (cls ''09''), str ''-'', exactly 2 (cls ''09''), str ''-'',
        exactly 2 (cls ''09''),
        between 0 256 (Class True (space_ranges @ pairs ([CHR 0x22] @ [CHR 0x22] @ [CHR 0x27] @ [CHR 0x27] @ ''<<>>''))),
        str ''&sig='', at_least 20 (cls ''AZaz09%%++//=='')])
      (Some [''&sig='']) None,
    detector ''oauth-client-secret'' caseless SecretRisk ''[REDACTED:CLIENT-SECRET]''
      (cat [Word_Boundary, str ''client'', opt (cls ''__--''), str ''secret'', many space, cls ''::=='', many space,
        opt (quotes), at_least 30 (cls ''AZaz09..__~~--'')])
      (Some [''client_secret'', ''client-secret'', ''clientsecret'']) None,
    detector ''digitalocean-token'' plain SecretRisk ''[REDACTED:DIGITALOCEAN-TOKEN]''
      (cat [Word_Boundary, str ''do'', cls ''oopprrss'', str ''_v1_'', exactly 64 (cls ''af09''), Word_Boundary])
      (Some [''_v1_'']) None,
    detector ''cloudflare-api-token'' caseless SecretRisk ''[REDACTED:CLOUDFLARE-TOKEN]''
      (cat [Word_Boundary, alt [str ''cloudflare'', str ''cf''], opt (cls ''__--''), opt (cat [str ''api'',
        opt (cls ''__--'')]), str ''token'', many space, cls ''::=='', many space,
        opt (quotes), exactly 40 (cls ''AZaz09__--''),
        Word_Boundary])
      (Some [''token'']) None,
    detector ''cloudflare-origin-ca-key'' plain SecretRisk ''[REDACTED:CLOUDFLARE-CA-KEY]''
      (cat [Word_Boundary, str ''v1.0-'', exactly 24 (cls ''af09''), str ''-'', exactly 146 (cls ''af09''),
        Word_Boundary])
      (Some [''v1.0-'']) None,
    detector ''heroku-api-key'' caseless SecretRisk ''[REDACTED:HEROKU-KEY]''
      (cat [Word_Boundary, str ''heroku'', opt (cls ''__--''), opt (cat [str ''api'', opt (cls ''__--'')]),
        str ''key'', many space, cls ''::=='', many space,
        opt (quotes), cat [exactly 8 (cls ''09afAF''), str ''-'',
        exactly 4 (cls ''09afAF''), str ''-'', exactly 4 (cls ''09afAF''), str ''-'', exactly 4 (cls ''09afAF''),
        str ''-'', exactly 12 (cls ''09afAF'')], Word_Boundary])
      (Some [''heroku'']) None]"

definition dlp_version_control :: "dlp_match list" where
  "dlp_version_control = [
    detector ''github-app-token'' plain SecretRisk ''[REDACTED:GH-APP-TOKEN]''
      (cat [Word_Boundary, str ''gh'', cls ''ssuu'', str ''_'', at_least 36 (cls ''AZaz09''), Word_Boundary])
      (Some [''ghs_'', ''ghu_'']) None,
    detector ''github-refresh-token'' plain SecretRisk ''[REDACTED:GH-REFRESH-TOKEN]''
      (cat [Word_Boundary, str ''ghr_'', at_least 36 (cls ''AZaz09''), Word_Boundary])
      (Some [''ghr_'']) None,
    detector ''github-fine-grained-pat'' plain SecretRisk ''[REDACTED:GH-FINE-GRAINED-PAT]''
      (cat [Word_Boundary, str ''github_pat_'', at_least 22 (cls ''AZaz09__''), Word_Boundary])
      (Some [''github_pat_'']) None,
    detector ''gitlab-pat'' plain SecretRisk ''[REDACTED:GITLAB-PAT]''
      (cat [Word_Boundary, str ''glpat-'', between 20 256 (cls ''AZaz09__--''), Word_Boundary])
      (Some [''glpat-'']) None,
    detector ''gitlab-runner-token'' plain SecretRisk ''[REDACTED:GITLAB-RUNNER-TOKEN]''
      (cat [Word_Boundary, str ''glrt-'', between 20 256 (cls ''AZaz09__--''), Word_Boundary])
      (Some [''glrt-'']) None,
    detector ''bitbucket-token'' plain SecretRisk ''[REDACTED:BITBUCKET-TOKEN]''
      (cat [Word_Boundary, str ''ATBB'', at_least 32 (cls ''AZaz09''), Word_Boundary])
      (Some [''atbb'']) None,
    detector ''circleci-token'' caseless SecretRisk ''[REDACTED:CIRCLECI-TOKEN]''
      (alt [cat [Word_Boundary, str ''CCIPAT_'', at_least 20 (cls ''AZaz09__''), Word_Boundary], cat [Word_Boundary,
        str ''circle'', opt (cls ''__--''), str ''ci'', opt (cls ''__--''), str ''token'', many space, cls ''::=='',
        many space, opt (quotes), exactly 40 (cls ''09af''),
        Word_Boundary]])
      (Some [''ccipat_'', ''circle'']) None,
    detector ''travis-ci-token'' caseless SecretRisk ''[REDACTED:TRAVIS-TOKEN]''
      (cat [Word_Boundary, str ''travis'', opt (cls ''__--''), opt (cat [str ''ci'', opt (cls ''__--'')]),
        opt (cat [str ''api'', opt (cls ''__--'')]), str ''token'', many space, cls ''::=='', many space,
        opt (quotes), at_least 20 (cls ''AZaz09__--'')])
      (Some [''travis'']) None,
    detector ''jenkins-api-token'' caseless SecretRisk ''[REDACTED:JENKINS-TOKEN]''
      (cat [Word_Boundary, str ''jenkins'', opt (cls ''__--''), opt (cat [str ''api'', opt (cls ''__--'')]),
        str ''token'', many space, cls ''::=='', many space,
        opt (quotes), at_least 30 (cls ''AZaz09'')])
      (Some [''jenkins'']) None,
    detector ''npm-token'' plain SecretRisk ''[REDACTED:NPM-TOKEN]''
      (cat [Word_Boundary, str ''npm_'', exactly 36 (cls ''AZaz09''), Word_Boundary])
      (Some [''npm_'']) None,
    detector ''pypi-token'' plain SecretRisk ''[REDACTED:PYPI-TOKEN]''
      (cat [Word_Boundary, str ''pypi-'', between 50 1024 (cls ''AZaz09__--''), Word_Boundary])
      (Some [''pypi-'']) None,
    detector ''dockerhub-token'' plain SecretRisk ''[REDACTED:DOCKERHUB-TOKEN]''
      (cat [Word_Boundary, str ''dckr_pat_'', between 20 256 (cls ''AZaz09__--''), Word_Boundary])
      (Some [''dckr_pat_'']) None]"

definition dlp_model_providers :: "dlp_match list" where
  "dlp_model_providers = [
    detector ''anthropic-key'' plain SecretRisk ''[REDACTED:ANTHROPIC-KEY]''
      (cat [Word_Boundary, str ''sk-ant-'', between 20 256 (cls ''AZaz09__--''), Word_Boundary])
      (Some [''sk-ant-'']) None,
    detector ''openai-project-key'' plain SecretRisk ''[REDACTED:OPENAI-PROJECT-KEY]''
      (cat [Word_Boundary, str ''sk-proj-'', between 20 256 (cls ''AZaz09__--''), Word_Boundary])
      (Some [''sk-proj-'']) None,
    detector ''cohere-key'' caseless SecretRisk ''[REDACTED:COHERE-KEY]''
      (cat [Word_Boundary, str ''cohere'', opt (cls ''__--''), opt (cat [str ''api'', opt (cls ''__--'')]),
        str ''key'', many space, cls ''::=='', many space,
        opt (quotes), exactly 40 (cls ''AZaz09''), Word_Boundary])
      (Some [''cohere'']) None,
    detector ''huggingface-token'' plain SecretRisk ''[REDACTED:HUGGINGFACE-TOKEN]''
      (cat [Word_Boundary, str ''hf_'', at_least 34 (cls ''AZaz09''), Word_Boundary])
      (Some [''hf_'']) None,
    detector ''replicate-token'' plain SecretRisk ''[REDACTED:REPLICATE-TOKEN]''
      (cat [Word_Boundary, str ''r8_'', at_least 37 (cls ''AZaz09''), Word_Boundary])
      (Some [''r8_'']) None,
    detector ''together-key'' caseless SecretRisk ''[REDACTED:TOGETHER-KEY]''
      (cat [Word_Boundary, str ''together'', opt (cat [opt (cls ''__--''), str ''ai'']), opt (cls ''__--''),
        opt (cat [str ''api'', opt (cls ''__--'')]), str ''key'', many space, cls ''::=='', many space,
        opt (quotes), exactly 64 (cls ''09af''), Word_Boundary])
      (Some [''together'']) None,
    detector ''groq-key'' plain SecretRisk ''[REDACTED:GROQ-KEY]''
      (cat [Word_Boundary, str ''gsk_'', at_least 40 (cls ''AZaz09''), Word_Boundary])
      (Some [''gsk_'']) None,
    detector ''mistral-key'' caseless SecretRisk ''[REDACTED:MISTRAL-KEY]''
      (cat [Word_Boundary, str ''mistral'', opt (cls ''__--''), opt (cat [str ''api'', opt (cls ''__--'')]),
        str ''key'', many space, cls ''::=='', many space,
        opt (quotes), exactly 32 (cls ''AZaz09''), Word_Boundary])
      (Some [''mistral'']) None]"

definition dlp_communications :: "dlp_match list" where
  "dlp_communications = [
    detector ''twilio-account-sid'' plain SecretRisk ''[REDACTED:TWILIO-SID]''
      (cat [Word_Boundary, str ''AC'', exactly 32 (cls ''09af''), Word_Boundary])
      (Some [''ac'']) None,
    detector ''twilio-auth-token'' caseless SecretRisk ''[REDACTED:TWILIO-TOKEN]''
      (cat [Word_Boundary, str ''twilio'', opt (cls ''__--''), opt (cat [str ''auth'', opt (cls ''__--'')]),
        str ''token'', many space, cls ''::=='', many space,
        opt (quotes), exactly 32 (cls ''09af''), Word_Boundary])
      (Some [''twilio'']) None,
    detector ''sendgrid-key'' plain SecretRisk ''[REDACTED:SENDGRID-KEY]''
      (cat [Word_Boundary, str ''SG.'', exactly 22 (cls ''AZaz09__--''), str ''.'', exactly 43 (cls ''AZaz09__--''),
        Word_Boundary])
      (Some [''sg.'']) None,
    detector ''mailgun-key'' plain SecretRisk ''[REDACTED:MAILGUN-KEY]''
      (cat [Word_Boundary, str ''key-'', exactly 32 (cls ''09af''), Word_Boundary])
      (Some [''key-'']) None,
    detector ''stripe-live-secret'' plain SecretRisk ''[REDACTED:STRIPE-LIVE-KEY]''
      (cat [Word_Boundary, str ''sk_live_'', at_least 16 (cls ''AZaz09''), Word_Boundary])
      (Some [''sk_live_'']) None,
    detector ''stripe-test-secret'' plain SecretRisk ''[REDACTED:STRIPE-TEST-KEY]''
      (cat [Word_Boundary, str ''sk_test_'', at_least 16 (cls ''AZaz09''), Word_Boundary])
      (Some [''sk_test_'']) None,
    detector ''stripe-restricted-key'' plain SecretRisk ''[REDACTED:STRIPE-RESTRICTED-KEY]''
      (cat [Word_Boundary, str ''rk_'', alt [str ''live'', str ''test''], str ''_'', at_least 16 (cls ''AZaz09''),
        Word_Boundary])
      (Some [''rk_live_'', ''rk_test_'']) None,
    detector ''square-token'' plain SecretRisk ''[REDACTED:SQUARE-TOKEN]''
      (alt [cat [Word_Boundary, alt [str ''sq0atp-'', str ''sq0csp-'', str ''sq0idp-''],
        between 22 256 (cls ''AZaz09__--''), Word_Boundary], cat [Word_Boundary, str ''EAAA'',
        between 56 256 (cls ''AZaz09__--''), Word_Boundary]])
      (Some [''sq0atp-'', ''sq0csp-'', ''sq0idp-'', ''eaaa'']) None,
    detector ''shopify-token'' plain SecretRisk ''[REDACTED:SHOPIFY-TOKEN]''
      (cat [Word_Boundary, str ''shp'', alt [str ''at'', str ''ca'', str ''pa'', str ''ss''], str ''_'',
        exactly 32 (cls ''afAF09''), Word_Boundary])
      (Some [''shp'']) None,
    detector ''datadog-key'' caseless SecretRisk ''[REDACTED:DATADOG-KEY]''
      (cat [Word_Boundary, str ''datadog'', opt (cls ''__--''), alt [str ''api'', str ''app''], opt (cls ''__--''),
        str ''key'', many space, cls ''::=='', many space,
        opt (quotes), between 32 40 (cls ''af09''), Word_Boundary])
      (Some [''datadog'']) None,
    detector ''newrelic-key'' plain SecretRisk ''[REDACTED:NEWRELIC-KEY]''
      (alt [cat [Word_Boundary, str ''NRAK-'', exactly 27 (cls ''AZ09''), Word_Boundary], cat [Word_Boundary,
        exactly 40 (cls ''af09''), str ''NRAL'', Word_Boundary]])
      (Some [''nrak-'', ''nral'']) None,
    detector ''pagerduty-key'' caseless SecretRisk ''[REDACTED:PAGERDUTY-KEY]''
      (cat [Word_Boundary, str ''pagerduty'', opt (cls ''__--''), opt (cat [str ''api'', opt (cls ''__--'')]),
        alt [str ''token'', str ''key''], many space, cls ''::=='', many space,
        opt (quotes), at_least 20 (cls ''AZaz09__++--'')])
      (Some [''pagerduty'']) None,
    detector ''segment-write-key'' caseless SecretRisk ''[REDACTED:SEGMENT-KEY]''
      (cat [Word_Boundary, str ''segment'', opt (cls ''__--''), opt (cat [str ''write'', opt (cls ''__--'')]),
        str ''key'', many space, cls ''::=='', many space,
        opt (quotes), exactly 32 (cls ''AZaz09''), Word_Boundary])
      (Some [''segment'']) None,
    detector ''airtable-token'' plain SecretRisk ''[REDACTED:AIRTABLE-TOKEN]''
      (cat [Word_Boundary, str ''pat'', exactly 14 (cls ''AZaz09''), str ''.'', exactly 64 (cls ''af09''),
        Word_Boundary])
      (Some [''pat'']) None,
    detector ''notion-token'' plain SecretRisk ''[REDACTED:NOTION-TOKEN]''
      (alt [cat [Word_Boundary, str ''secret_'', exactly 43 (cls ''AZaz09''), Word_Boundary], cat [Word_Boundary,
        str ''ntn_'', at_least 40 (cls ''AZaz09''), Word_Boundary]])
      (Some [''secret_'', ''ntn_'']) None,
    detector ''linear-key'' plain SecretRisk ''[REDACTED:LINEAR-KEY]''
      (cat [Word_Boundary, str ''lin_'', alt [str ''api'', str ''oauth''], str ''_'', at_least 40 (cls ''AZaz09''),
        Word_Boundary])
      (Some [''lin_api_'', ''lin_oauth_'']) None,
    detector ''figma-token'' plain SecretRisk ''[REDACTED:FIGMA-TOKEN]''
      (cat [Word_Boundary, str ''figd_'', between 40 256 (cls ''AZaz09__--''), Word_Boundary])
      (Some [''figd_'']) None,
    detector ''atlassian-api-token'' plain SecretRisk ''[REDACTED:ATLASSIAN-TOKEN]''
      (cat [Word_Boundary, str ''AT'', cls ''AACC'', str ''TT3'', between 80 1024 (cls ''AZaz09__==--''),
        Word_Boundary])
      (Some [''atatt3'', ''atctt3'']) None]"

definition dlp_infrastructure :: "dlp_match list" where
  "dlp_infrastructure = [
    detector ''postgres-uri'' plain SecretRisk ''[REDACTED:POSTGRES-URI]''
      (cat [Word_Boundary, str ''postgres'', opt (str ''ql''), str ''://'',
        between 1 64 (Class True (space_ranges @ pairs ''::@@//'')), str '':'',
        between 1 128 (Class True (space_ranges @ pairs ''::@@//'')), str ''@'',
        between 1 255 (Class True (space_ranges @ pairs ''//??##''))])
      (Some [''postgres'']) None,
    detector ''mysql-uri'' plain SecretRisk ''[REDACTED:MYSQL-URI]''
      (cat [Word_Boundary, str ''mysql://'', between 1 64 (Class True (space_ranges @ pairs ''::@@//'')), str '':'',
        between 1 128 (Class True (space_ranges @ pairs ''::@@//'')), str ''@'',
        between 1 255 (Class True (space_ranges @ pairs ''//??##''))])
      (Some [''mysql://'']) None,
    detector ''mongodb-uri'' plain SecretRisk ''[REDACTED:MONGODB-URI]''
      (cat [Word_Boundary, str ''mongodb'', opt (str ''+srv''), str ''://'',
        between 1 64 (Class True (space_ranges @ pairs ''::@@//'')), str '':'',
        between 1 128 (Class True (space_ranges @ pairs ''::@@//'')), str ''@'',
        between 1 255 (Class True (space_ranges @ pairs ''//??##''))])
      (Some [''mongodb'']) None,
    detector ''redis-uri'' plain SecretRisk ''[REDACTED:REDIS-URI]''
      (cat [Word_Boundary, str ''redis'', opt (str ''s''), str ''://'',
        between 0 64 (Class True (space_ranges @ pairs ''::@@//'')), str '':'',
        between 1 128 (Class True (space_ranges @ pairs ''::@@//'')), str ''@'',
        between 1 255 (Class True (space_ranges @ pairs ''//??##''))])
      (Some [''redis'']) None,
    detector ''amqp-uri'' plain SecretRisk ''[REDACTED:AMQP-URI]''
      (cat [Word_Boundary, str ''amqp'', opt (str ''s''), str ''://'',
        between 1 64 (Class True (space_ranges @ pairs ''::@@//'')), str '':'',
        between 1 128 (Class True (space_ranges @ pairs ''::@@//'')), str ''@'',
        between 1 255 (Class True (space_ranges @ pairs ''//??##''))])
      (Some [''amqp'']) None,
    detector ''elastic-cloud-id'' caseless SecretRisk ''[REDACTED:ELASTIC-CLOUD-ID]''
      (cat [Word_Boundary, str ''cloud'', opt (cls ''__--''), str ''id'', many space, cls ''::=='', many space,
        opt (quotes), between 1 64 (cls ''AZaz09__--''), str '':'',
        at_least 40 (cls ''AZaz09++//=='')])
      (Some [''cloud_id'', ''cloud-id'', ''cloudid'']) None,
    detector ''kubernetes-credential'' plain SecretRisk ''[REDACTED:K8S-CREDENTIAL]''
      (alt [cat [Word_Boundary, str ''kubernetes.io/serviceaccount'', Word_Boundary], cat [Word_Boundary,
        str ''client-key-data'', many space, str '':'', many space, at_least 40 (cls ''AZaz09++//=='')]])
      (Some [''kubernetes.io/serviceaccount'', ''client-key-data'']) None,
    detector ''vault-token'' plain SecretRisk ''[REDACTED:VAULT-TOKEN]''
      (cat [Word_Boundary, str ''hv'', cls ''ssbb'', str ''.'', between 24 256 (cls ''AZaz09__--''), Word_Boundary])
      (Some [''hvs.'', ''hvb.'']) None,
    detector ''terraform-cloud-token'' plain SecretRisk ''[REDACTED:TERRAFORM-TOKEN]''
      (cat [Word_Boundary, exactly 14 (cls ''AZaz09''), str ''.atlasv1.'', between 60 256 (cls ''AZaz09__--''),
        Word_Boundary])
      (Some [''.atlasv1.'']) None,
    detector ''grafana-token'' plain SecretRisk ''[REDACTED:GRAFANA-TOKEN]''
      (cat [Word_Boundary, str ''gl'', alt [str ''sa'', str ''c'', str ''api''], str ''_'',
        at_least 32 (cls ''AZaz09__''), Word_Boundary])
      (Some [''glsa_'', ''glc_'', ''glapi_'']) None]"

definition dlp_wallets :: "dlp_env \<Rightarrow> dlp_match list" where
  "dlp_wallets env = [
    detector ''bip39-seed-phrase'' by_line SecretRisk ''[REDACTED:SEED-PHRASE]''
      (cat [alt [cat [Line_Start, between 0 8 (cls (''  '' @ [CHR 0x09] @ [CHR 0x09] @ ''>>**--''))],
        cat [Word_Boundary, alt [str ''mnemonic'', str ''seed'', str ''recovery'', str ''passphrase'',
        str ''wallet''], opt (cat [many1 (cls (''  '' @ [CHR 0x09] @ [CHR 0x09])), alt [str ''phrase'',
        str ''words'']]), many (cls (''  '' @ [CHR 0x09] @ [CHR 0x09])), cls ''::=='',
        many (cls (''  '' @ [CHR 0x09] @ [CHR 0x09]))]], between 11 23 (cat [between 3 8 (cls ''az''),
        many1 (cls (''  '' @ [CHR 0x09] @ [CHR 0x09]))]), between 3 8 (cls ''az''),
        Ahead False (alt [cat [many (cls (''  '' @ [CHR 0x09] @ [CHR 0x09])), Line_End], cls ''..,,;;''])])
      None (Some isBip39Shaped),
    detector ''btc-address'' plain PiiRisk ''[REDACTED:BTC-ADDRESS]''
      (cat [Word_Boundary, alt [cat [cls ''1133'', between 25 34 (cls ''akmzAHJNPZ19'')], cat [str ''bc1'',
        between 11 71 (cls ''az09'')]], Word_Boundary])
      None (Some (isBitcoinAddress env)),
    detector ''eth-address'' plain PiiRisk ''[REDACTED:ETH-ADDRESS]''
      (cat [Word_Boundary, str ''0x'', exactly 40 (cls ''09afAF''), Word_Boundary])
      (Some [''0x'']) (Some isEthereumAddress),
    detector ''sol-address'' plain PiiRisk ''[REDACTED:SOL-ADDRESS]''
      (cat [Word_Boundary, between 43 44 (cls ''19AHJNPZakmz''), Word_Boundary])
      None (Some isSolanaAddress),
    detector ''xmr-address'' plain PiiRisk ''[REDACTED:XMR-ADDRESS]''
      (cat [Word_Boundary, str ''4'', cls ''09AABB'', exactly 93 (cls ''19AHJNPZakmz''), Word_Boundary])
      None (Some isMoneroAddress)]"

definition dlp_personal :: "dlp_match list" where
  "dlp_personal = [
    detector ''iban'' plain PiiRisk ''[REDACTED:IBAN]''
      (cat [Word_Boundary, exactly 2 (cls ''AZ''), exactly 2 (cls ''09''), between 11 30 (cls ''AZ09''),
        Word_Boundary])
      None (Some isValidIban),
    detector ''passport-number'' caseless PiiRisk ''[REDACTED:PASSPORT]''
      (cat [Word_Boundary, str ''passport'', many space, opt (alt [cat [str ''no'', opt (str ''.'')],
        str ''number'', str ''#'']), many space, cls ''::##'', many space, between 6 9 (cls ''AZ09''),
        Word_Boundary])
      (Some [''passport'']) None,
    detector ''drivers-license'' caseless PiiRisk ''[REDACTED:DRIVERS-LICENSE]''
      (cat [Word_Boundary, alt [cat [str ''driver'', opt (str [CHR 0x27]), opt (str ''s''), many space,
        str ''licen'', cls ''ccss'', str ''e''], cat [str ''dl'', Word_Boundary]], many space,
        opt (alt [cat [str ''no'', opt (str ''.'')], str ''number'', str ''#'']), many space, cls ''::##'',
        many space, between 5 20 (cls ''AZ09--''), Word_Boundary])
      (Some [''licen'', ''dl'']) None,
    detector ''ipv6-address'' plain PiiRisk ''[REDACTED:IPV6]''
      (alt [cat [Word_Boundary, exactly 7 (cat [between 1 4 (cls ''09AFaf''), str '':'']),
        between 1 4 (cls ''09AFaf''), Word_Boundary], cat [Behind True False (word_ranges @ pairs ''::''),
        between 1 6 (cat [between 1 4 (cls ''09AFaf''), str '':'']), str '':'',
        opt (cat [between 1 4 (cls ''09AFaf''), between 0 5 (cat [str '':'', between 1 4 (cls ''09AFaf'')])]),
        Ahead True (Class False (word_ranges @ pairs ''::''))]])
      None (Some isPlausibleIpv6),
    detector ''mac-address'' plain PiiRisk ''[REDACTED:MAC]''
      (alt [cat [Word_Boundary, exactly 5 (cat [exactly 2 (cls ''09AFaf''), str '':'']), exactly 2 (cls ''09AFaf''),
        Word_Boundary], cat [Word_Boundary, exactly 5 (cat [exactly 2 (cls ''09AFaf''), str ''-'']),
        exactly 2 (cls ''09AFaf''), Word_Boundary]])
      None None,
    detector ''date-of-birth'' caseless PiiRisk ''[REDACTED:DOB]''
      (cat [alt [cat [str ''d.o.b'', opt (str ''.'')], cat [Word_Boundary, str ''dob'', Word_Boundary],
        cat [Word_Boundary, str ''date'', many1 space, str ''of'', many1 space, str ''birth'', Word_Boundary],
        cat [Word_Boundary, str ''birth'', many space, str ''date'', Word_Boundary], cat [Word_Boundary,
        str ''born'', Word_Boundary]], many space, opt (cat [str ''on'', many1 space]), opt (cls ''::==''),
        many space, alt [cat [between 1 2 (cls ''09''), cls ''//..--'', between 1 2 (cls ''09''), cls ''//..--'',
        between 2 4 (cls ''09'')], cat [exactly 4 (cls ''09''), str ''-'', exactly 2 (cls ''09''), str ''-'',
        exactly 2 (cls ''09'')], cat [alt [str ''jan'', str ''feb'', str ''mar'', str ''apr'', str ''may'',
        str ''jun'', str ''jul'', str ''aug'', str ''sep'', str ''oct'', str ''nov'', str ''dec''],
        between 0 6 (cls ''az''), opt (str ''.''), many1 space, between 1 2 (cls ''09''), opt (alt [str ''st'',
        str ''nd'', str ''rd'', str ''th'']), opt (str '',''), many1 space, exactly 4 (cls ''09'')]]])
      (Some [''dob'', ''d.o.b'', ''birth'', ''born'']) None]"

definition DLP_PATTERNS :: "dlp_env \<Rightarrow> dlp_match list" where
  "DLP_PATTERNS env = dlp_core env @ dlp_cloud @ dlp_version_control @ dlp_model_providers @ dlp_communications
     @ dlp_infrastructure @ dlp_wallets env @ dlp_personal"

text \<open>The read-only view of the table that callers are given.\<close>

record dlp_pattern_info =
  pi_type :: string
  pi_riskLabel :: risk_label
  pi_redactReplacement :: string
  pi_markers :: "string list"
  pi_validated :: bool

definition PATTERN_CATALOG :: "dlp_env \<Rightarrow> dlp_pattern_info list" where
  "PATTERN_CATALOG env = map (\<lambda>entry.
     \<lparr>pi_type = dm_type entry, pi_riskLabel = dm_riskLabel entry, pi_redactReplacement = dm_redactReplacement entry,
      pi_markers = (case dm_markers entry of None \<Rightarrow> [] | Some ms \<Rightarrow> ms),
      pi_validated = (dm_validate entry \<noteq> None)\<rparr>) (DLP_PATTERNS env)"

definition DLP_PATTERN_COUNT :: "dlp_env \<Rightarrow> nat" where
  "DLP_PATTERN_COUNT env = length (DLP_PATTERNS env)"

subsection \<open>Markers occur in every match\<close>

definition markers_sound :: "dlp_match \<Rightarrow> bool" where
  "markers_sound e = (case dm_markers e of None \<Rightarrow> True | Some ms \<Rightarrow> must_contain ms (dm_pattern e))"

lemma markers_core: "list_all markers_sound (dlp_core env)"
  unfolding dlp_core_def by (simp add: follow_eval markers_sound_def detector_def)

lemma markers_cloud: "list_all markers_sound dlp_cloud"
  unfolding dlp_cloud_def by (simp add: follow_eval markers_sound_def detector_def)

lemma markers_version_control: "list_all markers_sound dlp_version_control"
  unfolding dlp_version_control_def by (simp add: follow_eval markers_sound_def detector_def)

lemma markers_model_providers: "list_all markers_sound dlp_model_providers"
  unfolding dlp_model_providers_def by (simp add: follow_eval markers_sound_def detector_def)

lemma markers_communications: "list_all markers_sound dlp_communications"
  unfolding dlp_communications_def by (simp add: follow_eval markers_sound_def detector_def)

lemma markers_infrastructure: "list_all markers_sound dlp_infrastructure"
  unfolding dlp_infrastructure_def by (simp add: follow_eval markers_sound_def detector_def)

lemma markers_wallets: "list_all markers_sound (dlp_wallets env)"
  unfolding dlp_wallets_def by (simp add: follow_eval markers_sound_def detector_def)

lemma markers_personal: "list_all markers_sound dlp_personal"
  unfolding dlp_personal_def by (simp add: follow_eval markers_sound_def detector_def)

lemma markers_table: "list_all markers_sound (DLP_PATTERNS env)"
  unfolding DLP_PATTERNS_def
  by (simp add: markers_core markers_cloud markers_version_control markers_model_providers markers_communications
      markers_infrastructure markers_wallets markers_personal)

lemma detector_type [simp]: "dm_type (detector t f r p re ms v) = t"
  by (simp add: detector_def)

lemma distinct_types: "distinct (map dm_type (DLP_PATTERNS env))"
  unfolding DLP_PATTERNS_def dlp_core_def dlp_cloud_def dlp_version_control_def dlp_model_providers_def
    dlp_communications_def dlp_infrastructure_def dlp_wallets_def dlp_personal_def
  by simp

end
