(* ===== verification/Dlp_Scan.thy ===== *)
theory Dlp_Scan
  imports Dlp_Patterns Text_Pieces Types "HOL-Library.Product_Lexorder"
begin

text \<open>
  The scan of \<open>planes/identity/dlp.ts\<close>: the pre-filter by markers, the loop that executes one pattern from \<open>lastIndex\<close>
  on, the rewriting of the collected spans, and the classification on top. The loop is a partial function, so that it
  ends is a theorem. The result of the scan is compared with what the source promises: a type is reported exactly when
  some position has a match its check accepts, the pre-filter changes nothing, and redaction keeps exactly the
  characters outside every reported span.
\<close>

subsection \<open>Redaction\<close>

record redaction_span =
  sp_start :: nat
  sp_end :: nat
  sp_replacement :: string

text \<open>The inner loop takes the spans that start inside the region into it and returns where the region ends.\<close>

fun absorb :: "nat \<Rightarrow> redaction_span list \<Rightarrow> nat \<times> redaction_span list" where
  "absorb finish [] = (finish, [])"
| "absorb finish (s # spans) = (if sp_start s < finish then absorb (max finish (sp_end s)) spans else (finish, s # spans))"

lemma absorb_length: "length (snd (absorb finish spans)) \<le> length spans"
  by (induction finish spans rule: absorb.induct) auto

function redact_regions :: "string \<Rightarrow> nat \<Rightarrow> redaction_span list \<Rightarrow> string" where
  "redact_regions t cursor [] = drop cursor t"
| "redact_regions t cursor (region # spans) =
     js_slice t cursor (sp_start region) @ sp_replacement region
     @ redact_regions t (fst (absorb (sp_end region) spans)) (snd (absorb (sp_end region) spans))"
  by pat_completeness auto
termination
  by (relation "measure (\<lambda>(t, cursor, spans). length spans)") (auto simp: less_Suc_eq_le split: prod.split, metis absorb_length snd_conv)

definition span_order :: "redaction_span list \<Rightarrow> redaction_span list" where \<comment> \<open>by start, the longer first\<close>
  "span_order spans = sort_key (\<lambda>s. (sp_start s, - int (sp_end s))) spans"

definition applyRedactions :: "string \<Rightarrow> redaction_span list \<Rightarrow> string" where
  "applyRedactions t spans = (if spans = [] then t else redact_regions t 0 (span_order spans))"

subsection \<open>The scan\<close>

record found_location =
  fl_type :: string
  fl_riskLabel :: risk_label
  fl_start :: nat
  fl_end :: nat

record dlp_scan =
  ds_secretTypes :: "string list"
  ds_piiTypes :: "string list"
  ds_containsSecrets :: bool
  ds_containsPII :: bool
  ds_redactedText :: "string option"
  ds_locations :: "found_location list option"

record scan_state =
  ss_secretTypes :: "string list"
  ss_piiTypes :: "string list"
  ss_spans :: "redaction_span list"
  ss_locations :: "found_location list option"

definition containsAnyMarker :: "string \<Rightarrow> string list \<Rightarrow> bool" where
  "containsAnyMarker lowered markers = list_ex (js_includes lowered) markers"

definition rejects :: "dlp_match \<Rightarrow> string \<Rightarrow> bool" where
  "rejects e val = (case dm_validate e of None \<Rightarrow> False | Some accepts \<Rightarrow> \<not> accepts val)"

definition record_match :: "dlp_match \<Rightarrow> bool \<Rightarrow> nat \<Rightarrow> nat \<Rightarrow> scan_state \<Rightarrow> scan_state" where
  "record_match e redact i j st = st\<lparr>
     ss_locations := map_option (\<lambda>ls. ls @
       [\<lparr>fl_type = dm_type e, fl_riskLabel = dm_riskLabel e, fl_start = i, fl_end = j\<rparr>]) (ss_locations st),
     ss_spans := ss_spans st @
       (if redact then [\<lparr>sp_start = i, sp_end = j, sp_replacement = dm_redactReplacement e\<rparr>] else [])\<rparr>"

text \<open>The \<open>while\<close> loop on one pattern, from the scanner's \<open>lastIndex\<close>; it returns \<open>hit\<close> and the state.\<close>

partial_function (option) scan_pattern ::
  "dlp_match \<Rightarrow> string \<Rightarrow> bool \<Rightarrow> bool \<Rightarrow> nat \<Rightarrow> bool \<Rightarrow> scan_state \<Rightarrow> (bool \<times> scan_state) option" where
  "scan_pattern e t redact locate lastIndex hit st =
     (case regex_exec (dm_flags e) (dm_pattern e) (units_of t) lastIndex of
       None \<Rightarrow> Some (hit, st)
     | Some (i, j) \<Rightarrow>
         if j = i then scan_pattern e t redact locate (j + 1) hit st
         else if rejects e (js_slice t i j) then scan_pattern e t redact locate (i + 1) hit st
         else if \<not> redact \<and> \<not> locate then Some (True, record_match e redact i j st)
         else scan_pattern e t redact locate j True (record_match e redact i j st))"

definition add_type :: "dlp_match \<Rightarrow> scan_state \<Rightarrow> scan_state" where
  "add_type e st = (case dm_riskLabel e of
     SecretRisk \<Rightarrow> st\<lparr>ss_secretTypes := ss_secretTypes st @ [dm_type e]\<rparr>
   | PiiRisk \<Rightarrow> st\<lparr>ss_piiTypes := ss_piiTypes st @ [dm_type e]\<rparr>)"

definition skipped :: "string \<Rightarrow> dlp_match \<Rightarrow> bool" where
  "skipped lowered e = (case dm_markers e of None \<Rightarrow> False | Some ms \<Rightarrow> \<not> containsAnyMarker lowered ms)"

fun scan_patterns :: "dlp_match list \<Rightarrow> string \<Rightarrow> bool \<Rightarrow> bool \<Rightarrow> scan_state \<Rightarrow> scan_state option" where
  "scan_patterns [] t redact locate st = Some st"
| "scan_patterns (e # es) t redact locate st =
     (if skipped (js_lower t) e then scan_patterns es t redact locate st
      else (case scan_pattern e t redact locate 0 False st of
          None \<Rightarrow> None
        | Some (hit, st') \<Rightarrow> scan_patterns es t redact locate (if hit then add_type e st' else st')))"

definition scan_result :: "string \<Rightarrow> bool \<Rightarrow> scan_state \<Rightarrow> dlp_scan" where
  "scan_result t redact st =
     \<lparr>ds_secretTypes = ss_secretTypes st, ds_piiTypes = ss_piiTypes st,
      ds_containsSecrets = (ss_secretTypes st \<noteq> []), ds_containsPII = (ss_piiTypes st \<noteq> []),
      ds_redactedText = (if redact then Some (applyRedactions t (ss_spans st)) else None),
      ds_locations = ss_locations st\<rparr>"

definition scan_table :: "dlp_match list \<Rightarrow> string \<Rightarrow> bool \<Rightarrow> bool \<Rightarrow> dlp_scan option" where
  "scan_table table t redact locate = map_option (scan_result t redact)
     (scan_patterns table t redact locate
       \<lparr>ss_secretTypes = [], ss_piiTypes = [], ss_spans = [], ss_locations = (if locate then Some [] else None)\<rparr>)"

definition scanText :: "dlp_env \<Rightarrow> string \<Rightarrow> bool \<Rightarrow> bool \<Rightarrow> dlp_scan option" where
  "scanText env t redact locate = scan_table (DLP_PATTERNS env) t redact locate"

subsection \<open>Classification\<close>

definition defaultTrustForSource :: "prov_source \<Rightarrow> trust_label" where
  "defaultTrustForSource src =
     (if src = System then Trusted else if src = Memory \<or> src = ToolMetadata then Derived else Untrusted)"

record content_classification =
  cc_source :: prov_source
  cc_trustLabel :: trust_label
  cc_labels :: "flow_label list"
  cc_containsSecrets :: bool
  cc_secretTypes :: "string list"
  cc_containsPII :: bool
  cc_piiTypes :: "string list"
  cc_riskLevel :: risk_level
  cc_redacted :: bool

definition classifyContent ::
  "dlp_env \<Rightarrow> string \<Rightarrow> trust_label option \<Rightarrow> bool \<Rightarrow> prov_source \<Rightarrow> content_classification option" where
  "classifyContent env t trustLabel redact src = map_option (\<lambda>scan. let
       resolvedTrust = (case trustLabel of Some l \<Rightarrow> l | None \<Rightarrow> defaultTrustForSource src);
       labels = (if ds_containsSecrets scan then [SecretMaterial, HighRiskLabel]
         else if ds_containsPII scan then [Pii, HighRiskLabel] else []) in
     \<lparr>cc_source = src, cc_trustLabel = resolvedTrust,
      cc_labels = labels @ (if resolvedTrust \<noteq> Trusted then [CrossBoundary] else []),
      cc_containsSecrets = ds_containsSecrets scan, cc_secretTypes = ds_secretTypes scan,
      cc_containsPII = ds_containsPII scan, cc_piiTypes = ds_piiTypes scan,
      cc_riskLevel = (if ds_containsSecrets scan then Critical else if ds_containsPII scan then High else Low),
      cc_redacted = (redact \<and> (ds_containsSecrets scan \<or> ds_containsPII scan))\<rparr>) (scanText env t redact False)"

subsection \<open>What the loop collects\<close>

definition match_at :: "dlp_match \<Rightarrow> string \<Rightarrow> nat \<Rightarrow> nat option" where
  "match_at e t i = match_from (dm_flags e) (dm_pattern e) (units_of t) i"

definition good_match :: "dlp_match \<Rightarrow> string \<Rightarrow> nat \<Rightarrow> nat \<Rightarrow> bool" where
  "good_match e t i j = (match_at e t i = Some j \<and> i < j \<and> \<not> rejects e (js_slice t i j))"

abbreviation exec_on :: "dlp_match \<Rightarrow> string \<Rightarrow> nat \<Rightarrow> (nat \<times> nat) option" where
  "exec_on e t k \<equiv> regex_exec (dm_flags e) (dm_pattern e) (units_of t) k"

definition accepted :: "dlp_match \<Rightarrow> string \<Rightarrow> nat \<Rightarrow> (nat \<times> nat) list" where
  "accepted e t k =
     global_matches (dm_flags e) (dm_pattern e) (units_of t) (\<lambda>i j. rejects e (js_slice t i j)) k"

lemma accepted_step: "accepted e t k = (case exec_on e t k of
     None \<Rightarrow> []
   | Some (i, j) \<Rightarrow> if j = i then accepted e t (j + 1)
       else if rejects e (js_slice t i j) then accepted e t (i + 1)
       else (i, j) # accepted e t j)"
  unfolding accepted_def by (rule global_matches.simps)

lemma accepted_good: "(i, j) \<in> set (accepted e t k) \<Longrightarrow> k \<le> i \<and> j \<le> length t \<and> good_match e t i j"
  unfolding accepted_def good_match_def match_at_def by (drule global_matches_sound) simp

definition record_matches :: "dlp_match \<Rightarrow> bool \<Rightarrow> (nat \<times> nat) list \<Rightarrow> scan_state \<Rightarrow> scan_state" where
  "record_matches e redact ms st = fold (\<lambda>(i, j). record_match e redact i j) ms st"

text \<open>The loop ends, and this is what it returns.\<close>

lemma scan_pattern_returns:
  "scan_pattern e t redact locate k hit st = Some (hit \<or> accepted e t k \<noteq> [],
     record_matches e redact (if redact \<or> locate then accepted e t k else take 1 (accepted e t k)) st)"
proof (induction "Suc (length t) - k" arbitrary: k hit st rule: less_induct)
  case less
  show ?case
  proof (cases "exec_on e t k")
    case None
    then show ?thesis
      by (simp add: accepted_step [of e t k] scan_pattern.simps [of e t redact locate k] record_matches_def)
  next
    case (Some p)
    obtain a b where p: "p = (a, b)" by (cases p)
    note x = Some [unfolded p]
    have m: "k \<le> a" "a \<le> b" "b \<le> length t" using exec_bounds [OF x] by simp_all
    consider "b = a" | "b \<noteq> a" "rejects e (js_slice t a b)" | "b \<noteq> a" "\<not> rejects e (js_slice t a b)" by blast
    then show ?thesis
    proof cases
      case 1
      with less [of "b + 1"] m show ?thesis
        by (simp add: accepted_step [of e t k] scan_pattern.simps [of e t redact locate k] x)
    next
      case 2
      with less [of "a + 1"] m show ?thesis
        by (simp add: accepted_step [of e t k] scan_pattern.simps [of e t redact locate k] x)
    next
      case 3
      with less [of b] m show ?thesis
        by (simp add: accepted_step [of e t k] scan_pattern.simps [of e t redact locate k] x record_matches_def)
    qed
  qed
qed

lemma record_match_types [simp]:
  "ss_secretTypes (record_match e redact i j st) = ss_secretTypes st"
  "ss_piiTypes (record_match e redact i j st) = ss_piiTypes st"
  by (simp_all add: record_match_def)

lemma record_matches_types [simp]:
  "ss_secretTypes (record_matches e redact ms st) = ss_secretTypes st"
  "ss_piiTypes (record_matches e redact ms st) = ss_piiTypes st"
  unfolding record_matches_def by (induction ms arbitrary: st) auto

definition place :: "dlp_match \<Rightarrow> nat \<times> nat \<Rightarrow> found_location" where
  "place e m = \<lparr>fl_type = dm_type e, fl_riskLabel = dm_riskLabel e, fl_start = fst m, fl_end = snd m\<rparr>"

definition erase :: "dlp_match \<Rightarrow> nat \<times> nat \<Rightarrow> redaction_span" where
  "erase e m = \<lparr>sp_start = fst m, sp_end = snd m, sp_replacement = dm_redactReplacement e\<rparr>"

lemma record_matches_places:
  "ss_locations (record_matches e redact ms st) = map_option (\<lambda>ls. ls @ map (place e) ms) (ss_locations st)"
  "ss_spans (record_matches e redact ms st) = ss_spans st @ (if redact then map (erase e) ms else [])"
  unfolding record_matches_def
  by (induction ms arbitrary: st) (auto simp: record_match_def place_def erase_def option.map_comp o_def option.map_ident)

lemma add_type_places [simp]:
  "ss_locations (add_type e st) = ss_locations st" "ss_spans (add_type e st) = ss_spans st"
  by (simp_all add: add_type_def split: risk_label.split)

subsection \<open>What the scan returns\<close>

definition hits :: "dlp_match list \<Rightarrow> string \<Rightarrow> dlp_match list" where
  "hits es t = filter (\<lambda>e. \<not> skipped (js_lower t) e \<and> accepted e t 0 \<noteq> []) es"

definition all_matches :: "dlp_match list \<Rightarrow> string \<Rightarrow> (dlp_match \<times> nat \<times> nat) list" where
  "all_matches es t = concat (map (\<lambda>e. map (Pair e) (accepted e t 0)) (hits es t))"

lemma scan_patterns_returns:
  "\<exists>st'. scan_patterns es t redact locate st = Some st'
     \<and> ss_secretTypes st' = ss_secretTypes st @ map dm_type (filter (\<lambda>e. dm_riskLabel e = SecretRisk) (hits es t))
     \<and> ss_piiTypes st' = ss_piiTypes st @ map dm_type (filter (\<lambda>e. dm_riskLabel e = PiiRisk) (hits es t))
     \<and> (redact \<or> locate \<longrightarrow>
          ss_locations st' = map_option (\<lambda>ls. ls @ map (\<lambda>(e, m). place e m) (all_matches es t)) (ss_locations st)
        \<and> ss_spans st' = ss_spans st @ (if redact then map (\<lambda>(e, m). erase e m) (all_matches es t) else []))"
proof (induction es arbitrary: st)
  case Nil
  then show ?case by (simp add: hits_def all_matches_def option.map_ident)
next
  case (Cons e es)
  show ?case
  proof (cases "skipped (js_lower t) e")
    case True
    then have "hits (e # es) t = hits es t" "all_matches (e # es) t = all_matches es t"
      by (simp_all add: hits_def all_matches_def)
    then show ?thesis using Cons.IH [of st] by (simp only: scan_patterns.simps True if_True)
  next
    case False
    let ?ms = "if redact \<or> locate then accepted e t 0 else take 1 (accepted e t 0)"
    let ?st = "record_matches e redact ?ms st"
    let ?st2 = "if accepted e t 0 \<noteq> [] then add_type e ?st else ?st"
    from Cons.IH [of ?st2] obtain st' where st': "scan_patterns es t redact locate ?st2 = Some st'"
      "ss_secretTypes st' = ss_secretTypes ?st2 @ map dm_type (filter (\<lambda>e. dm_riskLabel e = SecretRisk) (hits es t))"
      "ss_piiTypes st' = ss_piiTypes ?st2 @ map dm_type (filter (\<lambda>e. dm_riskLabel e = PiiRisk) (hits es t))"
      "redact \<or> locate \<longrightarrow>
          ss_locations st' = map_option (\<lambda>ls. ls @ map (\<lambda>(e, m). place e m) (all_matches es t)) (ss_locations ?st2)
        \<and> ss_spans st' = ss_spans ?st2 @ (if redact then map (\<lambda>(e, m). erase e m) (all_matches es t) else [])"
      by blast
    have "scan_patterns (e # es) t redact locate st = Some st'"
      using False st'(1) by (simp add: scan_pattern_returns)
    moreover have h: "hits (e # es) t = (if accepted e t 0 \<noteq> [] then e # hits es t else hits es t)"
      using False by (simp add: hits_def)
    moreover have a: "all_matches (e # es) t = map (Pair e) (accepted e t 0) @ all_matches es t"
      by (simp add: all_matches_def h)
    ultimately show ?thesis
      using st'(2-) by (intro exI [of _ st'])
        (auto simp: record_matches_places add_type_def option.map_comp o_def split: risk_label.splits)
  qed
qed

subsection \<open>The pre-filter\<close>

definition unmarked :: "dlp_match \<Rightarrow> dlp_match" where
  "unmarked e = e\<lparr>dm_markers := None\<rparr>"

definition occurs :: "dlp_match \<Rightarrow> string \<Rightarrow> bool" where \<comment> \<open>some position has a match that the check accepts\<close>
  "occurs e t = list_ex (\<lambda>i. case match_at e t i of None \<Rightarrow> False
     | Some j \<Rightarrow> i < j \<and> \<not> rejects e (js_slice t i j)) [0 ..< Suc (length t)]"

lemma occurs_iff: "occurs e t \<longleftrightarrow> (\<exists>i \<le> length t. \<exists>j. good_match e t i j)"
  unfolding occurs_def list_ex_iff good_match_def by (auto simp: less_Suc_eq_le simp del: upt_Suc split: option.splits)

lemma accepted_iff_occurs: "accepted e t 0 \<noteq> [] \<longleftrightarrow> occurs e t"
  unfolding accepted_def global_matches_iff occurs_iff good_match_def match_at_def by simp

lemma skipped_no_match:
  assumes "markers_sound e" and "skipped (js_lower t) e"
  shows "exec_on e t k = None"
proof (rule ccontr)
  assume "exec_on e t k \<noteq> None"
  then obtain i j where x: "exec_on e t k = Some (i, j)" by auto
  from assms obtain ms where "must_contain ms (dm_pattern e)" "\<not> containsAnyMarker (js_lower t) ms"
    by (auto simp: markers_sound_def skipped_def split: option.splits)
  with must_contain_sound [OF _ x] show False by (simp add: containsAnyMarker_def contains_any_def)
qed

lemma skipped_accepted: "markers_sound e \<Longrightarrow> skipped (js_lower t) e \<Longrightarrow> accepted e t k = []"
  by (simp add: accepted_step [of e t k] skipped_no_match)

lemma hits_sound: "list_all markers_sound es \<Longrightarrow> hits es t = filter (\<lambda>e. occurs e t) es"
  by (induction es) (auto simp: hits_def accepted_iff_occurs [symmetric] skipped_accepted)

lemma unmarked_fields [simp]:
  "dm_flags (unmarked e) = dm_flags e" "dm_pattern (unmarked e) = dm_pattern e"
  "rejects (unmarked e) val = rejects e val" "record_match (unmarked e) = record_match e"
  "add_type (unmarked e) = add_type e" "\<not> skipped lowered (unmarked e)"
  by (simp_all add: unmarked_def rejects_def record_match_def add_type_def skipped_def fun_eq_iff
      split: risk_label.split)

lemma accepted_unmarked [simp]: "accepted (unmarked e) t k = accepted e t k"
  by (simp add: accepted_def)

lemma scan_patterns_unmarked:
  "list_all markers_sound es \<Longrightarrow>
    scan_patterns (map unmarked es) t redact locate st = scan_patterns es t redact locate st"
  by (induction es arbitrary: st)
     (auto simp: scan_pattern_returns record_matches_def skipped_accepted)

subsection \<open>What redaction keeps\<close>

abbreviation extent :: "redaction_span \<Rightarrow> nat \<times> nat" where
  "extent s \<equiv> (sp_start s, sp_end s)"

lemma absorb_ge: "e \<le> fst (absorb e spans)"
  by (induction e spans rule: absorb.induct) auto

lemma absorb_rest:
  "set (snd (absorb e spans)) \<subseteq> set spans"
  "sorted (map sp_start spans) \<Longrightarrow> sorted (map sp_start (snd (absorb e spans)))"
  by (induction e spans rule: absorb.induct) auto

lemma absorb_stops:
  "sorted (map sp_start spans) \<Longrightarrow> s \<in> set (snd (absorb e spans)) \<Longrightarrow> fst (absorb e spans) \<le> sp_start s"
proof (induction e spans rule: absorb.induct)
  case (2 e x spans)
  then show ?case by (cases "sp_start x < e") auto
qed simp

lemma absorb_le: "e \<le> n \<Longrightarrow> \<forall>s \<in> set spans. sp_end s \<le> n \<Longrightarrow> fst (absorb e spans) \<le> n"
  by (induction e spans rule: absorb.induct) auto

lemma absorb_inside: "e \<le> i \<Longrightarrow> i < fst (absorb e spans) \<Longrightarrow> covered (map extent spans) i"
proof (induction e spans rule: absorb.induct)
  case (2 e x spans)
  then show ?case by (cases "sp_start x < e"; cases "i < sp_end x") auto
qed simp

lemma absorb_outside:
  "fst (absorb e spans) \<le> i \<Longrightarrow>
    covered (map extent spans) i \<longleftrightarrow> covered (map extent (snd (absorb e spans))) i"
proof (induction e spans rule: absorb.induct)
  case (2 e x spans)
  show ?case
  proof (cases "sp_start x < e")
    case True
    with "2.prems" have "max e (sp_end x) \<le> i" using absorb_ge le_trans by fastforce
    with True 2 show ?thesis by simp
  qed simp
qed simp

lemma redact_regions_pieces:
  assumes "sorted (map sp_start spans)" "\<forall>s \<in> set spans. cursor \<le> sp_start s \<and> sp_start s < sp_end s \<and> sp_end s \<le> length t"
    and "cursor \<le> length t"
  shows "\<exists>ps. redact_regions t cursor spans = render t ps
    \<and> kept ps = filter (\<lambda>i. \<not> covered (map extent spans) i) [cursor ..< length t]
    \<and> set (written ps) \<subseteq> sp_replacement ` set spans"
  using assms
proof (induction t cursor spans rule: redact_regions.induct)
  case (1 t cursor)
  then have "redact_regions t cursor [] = render t (map Inl [cursor ..< length t])"
    by (simp add: render_positions js_slice_def)
  then show ?case by (intro exI [of _ "map Inl [cursor ..< length t]"]) (simp add: covered_def)
next
  case (2 t cursor region spans)
  let ?a = "sp_start region" and ?e = "sp_end region" and ?all = "map extent (region # spans)"
  let ?f = "fst (absorb ?e spans)" and ?rest = "snd (absorb ?e spans)"
  have sorted: "sorted (map sp_start spans)" using "2.prems"(1) by simp
  note ab = absorb_ge [of ?e spans] absorb_rest(1) [of ?e spans] absorb_rest(2) [OF sorted, of ?e]
    absorb_stops [OF sorted, of _ ?e] absorb_inside [of ?e _ spans] absorb_outside [of ?e spans] absorb_le [of ?e _ spans]
  have a: "cursor \<le> ?a" "?a < ?e" "?e \<le> length t" using "2.prems"(2) by auto
  have f: "?f \<le> length t" using ab(7) a "2.prems"(2) by simp
  have rest: "\<forall>s \<in> set ?rest. ?f \<le> sp_start s \<and> sp_start s < sp_end s \<and> sp_end s \<le> length t"
    using ab(2,4) "2.prems"(2) by auto
  from "2.IH" [OF ab(3) rest f] obtain ps where ps: "redact_regions t ?f ?rest = render t ps"
    "kept ps = filter (\<lambda>i. \<not> covered (map extent ?rest) i) [?f ..< length t]"
    "set (written ps) \<subseteq> sp_replacement ` set ?rest"
    by blast
  let ?ps = "map Inl [cursor ..< ?a] @ Inr (sp_replacement region) # ps"
  have "\<not> covered ?all i" if "i < ?a" for i
  proof -
    have "\<forall>s \<in> set (region # spans). ?a \<le> sp_start s" using "2.prems"(1) by simp
    with that show ?thesis unfolding covered_def list_ex_iff by fastforce
  qed
  then have before: "filter (\<lambda>i. \<not> covered ?all i) [cursor ..< ?a] = [cursor ..< ?a]" by (simp add: filter_id_conv)
  have "covered ?all i" if "?a \<le> i" "i < ?f" for i
    using that ab(5) [of i] by (cases "i < ?e") (auto simp: covered_def)
  then have inside: "filter (\<lambda>i. \<not> covered ?all i) [?a ..< ?f] = []" by (simp add: filter_empty_conv)
  have "covered ?all i = covered (map extent ?rest) i" if "?f \<le> i" for i
    using that ab(1) ab(6) [of i] by (auto simp: covered_def)
  then have after: "filter (\<lambda>i. \<not> covered ?all i) [?f ..< length t] = kept ps"
    unfolding ps(2) by (intro filter_cong) auto
  have "[cursor ..< length t] = [cursor ..< ?a] @ [?a ..< ?f] @ [?f ..< length t]"
    using a f ab(1) by (simp add: upt_join)
  then have "filter (\<lambda>i. \<not> covered ?all i) [cursor ..< length t] = kept ?ps"
    using before inside after by simp
  moreover have "redact_regions t cursor (region # spans) = render t ?ps"
    using ps(1) a by (simp add: render_positions)
  moreover have "set (written ?ps) \<subseteq> sp_replacement ` set (region # spans)" using ps(3) ab(2) by auto
  ultimately show ?case by metis
qed

lemma applyRedactions_pieces:
  assumes "\<forall>s \<in> set spans. sp_start s < sp_end s \<and> sp_end s \<le> length t"
  shows "\<exists>ps. applyRedactions t spans = render t ps
    \<and> kept ps = filter (\<lambda>i. \<not> covered (map extent spans) i) [0 ..< length t]
    \<and> set (written ps) \<subseteq> sp_replacement ` set spans"
proof (cases "spans = []")
  case True
  then have "applyRedactions t spans = render t (map Inl [0 ..< length t])"
    by (simp add: applyRedactions_def render_positions js_slice_def)
  then show ?thesis using True by (intro exI [of _ "map Inl [0 ..< length t]"]) (simp add: covered_def)
next
  case False
  have "sorted (map (\<lambda>s. (sp_start s, - int (sp_end s))) (span_order spans))" by (simp add: span_order_def)
  then have "sorted (map sp_start (span_order spans))"
    unfolding sorted_map by (rule sorted_wrt_mono_rel [rotated]) auto
  from redact_regions_pieces [OF this, of 0 t] assms obtain ps where "applyRedactions t spans = render t ps"
    "kept ps = filter (\<lambda>i. \<not> covered (map extent (span_order spans)) i) [0 ..< length t]"
    "set (written ps) \<subseteq> sp_replacement ` set spans"
    using False by (auto simp: applyRedactions_def span_order_def)
  moreover have "covered (map extent (span_order spans)) = covered (map extent spans)"
    by (auto simp: covered_def list_ex_iff span_order_def fun_eq_iff)
  ultimately show ?thesis by metis
qed

subsection \<open>The contracts\<close>

text \<open>C40: The scan of any text, by any table of patterns and checks, with every combination of its flags, ends: a
  pattern that matches the empty text advances, and a rejected candidate advances past its start.\<close>

theorem scan_ends: "\<exists>result. scan_table table t redact locate = Some result"
  using scan_patterns_returns [of table t redact locate] unfolding scan_table_def by (metis option.simps(9))

text \<open>C8: The markers are only an optimisation: scanning with the pre-filter gives, for every text and all flags, the
  very result of scanning with every pattern of the table.\<close>

theorem markers_are_only_an_optimisation:
  "scanText env t redact locate = scan_table (map unmarked (DLP_PATTERNS env)) t redact locate"
  by (simp add: scanText_def scan_table_def scan_patterns_unmarked [OF markers_table])

lemma scanText_reports:
  "\<exists>r. scanText env t redact locate = Some r
     \<and> ds_secretTypes r = map dm_type (filter (\<lambda>e. occurs e t \<and> dm_riskLabel e = SecretRisk) (DLP_PATTERNS env))
     \<and> ds_piiTypes r = map dm_type (filter (\<lambda>e. occurs e t \<and> dm_riskLabel e = PiiRisk) (DLP_PATTERNS env))
     \<and> ds_containsSecrets r = (ds_secretTypes r \<noteq> []) \<and> ds_containsPII r = (ds_piiTypes r \<noteq> [])"
proof -
  obtain st where st: "scan_patterns (DLP_PATTERNS env) t redact locate
      \<lparr>ss_secretTypes = [], ss_piiTypes = [], ss_spans = [], ss_locations = (if locate then Some [] else None)\<rparr> = Some st"
    "ss_secretTypes st = map dm_type (filter (\<lambda>e. dm_riskLabel e = SecretRisk) (hits (DLP_PATTERNS env) t))"
    "ss_piiTypes st = map dm_type (filter (\<lambda>e. dm_riskLabel e = PiiRisk) (hits (DLP_PATTERNS env) t))"
    using scan_patterns_returns [of "DLP_PATTERNS env" t redact locate
        "\<lparr>ss_secretTypes = [], ss_piiTypes = [], ss_spans = [], ss_locations = (if locate then Some [] else None)\<rparr>"]
    by auto
  then show ?thesis
    by (simp add: scanText_def scan_table_def scan_result_def hits_sound [OF markers_table])
qed

text \<open>C6: A detector is reported exactly when some position of the text has a match of its pattern that is not empty and
  that its check accepts, whether or not the caller asks for redaction or locations: neither an earlier candidate that
  was rejected nor an overlapping one hides it, no type is reported twice, and the two flags are what the lists say.\<close>

theorem reported_types_are_exact:
  "\<exists>r. scanText env t redact locate = Some r
     \<and> ds_secretTypes r = map dm_type (filter (\<lambda>e. occurs e t \<and> dm_riskLabel e = SecretRisk) (DLP_PATTERNS env))
     \<and> ds_piiTypes r = map dm_type (filter (\<lambda>e. occurs e t \<and> dm_riskLabel e = PiiRisk) (DLP_PATTERNS env))
     \<and> distinct (ds_secretTypes r @ ds_piiTypes r)
     \<and> ds_containsSecrets r = (ds_secretTypes r \<noteq> []) \<and> ds_containsPII r = (ds_piiTypes r \<noteq> [])"
proof -
  have "distinct (map dm_type (filter P (DLP_PATTERNS env)) @ map dm_type (filter Q (DLP_PATTERNS env)))"
    if "\<And>e. \<not> (P e \<and> Q e)" for P Q
    using distinct_types [of env] that by (auto simp: distinct_map inj_on_def)
  from this [of "\<lambda>e. occurs e t \<and> dm_riskLabel e = SecretRisk" "\<lambda>e. occurs e t \<and> dm_riskLabel e = PiiRisk"]
  show ?thesis using scanText_reports [of env t redact locate] by auto
qed

text \<open>C7: Redaction removes exactly what is located. The redacted text is made of characters of the original, in their
  order, and of replacements; the characters it keeps are exactly those outside every location that the same scan
  reports, and every replacement is one of the table's.\<close>

theorem redaction_removes_exactly_the_findings:
  "\<exists>r locations ps. scanText env t True True = Some r \<and> ds_locations r = Some locations
     \<and> ds_redactedText r = Some (render t ps)
     \<and> kept ps = filter (\<lambda>i. \<not> covered (map (\<lambda>l. (fl_start l, fl_end l)) locations) i) [0 ..< length t]
     \<and> set (written ps) \<subseteq> dm_redactReplacement ` set (DLP_PATTERNS env)"
proof -
  let ?st = "\<lparr>ss_secretTypes = [], ss_piiTypes = [], ss_spans = [], ss_locations = Some []\<rparr>"
  let ?ms = "all_matches (DLP_PATTERNS env) t"
  obtain st where st: "scan_patterns (DLP_PATTERNS env) t True True ?st = Some st"
    "ss_locations st = Some (map (\<lambda>(e, m). place e m) ?ms)" "ss_spans st = map (\<lambda>(e, m). erase e m) ?ms"
    using scan_patterns_returns [of "DLP_PATTERNS env" t True True ?st] by auto
  have same: "map extent (ss_spans st) = map (\<lambda>l. (fl_start l, fl_end l)) (map (\<lambda>(e, m). place e m) ?ms)"
    unfolding st(3) by (simp add: erase_def place_def case_prod_beta o_def)
  have "\<forall>s \<in> set (ss_spans st). sp_start s < sp_end s \<and> sp_end s \<le> length t"
    unfolding st(3) by (auto simp: all_matches_def erase_def good_match_def dest!: accepted_good)
  from applyRedactions_pieces [OF this] obtain ps where ps: "applyRedactions t (ss_spans st) = render t ps"
    "kept ps = filter (\<lambda>i. \<not> covered (map extent (ss_spans st)) i) [0 ..< length t]"
    "set (written ps) \<subseteq> sp_replacement ` set (ss_spans st)" by blast
  have "sp_replacement ` set (ss_spans st) \<subseteq> dm_redactReplacement ` set (DLP_PATTERNS env)"
    unfolding st(3) by (auto simp: all_matches_def hits_def erase_def)
  with ps(3) have "set (written ps) \<subseteq> dm_redactReplacement ` set (DLP_PATTERNS env)" by blast
  moreover have "scanText env t True True = Some (scan_result t True st)"
    by (simp add: scanText_def scan_table_def st(1))
  moreover have "ds_locations (scan_result t True st) = Some (map (\<lambda>(e, m). place e m) ?ms)"
    "ds_redactedText (scan_result t True st) = Some (render t ps)"
    by (simp_all add: scan_result_def st(2) ps(1))
  ultimately show ?thesis using ps(2) unfolding same by blast
qed

end
