(* ===== verification/Dlp_Rules.thy ===== *)
theory Dlp_Rules
  imports Dlp_Scan Policy_Rules
begin

text \<open>
  The content scanner behind the built-in rules: \<open>Policy_Rules\<close> takes it as a parameter, \<open>Dlp_Scan\<close> provides it. The
  property here rests on both: what a detector of the table can find in a payload decides what the rules do with it.
\<close>

definition as_dlp_result :: "dlp_scan \<Rightarrow> dlp_result" where
  "as_dlp_result r =
     \<lparr>dl_secretTypes = ds_secretTypes r, dl_piiTypes = ds_piiTypes r, dl_redactedText = ds_redactedText r,
      dl_locations = (case ds_locations r of None \<Rightarrow> []
        | Some ls \<Rightarrow> map (\<lambda>l. \<lparr>dl_type = fl_type l, dl_start = int (fl_start l)\<rparr>) ls)\<rparr>"

text \<open>The scan always returns (\<open>scan_ends\<close>), so the value for a scan that does not is never taken.\<close>

definition dlp_scanner :: "dlp_env \<Rightarrow> bool \<Rightarrow> bool \<Rightarrow> string \<Rightarrow> dlp_result" where
  "dlp_scanner env redact locate t = (case scanText env t redact locate of None \<Rightarrow> no_dlp | Some r \<Rightarrow> as_dlp_result r)"

definition dlp_scanners :: "dlp_env \<Rightarrow> (string \<Rightarrow> url_parts option) \<Rightarrow> scanners" where
  "dlp_scanners env parse = \<lparr>sc_scanText = dlp_scanner env False False, sc_parseUrl = parse\<rparr>"

lemma dlp_scanner_secrets:
  "dl_secretTypes (dlp_scanner env redact locate t)
     = map dm_type (filter (\<lambda>e. occurs e t \<and> dm_riskLabel e = SecretRisk) (DLP_PATTERNS env))"
  using scanText_reports [of env t redact locate] by (auto simp: dlp_scanner_def as_dlp_result_def)

lemma dlp_scanner_pii:
  "dl_piiTypes (dlp_scanner env redact locate t)
     = map dm_type (filter (\<lambda>e. occurs e t \<and> dm_riskLabel e = PiiRisk) (DLP_PATTERNS env))"
  using scanText_reports [of env t redact locate] by (auto simp: dlp_scanner_def as_dlp_result_def)

lemma dlp_finds_secret:
  assumes "e \<in> set (DLP_PATTERNS env)" "dm_riskLabel e = SecretRisk" "occurs e (payloadText (cx_payload ctx))"
  shows "dl_containsSecrets (contentDlpScan (dlp_scanners env parse) ctx)"
  using assms
  by (auto simp: dl_containsSecrets_def contentDlpScan_def dlp_scanners_def dlp_scanner_secrets filter_empty_conv)

lemma redact_fired: "r \<in> set rules \<Longrightarrow> fires ctx r \<Longrightarrow> ru_decision r = Redact \<Longrightarrow>
    Redact \<le> pr_decision (evaluateAgainst rules d ctx)"
  using decision_char(1) [of r rules ctx d] by simp

text \<open>C9: With the built-in rules installed and the real scanner behind them, content in which a secret detector of the
  table finds anything does not pass: in a reply to a communication channel it is denied at critical risk, and in the
  arguments of an MCP tool call or in what the server answers it is at least redacted, whatever other rules say.\<close>

theorem secrets_do_not_pass_the_rules:
  assumes "set (builtinRules (dlp_scanners env parse)) \<subseteq> set rules"
    and "e \<in> set (DLP_PATTERNS env)" "dm_riskLabel e = SecretRisk" "occurs e (payloadText (cx_payload ctx))"
  shows "(isCommunicationChannelContentEgress ctx \<longrightarrow>
       pr_decision (evaluateAgainst rules d ctx) = Deny \<and> pr_riskLevel (evaluateAgainst rules d ctx) = Critical)
    \<and> (isMcpAction ctx \<and> (cx_plane ctx = Tool \<or> cx_plane ctx = Content) \<longrightarrow>
       Redact \<le> pr_decision (evaluateAgainst rules d ctx))"
proof (intro conjI impI)
  note found = dlp_finds_secret [OF assms(2-4), of parse]
  let ?sc = "dlp_scanners env parse"
  {
    assume c: "isCommunicationChannelContentEgress ctx"
    then have "\<exists>r \<in> set (channelControlRules ?sc). fires ctx r \<and> ru_decision r = Deny \<and> ru_riskLevel r = Critical"
      using found by (simp add: channelControlRules_def channelContentContainsSecret_def
          isCommunicationChannelContentEgress_def fires_def builtin_def)
    with assms(1) set_builtinRules [of ?sc] critical_deny_fired [of rules ctx d]
    have "pr_decision (evaluateAgainst rules d ctx) = Deny \<and> pr_riskLevel (evaluateAgainst rules d ctx) = Critical"
      by blast
    then show "pr_decision (evaluateAgainst rules d ctx) = Deny" "pr_riskLevel (evaluateAgainst rules d ctx) = Critical"
      by simp_all
  }
  assume m: "isMcpAction ctx \<and> (cx_plane ctx = Tool \<or> cx_plane ctx = Content)"
  then have "\<exists>r \<in> set (mcpRules ?sc). fires ctx r \<and> ru_decision r = Redact"
    using found by (auto simp: mcpRules_def fires_def builtin_def)
  with assms(1) set_builtinRules [of ?sc] redact_fired [of _ rules ctx d]
  show "Redact \<le> pr_decision (evaluateAgainst rules d ctx)" by blast
qed

definition sample_dlp_env :: dlp_env where
  "sample_dlp_env = \<lparr>de_entropy = (\<lambda>s. 4), de_sha256 = (\<lambda>bs. [])\<rparr>"

definition leaking_reply :: agent_context where
  "leaking_reply = sample_ctx\<lparr>cx_plane := Content, cx_payload := [(''text'', JStr ''key AKIA0123456789ABCDEF'')],
     cx_actor := Some \<lparr>ac_channelId = Some ''c1'', ac_userId = None, ac_roleIds = None\<rparr>,
     cx_flow := Some \<lparr>fl_direction = Egress, fl_channel = None, fl_target = None, fl_labels = None,
       fl_crossesBoundary = None, fl_highRisk = None\<rparr>\<rparr>"

lemma sample_match:
  "ends plain (cat [Word_Boundary, str ''AKIA'', exactly 16 (cls ''09AZ''), Word_Boundary])
     (units_of ''key AKIA0123456789ABCDEF'') 4 = [24]"
  by code_simp

lemma sample_occurs: "occurs (hd (dlp_core env)) ''key AKIA0123456789ABCDEF''"
proof -
  have "match_at (hd (dlp_core env)) ''key AKIA0123456789ABCDEF'' 4 = Some 24"
    by (simp add: match_at_def match_from_def dlp_core_def detector_def sample_match)
  then have "good_match (hd (dlp_core env)) ''key AKIA0123456789ABCDEF'' 4 24"
    by (simp add: good_match_def rejects_def dlp_core_def detector_def)
  then show ?thesis unfolding occurs_iff by (intro exI conjI) simp_all
qed

lemma first_detector:
  "hd (dlp_core env) \<in> set (DLP_PATTERNS env) \<and> dm_riskLabel (hd (dlp_core env)) = SecretRisk"
  by (simp add: DLP_PATTERNS_def dlp_core_def detector_def)

theorem secrets_do_not_pass_the_rules_witness:
  "pr_decision (evaluateAgainst (builtinRules (dlp_scanners sample_dlp_env (\<lambda>u. None))) Allow leaking_reply) = Deny"
proof -
  have "payloadText (cx_payload leaking_reply) = ''key AKIA0123456789ABCDEF''" by code_simp
  moreover have "isCommunicationChannelContentEgress leaking_reply" by code_simp
  ultimately show ?thesis
    using secrets_do_not_pass_the_rules [OF subset_refl first_detector [THEN conjunct1] first_detector [THEN conjunct2],
        of sample_dlp_env leaking_reply "\<lambda>u. None" Allow] sample_occurs by simp
qed

end
