(* ===== verification/Injection_Patterns.thy ===== *)
theory Injection_Patterns
  imports Js_Regex Types
begin

text \<open>
  The pattern pack of \<open>policy/injection.ts\<close>, in the source's order and cut at its section comments, in the abstract
  syntax of \<open>Js_Regex\<close>. Three abbreviations of the notation carry most of the table: a word followed by \<open>\s*\<close>, a word
  with an optional plural, and alternatives of words.
\<close>

datatype injection_category =
    InstructionOverride | ExfiltrationDirective | RoleManipulation | ToolCoercion | StatePoisoning

record injection_pattern =
  ip_patternId :: string
  ip_category :: injection_category
  ip_severity :: risk_level
  ip_flags :: re_flags
  ip_guarded :: bool
  ip_pattern :: regex

definition injection ::
  "string \<Rightarrow> injection_category \<Rightarrow> risk_level \<Rightarrow> re_flags \<Rightarrow> bool \<Rightarrow> regex \<Rightarrow> injection_pattern" where
  "injection patternId category severity flags guarded pattern =
     \<lparr>ip_patternId = patternId, ip_category = category, ip_severity = severity, ip_flags = flags,
      ip_guarded = guarded, ip_pattern = pattern\<rparr>"

definition any_case :: re_flags where "any_case = \<lparr>ignoreCase = True, multiline = False\<rparr>"
definition any_case_by_line :: re_flags where "any_case_by_line = \<lparr>ignoreCase = True, multiline = True\<rparr>"

definition gap :: "string \<Rightarrow> regex" where \<comment> \<open>a word and \<open>\s*\<close>\<close>
  "gap w = cat [str w, many space]"

definition plural :: "string \<Rightarrow> regex" where
  "plural w = cat [str w, opt (str ''s'')]"

definition words :: "string list \<Rightarrow> regex" where
  "words ws = alt (map str ws)"

definition gaps :: "string list \<Rightarrow> regex" where
  "gaps ws = alt (map gap ws)"

definition plurals :: "string list \<Rightarrow> regex" where
  "plurals ws = alt (map plural ws)"

definition not_newline :: regex where
  "not_newline = Class True [(10, 10)]"

definition not_stop :: regex where \<comment> \<open>neither a full stop nor a line feed\<close>
  "not_stop = Class True [(46, 46), (10, 10)]"

definition joint :: regex where \<comment> \<open>a hyphen or white space\<close>
  "joint = Class False (space_ranges @ pairs ''--'')"

definition SENTENCE_GAP :: regex where
  "SENTENCE_GAP = alt [not_stop, cat [str ''.'', Ahead False (Class True space_ranges)]]"

definition NEGATION_PREFIX :: regex where
  "NEGATION_PREFIX = cat [alt [cat [Word_Boundary, str ''do'', between 0 3 space, str ''not''], cat [Word_Boundary,
       str (''don'' @ [CHR 0x27] @ ''t'')], cat [Word_Boundary, str (''doesn'' @ [CHR 0x27] @ ''t'')],
       cat [Word_Boundary, str ''never''], cat [Word_Boundary, str ''cannot''], cat [Word_Boundary,
       str (''can'' @ [CHR 0x27] @ ''t'')], cat [Word_Boundary, str (''won'' @ [CHR 0x27] @ ''t'')],
       cat [Word_Boundary, str ''must'', between 0 3 space, str ''not''], cat [Word_Boundary, str ''should'',
       between 0 3 space, str ''not''], cat [Word_Boundary, str (''shouldn'' @ [CHR 0x27] @ ''t'')],
       cat [Word_Boundary, str ''avoid''], cat [Word_Boundary, str ''refuse'', between 0 3 space, str ''to''],
       cat [Word_Boundary, str ''refrain'', between 0 3 space, str ''from''], cat [Word_Boundary, str ''not'']],
       between 0 3 space, Line_End]"

definition NEGATION_LOOKBACK :: nat where
  "NEGATION_LOOKBACK = 24"

subsection \<open>The pack\<close>

definition inj_instruction_override :: "injection_pattern list" where
  "inj_instruction_override = [
     injection ''inj.instruction_override.ignore_previous'' InstructionOverride High any_case False
       (cat [Word_Boundary, str ''ignore'', many space, opt (gaps [''all'', ''any'']), opt (gap ''of''),
         opt (gaps [''the'', ''these'', ''those'', ''your'', ''my'']), words [''previous'', ''prior'', ''above'',
         ''preceding'', ''earlier'', ''foregoing'', ''former''], alt [cat [many space, alt [plural ''instruction'',
         plural ''prompt'', plural ''directive'', plural ''rule'', plural ''message'', plural ''command'',
         plural ''guideline'', str ''context'', str ''input'', plural ''statement''], Word_Boundary],
         Ahead False (cat [many space, alt [Line_End,
         cls (''..,,;;::!!??'' @ [CHR 0x0A] @ [CHR 0x0A] @ ''))]]'' @ [CHR 0x22] @ [CHR 0x22] @ [CHR 0x27] @ [CHR 0x27] @ [CHR 0x60] @ [CHR 0x60]),
         cat [str ''and'', Word_Boundary], cat [str ''then'', Word_Boundary], cat [str ''instead'', Word_Boundary],
         cat [str ''but'', Word_Boundary]]])]]),
     injection ''inj.instruction_override.disregard_instructions'' InstructionOverride High any_case True
       (cat [Word_Boundary, alt [str ''disregard'', str ''discard'', str ''dismiss'', str ''overlook'',
         cat [str ''set'', many space, str ''aside''], cat [str ''throw'', many space, str ''out'']], many space,
         opt (gaps [''all'', ''any'']), opt (gap ''of''), opt (gaps [''the'', ''your'', ''these'']),
         opt (gaps [''previous'', ''prior'', ''above'', ''preceding'', ''earlier'', ''system'', ''original'',
         ''initial'', ''existing'']), plurals [''instruction'', ''prompt'', ''directive'', ''rule'', ''guideline'',
         ''constraint'', ''restriction''], Word_Boundary]),
     injection ''inj.instruction_override.forget_instructions'' InstructionOverride High any_case True
       (cat [Word_Boundary, str ''forget'', many space, opt (gap ''about''), opt (words [''everything'', ''all'',
         ''what'', ''anything'']), many space, alt [cat [str ''you'', many space, alt [cat [str ''were'',
         many space, str ''told''], str ''know'', str ''learned'', str ''read'']], cat [opt (gaps [''the'',
         ''your'']), opt (gaps [''previous'', ''prior'', ''above'', ''earlier'', ''original'', ''system'']),
         plurals [''instruction'', ''prompt'', ''rule'', ''directive'', ''guideline'']]], Word_Boundary]),
     injection ''inj.instruction_override.new_instructions'' InstructionOverride High any_case False
       (cat [Word_Boundary, words [''new'', ''updated'', ''revised'', ''additional'', ''real'', ''actual'',
         ''true'', ''following''], many space, opt (cat [str ''and'', many space, str ''final'', many space]),
         opt (gap ''system''), plurals [''instruction'', ''prompt'', ''directive''], many space, alt [str '':'',
         cat [str ''follow'', Word_Boundary], cat [str ''below'', Word_Boundary], cat [str ''begin'',
         Word_Boundary], cat [str ''start'', many space, words [''here'', ''now''], Word_Boundary],
         cat [str ''are'', many space, str ''as'', many space, str ''follows'', Word_Boundary]]]),
     injection ''inj.instruction_override.system_prompt_block'' InstructionOverride High any_case False
       (cat [Word_Boundary, str ''system'', many space, alt [str ''prompt'', str ''message'',
         plural ''instruction''], many space, str '':'']),
     injection ''inj.instruction_override.override_directive'' InstructionOverride High any_case False
       (cat [Word_Boundary, str ''override'', many space, between 0 4 (cat [words [''all'', ''any'', ''the'',
         ''your'', ''previous'', ''prior'', ''existing'', ''current''], many space]), alt [plural ''instruction'',
         plural ''prompt'', plural ''rule'', cat [str ''polic'', words [''y'', ''ies'']], plural ''guideline'',
         plural ''guardrail'', plural ''restriction'', str ''safety'', str ''settings'', str ''configuration''],
         Word_Boundary]),
     injection ''inj.instruction_override.disable_safety'' InstructionOverride High any_case False
       (cat [Word_Boundary, alt [str ''ignore'', str ''bypass'', str ''disable'', cat [str ''turn'', many space,
         str ''off''], str ''circumvent'', str ''override'', str ''lift'', str ''suspend'', str ''remove''],
         many space, opt (gaps [''all'', ''any'', ''the'', ''your'']), alt [cat [words [''safety'', ''security'',
         ''content'', ''moderation'', ''ethical'', ''alignment''], many space, alt [cat [str ''polic'',
         words [''y'', ''ies'']], plural ''filter'', plural ''guideline'', plural ''rule'', plural ''restriction'',
         plural ''guardrail'', plural ''check'', plural ''constraint'', plural ''control'']], plural ''guardrail'',
         cat [str ''safety'', many space, str ''protocol'', opt (str ''s'')], cat [str ''content'', many space,
         str ''filter'', opt (str ''s'')]], Word_Boundary]),
     injection ''inj.instruction_override.stop_following'' InstructionOverride High any_case False
       (cat [Word_Boundary, alt [cat [str ''do'', many space, str ''not''], str (''don'' @ [CHR 0x27] @ ''t''),
         str ''never'', str ''stop''], many space, alt [cat [str ''follow'', opt (str ''ing'')], cat [str ''obey'',
         opt (str ''ing'')], cat [str ''adher'', words [''e'', ''ing''], many space, str ''to''],
         cat [str ''comply'', opt (str ''ing''), many space, str ''with'']], many space, opt (gaps [''the'',
         ''your'', ''any'', ''all'']), opt (gaps [''previous'', ''prior'', ''above'', ''earlier'', ''original'',
         ''system'', ''initial'']), alt [plural ''instruction'', plural ''prompt'', plural ''rule'',
         plural ''guideline'', plural ''directive'', cat [str ''polic'', words [''y'', ''ies'']]], Word_Boundary]),
     injection ''inj.instruction_override.supersedes_prior'' InstructionOverride High any_case False
       (cat [Word_Boundary, alt [str ''this'', str ''these'', cat [str ''the'', many space, str ''following''],
         str ''below''], many space, opt (gap ''new''), plurals [''instruction'', ''prompt'', ''message'',
         ''directive'', ''rule''], many space, alt [cat [str ''supersede'', opt (cls ''ssdd'')],
         cat [str ''override'', opt (cls ''ssdd'')], cat [str ''take'', opt (cls ''ss''), many space,
         str ''precedence''], cat [str ''replace'', opt (cls ''ssdd'')], cat [str ''invalidate'',
         opt (cls ''ssdd'')]], Word_Boundary]),
     injection ''inj.instruction_override.everything_above_void'' InstructionOverride High any_case False
       (cat [Word_Boundary, words [''everything'', ''anything'', ''all''], many space, opt (gaps [''written'',
         ''said'', ''stated'', ''mentioned'']), alt [str ''above'', cat [str ''before'', many space,
         alt [str ''this'', cat [str ''the'', many space, between 1 12 word_char]]], cat [str ''prior'', many space,
         str ''to'', many space, str ''this'']], many space, opt (alt [str ''is'', str ''was'', cat [str ''should'',
         many space, str ''be''], cat [str ''must'', many space, str ''be'']]), many space, opt (gap ''a''),
         alt [cat [str ''ignore'', opt (str ''d'')], str ''irrelevant'', str ''false'', str ''outdated'',
         str ''obsolete'', str ''void'', str ''wrong'', cat [str ''a'', many space, str ''test'']], Word_Boundary])]"

definition inj_exfiltration_directive :: "injection_pattern list" where
  "inj_exfiltration_directive = [
     injection ''inj.exfiltration_directive.send_to_url'' ExfiltrationDirective Critical any_case True
       (cat [Word_Boundary, words [''send'', ''post'', ''upload'', ''transmit'', ''exfiltrate'', ''forward'',
         ''deliver'', ''submit'', ''push'', ''leak'', ''copy''], Word_Boundary, lazily 0 60 SENTENCE_GAP,
         Word_Boundary, words [''to'', ''at'', ''via'', ''toward''], many space, opt (gap ''the''),
         opt (gaps [''url'', ''endpoint'', ''webhook'']), str ''http'', opt (str ''s''), str ''://'']),
     injection ''inj.exfiltration_directive.send_to_email'' ExfiltrationDirective Critical any_case True
       (cat [Word_Boundary, words [''send'', ''email'', ''e-mail'', ''mail'', ''forward'', ''cc'', ''bcc'',
         ''deliver'', ''report''], Word_Boundary, lazily 0 60 SENTENCE_GAP, Word_Boundary,
         many1 (cls ''AZaz09..__%%++--''), str ''@'', many1 (cls ''AZaz09..--''), str ''.'',
         at_least 2 (cls ''AZaz''), Word_Boundary]),
     injection ''inj.exfiltration_directive.credential_material'' ExfiltrationDirective Critical any_case True
       (cat [Word_Boundary, words [''send'', ''post'', ''upload'', ''print'', ''output'', ''dump'', ''reveal'',
         ''leak'', ''expose'', ''share'', ''return'', ''include'', ''email'', ''echo'', ''show'', ''display'',
         ''exfiltrate'', ''transmit''], Word_Boundary, lazily 0 50 SENTENCE_GAP, opt (cat [str ''$'',
         opt (str ''{'')]), alt [cat [Word_Boundary, alt [cat [str ''env'', opt (str ''ironment''), many space,
         plurals [''var'', ''variable'']], cat [str ''api'', many space, str ''key'', opt (str ''s'')],
         cat [str ''secret'', many space, str ''key'', opt (str ''s'')], cat [str ''access'', many space,
         str ''token'', opt (str ''s'')], cat [str ''auth'', many space, str ''token'', opt (str ''s'')],
         cat [str ''bearer'', many space, str ''token'', opt (str ''s'')], plural ''credential'',
         plural ''password'', cat [str ''private'', many space, str ''key'', opt (str ''s'')], cat [str ''ssh'',
         many space, str ''key'', opt (str ''s'')], cat [cls ''AZaz'', many (cls ''AZaz09''), str ''_'',
         alt [str ''SECRET'', str ''TOKEN'', str ''PASSWORD'', str ''PASSWD'', cat [str ''CREDENTIAL'',
         opt (str ''S'')], cat [str ''API'', opt (str ''_''), str ''KEY''], cat [str ''ACCESS'', opt (str ''_''),
         str ''KEY''], cat [str ''PRIVATE'', opt (str ''_''), str ''KEY''], cat [str ''AUTH'', opt (str ''_''),
         str ''TOKEN'']], many (cat [str ''_'', many1 (cls ''AZaz09'')])]]], str ''.env''], Word_Boundary]),
     injection ''inj.exfiltration_directive.reveal_system_prompt'' ExfiltrationDirective High any_case False
       (cat [Word_Boundary, alt [str ''print'', str ''show'', str ''reveal'', str ''repeat'', str ''display'',
         str ''output'', str ''disclose'', str ''dump'', str ''list'', str ''echo'', cat [str ''tell'', many space,
         str ''me''], cat [str ''summar'', words [''ise'', ''ize'']], cat [str ''give'', many space, str ''me''],
         cat [str ''what'', many space, words [''is'', ''are'']]], Word_Boundary,
         lazily 0 40 not_stop, Word_Boundary, between 0 3 (gaps [''your'',
         ''the'', ''its'', ''full'', ''entire'', ''initial'', ''original'', ''exact'', ''verbatim'', ''hidden'',
         ''complete'']), alt [cat [str ''system'', many space, alt [str ''prompt'', str ''message'',
         plural ''instruction'']], cat [str ''initial'', many space, alt [str ''prompt'', plural ''instruction'']],
         cat [str ''original'', many space, alt [str ''prompt'', plural ''instruction'']], cat [str ''hidden'',
         many space, alt [str ''prompt'', plural ''instruction'', plural ''rule'']], cat [str ''prompt'',
         many space, str ''template'']], Word_Boundary]),
     injection ''inj.exfiltration_directive.reveal_instructions'' ExfiltrationDirective High any_case False
       (cat [Word_Boundary, alt [str ''reveal'', str ''repeat'', str ''print'', str ''show'', str ''disclose'',
         str ''output'', str ''recite'', cat [str ''tell'', many space, str ''me''], str ''list''], Word_Boundary,
         lazily 0 30 not_stop, Word_Boundary, str ''your'', many space,
         between 0 2 (gaps [''full'', ''complete'', ''exact'', ''entire'', ''original'']),
         alt [plural ''instruction'', plural ''rule'', plural ''guideline'', plural ''directive'',
         str ''configuration'', plural ''constraint'', str ''prompt''], Word_Boundary]),
     injection ''inj.exfiltration_directive.share_conversation'' ExfiltrationDirective High any_case True
       (cat [Word_Boundary, words [''send'', ''share'', ''forward'', ''post'', ''upload'', ''publish'', ''leak'',
         ''copy''], Word_Boundary, lazily 0 40 SENTENCE_GAP, Word_Boundary, between 0 3 (gaps [''the'', ''this'',
         ''our'', ''entire'', ''full'']), alt [str ''conversation'', cat [str ''chat'', many space,
         words [''history'', ''log'', ''transcript'']], str ''transcript'', cat [str ''message'', many space,
         str ''history''], cat [str ''context'', many space, str ''window''], cat [str ''prior'', many space,
         str ''messages'']], Word_Boundary]),
     injection ''inj.exfiltration_directive.http_post_payload'' ExfiltrationDirective High any_case False
       (cat [Word_Boundary, words [''curl'', ''wget'', ''Invoke-WebRequest'', ''iwr''], Word_Boundary,
         lazily 0 120 not_newline, alt [cat [str ''--data'', opt (words [''-binary'',
         ''-raw'']), Word_Boundary], cat [str ''--upload-file'', Word_Boundary], cat [space, str ''-d'', space],
         cat [space, str ''-F'', space], cat [space, str ''-T'', space], cat [str ''-X'', many space, str ''POST'',
         Word_Boundary]]]),
     injection ''inj.exfiltration_directive.markdown_image_beacon'' ExfiltrationDirective High any_case False
       (cat [str ''!['', between 0 80 (not_cls ('']]'' @ [CHR 0x0A] @ [CHR 0x0A])), str '']('', many space,
         str ''http'', opt (str ''s''), str ''://'', between 0 200 (Class True (space_ranges @ pairs ''))'')),
         cls ''??&&'', between 1 30 (cls ''AZaz09__--''), str ''='', alt [cat [str ''$'', opt (str ''{'')],
         str ''{{'', str ''%7B'', cat [str ''<'', cls ''AZaz'']]])]"

definition inj_role_manipulation :: "injection_pattern list" where
  "inj_role_manipulation = [
     injection ''inj.role_manipulation.you_are_now'' RoleManipulation Medium any_case False
       (cat [Word_Boundary, str ''you'', many space, words [''are'', ([CHR 0x27] @ ''re'')], many space,
         str ''now'', many space, opt (gaps [''a'', ''an'', ''the'', ''in'']), alt [str ''unrestricted'',
         str ''uncensored'', str ''unfiltered'', str ''unlimited'', str ''unbound'', str ''jailbroken'',
         str ''amoral'', str ''rogue'', str ''evil'', str ''malicious'', cat [str ''no'', many space,
         str ''longer''], cat [str ''free'', many space, str ''from''], cat [str ''DAN'', Word_Boundary],
         cat [str ''developer'', many space, str ''mode''], cat [str ''admin'', opt (str ''istrator'')],
         str ''root'', cat [str ''god'', many space, str ''mode''], str ''sudo'']]),
     injection ''inj.role_manipulation.act_as_persona'' RoleManipulation Medium any_case False
       (cat [Word_Boundary, words [''act'', ''behave'', ''respond'', ''reply'', ''operate'', ''function''],
         many space, str ''as'', many space, opt (cat [str ''if'', many space, str ''you'', many space,
         words [''are'', ''were''], many space]), opt (gaps [''a'', ''an'', ''the'']), opt (gaps [''unrestricted'',
         ''uncensored'', ''unfiltered'', ''jailbroken'', ''rogue'', ''malicious'', ''different'', ''new'', ''evil'',
         ''amoral'']), alt [str ''AI'', str ''A.I.'', str ''assistant'', str ''chatbot'', str ''bot'',
         cat [str ''language'', many space, str ''model''], str ''model'', str ''persona'', str ''character'',
         str ''hacker'', str ''DAN''], Word_Boundary]),
     injection ''inj.role_manipulation.pretend_to_be'' RoleManipulation Medium any_case False
       (cat [Word_Boundary, words [''pretend'', ''imagine'', ''suppose'', ''assume''], many space,
         opt (gap ''that''), alt [cat [str ''you'', many space, words [''are'', ''were'']],
         str (''you'' @ [CHR 0x27] @ ''re'')], many space, alt [str ''a'', str ''an'', str ''the'', cat [str ''no'',
         many space, str ''longer''], str ''not''], Word_Boundary]),
     injection ''inj.role_manipulation.dan_jailbreak'' RoleManipulation High any_case False
       (cat [Word_Boundary, alt [cat [str ''do'', many space, str ''anything'', many space, str ''now''],
         cat [str ''DAN'', many space, str ''mode''], str ''jailbroken'', cat [str ''jailbreak'',
         opt (cat [many space, alt [str ''mode'', str ''prompt'', str ''this'', cat [str ''the'', many space,
         str ''model'']]])], cat [str ''STAN'', many space, str ''mode''], cat [str ''evil'', many space,
         str ''confidant'']], Word_Boundary]),
     injection ''inj.role_manipulation.developer_mode'' RoleManipulation High any_case False
       (cat [Word_Boundary, alt [str ''enable'', str ''activate'', str ''enter'', cat [str ''switch'', many space,
         words [''to'', ''into'']], cat [str ''turn'', many space, str ''on''], str ''engage''], many space,
         opt (gap ''the''), alt [str ''developer'', str ''debug'', str ''god'', cat [str ''admin'',
         opt (str ''istrator'')], str ''maintenance'', str ''unrestricted'', str ''unsafe'', str ''sudo'',
         str ''root''], many space, alt [str ''mode'', str ''access'', plural ''privilege''], Word_Boundary]),
     injection ''inj.role_manipulation.fake_turn_marker'' RoleManipulation High any_case_by_line False
       (alt [cat [str ''<|'', words [''im_start'', ''im_end'', ''system'', ''user'', ''assistant'', ''endoftext''],
         str ''|>''], cat [str ''['', opt (str ''/''), words [''INST'', ''SYS''], str '']''], cat [str ''<'',
         opt (str ''/''), words [''system'', ''assistant'', ''human''], str ''>''], cat [Line_Start, many space,
         str ''###'', many space, words [''system'', ''assistant'', ''human'', ''user''], many space, str '':'']]),
     injection ''inj.role_manipulation.no_longer_bound'' RoleManipulation High any_case False
       (cat [Word_Boundary, str ''you'', many space, opt (words [''are'', ([CHR 0x27] @ ''re''), ''were'']),
         many space, alt [cat [str ''no'', many space, str ''longer''], str ''not''], many space, words [''bound'',
         ''restricted'', ''limited'', ''constrained'', ''governed'', ''controlled''], many space, str ''by'',
         Word_Boundary]),
     injection ''inj.role_manipulation.persona_assignment'' RoleManipulation Medium any_case False
       (cat [Word_Boundary, str ''you'', many space, alt [str ''are'', str ([CHR 0x27] @ ''re''), cat [str ''will'',
         many space, str ''be''], cat [str ''shall'', many space, str ''be''], cat [str ''must'', many space,
         opt (gap ''now''), str ''be'']], many space, words [''a'', ''an'', ''the''], many space,
         opt (gaps [''helpful'', ''obedient'', ''compliant'']), alt [str ''AI'', str ''assistant'', str ''chatbot'',
         cat [str ''language'', many space, str ''model''], str ''model'', str ''persona'', str ''character'',
         str ''hacker'', cat [str ''security'', many space, str ''researcher'']], many space, words [''named'',
         ''called'', ''who'', ''that'', ''with''], Word_Boundary])]"

definition inj_tool_coercion :: "injection_pattern list" where
  "inj_tool_coercion = [
     injection ''inj.tool_coercion.named_tool_invocation'' ToolCoercion High any_case False
       (cat [Word_Boundary, words [''call'', ''invoke'', ''execute'', ''trigger'', ''run'', ''use''], many space,
         opt (gap ''the''), opt (gap ''mcp''), words [''tool'', ''function'', ''command''], many space,
         words [''named'', ''called''], many space,
         opt (cls ([CHR 0x60] @ [CHR 0x60] @ [CHR 0x22] @ [CHR 0x22] @ [CHR 0x27] @ [CHR 0x27])), cls ''AZaz__'',
         between 1 63 (Class False (word_ranges @ pairs ''..--''))]),
     injection ''inj.tool_coercion.quoted_tool_invocation'' ToolCoercion High any_case False
       (cat [Word_Boundary, words [''call'', ''invoke'', ''execute'', ''trigger'', ''run'', ''use''], many space,
         opt (gap ''the''), cls ([CHR 0x60] @ [CHR 0x60] @ [CHR 0x22] @ [CHR 0x22] @ [CHR 0x27] @ [CHR 0x27]),
         cls ''AZaz__'', between 1 63 (Class False (word_ranges @ pairs ''..--'')),
         cls ([CHR 0x60] @ [CHR 0x60] @ [CHR 0x22] @ [CHR 0x22] @ [CHR 0x27] @ [CHR 0x27]), many space,
         opt (gap ''mcp''), words [''tool'', ''function'', ''command''], Word_Boundary]),
     injection ''inj.tool_coercion.chained_tool_call'' ToolCoercion High any_case False
       (cat [Word_Boundary, alt [str ''then'', str ''next'', cat [str ''after'', many space, words [''that'',
         ''this'']], str ''afterwards'', str ''finally'', str ''also''], many space, opt (str '',''), many space,
         opt (cat [str ''you'', many space, alt [str ''must'', str ''should'', cat [str ''need'', many space,
         str ''to''], str ''will''], many space]), words [''call'', ''invoke'', ''run'', ''execute'', ''trigger'',
         ''use''], many space, opt (gap ''the''), words [''tool'', ''function'', ''command'', ''shell'', ''bash'',
         ''mcp''], Word_Boundary]),
     injection ''inj.tool_coercion.run_shell_command'' ToolCoercion Critical any_case False
       (cat [Word_Boundary, words [''run'', ''execute'', ''exec'', ''spawn'', ''launch'', ''issue''], many space,
         opt (gap ''the''), opt (gaps [''following'', ''this'']), words [''shell'', ''bash'', ''zsh'',
         ''powershell'', ''pwsh'', ''cmd'', ''terminal'', ''system'', ''os''], many space, words [''command'',
         ''commands'', ''script'', ''snippet''], Word_Boundary]),
     injection ''inj.tool_coercion.shell_execution_api'' ToolCoercion Critical any_case False
       (alt [cat [Word_Boundary, words [''bash'', ''sh'', ''zsh'', ''powershell'', ''pwsh''], many space,
         str ''-c'', many space, cls ([CHR 0x22] @ [CHR 0x22] @ [CHR 0x27] @ [CHR 0x27] @ [CHR 0x60] @ [CHR 0x60])],
         cat [Word_Boundary, str ''os.system'', many space, str ''(''], cat [Word_Boundary, str ''subprocess.'',
         words [''run'', ''Popen'', ''call'', ''check_output''], many space, str ''(''], cat [Word_Boundary,
         str ''child_process.'', words [''exec'', ''execSync'', ''spawn'', ''spawnSync''], Word_Boundary],
         cat [Word_Boundary, str ''eval'', many space, str ''('', many space, words [''atob'', ''Buffer.from'',
         ''require'']]]),
     injection ''inj.tool_coercion.curl_pipe_shell'' ToolCoercion Critical any_case False
       (cat [Word_Boundary, words [''curl'', ''wget''], Word_Boundary,
         lazily 0 120 not_newline, str ''|'', many space, opt (gap ''sudo''),
         opt (words [''ba'', ''z'', ''d'']), str ''sh'', Word_Boundary]),
     injection ''inj.tool_coercion.credential_file_path'' ToolCoercion High any_case False
       (alt [cat [str ''.aws'', cls (''//'' @ [CHR 0x5C] @ [CHR 0x5C]), str ''credentials''], cat [str ''.ssh'',
         cls (''//'' @ [CHR 0x5C] @ [CHR 0x5C]), str ''id_'', words [''rsa'', ''dsa'', ''ecdsa'', ''ed25519'']],
         cat [Word_Boundary, str ''id_rsa'', Word_Boundary], cat [str ''.netrc'', Word_Boundary],
         cat [str ''.npmrc'', Word_Boundary], cat [str ''.docker'', cls (''//'' @ [CHR 0x5C] @ [CHR 0x5C]),
         str ''config.json''], cat [str ''.kube'', cls (''//'' @ [CHR 0x5C] @ [CHR 0x5C]), str ''config'',
         Word_Boundary], cat [str ''.git-credentials'', Word_Boundary], cat [str ''.pgpass'', Word_Boundary]]),
     injection ''inj.tool_coercion.read_credential_file'' ToolCoercion Critical any_case True
       (cat [Word_Boundary, words [''read'', ''open'', ''cat'', ''print'', ''show'', ''dump'', ''load'',
         ''display'', ''fetch'', ''include'', ''upload'', ''send'', ''exfiltrate'', ''copy'', ''tail''], many space,
         between 0 6 (cat [alt [str ''the'', str ''your'', str ''my'', str ''a'', str ''this'', str ''its'',
         plural ''content'', str ''of'', str ''file'', str ''entire'', str ''full'', str ''local'',
         plural ''user''], many space]),
         opt (cls ([CHR 0x60] @ [CHR 0x60] @ [CHR 0x22] @ [CHR 0x22] @ [CHR 0x27] @ [CHR 0x27])),
         opt (cat [between 0 40 (Class False (word_ranges @ pairs (''~~..//'' @ [CHR 0x5C] @ [CHR 0x5C] @ ''--''))),
         cls (''//'' @ [CHR 0x5C] @ [CHR 0x5C])]), alt [cat [str ''.env'', opt (cat [str ''.'',
         between 1 12 word_char])], cat [str ''.aws'', cls (''//'' @ [CHR 0x5C] @ [CHR 0x5C]), str ''credentials''],
         str ''id_rsa'', cat [str ''.ssh'', cls (''//'' @ [CHR 0x5C] @ [CHR 0x5C]),
         between 1 40 (Class False (word_ranges @ pairs ''..--''))], str ''.netrc'', cat [str ''credentials.'',
         words [''json'', ''yaml'', ''yml'']], cat [str ''secret'', opt (str ''s''), str ''.'', words [''json'',
         ''yaml'', ''yml'', ''env'']]], Word_Boundary]),
     injection ''inj.tool_coercion.privileged_shell'' ToolCoercion Critical any_case False
       (cat [Word_Boundary, words [''sudo'', ''doas''], many1 space, between 0 2 (cat [str ''-'',
         between 1 8 word_char, many1 space]), words [''rm'', ''dd'', ''chmod'', ''chown'', ''bash'', ''sh'',
         ''curl'', ''wget'', ''systemctl'', ''useradd'', ''usermod'', ''passwd'', ''visudo'', ''tee''],
         Word_Boundary]),
     injection ''inj.tool_coercion.destructive_command'' ToolCoercion Critical any_case False
       (alt [cat [Word_Boundary, str ''rm'', many1 space, str ''-'', between 0 3 (cls ''az''), cls ''rrff'',
         between 0 3 (cls ''az''), many space, words [''/'', ''~'', ''$HOME'', ''*'']], cat [Word_Boundary,
         str ''mkfs'', opt (cat [str ''.'', between 1 8 word_char]), space], cat [Word_Boundary, str ''shred'',
         many1 space, str ''-''], cat [Word_Boundary, str ''dd'', many1 space, str ''if=/dev/'', words [''zero'',
         ''urandom'']]])]"

definition inj_state_poisoning :: "injection_pattern list" where
  "inj_state_poisoning = [
     injection ''inj.state_poisoning.remember_for_later'' StatePoisoning High any_case False
       (cat [Word_Boundary, str ''remember'', many space, opt (alt [str ''this'', str ''that'', str ''these'',
         cat [str ''the'', many space, str ''following'']]), many space, alt [cat [str ''for'', many space,
         alt [str ''later'', str ''future'', cat [str ''the'', many space, str ''future''], cat [str ''next'',
         many space, str ''time''], cat [str ''all'', many space, words [''future'', ''subsequent'']]]],
         str ''permanently'', str ''forever'', str ''always'', cat [str ''in'', many space, alt [str ''your'',
         cat [str ''long'', many joint, str ''term'']], many space,
         str ''memory'']], Word_Boundary]),
     injection ''inj.state_poisoning.write_to_memory'' StatePoisoning High any_case False
       (cat [Word_Boundary, words [''add'', ''save'', ''store'', ''commit'', ''write'', ''append'', ''persist'',
         ''record''], many space, opt (alt [str ''this'', str ''that'', str ''it'', cat [str ''the'', many space,
         str ''following'']]), many space, words [''to'', ''into'', ''in''], many space, opt (gaps [''your'',
         ''the'', ''my'']), opt (cat [str ''long'', many joint, str ''term'',
         many space]), alt [str ''memory'', str ''memories'', cat [str ''knowledge'', many space, str ''base''],
         cat [str ''system'', many space, str ''prompt''], str ''instructions'', str ''context'', str ''profile'',
         str ''preferences''], Word_Boundary]),
     injection ''inj.state_poisoning.all_future_responses'' StatePoisoning High any_case False
       (cat [Word_Boundary, words [''for'', ''in'', ''on'', ''with''], many space, str ''all'', many space,
         opt (gap ''your''), words [''future'', ''subsequent'', ''following'', ''later'', ''upcoming''], many space,
         alt [plural ''response'', str ''replies'', plural ''message'', plural ''answer'', plural ''conversation'',
         plural ''session'', plural ''interaction'', plural ''turn'', plural ''output'', plural ''request''],
         Word_Boundary]),
     injection ''inj.state_poisoning.from_now_on'' StatePoisoning Medium any_case False
       (cat [Word_Boundary, str ''from'', many space, alt [str ''now'', cat [str ''this'', many space,
         str ''point''], str ''here''], many space, str ''on'', opt (words [''ward'', ''wards'']), many space,
         opt (str '',''), many space, alt [str ''you'', str ''always'', str ''never'', str ''respond'',
         str ''reply'', cat [str ''do'', many space, str ''not''], str (''don'' @ [CHR 0x27] @ ''t''), str ''all'',
         str ''every''], Word_Boundary]),
     injection ''inj.state_poisoning.always_append_to_output'' StatePoisoning High any_case False
       (cat [Word_Boundary, words [''always'', ''never''], many space, words [''include'', ''append'', ''add'',
         ''attach'', ''prepend'', ''insert'', ''mention'', ''end'', ''begin'', ''start''], Word_Boundary,
         lazily 0 60 not_stop, Word_Boundary, words [''every'', ''each'',
         ''all'', ''any''], many space, words [''response'', ''reply'', ''message'', ''answer'', ''output'',
         ''summary'']]),
     injection ''inj.state_poisoning.rewrite_instructions'' StatePoisoning High any_case False
       (cat [Word_Boundary, words [''update'', ''modify'', ''change'', ''replace'', ''amend'', ''revise'',
         ''extend'', ''patch''], many space, words [''your'', ''the''], many space, opt (gap ''own''),
         opt (gap ''system''), alt [plural ''instruction'', str ''prompt'', plural ''rule'', plural ''guideline'',
         str ''configuration'', str ''memory'', str ''persona'', plural ''directive'', cat [str ''polic'',
         words [''y'', ''ies'']]], Word_Boundary]),
     injection ''inj.state_poisoning.forged_user_preference'' StatePoisoning Medium any_case False
       (cat [Word_Boundary, alt [cat [str ''the'', many space, str ''user'', many space, opt (gap ''has''),
         alt [plural ''prefer'', str ''requested'', plural ''want'', str ''asked'']], cat [str ''user'', many space,
         str ''preference'', opt (str ''s''), many space, str '':'']], Word_Boundary,
         lazily 0 60 not_stop, Word_Boundary, alt [str ''always'',
         str ''never'', cat [str ''from'', many space, str ''now'', many space, str ''on''], cat [str ''in'',
         many space, words [''all'', ''every'']]], Word_Boundary])]"

definition INJECTION_PATTERNS :: "injection_pattern list" where
  "INJECTION_PATTERNS = inj_instruction_override @ inj_exfiltration_directive @ inj_role_manipulation
     @ inj_tool_coercion @ inj_state_poisoning"

definition INJECTION_PATTERN_COUNT :: nat where
  "INJECTION_PATTERN_COUNT = length INJECTION_PATTERNS"

lemma injection_id [simp]: "ip_patternId (injection i c s f g r) = i"
  by (simp add: injection_def)

lemma distinct_pattern_ids: "distinct (map ip_patternId INJECTION_PATTERNS)"
  unfolding INJECTION_PATTERNS_def inj_instruction_override_def inj_exfiltration_directive_def
    inj_role_manipulation_def inj_tool_coercion_def inj_state_poisoning_def
  by simp

end
