(* ===== verification/Injection_Scan.thy ===== *)
theory Injection_Scan
  imports Injection_Patterns Text_Pieces "HOL-Library.Product_Lexorder"
begin

text \<open>
  The scanner of \<open>policy/injection.ts\<close>. A text is its list of UTF-16 code units, since the normalisations turn on units
  far outside Latin-1. Each pass is a \<open>mapped_form\<close>: the rewritten text and the function that maps a range of it back to
  the raw text. The parameters \<open>inj_env\<close> are the decoding of base64 and hexadecimal runs by \<open>Buffer\<close> and the redaction of
  an excerpt by the content scanner.
\<close>

record inj_env =
  ie_fromBase64 :: "units \<Rightarrow> units" \<comment> \<open>\<open>Buffer.from(run, "base64").toString("utf8")\<close>\<close>
  ie_fromHex :: "units \<Rightarrow> units"
  ie_redact :: "units \<Rightarrow> units" \<comment> \<open>\<open>scanText(window, true).redactedText\<close>\<close>

definition MAX_SCAN_CHARS :: nat where "MAX_SCAN_CHARS = 256 * 1024"
definition EXCERPT_MAX :: nat where "EXCERPT_MAX = 120"
definition STRIP_REPLACEMENT :: units where "STRIP_REPLACEMENT = units_of ''[REDACTED:INJECTION]''"
definition MAX_ENCODED_FORMS :: nat where "MAX_ENCODED_FORMS = 16"
definition MAX_ENCODED_RUN :: nat where "MAX_ENCODED_RUN = 64 * 1024"

subsection \<open>Tables\<close>

definition INVISIBLE_RANGES :: "(nat \<times> nat) list" where
  "INVISIBLE_RANGES = [(0x00AD, 0x00AD), (0x200B, 0x200F), (0x202A, 0x202E), (0x2060, 0x2064), (0x2066, 0x2069),
     (0xFEFF, 0xFEFF)]"

definition HOMOGLYPHS :: "(nat \<times> char) list" where
  "HOMOGLYPHS = [
    (0x0430, CHR ''a''), (0x0435, CHR ''e''), (0x043E, CHR ''o''), (0x0440, CHR ''p''), (0x0441, CHR ''c''),
     (0x0445, CHR ''x''), (0x0443, CHR ''y''), (0x0456, CHR ''i''), (0x0458, CHR ''j''), (0x0455, CHR ''s''),
     (0x04BB, CHR ''h''), (0x0501, CHR ''d''), (0x04CF, CHR ''l''), (0x051B, CHR ''q''), (0x051D, CHR ''w''),
     (0x0433, CHR ''r''), (0x043C, CHR ''m''), (0x043D, CHR ''h''), (0x0432, CHR ''b''), (0x043A, CHR ''k''),
     (0x0442, CHR ''t''), (0x0410, CHR ''A''), (0x0412, CHR ''B''), (0x0415, CHR ''E''), (0x041A, CHR ''K''),
     (0x041C, CHR ''M''), (0x041D, CHR ''H''), (0x041E, CHR ''O''), (0x0420, CHR ''P''), (0x0421, CHR ''C''),
     (0x0422, CHR ''T''), (0x0423, CHR ''Y''), (0x0425, CHR ''X''), (0x0406, CHR ''I''), (0x0405, CHR ''S''),
     (0x0408, CHR ''J''), (0x03B1, CHR ''a''), (0x03B5, CHR ''e''), (0x03B9, CHR ''i''), (0x03BA, CHR ''k''),
     (0x03BD, CHR ''v''), (0x03BF, CHR ''o''), (0x03C1, CHR ''p''), (0x03C4, CHR ''t''), (0x03C5, CHR ''u''),
     (0x03C7, CHR ''x''), (0x0391, CHR ''A''), (0x0392, CHR ''B''), (0x0395, CHR ''E''), (0x0396, CHR ''Z''),
     (0x0397, CHR ''H''), (0x0399, CHR ''I''), (0x039A, CHR ''K''), (0x039C, CHR ''M''), (0x039D, CHR ''N''),
     (0x039F, CHR ''O''), (0x03A1, CHR ''P''), (0x03A4, CHR ''T''), (0x03A5, CHR ''Y''), (0x03A7, CHR ''X'')]"

definition leet_table :: "char \<Rightarrow> (nat \<times> char) list" where
  "leet_table one = [(48, CHR ''o''), (49, one), (51, CHR ''e''), (52, CHR ''a''), (53, CHR ''s''), (55, CHR ''t''),
     (64, CHR ''a''), (36, CHR ''s'')]"

definition LEET_PRIMARY :: "(nat \<times> char) list" where
  "LEET_PRIMARY = leet_table CHR ''l''"

definition LEET_ALTERNATE :: "(nat \<times> char) list" where
  "LEET_ALTERNATE = leet_table CHR ''i''"

definition BASE64_RUN :: regex where
  "BASE64_RUN = cat [at_least 16 (cls ''AZaz09++//''), between 0 2 (str ''='')]"

definition HEX_RUN :: regex where
  "HEX_RUN = at_least 32 (cls ''09afAF'')"

subsection \<open>Normalised forms\<close>

datatype norm_pass = Raw | ZeroWidth | Homoglyph | Leetspeak | Whitespace | Base64 | Hex

type_synonym range_resolver = "nat \<Rightarrow> nat \<Rightarrow> (nat \<times> nat) option"

record mapped_form =
  mf_text :: units
  mf_toRaw :: range_resolver

record normalized_form = mapped_form +
  nf_pass :: norm_pass

definition IDENTITY_RANGE :: range_resolver where
  "IDENTITY_RANGE start finish = Some (start, finish)"

definition NO_RANGE :: range_resolver where
  "NO_RANGE start finish = None"

text \<open>The array that remembers where every surviving unit came from, and the resolver over it.\<close>

definition via_map :: "nat list \<Rightarrow> range_resolver" where
  "via_map origin start finish =
     (if finish \<le> start \<or> length origin < finish then None else Some (origin ! start, origin ! (finish - 1) + 1))"

definition dropChars :: "units \<Rightarrow> (nat \<Rightarrow> bool) \<Rightarrow> mapped_form option" where
  "dropChars src keep = (let origin = filter (\<lambda>i. keep (src ! i)) [0 ..< length src] in
     if length origin = length src then None
     else Some \<lparr>mf_text = map ((!) src) origin, mf_toRaw = via_map origin\<rparr>)"

definition substitute :: "(nat \<times> char) list \<Rightarrow> (nat \<Rightarrow> nat option) \<Rightarrow> nat \<Rightarrow> nat" where
  "substitute table extra n = (case map_of table n of
     Some c \<Rightarrow> of_char c
   | None \<Rightarrow> (case extra n of Some m \<Rightarrow> m | None \<Rightarrow> n))"

definition substituteChars :: "units \<Rightarrow> (nat \<times> char) list \<Rightarrow> (nat \<Rightarrow> nat option) \<Rightarrow> units option" where
  "substituteChars src table extra =
     (if list_ex (\<lambda>n. substitute table extra n \<noteq> n) src then Some (map (substitute table extra) src) else None)"

definition foldFullwidth :: "nat \<Rightarrow> nat option" where
  "foldFullwidth n =
     (if 0xFF21 \<le> n \<and> n \<le> 0xFF3A \<or> 0xFF41 \<le> n \<and> n \<le> 0xFF5A then Some (n - 0xFEE0) else None)"

definition isWhitespaceCode :: "nat \<Rightarrow> bool" where
  "isWhitespaceCode n = (n = 0x20 \<or> 0x09 \<le> n \<and> n \<le> 0x0D \<or> n = 0x00A0 \<or> n = 0x1680 \<or> 0x2000 \<le> n \<and> n \<le> 0x200A
     \<or> n = 0x2028 \<or> n = 0x2029 \<or> n = 0x202F \<or> n = 0x205F \<or> n = 0x3000 \<or> n = 0xFEFF)"

definition isInvisibleCode :: "nat \<Rightarrow> bool" where
  "isInvisibleCode n = (n = 0x00AD \<or> 0x200B \<le> n \<and> n \<le> 0x200F \<or> 0x202A \<le> n \<and> n \<le> 0x202E
     \<or> 0x2060 \<le> n \<and> n \<le> 0x2064 \<or> 0x2066 \<le> n \<and> n \<le> 0x2069 \<or> n = 0xFEFF)"

text \<open>The loop of \<open>collapseWhitespace\<close>: the units pushed, each with the index written to the map.\<close>

fun collapse_from :: "nat \<Rightarrow> bool \<Rightarrow> units \<Rightarrow> (nat \<times> nat) list" where
  "collapse_from i inRun [] = []"
| "collapse_from i inRun (n # ns) =
     (if isWhitespaceCode n
      then (if inRun then collapse_from (Suc i) True ns else (0x20, i) # collapse_from (Suc i) True ns)
      else (n, i) # collapse_from (Suc i) False ns)"

definition collapseWhitespace :: "units \<Rightarrow> mapped_form option" where
  "collapseWhitespace src = (let pushed = collapse_from 0 False src in
     if map fst pushed = src then None
     else Some \<lparr>mf_text = map fst pushed, mf_toRaw = via_map (map snd pushed)\<rparr>)"

definition isPrintableAscii :: "units \<Rightarrow> bool" where
  "isPrintableAscii decoded = (8 \<le> length decoded
     \<and> list_all (\<lambda>n. n = 9 \<or> n = 10 \<or> n = 13 \<or> 0x20 \<le> n \<and> n \<le> 0x7E) decoded)"

definition decode_run :: "inj_env \<Rightarrow> norm_pass \<Rightarrow> units \<Rightarrow> units" where
  "decode_run env pass run =
     (if pass = Hex then ie_fromHex env (if odd (length run) then butlast run else run) else ie_fromBase64 env run)"

text \<open>The loop over the runs of the text, with the number of forms made so far.\<close>

fun decode_runs :: "inj_env \<Rightarrow> norm_pass \<Rightarrow> units list \<Rightarrow> nat \<Rightarrow> mapped_form list" where
  "decode_runs env pass [] made = []"
| "decode_runs env pass (run # runs) made =
     (if MAX_ENCODED_FORMS \<le> made then []
      else if MAX_ENCODED_RUN < length run then decode_runs env pass runs made
      else if isPrintableAscii (decode_run env pass run)
      then \<lparr>mf_text = decode_run env pass run, mf_toRaw = NO_RANGE\<rparr> # decode_runs env pass runs (Suc made)
      else decode_runs env pass runs made)"

definition runs_of :: "regex \<Rightarrow> units \<Rightarrow> units list" where
  "runs_of r src = map (\<lambda>(i, j). js_slice src i j)
     (global_matches \<lparr>ignoreCase = False, multiline = False\<rparr> r src (\<lambda>i j. False) 0)"

definition encodedForms :: "inj_env \<Rightarrow> units \<Rightarrow> norm_pass \<Rightarrow> mapped_form list" where
  "encodedForms env src pass = decode_runs env pass (runs_of (if pass = Base64 then BASE64_RUN else HEX_RUN) src) 0"

definition as_form :: "norm_pass \<Rightarrow> mapped_form \<Rightarrow> normalized_form" where
  "as_form pass form = \<lparr>mf_text = mf_text form, mf_toRaw = mf_toRaw form, nf_pass = pass\<rparr>"

text \<open>\<open>add\<close>: a form whose text is queued already is dropped.\<close>

definition add_form :: "norm_pass \<Rightarrow> mapped_form option \<Rightarrow> normalized_form list \<Rightarrow> normalized_form list" where
  "add_form pass form forms = (case form of
     None \<Rightarrow> forms
   | Some f \<Rightarrow> if mf_text f \<in> mf_text ` set forms then forms else forms @ [as_form pass f])"

definition in_place :: "units option \<Rightarrow> mapped_form option" where
  "in_place t = map_option (\<lambda>u. \<lparr>mf_text = u, mf_toRaw = IDENTITY_RANGE\<rparr>) t"

definition buildForms :: "inj_env \<Rightarrow> units \<Rightarrow> normalized_form list" where
  "buildForms env src = (let
     forms = [\<lparr>mf_text = src, mf_toRaw = IDENTITY_RANGE, nf_pass = Raw\<rparr>];
     forms = (if list_ex (in_ranges INVISIBLE_RANGES) src
       then add_form ZeroWidth (dropChars src (\<lambda>n. \<not> isInvisibleCode n)) forms else forms);
     forms = add_form Homoglyph (in_place (substituteChars src HOMOGLYPHS foldFullwidth)) forms;
     forms = add_form Leetspeak (in_place (substituteChars src LEET_PRIMARY (\<lambda>n. None))) forms;
     forms = add_form Leetspeak (in_place (substituteChars src LEET_ALTERNATE (\<lambda>n. None))) forms;
     forms = add_form Whitespace (collapseWhitespace src) forms;
     forms = add_form Whitespace (dropChars src (\<lambda>n. \<not> isWhitespaceCode n)) forms;
     forms = fold (\<lambda>f. add_form Base64 (Some f)) (encodedForms env src Base64) forms in
     fold (\<lambda>f. add_form Hex (Some f)) (encodedForms env src Hex) forms)"

subsection \<open>Excerpts and stripping\<close>

definition buildExcerpt :: "inj_env \<Rightarrow> units \<Rightarrow> nat \<Rightarrow> nat \<Rightarrow> units" where
  "buildExcerpt env src start finish = (let
     len = finish - start;
     pad = (EXCERPT_MAX - len) div 2;
     (lo, hi) = (if EXCERPT_MAX \<le> len then (start, start + EXCERPT_MAX)
       else (start - pad, min (length src) (finish + pad))) in
     ie_redact env (map (\<lambda>n. if n \<le> 0x1F \<or> n = 0x7F then 0x20 else n) (js_slice src lo hi)))"

fun merge_ranges :: "nat \<Rightarrow> (nat \<times> nat) list \<Rightarrow> nat \<times> (nat \<times> nat) list" where
  "merge_ranges finish [] = (finish, [])"
| "merge_ranges finish ((a, b) # rs) = (if a \<le> finish then merge_ranges (max finish b) rs else (finish, (a, b) # rs))"

lemma merge_ranges_length: "length (snd (merge_ranges finish rs)) \<le> length rs"
  by (induction finish rs rule: merge_ranges.induct) auto

function strip_regions :: "units \<Rightarrow> nat \<Rightarrow> (nat \<times> nat) list \<Rightarrow> units" where
  "strip_regions src cursor [] = drop cursor src"
| "strip_regions src cursor ((start, b) # rs) =
     (let finish = fst (merge_ranges b rs); rest = snd (merge_ranges b rs) in
      if finish \<le> cursor then strip_regions src cursor rest
      else js_slice src cursor (max start cursor) @ STRIP_REPLACEMENT @ strip_regions src finish rest)"
  by pat_completeness auto
termination
  by (relation "measure (\<lambda>(src, cursor, rs). length rs)")
     (auto simp: less_Suc_eq_le split: prod.split, (metis merge_ranges_length snd_conv)+)

definition applyStrip :: "units \<Rightarrow> (nat \<times> nat) list \<Rightarrow> units" where
  "applyStrip src ranges = (if ranges = [] then src else strip_regions src 0 (sort ranges))"

subsection \<open>The scan\<close>

record pattern_finding =
  if_patternId :: string
  if_category :: injection_category
  if_severity :: risk_level
  if_pass :: norm_pass
  if_excerpt :: units
  if_range :: "(nat \<times> nat) option"

record injection_state =
  is_findings :: "pattern_finding list" \<comment> \<open>the map by pattern id, in insertion order\<close>
  is_ranges :: "(nat \<times> nat) list"

record injection_scan_result =
  ir_findings :: "pattern_finding list"
  ir_containsInjection :: bool
  ir_strippedText :: "units option"

definition has_finding :: "injection_state \<Rightarrow> string \<Rightarrow> bool" where
  "has_finding st patternId = list_ex (\<lambda>f. if_patternId f = patternId) (is_findings st)"

definition negated :: "injection_pattern \<Rightarrow> units \<Rightarrow> nat \<Rightarrow> bool" where
  "negated spec t start = (ip_guarded spec
     \<and> regex_test any_case NEGATION_PREFIX (js_slice t (start - NEGATION_LOOKBACK) start))"

definition make_finding ::
  "inj_env \<Rightarrow> units \<Rightarrow> normalized_form \<Rightarrow> injection_pattern \<Rightarrow> nat \<Rightarrow> nat \<Rightarrow> pattern_finding" where
  "make_finding env src form spec start finish = (let rawRange = mf_toRaw form start finish in
     \<lparr>if_patternId = ip_patternId spec, if_category = ip_category spec, if_severity = ip_severity spec,
      if_pass = nf_pass form,
      if_excerpt = (case rawRange of Some (a, b) \<Rightarrow> buildExcerpt env src a b
        | None \<Rightarrow> buildExcerpt env (mf_text form) start finish),
      if_range = rawRange\<rparr>)"

definition record_injection ::
  "inj_env \<Rightarrow> units \<Rightarrow> normalized_form \<Rightarrow> injection_pattern \<Rightarrow> nat \<Rightarrow> nat \<Rightarrow> injection_state \<Rightarrow> injection_state" where
  "record_injection env src form spec start finish st = st\<lparr>
     is_ranges := is_ranges st @ (case mf_toRaw form start finish of None \<Rightarrow> [] | Some r \<Rightarrow> [r]),
     is_findings := is_findings st @
       (if has_finding st (ip_patternId spec) then [] else [make_finding env src form spec start finish])\<rparr>"

text \<open>The \<open>while\<close> loop of one pattern on one form, from the expression's \<open>lastIndex\<close>.\<close>

partial_function (option) scan_form ::
  "inj_env \<Rightarrow> units \<Rightarrow> bool \<Rightarrow> normalized_form \<Rightarrow> injection_pattern \<Rightarrow> nat \<Rightarrow> injection_state \<Rightarrow> injection_state option" where
  "scan_form env src strip form spec lastIndex st =
     (case regex_exec (ip_flags spec) (ip_pattern spec) (mf_text form) lastIndex of
       None \<Rightarrow> Some st
     | Some (start, finish) \<Rightarrow>
         if finish = start then scan_form env src strip form spec (finish + 1) st
         else if negated spec (mf_text form) start then scan_form env src strip form spec (start + 1) st
         else if \<not> strip then Some (record_injection env src form spec start finish st)
         else scan_form env src strip form spec finish (record_injection env src form spec start finish st))"

fun scan_specs ::
  "inj_env \<Rightarrow> units \<Rightarrow> bool \<Rightarrow> normalized_form \<Rightarrow> injection_pattern list \<Rightarrow> injection_state \<Rightarrow> injection_state option" where
  "scan_specs env src strip form [] st = Some st"
| "scan_specs env src strip form (spec # specs) st =
     (if \<not> strip \<and> has_finding st (ip_patternId spec) then scan_specs env src strip form specs st
      else (case scan_form env src strip form spec 0 st of
          None \<Rightarrow> None
        | Some st' \<Rightarrow> scan_specs env src strip form specs st'))"

fun scan_forms ::
  "inj_env \<Rightarrow> injection_pattern list \<Rightarrow> units \<Rightarrow> bool \<Rightarrow> normalized_form list \<Rightarrow> injection_state \<Rightarrow> injection_state option" where
  "scan_forms env specs src strip [] st = Some st"
| "scan_forms env specs src strip (form # forms) st =
     (case scan_specs env src strip form specs st of
        None \<Rightarrow> None
      | Some st' \<Rightarrow> scan_forms env specs src strip forms st')"

definition scanInjection :: "inj_env \<Rightarrow> units \<Rightarrow> bool \<Rightarrow> injection_scan_result option" where
  "scanInjection env t strip =
     (if t = [] then Some \<lparr>ir_findings = [], ir_containsInjection = False, ir_strippedText = (if strip then Some [] else None)\<rparr>
      else (let src = take MAX_SCAN_CHARS t in
        map_option (\<lambda>st.
          \<lparr>ir_findings = is_findings st, ir_containsInjection = (is_findings st \<noteq> []),
           ir_strippedText = (if strip then Some (applyStrip src (is_ranges st) @ drop MAX_SCAN_CHARS t) else None)\<rparr>)
          (scan_forms env INJECTION_PATTERNS src strip (buildForms env src) \<lparr>is_findings = [], is_ranges = []\<rparr>)))"

end
