(* ===== verification/Injection_Laws.thy ===== *)
theory Injection_Laws
  imports Injection_Scan
begin

text \<open>
  What the injection scanner promises. A pattern \<open>injects\<close> in a text when some position has a match that is not empty
  and, for a guarded pattern, not the object of a prohibition. The findings are a function of that relation over the
  normalised forms; stripping removes exactly the located ranges; and a disguise that a normalisation undoes does not
  hide a pattern.
\<close>

subsection \<open>The loops\<close>

definition injections :: "injection_pattern \<Rightarrow> units \<Rightarrow> nat \<Rightarrow> (nat \<times> nat) list" where
  "injections spec t k = global_matches (ip_flags spec) (ip_pattern spec) t (\<lambda>i j. negated spec t i) k"

definition injects :: "injection_pattern \<Rightarrow> units \<Rightarrow> bool" where
  "injects spec t = list_ex (\<lambda>i. case match_from (ip_flags spec) (ip_pattern spec) t i of None \<Rightarrow> False
     | Some j \<Rightarrow> i < j \<and> \<not> negated spec t i) [0 ..< Suc (length t)]"

lemma injections_iff: "injections spec t 0 \<noteq> [] \<longleftrightarrow> injects spec t"
  unfolding injections_def global_matches_iff injects_def list_ex_iff
  by (auto simp: less_Suc_eq_le simp del: upt_Suc split: option.splits)

lemma injections_sound:
  assumes "(i, j) \<in> set (injections spec t k)"
  shows "i < j" "j \<le> length t"
  using global_matches_sound [OF assms [unfolded injections_def]] by simp_all

definition record_all ::
  "inj_env \<Rightarrow> units \<Rightarrow> normalized_form \<Rightarrow> injection_pattern \<Rightarrow> (nat \<times> nat) list \<Rightarrow> injection_state \<Rightarrow> injection_state" where
  "record_all env src form spec ms st = fold (\<lambda>(i, j). record_injection env src form spec i j) ms st"

lemma scan_form_returns:
  "scan_form env src strip form spec k st = Some (record_all env src form spec
     (if strip then injections spec (mf_text form) k else take 1 (injections spec (mf_text form) k)) st)"
proof (induction "Suc (length (mf_text form)) - k" arbitrary: k st rule: less_induct)
  case less
  let ?x = "regex_exec (ip_flags spec) (ip_pattern spec) (mf_text form) k"
  have step: "injections spec (mf_text form) k = (case ?x of None \<Rightarrow> []
      | Some (i, j) \<Rightarrow> if j = i then injections spec (mf_text form) (j + 1)
        else if negated spec (mf_text form) i then injections spec (mf_text form) (i + 1)
        else (i, j) # injections spec (mf_text form) j)"
    unfolding injections_def by (rule global_matches.simps)
  show ?case
  proof (cases ?x)
    case None
    then show ?thesis by (simp add: step scan_form.simps [of env src strip form spec k] record_all_def)
  next
    case (Some p)
    obtain a b where p: "p = (a, b)" by (cases p)
    note x = Some [unfolded p]
    have m: "k \<le> a" "a \<le> b" "b \<le> length (mf_text form)" using exec_bounds [OF x] by simp_all
    consider "b = a" | "b \<noteq> a" "negated spec (mf_text form) a" | "b \<noteq> a" "\<not> negated spec (mf_text form) a" by blast
    then show ?thesis
    proof cases
      case 1
      with less [of "b + 1"] m show ?thesis by (simp add: step scan_form.simps [of env src strip form spec k] x)
    next
      case 2
      with less [of "a + 1"] m show ?thesis by (simp add: step scan_form.simps [of env src strip form spec k] x)
    next
      case 3
      with less [of b] m show ?thesis
        by (cases strip) (simp_all add: step scan_form.simps [of env src _ form spec k] x record_all_def)
    qed
  qed
qed

definition first_finding :: "inj_env \<Rightarrow> units \<Rightarrow> normalized_form \<Rightarrow> injection_pattern \<Rightarrow> pattern_finding" where
  "first_finding env src form spec =
     (case hd (injections spec (mf_text form) 0) of (i, j) \<Rightarrow> make_finding env src form spec i j)"

definition raw_ranges :: "normalized_form \<Rightarrow> (nat \<times> nat) list \<Rightarrow> (nat \<times> nat) list" where
  "raw_ranges form ms = List.map_filter (\<lambda>(i, j). mf_toRaw form i j) ms"

lemma has_finding_record: "has_finding (record_injection env src form spec i j st) q
    \<longleftrightarrow> has_finding st q \<or> q = ip_patternId spec"
  by (auto simp: has_finding_def record_injection_def make_finding_def Let_def)

lemma record_all_findings:
  "is_findings (record_all env src form spec ms st) = is_findings st @
     (if ms = [] \<or> has_finding st (ip_patternId spec) then []
      else [case hd ms of (i, j) \<Rightarrow> make_finding env src form spec i j])"
proof -
  have keep: "is_findings (fold (\<lambda>(i, j). record_injection env src form spec i j) ms st) = is_findings st"
    if "has_finding st (ip_patternId spec)" for ms st
    using that
  proof (induction ms arbitrary: st)
    case (Cons m ms)
    obtain i j where m: "m = (i, j)" by (cases m)
    from Cons.IH [of "record_injection env src form spec i j st"] Cons.prems show ?case
      by (simp add: m has_finding_record) (simp add: record_injection_def)
  qed simp
  show ?thesis
  proof (cases ms)
    case (Cons m rest)
    obtain i j where m: "m = (i, j)" by (cases m)
    show ?thesis
      using keep [of "record_injection env src form spec i j st" rest]
      by (simp add: record_all_def Cons m has_finding_record) (simp add: record_injection_def)
  qed (simp add: record_all_def)
qed

lemma record_all_ranges:
  "is_ranges (record_all env src form spec ms st) = is_ranges st @ raw_ranges form ms"
  unfolding record_all_def raw_ranges_def
  by (induction ms arbitrary: st) (auto simp: record_injection_def List.map_filter_simps split: option.split)

lemma take_1_hd: "take 1 xs = [] \<longleftrightarrow> xs = []" "xs \<noteq> [] \<Longrightarrow> hd (take 1 xs) = hd xs"
  by (cases xs; simp)+

subsection \<open>What is found\<close>

lemma scan_specs_returns:
  assumes "distinct (map ip_patternId specs)"
  shows "\<exists>st'. scan_specs env src strip form specs st = Some st'
    \<and> is_findings st' = is_findings st @ map (first_finding env src form)
        (filter (\<lambda>spec. injects spec (mf_text form) \<and> \<not> has_finding st (ip_patternId spec)) specs)
    \<and> (strip \<longrightarrow> is_ranges st' = is_ranges st @
        concat (map (\<lambda>spec. raw_ranges form (injections spec (mf_text form) 0)) specs))"
  using assms
proof (induction specs arbitrary: st)
  case (Cons spec specs)
  let ?all = "injections spec (mf_text form) 0"
  let ?ms = "if strip then ?all else take 1 ?all"
  show ?case
  proof (cases "\<not> strip \<and> has_finding st (ip_patternId spec)")
    case True
    with Cons.IH [of st] Cons.prems show ?thesis by simp
  next
    case False
    let ?st = "record_all env src form spec ?ms st"
    have ne: "?ms \<noteq> [] \<longleftrightarrow> injects spec (mf_text form)" by (auto simp: take_1_hd injections_iff)
    have first: "injects spec (mf_text form) \<Longrightarrow>
        (case hd ?ms of (i, j) \<Rightarrow> make_finding env src form spec i j) = first_finding env src form spec"
      by (simp add: first_finding_def take_1_hd injections_iff [symmetric])
    have found: "is_findings ?st = is_findings st @
        (if injects spec (mf_text form) \<and> \<not> has_finding st (ip_patternId spec) then [first_finding env src form spec] else [])"
      using ne first by (cases "injects spec (mf_text form)"; cases "has_finding st (ip_patternId spec)")
        (simp_all add: record_all_findings split del: if_split)
    have id: "if_patternId (first_finding env src form spec) = ip_patternId spec"
      by (simp add: first_finding_def make_finding_def Let_def split: prod.split)
    have same: "has_finding ?st (ip_patternId q) = has_finding st (ip_patternId q)" if "q \<in> set specs" for q
      using that Cons.prems id by (force simp: has_finding_def found)
    have "filter (\<lambda>q. injects q (mf_text form) \<and> \<not> has_finding ?st (ip_patternId q)) specs
        = filter (\<lambda>q. injects q (mf_text form) \<and> \<not> has_finding st (ip_patternId q)) specs"
      by (rule filter_cong) (auto simp: same)
    with Cons.IH [of ?st] Cons.prems obtain st' where "scan_specs env src strip form specs ?st = Some st'"
      "is_findings st' = is_findings ?st @ map (first_finding env src form)
        (filter (\<lambda>q. injects q (mf_text form) \<and> \<not> has_finding st (ip_patternId q)) specs)"
      "strip \<longrightarrow> is_ranges st' = is_ranges ?st @
        concat (map (\<lambda>q. raw_ranges form (injections q (mf_text form) 0)) specs)" by auto
    with False show ?thesis
      by (intro exI [of _ st']) (auto simp: scan_form_returns found record_all_ranges)
  qed
qed simp

text \<open>The findings, form by form: a pattern is reported on the first form it injects in.\<close>

fun findings_from ::
  "inj_env \<Rightarrow> injection_pattern list \<Rightarrow> units \<Rightarrow> normalized_form list \<Rightarrow> normalized_form list \<Rightarrow> pattern_finding list" where
  "findings_from env specs src earlier [] = []"
| "findings_from env specs src earlier (form # forms) =
     map (first_finding env src form)
       (filter (\<lambda>spec. injects spec (mf_text form) \<and> \<not> list_ex (\<lambda>f. injects spec (mf_text f)) earlier) specs)
     @ findings_from env specs src (earlier @ [form]) forms"

definition located :: "injection_pattern list \<Rightarrow> normalized_form list \<Rightarrow> (nat \<times> nat) list" where
  "located specs forms = concat (map (\<lambda>form.
     concat (map (\<lambda>spec. raw_ranges form (injections spec (mf_text form) 0)) specs)) forms)"

lemma first_finding_id: "if_patternId (first_finding env src form spec) = ip_patternId spec"
  by (simp add: first_finding_def make_finding_def Let_def split: prod.split)

lemma scan_forms_returns:
  assumes ids: "distinct (map ip_patternId specs)"
    and "\<forall>spec \<in> set specs. has_finding st (ip_patternId spec) = list_ex (\<lambda>f. injects spec (mf_text f)) earlier"
  shows "\<exists>st'. scan_forms env specs src strip forms st = Some st'
    \<and> is_findings st' = is_findings st @ findings_from env specs src earlier forms
    \<and> (strip \<longrightarrow> is_ranges st' = is_ranges st @ located specs forms)"
  using assms(2)
proof (induction forms arbitrary: st earlier)
  case (Cons form forms)
  let ?new = "filter (\<lambda>spec. injects spec (mf_text form) \<and> \<not> has_finding st (ip_patternId spec)) specs"
  from scan_specs_returns [OF ids, of env src strip form st] obtain st1 where
    st1: "scan_specs env src strip form specs st = Some st1"
    "is_findings st1 = is_findings st @ map (first_finding env src form) ?new"
    "strip \<longrightarrow> is_ranges st1 = is_ranges st @
      concat (map (\<lambda>spec. raw_ranges form (injections spec (mf_text form) 0)) specs)" by blast
  have new: "?new = filter (\<lambda>spec. injects spec (mf_text form)
      \<and> \<not> list_ex (\<lambda>f. injects spec (mf_text f)) earlier) specs"
    using Cons.prems by (intro filter_cong) auto
  have "has_finding st1 (ip_patternId spec) = list_ex (\<lambda>f. injects spec (mf_text f)) (earlier @ [form])"
    if spec: "spec \<in> set specs" for spec
  proof -
    have "has_finding st1 (ip_patternId spec) = (has_finding st (ip_patternId spec)
        \<or> (\<exists>q \<in> set ?new. ip_patternId q = ip_patternId spec))"
    proof -
      have "list_ex (\<lambda>f. if_patternId f = p) (map (first_finding env src form) qs) = (\<exists>q \<in> set qs. ip_patternId q = p)"
        for p qs by (auto simp: list_ex_iff first_finding_id)
      then show ?thesis by (simp only: has_finding_def [of st1] st1(2) list_ex_append has_finding_def [of st, symmetric])
    qed
    also have "(\<exists>q \<in> set ?new. ip_patternId q = ip_patternId spec) = (spec \<in> set ?new)"
      using ids spec by (auto simp: distinct_map inj_on_def)
    finally show ?thesis using spec Cons.prems by auto
  qed
  with Cons.IH [of st1 "earlier @ [form]"] obtain st' where "scan_forms env specs src strip forms st1 = Some st'"
    "is_findings st' = is_findings st1 @ findings_from env specs src (earlier @ [form]) forms"
    "strip \<longrightarrow> is_ranges st' = is_ranges st1 @ located specs forms" by blast
  with st1 new show ?case by (intro exI [of _ st']) (auto simp: located_def)
qed (simp add: located_def)

lemma scanInjection_returns:
  assumes "t \<noteq> []"
  defines "src \<equiv> take MAX_SCAN_CHARS t"
  shows "\<exists>r. scanInjection env t strip = Some r
    \<and> ir_findings r = findings_from env INJECTION_PATTERNS src [] (buildForms env src)
    \<and> ir_containsInjection r = (ir_findings r \<noteq> [])
    \<and> ir_strippedText r = (if strip
        then Some (applyStrip src (located INJECTION_PATTERNS (buildForms env src)) @ drop MAX_SCAN_CHARS t) else None)"
proof -
  let ?st = "\<lparr>is_findings = [], is_ranges = []\<rparr>"
  have "\<forall>spec \<in> set INJECTION_PATTERNS. has_finding ?st (ip_patternId spec)
      = list_ex (\<lambda>f. injects spec (mf_text f)) ([] :: normalized_form list)" by (simp add: has_finding_def)
  from scan_forms_returns [OF distinct_pattern_ids this, of env src strip "buildForms env src"] obtain st' where
    "scan_forms env INJECTION_PATTERNS src strip (buildForms env src) ?st = Some st'"
    "is_findings st' = findings_from env INJECTION_PATTERNS src [] (buildForms env src)"
    "strip \<longrightarrow> is_ranges st' = located INJECTION_PATTERNS (buildForms env src)" by auto
  then show ?thesis using assms(1) by (auto simp: scanInjection_def src_def Let_def)
qed

lemma findings_from_ids:
  "if_patternId ` set (findings_from env specs src earlier forms)
     = ip_patternId ` {spec \<in> set specs. \<not> list_ex (\<lambda>f. injects spec (mf_text f)) earlier
         \<and> (\<exists>form \<in> set forms. injects spec (mf_text form))}"
proof (induction forms arbitrary: earlier)
  case (Cons form forms)
  let ?E = "\<lambda>spec. list_ex (\<lambda>f. injects spec (mf_text f)) earlier"
  have "if_patternId ` set (findings_from env specs src earlier (form # forms))
      = ip_patternId ` ({spec \<in> set specs. injects spec (mf_text form) \<and> \<not> ?E spec}
        \<union> {spec \<in> set specs. \<not> list_ex (\<lambda>f. injects spec (mf_text f)) (earlier @ [form])
             \<and> (\<exists>form \<in> set forms. injects spec (mf_text form))})"
    by (simp only: findings_from.simps set_append image_Un Cons.IH set_map image_image first_finding_id set_filter)
  also have "\<dots> = ip_patternId ` {spec \<in> set specs. \<not> ?E spec \<and> (\<exists>f \<in> set (form # forms). injects spec (mf_text f))}"
    by (rule arg_cong [where f = "image ip_patternId"]) auto
  finally show ?case .
qed simp

subsection \<open>Ranges lie in the text\<close>

definition range_ok :: "nat \<Rightarrow> nat \<times> nat \<Rightarrow> bool" where
  "range_ok n r = (fst r < snd r \<and> snd r \<le> n)"

definition resolver_ok :: "nat \<Rightarrow> nat \<Rightarrow> range_resolver \<Rightarrow> bool" where
  "resolver_ok n m toRaw = (\<forall>i j r. i < j \<and> j \<le> m \<and> toRaw i j = Some r \<longrightarrow> range_ok n r)"

lemma via_map_ok:
  assumes "sorted_wrt (<) origin" "\<forall>k \<in> set origin. k < n"
  shows "resolver_ok n m (via_map origin)"
  unfolding resolver_ok_def
proof (intro allI impI, elim conjE)
  fix i j r
  assume ij: "i < j" "via_map origin i j = Some r"
  then have j: "j \<le> length origin" "r = (origin ! i, origin ! (j - 1) + 1)" by (auto simp: via_map_def split: if_splits)
  have "origin ! i \<le> origin ! (j - 1)"
  proof (cases "i = j - 1")
    case False
    with ij j have "i < j - 1" "j - 1 < length origin" by simp_all
    with assms(1) show ?thesis using sorted_wrt_nth_less by (metis less_imp_le)
  qed simp
  moreover have "origin ! (j - 1) < n" using assms(2) ij j by simp
  ultimately show "range_ok n r" using j by (simp add: range_ok_def)
qed

lemma collapse_bounds: "k \<in> set (map snd (collapse_from i inRun ns)) \<Longrightarrow> i \<le> k \<and> k < i + length ns"
proof (induction i inRun ns rule: collapse_from.induct)
  case (2 i inRun n ns)
  then show ?case by (auto split: if_splits dest: Suc_leD)
qed simp

lemma collapse_sorted: "sorted_wrt (<) (map snd (collapse_from i inRun ns))"
proof (induction i inRun ns rule: collapse_from.induct)
  case (2 i inRun n ns)
  have "\<forall>k \<in> set (map snd (collapse_from (Suc i) r ns)). i < k" for r
    using collapse_bounds [of _ "Suc i" r ns] by (meson less_eq_Suc_le)
  with 2 show ?case by simp
qed simp

lemma dropChars_ok: "dropChars src keep = Some f \<Longrightarrow> resolver_ok (length src) m (mf_toRaw f)"
  by (auto simp: dropChars_def Let_def sorted_wrt_filter intro!: via_map_ok split: if_splits)

lemma collapse_ok: "collapseWhitespace src = Some f \<Longrightarrow> resolver_ok (length src) m (mf_toRaw f)"
proof -
  assume "collapseWhitespace src = Some f"
  then have "mf_toRaw f = via_map (map snd (collapse_from 0 False src))"
    by (auto simp: collapseWhitespace_def Let_def split: if_splits)
  moreover have "\<forall>k \<in> set (map snd (collapse_from 0 False src)). k < length src"
    using collapse_bounds [of _ 0 False src] by auto
  ultimately show ?thesis by (simp add: via_map_ok collapse_sorted del: set_map)
qed

lemma identity_ok: "m \<le> n \<Longrightarrow> resolver_ok n m IDENTITY_RANGE"
  by (auto simp: resolver_ok_def IDENTITY_RANGE_def range_ok_def)

definition form_ok :: "nat \<Rightarrow> mapped_form option \<Rightarrow> bool" where
  "form_ok n form = (case form of None \<Rightarrow> True | Some f \<Rightarrow> resolver_ok n (length (mf_text f)) (mf_toRaw f))"

definition forms_ok :: "nat \<Rightarrow> normalized_form list \<Rightarrow> bool" where
  "forms_ok n forms = (\<forall>f \<in> set forms. resolver_ok n (length (mf_text f)) (mf_toRaw f))"

lemma add_form_ok: "forms_ok n forms \<Longrightarrow> form_ok n form \<Longrightarrow> forms_ok n (add_form pass form forms)"
  by (auto simp: forms_ok_def form_ok_def add_form_def as_form_def split: option.splits)

lemma fold_add_form_ok:
  "forms_ok n forms \<Longrightarrow> \<forall>f \<in> set fs. form_ok n (Some f) \<Longrightarrow> forms_ok n (fold (\<lambda>f. add_form pass (Some f)) fs forms)"
  by (induction fs arbitrary: forms) (auto intro: add_form_ok)

lemma decode_runs_ok: "f \<in> set (decode_runs env pass runs made) \<Longrightarrow> form_ok n (Some f)"
  by (induction env pass runs made rule: decode_runs.induct)
     (auto simp: form_ok_def resolver_ok_def NO_RANGE_def split: if_splits)

lemma in_place_ok: "(\<And>u. t = Some u \<Longrightarrow> length u \<le> n) \<Longrightarrow> form_ok n (in_place t)"
  by (cases t) (auto simp: in_place_def form_ok_def intro: identity_ok)

lemma substituteChars_length: "substituteChars src table extra = Some u \<Longrightarrow> length u = length src"
  by (auto simp: substituteChars_def split: if_splits)

lemma buildForms_ok: "forms_ok (length src) (buildForms env src)"
proof -
  have "form_ok (length src) (dropChars src keep)" for keep
    by (cases "dropChars src keep") (auto simp: form_ok_def intro: dropChars_ok)
  moreover have "form_ok (length src) (collapseWhitespace src)"
    by (cases "collapseWhitespace src") (auto simp: form_ok_def intro: collapse_ok)
  moreover have "form_ok (length src) (in_place (substituteChars src table extra))" for table extra
    by (rule in_place_ok) (simp add: substituteChars_length)
  moreover have "forms_ok (length src) [\<lparr>mf_text = src, mf_toRaw = IDENTITY_RANGE, nf_pass = Raw\<rparr>]"
    by (simp add: forms_ok_def identity_ok)
  ultimately show ?thesis
    unfolding buildForms_def Let_def encodedForms_def
    by (intro fold_add_form_ok add_form_ok ballI) (auto intro: add_form_ok decode_runs_ok)
qed

lemma resolver_okD: "resolver_ok n m toRaw \<Longrightarrow> i < j \<Longrightarrow> j \<le> m \<Longrightarrow> toRaw i j = Some r \<Longrightarrow> range_ok n r"
  unfolding resolver_ok_def by blast

lemma raw_ranges_ok:
  assumes "resolver_ok n (length (mf_text form)) (mf_toRaw form)"
    and "r \<in> set (raw_ranges form (injections spec (mf_text form) k))"
  shows "range_ok n r"
proof -
  from assms(2) obtain i j where ij: "(i, j) \<in> set (injections spec (mf_text form) k)" "mf_toRaw form i j = Some r"
    by (auto simp: raw_ranges_def List.map_filter_def)
  show ?thesis by (rule resolver_okD [OF assms(1) injections_sound [OF ij(1)] ij(2)])
qed

lemma located_ok: "forms_ok n forms \<Longrightarrow> r \<in> set (located specs forms) \<Longrightarrow> range_ok n r"
  unfolding located_def forms_ok_def by (auto intro: raw_ranges_ok)

lemma findings_from_ok:
  "forms_ok n forms \<Longrightarrow> f \<in> set (findings_from env specs src earlier forms) \<Longrightarrow> if_range f = Some r \<Longrightarrow> range_ok n r"
proof (induction forms arbitrary: earlier)
  case (Cons form forms)
  from Cons.prems(2) consider spec where "injects spec (mf_text form)" "f = first_finding env src form spec"
    | "f \<in> set (findings_from env specs src (earlier @ [form]) forms)" by auto
  then show ?case
  proof cases
    case 1
    obtain i j where ij: "hd (injections spec (mf_text form) 0) = (i, j)" by (cases "hd (injections spec (mf_text form) 0)")
    then have "(i, j) \<in> set (injections spec (mf_text form) 0)" using 1(1) by (metis injections_iff list.set_sel(1))
    note bounds = injections_sound [OF this]
    have ok: "resolver_ok n (length (mf_text form)) (mf_toRaw form)" using Cons.prems(1) by (simp add: forms_ok_def)
    have "mf_toRaw form i j = Some r"
      using Cons.prems(3) 1(2) ij by (simp add: first_finding_def make_finding_def Let_def)
    from resolver_okD [OF ok bounds this] show ?thesis .
  next
    case 2
    have "forms_ok n forms" using Cons.prems(1) by (simp add: forms_ok_def)
    from Cons.IH [OF this 2 Cons.prems(3)] show ?thesis .
  qed
qed simp

subsection \<open>Stripping\<close>

lemma merge_ge: "b \<le> fst (merge_ranges b rs)"
  by (induction b rs rule: merge_ranges.induct) auto

lemma merge_rest:
  "set (snd (merge_ranges b rs)) \<subseteq> set rs"
  "sorted (map fst rs) \<Longrightarrow> sorted (map fst (snd (merge_ranges b rs)))"
  by (induction b rs rule: merge_ranges.induct) auto

lemma merge_stops: "sorted (map fst rs) \<Longrightarrow> r \<in> set (snd (merge_ranges b rs)) \<Longrightarrow> fst (merge_ranges b rs) \<le> fst r"
proof (induction b rs rule: merge_ranges.induct)
  case (2 finish a b rs)
  then show ?case by (cases "a \<le> finish") auto
qed simp

lemma merge_le: "b \<le> n \<Longrightarrow> \<forall>r \<in> set rs. snd r \<le> n \<Longrightarrow> fst (merge_ranges b rs) \<le> n"
  by (induction b rs rule: merge_ranges.induct) auto

lemma merge_inside: "b \<le> i \<Longrightarrow> i < fst (merge_ranges b rs) \<Longrightarrow> covered rs i"
proof (induction b rs rule: merge_ranges.induct)
  case (2 finish a b rs)
  then show ?case by (cases "a \<le> finish"; cases "i < b") auto
qed simp

lemma merge_outside: "fst (merge_ranges b rs) \<le> i \<Longrightarrow> covered rs i = covered (snd (merge_ranges b rs)) i"
proof (induction b rs rule: merge_ranges.induct)
  case (2 finish a b rs)
  show ?case
  proof (cases "a \<le> finish")
    case True
    with "2.prems" have "max finish b \<le> i" using merge_ge le_trans by fastforce
    with True 2 show ?thesis by simp
  qed simp
qed simp

lemma strip_regions_pieces:
  assumes "sorted (map fst rs)" "\<forall>r \<in> set rs. cursor \<le> fst r \<and> range_ok (length src) r" and "cursor \<le> length src"
  shows "\<exists>ps. strip_regions src cursor rs = render src ps
    \<and> kept ps = filter (\<lambda>i. \<not> covered rs i) [cursor ..< length src] \<and> set (written ps) \<subseteq> {STRIP_REPLACEMENT}"
  using assms
proof (induction src cursor rs rule: strip_regions.induct)
  case (1 src cursor)
  then have "strip_regions src cursor [] = render src (map Inl [cursor ..< length src])"
    by (simp add: render_positions js_slice_def)
  then show ?case by (intro exI [of _ "map Inl [cursor ..< length src]"]) simp
next
  case (2 src cursor a b rs)
  let ?f = "fst (merge_ranges b rs)" and ?rest = "snd (merge_ranges b rs)"
  have sorted: "sorted (map fst rs)" using "2.prems"(1) by simp
  have a: "cursor \<le> a" "a < b" "b \<le> length src" using "2.prems"(2) by (auto simp: range_ok_def)
  have f: "?f \<le> length src" using merge_le [of b "length src" rs] a "2.prems"(2) by (simp add: range_ok_def)
  have bf: "b \<le> ?f" by (rule merge_ge)
  have rest: "\<forall>r \<in> set ?rest. ?f \<le> fst r \<and> range_ok (length src) r"
    using merge_rest(1) [of b rs] merge_stops [OF sorted] "2.prems"(2) by auto
  have go: "\<not> ?f \<le> cursor" using a bf by simp
  from "2.IH"(2) [OF refl refl go merge_rest(2) [OF sorted] rest f] obtain ps where
    ps: "strip_regions src ?f ?rest = render src ps"
    "kept ps = filter (\<lambda>i. \<not> covered ?rest i) [?f ..< length src]" "set (written ps) \<subseteq> {STRIP_REPLACEMENT}" by blast
  let ?ps = "map Inl [cursor ..< a] @ Inr STRIP_REPLACEMENT # ps"
  have "\<not> covered ((a, b) # rs) i" if "i < a" for i
  proof -
    have "\<forall>r \<in> set ((a, b) # rs). a \<le> fst r" using "2.prems"(1) by auto
    with that show ?thesis unfolding covered_def list_ex_iff by fastforce
  qed
  then have before: "filter (\<lambda>i. \<not> covered ((a, b) # rs) i) [cursor ..< a] = [cursor ..< a]" by (simp add: filter_id_conv)
  have "covered ((a, b) # rs) i" if "a \<le> i" "i < ?f" for i
    using that merge_inside [of b i rs] by (cases "i < b") auto
  then have inside: "filter (\<lambda>i. \<not> covered ((a, b) # rs) i) [a ..< ?f] = []" by (simp add: filter_empty_conv)
  have "covered ((a, b) # rs) i = covered ?rest i" if "?f \<le> i" for i
    using that bf merge_outside [of b rs i] by auto
  then have after: "filter (\<lambda>i. \<not> covered ((a, b) # rs) i) [?f ..< length src] = kept ps"
    unfolding ps(2) by (intro filter_cong) auto
  have "[cursor ..< length src] = [cursor ..< a] @ [a ..< ?f] @ [?f ..< length src]"
    using a f bf by (simp add: upt_join)
  then have "filter (\<lambda>i. \<not> covered ((a, b) # rs) i) [cursor ..< length src] = kept ?ps"
    using before inside after by simp
  moreover have "strip_regions src cursor ((a, b) # rs) = render src ?ps"
    using go ps(1) a by (simp add: Let_def render_positions max_def)
  moreover have "set (written ?ps) \<subseteq> {STRIP_REPLACEMENT}" using ps(3) by simp
  ultimately show ?case by metis
qed

lemma applyStrip_pieces:
  assumes "\<forall>r \<in> set rs. range_ok (length src) r"
  shows "\<exists>ps. applyStrip src rs = render src ps
    \<and> kept ps = filter (\<lambda>i. \<not> covered rs i) [0 ..< length src] \<and> set (written ps) \<subseteq> {STRIP_REPLACEMENT}"
proof (cases "rs = []")
  case True
  then have "applyStrip src rs = render src (map Inl [0 ..< length src])"
    by (simp add: applyStrip_def render_positions js_slice_def)
  then show ?thesis using True by (intro exI [of _ "map Inl [0 ..< length src]"]) simp
next
  case False
  have "sorted (map fst (sort rs))"
    using sorted_sort [of rs] unfolding sorted_map by (rule sorted_wrt_mono_rel [rotated]) (auto simp: less_eq_prod_def)
  from strip_regions_pieces [OF this, of 0 src] assms False obtain ps where "applyStrip src rs = render src ps"
    "kept ps = filter (\<lambda>i. \<not> covered (sort rs) i) [0 ..< length src]" "set (written ps) \<subseteq> {STRIP_REPLACEMENT}"
    by (auto simp: applyStrip_def)
  moreover have "covered (sort rs) = covered rs" by (auto simp: covered_def list_ex_iff fun_eq_iff)
  ultimately show ?thesis by metis
qed

subsection \<open>What the normalisations undo\<close>

lemma add_form_texts: "mf_text ` set (add_form pass form forms) = mf_text ` set forms \<union>
    (case form of None \<Rightarrow> {} | Some f \<Rightarrow> {mf_text f})"
  by (auto simp: add_form_def as_form_def split: option.split)

lemma fold_add_form_texts:
  "mf_text ` set (fold (\<lambda>f. add_form pass (Some f)) fs forms) = mf_text ` set forms \<union> mf_text ` set fs"
  by (induction fs arbitrary: forms) (auto simp: add_form_texts)

definition disguises :: "units \<Rightarrow> units set" where
  "disguises t = {t, filter (\<lambda>n. \<not> isInvisibleCode n) t, map (substitute HOMOGLYPHS foldFullwidth) t,
     map (substitute LEET_PRIMARY (\<lambda>n. None)) t, map (substitute LEET_ALTERNATE (\<lambda>n. None)) t,
     map fst (collapse_from 0 False t), filter (\<lambda>n. \<not> isWhitespaceCode n) t}"

lemma invisible_table: "in_ranges INVISIBLE_RANGES n \<longleftrightarrow> isInvisibleCode n"
  by (auto simp: in_ranges_def INVISIBLE_RANGES_def isInvisibleCode_def)

lemma filter_nth: "map ((!) t) (filter (\<lambda>i. P (t ! i)) [0 ..< length t]) = filter P t"
  by (simp add: filter_map [symmetric, unfolded o_def] map_nth [unfolded comp_def])

lemma drop_text: "t \<in> S \<Longrightarrow> S \<union> (case dropChars t keep of None \<Rightarrow> {} | Some f \<Rightarrow> {mf_text f}) = insert (filter keep t) S"
proof -
  assume S: "t \<in> S"
  have "filter (\<lambda>i. keep (t ! i)) [0 ..< length t] = [0 ..< length t]"
    if "length (filter (\<lambda>i. keep (t ! i)) [0 ..< length t]) = length t"
    using that by (metis filter_id_conv length_filter_less length_upt less_irrefl minus_nat.diff_0)
  with S show ?thesis using filter_nth [of t keep] map_nth [of t] by (auto simp: dropChars_def Let_def)
qed

lemma place_text: "t \<in> S \<Longrightarrow> S \<union> (case in_place (substituteChars t table extra) of None \<Rightarrow> {} | Some f \<Rightarrow> {mf_text f})
    = insert (map (substitute table extra) t) S"
  by (auto simp: in_place_def substituteChars_def list_ex_iff map_idI)

lemma collapse_text: "t \<in> S \<Longrightarrow> S \<union> (case collapseWhitespace t of None \<Rightarrow> {} | Some f \<Rightarrow> {mf_text f})
    = insert (map fst (collapse_from 0 False t)) S"
  by (auto simp: collapseWhitespace_def Let_def)

lemma buildForms_texts:
  "mf_text ` set (buildForms env t) = disguises t
     \<union> mf_text ` set (encodedForms env t Base64) \<union> mf_text ` set (encodedForms env t Hex)"
proof -
  have "mf_text ` set (if list_ex (in_ranges INVISIBLE_RANGES) t
      then add_form ZeroWidth (dropChars t (\<lambda>n. \<not> isInvisibleCode n)) [\<lparr>mf_text = t, mf_toRaw = IDENTITY_RANGE, nf_pass = Raw\<rparr>]
      else [\<lparr>mf_text = t, mf_toRaw = IDENTITY_RANGE, nf_pass = Raw\<rparr>]) = {t, filter (\<lambda>n. \<not> isInvisibleCode n) t}"
    using drop_text [of t "{t}" "\<lambda>n. \<not> isInvisibleCode n"]
    by (auto simp: add_form_texts list_ex_iff invisible_table filter_id_conv)
  then show ?thesis
    unfolding buildForms_def Let_def fold_add_form_texts add_form_texts disguises_def
    by (simp add: drop_text place_text collapse_text insert_commute del: Un_insert_left Un_insert_right)
qed

subsection \<open>The contracts\<close>

text \<open>A form is located unless it was decoded.\<close>

definition pass_ok :: "normalized_form \<Rightarrow> bool" where
  "pass_ok form = (if nf_pass form = Base64 \<or> nf_pass form = Hex then mf_toRaw form = NO_RANGE
     else \<forall>i j. i < j \<and> j \<le> length (mf_text form) \<longrightarrow> mf_toRaw form i j \<noteq> None)"

lemma add_form_pass:
  "\<forall>f \<in> set forms. pass_ok f \<Longrightarrow> (\<And>f. form = Some f \<Longrightarrow> pass_ok (as_form pass f)) \<Longrightarrow>
    \<forall>f \<in> set (add_form pass form forms). pass_ok f"
  by (auto simp: add_form_def split: option.splits)

lemma add_form_pass_if:
  "\<forall>f \<in> set forms. pass_ok f \<Longrightarrow> (\<And>f. form = Some f \<Longrightarrow> pass_ok (as_form pass f)) \<Longrightarrow>
    \<forall>f \<in> set (if c then add_form pass form forms else forms). pass_ok f"
  using add_form_pass [of forms form pass] by (cases c) auto

lemma fold_add_form_pass:
  "\<forall>f \<in> set forms. pass_ok f \<Longrightarrow> \<forall>f \<in> set fs. pass_ok (as_form pass f) \<Longrightarrow>
    \<forall>f \<in> set (fold (\<lambda>f. add_form pass (Some f)) fs forms). pass_ok f"
proof (induction fs arbitrary: forms)
  case (Cons f fs)
  have "\<forall>f \<in> set (add_form pass (Some f) forms). pass_ok f"
    by (rule add_form_pass [OF Cons.prems(1)]) (use Cons.prems(2) in simp)
  with Cons show ?case by simp
qed simp

lemma decode_runs_pass: "f \<in> set (decode_runs env p runs made) \<Longrightarrow> q = Base64 \<or> q = Hex \<Longrightarrow> pass_ok (as_form q f)"
  by (induction env p runs made rule: decode_runs.induct) (auto simp: pass_ok_def as_form_def split: if_splits)

lemma drop_pass: "dropChars t keep = Some f \<Longrightarrow> q \<noteq> Base64 \<Longrightarrow> q \<noteq> Hex \<Longrightarrow> pass_ok (as_form q f)"
  by (auto simp: dropChars_def Let_def pass_ok_def as_form_def via_map_def split: if_splits)

lemma collapse_pass: "collapseWhitespace t = Some f \<Longrightarrow> q \<noteq> Base64 \<Longrightarrow> q \<noteq> Hex \<Longrightarrow> pass_ok (as_form q f)"
  by (auto simp: collapseWhitespace_def Let_def pass_ok_def as_form_def via_map_def split: if_splits)

lemma place_pass: "in_place u = Some f \<Longrightarrow> q \<noteq> Base64 \<Longrightarrow> q \<noteq> Hex \<Longrightarrow> pass_ok (as_form q f)"
  by (auto simp: in_place_def pass_ok_def as_form_def IDENTITY_RANGE_def)

lemma buildForms_pass: "\<forall>f \<in> set (buildForms env src). pass_ok f"
proof -
  have "\<forall>f \<in> set [\<lparr>mf_text = src, mf_toRaw = IDENTITY_RANGE, nf_pass = Raw\<rparr>]. pass_ok f"
    by (simp add: pass_ok_def IDENTITY_RANGE_def)
  then show ?thesis
    unfolding buildForms_def Let_def encodedForms_def
    by (intro fold_add_form_pass add_form_pass add_form_pass_if)
       (auto intro: decode_runs_pass drop_pass collapse_pass place_pass)
qed

lemma findings_from_mem:
  assumes "f \<in> set (findings_from env specs src earlier forms)"
  shows "\<exists>form \<in> set forms. \<exists>spec \<in> set specs. \<exists>i j. i < j \<and> j \<le> length (mf_text form)
    \<and> f = make_finding env src form spec i j"
  using assms
proof (induction forms arbitrary: earlier)
  case (Cons form forms)
  from Cons.prems consider spec where "spec \<in> set specs" "injects spec (mf_text form)" "f = first_finding env src form spec"
    | "f \<in> set (findings_from env specs src (earlier @ [form]) forms)" by auto
  then show ?case
  proof cases
    case 1
    obtain i j where ij: "hd (injections spec (mf_text form) 0) = (i, j)" by (cases "hd (injections spec (mf_text form) 0)")
    then have "(i, j) \<in> set (injections spec (mf_text form) 0)" using 1(2) by (metis injections_iff list.set_sel(1))
    from injections_sound [OF this] 1 ij show ?thesis by (auto simp: first_finding_def)
  next
    case 2
    from Cons.IH [OF this] show ?thesis by auto
  qed
qed simp

lemma findings_from_distinct:
  assumes "distinct (map ip_patternId specs)"
  shows "distinct (map if_patternId (findings_from env specs src earlier forms))"
proof (induction forms arbitrary: earlier)
  case (Cons form forms)
  let ?now = "filter (\<lambda>spec. injects spec (mf_text form) \<and> \<not> list_ex (\<lambda>f. injects spec (mf_text f)) earlier) specs"
  have "map if_patternId (map (first_finding env src form) ?now) = map ip_patternId ?now"
    by (simp add: first_finding_id)
  moreover have "distinct (map ip_patternId ?now)" using assms by (simp add: distinct_map inj_on_def)
  moreover have "ip_patternId ` set ?now \<inter> if_patternId ` set (findings_from env specs src (earlier @ [form]) forms) = {}"
    unfolding findings_from_ids using assms by (auto simp: distinct_map inj_on_def)
  ultimately show ?case using Cons.IH [of "earlier @ [form]"] by (simp del: map_map)
qed simp

definition finding_ok :: "units \<Rightarrow> pattern_finding \<Rightarrow> bool" where
  "finding_ok t f =
     (list_ex (\<lambda>spec. if_patternId f = ip_patternId spec \<and> if_category f = ip_category spec
        \<and> if_severity f = ip_severity spec) INJECTION_PATTERNS
    \<and> (if_range f = None \<longleftrightarrow> if_pass f = Base64 \<or> if_pass f = Hex)
    \<and> (case if_range f of None \<Rightarrow> True | Some p \<Rightarrow> range_ok (min (length t) MAX_SCAN_CHARS) p))"

text \<open>C13: The findings of every scan are well formed: each pattern is reported once, with the category and the severity the
  pack gives it; a finding carries a range exactly when its pass is not one of the two decoding passes, and the range
  is not empty and lies within the text and within the work limit.\<close>

theorem findings_are_well_formed:
  "\<exists>r. scanInjection env t strip = Some r \<and> distinct (map if_patternId (ir_findings r))
     \<and> list_all (finding_ok t) (ir_findings r)"
proof (cases "t = []")
  case True
  then show ?thesis by (simp add: scanInjection_def)
next
  case False
  let ?src = "take MAX_SCAN_CHARS t"
  from scanInjection_returns [OF False, of env strip] obtain r where r: "scanInjection env t strip = Some r"
    "ir_findings r = findings_from env INJECTION_PATTERNS ?src [] (buildForms env ?src)" by blast
  have "finding_ok t f"
    if f: "f \<in> set (ir_findings r)" for f
  proof -
    from findings_from_mem [OF f [unfolded r(2)]] obtain form spec i j where
      m: "form \<in> set (buildForms env ?src)" "spec \<in> set INJECTION_PATTERNS" "i < j" "j \<le> length (mf_text form)"
        "f = make_finding env ?src form spec i j" by blast
    have "if_patternId f = ip_patternId spec" "if_category f = ip_category spec" "if_severity f = ip_severity spec"
      "if_pass f = nf_pass form" "if_range f = mf_toRaw form i j"
      by (simp_all add: m(5) make_finding_def Let_def)
    moreover have "pass_ok form" using buildForms_pass m(1) by blast
    then have "mf_toRaw form i j = None \<longleftrightarrow> nf_pass form = Base64 \<or> nf_pass form = Hex"
      using m(3,4) by (auto simp: pass_ok_def NO_RANGE_def split: if_splits)
    moreover have "case mf_toRaw form i j of None \<Rightarrow> True | Some p \<Rightarrow> range_ok (length ?src) p"
      using buildForms_ok [of ?src env] m(1) resolver_okD [OF _ m(3,4)]
      by (auto simp: forms_ok_def split: option.split)
    ultimately show ?thesis
      using m(2) unfolding finding_ok_def list_ex_iff by (auto simp: range_ok_def min.commute split: option.splits)
  qed
  then show ?thesis
    using r findings_from_distinct [OF distinct_pattern_ids] by (intro exI [of _ r]) (simp add: list_all_iff)
qed

text \<open>C10: Which patterns a scan reports is exactly which patterns of the pack inject in the text or in one of its
  normalised forms, each once and attributed to the first form it injects in, with and without stripping; the scan of
  every text ends.\<close>

theorem injection_findings_are_exact:
  "\<exists>r. scanInjection env t strip = Some r
     \<and> (let src = take MAX_SCAN_CHARS t; forms = if t = [] then [] else buildForms env src in
        ir_findings r = findings_from env INJECTION_PATTERNS src [] forms
      \<and> if_patternId ` set (ir_findings r) = ip_patternId `
          set (filter (\<lambda>spec. list_ex (\<lambda>form. injects spec (mf_text form)) forms) INJECTION_PATTERNS))
     \<and> ir_containsInjection r = (ir_findings r \<noteq> [])"
proof (cases "t = []")
  case True
  then show ?thesis by (simp add: scanInjection_def)
next
  case False
  let ?forms = "buildForms env (take MAX_SCAN_CHARS t)"
  from scanInjection_returns [OF False, of env strip] obtain r where r: "scanInjection env t strip = Some r"
    "ir_findings r = findings_from env INJECTION_PATTERNS (take MAX_SCAN_CHARS t) [] ?forms"
    "ir_containsInjection r = (ir_findings r \<noteq> [])" by blast
  have "if_patternId ` set (ir_findings r) = ip_patternId `
      set (filter (\<lambda>spec. list_ex (\<lambda>form. injects spec (mf_text form)) ?forms) INJECTION_PATTERNS)"
    unfolding r(2) findings_from_ids by (simp add: list_ex_iff)
  with r False show ?thesis by (intro exI [of _ r]) (simp add: Let_def)
qed


text \<open>C11: The disguises the scanner knows do not hide a pattern: if a text of scannable length injects once its invisible
  characters are dropped, its lookalikes or its digits and signs are read as letters, its white space is collapsed, or
  its white space is removed, then the pattern is reported.\<close>

theorem disguises_are_seen_through:
  assumes "spec \<in> set INJECTION_PATTERNS" "w \<in> disguises t" "injects spec w" "t \<noteq> []" "length t \<le> MAX_SCAN_CHARS"
  shows "\<exists>r. scanInjection env t strip = Some r \<and> ip_patternId spec \<in> if_patternId ` set (ir_findings r)"
proof -
  from scanInjection_returns [OF assms(4), of env strip] obtain r where r: "scanInjection env t strip = Some r"
    "ir_findings r = findings_from env INJECTION_PATTERNS t [] (buildForms env t)" using assms(5) by auto
  from assms(2) have "w \<in> mf_text ` set (buildForms env t)" using buildForms_texts [of env t] by blast
  with assms(1,3) have "ip_patternId spec \<in> if_patternId ` set (ir_findings r)"
    unfolding r(2) findings_from_ids by auto
  with r(1) show ?thesis by blast
qed

definition sample_inj_env :: inj_env where
  "sample_inj_env = \<lparr>ie_fromBase64 = (\<lambda>u. []), ie_fromHex = (\<lambda>u. []), ie_redact = (\<lambda>u. u)\<rparr>"

definition disguised :: units where \<comment> \<open>with a zero-width space inside the first word\<close>
  "disguised = units_of ''sys'' @ [0x200B] @ units_of ''tem prompt:''"

lemma repeats_numeral:
  "repeats f greedy (numeral k) e i = concat (map (repeats f greedy (pred_numeral k) e) (f i))"
  "repeats f greedy 0 (numeral k) i =
     (let more = concat (map (\<lambda>j. if j = i then [] else repeats f greedy 0 (pred_numeral k) j) (f i)) in
      if greedy then more @ [i] else i # more)"
  by (simp_all add: numeral_eq_Suc)

lemmas match_eval = match_from_def regex_defs plural_def class_has_def in_ranges_def swap_case_def word_boundary_def
  word_at_def word_ranges_def space_ranges_def units_of_def optional_iterations_def any_case_def repeats_numeral Let_def

lemma sample_block:
  "match_from any_case (cat [Word_Boundary, str ''system'', many space, alt [str ''prompt'', str ''message'',
     plural ''instruction''], many space, str '':'']) (units_of ''system prompt:'') 0 = Some 14"
  by (simp add: match_eval)

theorem disguises_are_seen_through_witness:
  "\<exists>r. scanInjection sample_inj_env disguised False = Some r
     \<and> ''inj.instruction_override.system_prompt_block'' \<in> if_patternId ` set (ir_findings r)"
proof -
  let ?spec = "inj_instruction_override ! 4"
  have spec: "?spec = injection ''inj.instruction_override.system_prompt_block'' InstructionOverride High any_case False
      (cat [Word_Boundary, str ''system'', many space, alt [str ''prompt'', str ''message'', plural ''instruction''],
        many space, str '':''])" by (simp add: inj_instruction_override_def)
  have "?spec \<in> set inj_instruction_override" by (rule nth_mem) (simp add: inj_instruction_override_def)
  then have mem: "?spec \<in> set INJECTION_PATTERNS" by (simp add: INJECTION_PATTERNS_def)
  have "filter (\<lambda>n. \<not> isInvisibleCode n) disguised = units_of ''system prompt:''"
    by (simp add: disguised_def units_of_def isInvisibleCode_def)
  then have dis: "units_of ''system prompt:'' \<in> disguises disguised" by (simp add: disguises_def)
  have "match_from (ip_flags ?spec) (ip_pattern ?spec) (units_of ''system prompt:'') 0 = Some 14"
    "\<not> negated ?spec (units_of ''system prompt:'') 0"
    unfolding spec using sample_block by (simp_all add: injection_def negated_def)
  then have inj: "injects ?spec (units_of ''system prompt:'')"
    unfolding injects_def list_ex_iff by (intro bexI [of _ 0]) simp_all
  have "disguised \<noteq> []" "length disguised \<le> MAX_SCAN_CHARS" by (simp_all add: disguised_def MAX_SCAN_CHARS_def)
  from disguises_are_seen_through [OF mem dis inj this, of sample_inj_env False] show ?thesis by (simp add: spec)
qed

lemma encoded_forms_bounded: "made \<le> MAX_ENCODED_FORMS \<Longrightarrow> length (decode_runs env pass runs made) \<le> MAX_ENCODED_FORMS - made"
  by (induction env pass runs made rule: decode_runs.induct) auto

text \<open>The window that is handed to the redaction exposes a bounded part of the text and no control characters.\<close>

lemma excerpt_window:
  assumes "start \<le> finish" "finish \<le> length src"
  shows "\<exists>window. buildExcerpt env src start finish = ie_redact env window \<and> length window \<le> EXCERPT_MAX
    \<and> (\<forall>n \<in> set window. 0x1F < n \<and> n \<noteq> 0x7F)"
proof -
  let ?len = "finish - start" and ?w = "\<lambda>lo hi. map (\<lambda>n. if n \<le> 0x1F \<or> n = 0x7F then 0x20 else n) (js_slice src lo hi)"
  let ?pad = "(EXCERPT_MAX - ?len) div 2"
  have ok: "\<forall>n \<in> set (?w lo hi). 0x1F < n \<and> n \<noteq> 0x7F" for lo hi by auto
  show ?thesis
  proof (cases "EXCERPT_MAX \<le> ?len")
    case True
    then have "buildExcerpt env src start finish = ie_redact env (?w start (start + EXCERPT_MAX))"
      by (simp add: buildExcerpt_def Let_def)
    moreover have "length (?w start (start + EXCERPT_MAX)) \<le> EXCERPT_MAX" by (simp add: js_slice_def)
    ultimately show ?thesis using ok by blast
  next
    case False
    let ?hi = "min (length src) (finish + ?pad)"
    from False have "buildExcerpt env src start finish = ie_redact env (?w (start - ?pad) ?hi)"
      by (simp add: buildExcerpt_def Let_def)
    moreover have "length (?w (start - ?pad) ?hi) \<le> EXCERPT_MAX"
    proof -
      define p where "p = ?pad"
      have "2 * p \<le> EXCERPT_MAX - ?len" by (simp add: p_def)
      then have "finish + p - (start - p) \<le> EXCERPT_MAX" using False assms by arith
      then show ?thesis unfolding p_def [symmetric] by (simp add: js_slice_def)
    qed
    ultimately show ?thesis using ok by blast
  qed
qed

end
