(* ===== verification/Spec2Isabelle.thy ===== *)
theory Spec2Isabelle
  imports Prelude Types Detections Json Sliding_Window Policy_Engine Network_Ssrf Policy_Rules Policy_Loader
    Policy_Runtime Approval Lockdown Flood_Guard Fleet_Credentials Agent_Registry Agent_Budget Egress_Enforcement
    Mcp_Framing Json_Parse Audit_Chain Audit_File Audit_Tamper Audit_Log
    Json_Pretty Js_Values Mcp_Baseline Mcp_Gates Mcp_Gate_Laws Mcp_Wrap Mcp_Session
    Js_Regex Text_Pieces Dlp_Validators Dlp_Patterns Dlp_Scan Dlp_Rules Injection_Patterns Injection_Scan Injection_Laws
begin

text \<open>
  A verification of AgentWall, the policy firewall for AI agents under \<open>src/\<close> (TypeScript; the paths below are
  relative to \<open>src/src/\<close>).

  \<^bold>\<open>The program.\<close> An agent's action, a tool call, a network request or a content transfer, reaches AgentWall as an
  \<^emph>\<open>agent context\<close>. The policy engine evaluates it against the built-in rules, the operator's declarative rules and the
  rules added at run time, and the strongest decision wins (\<open>allow\<close>, \<open>redact\<close>, \<open>approve\<close>, \<open>deny\<close>). Around the engine
  stand guards: rate and cost limits, the emergency stop, the approval queue, network inspection against private and
  metadata addresses, the registry of declared agents with their credentials and budgets, and, for connections seen
  by the proxy, egress enforcement, which composes all of these. Every decision joins a hash-chained audit log. Tool
  calls over MCP arrive as newline-delimited JSON-RPC frames.

  \<^bold>\<open>The theories.\<close>

  \<^item> \<open>Prelude\<close>: JavaScript strings, decimal rendering, insertion-ordered maps (interface \<open>js_map\<close>), severity scales
    (interface \<open>severity_scale\<close>), anchored patterns. \<open>Types\<close>: the enumerations and records of \<open>types.ts\<close>. \<open>Detections\<close>:
    \<open>policy/detections.ts\<close>. \<open>Json\<close>, \<open>Json_Parse\<close>: the JSON printer and parser of the language, inverse to each other;
    \<open>Json_Pretty\<close>: the indented printer, which the same parser inverts. \<open>Js_Values\<close>: truthiness, \<open>String(v)\<close> and
    the equality of parsed values.
  \<^item> \<open>Policy_Engine\<close>: \<open>policy/engine.ts\<close>; the snapshot of rules is the state, every operation that replaces it is a
    function on it. \<open>Policy_Rules\<close>: the built-in rules of \<open>policy/rules.ts\<close>. \<open>Policy_Loader\<close>: \<open>policy/loader.ts\<close> and
    \<open>policy/scoped-rules.ts\<close>. \<open>Policy_Runtime\<close>: \<open>policy/runtime.ts\<close>, load, reload, upsert and the watcher.
  \<^item> \<open>Network_Ssrf\<close>: \<open>planes/network/ssrf.ts\<close>. \<open>Approval\<close>: \<open>approval/gate.ts\<close>, \<open>store.ts\<close>, \<open>notifier.ts\<close>, timers as
    steps. \<open>Lockdown\<close>: \<open>runtime/lockdown.ts\<close>, the holds as an ordered map. \<open>Sliding_Window\<close>, \<open>Flood_Guard\<close>:
    \<open>runtime/floodguard.ts\<close> over the interface \<open>window_limiter\<close>.
  \<^item> \<open>Fleet_Credentials\<close>, \<open>Agent_Registry\<close>, \<open>Agent_Budget\<close>: \<open>fleet/credentials.ts\<close>, \<open>registry.ts\<close>, \<open>budget.ts\<close>.
    \<open>Egress_Enforcement\<close>: \<open>runtime/enforcement.ts\<close>, which calls all three, the engine, the stop and the lists.
  \<^item> \<open>Mcp_Framing\<close>: \<open>mcp/framing.ts\<close>. \<open>Audit_Chain\<close>: \<open>audit/chain.ts\<close>. \<open>Audit_File\<close>, \<open>Audit_Tamper\<close>: the lock, the
    append, the recovery and the verifier of \<open>audit/file-sink.ts\<close>, and what a verified file proves. \<open>Audit_Log\<close>:
    \<open>audit/logger.ts\<close> over the interface \<open>durable_stream\<close>, which the file sink provides, and a server's lives.
  \<^item> \<open>Mcp_Gates\<close>, \<open>Mcp_Gate_Laws\<close>: \<open>mcp/gates.ts\<close>, \<open>inventory.ts\<close> and \<open>types.ts\<close>, the five gates and their pipeline,
    which read and write the accepted inventory of \<open>Mcp_Baseline\<close> (\<open>mcp/baseline.ts\<close>). \<open>Mcp_Wrap\<close>, \<open>Mcp_Session\<close>:
    \<open>mcp/wrap.ts\<close>, the session that classifies each frame, runs the gates on it, forwards or refuses it and records the
    decision, and the runs of a session.
  \<^item> \<open>Js_Regex\<close>: the regular expressions of the language, with backtracking order, and a static analysis of the
    literals a match must contain; \<open>Text_Pieces\<close>: what it means that ranges of a text are replaced and the rest kept.
    \<open>Dlp_Validators\<close>, \<open>Dlp_Patterns\<close>, \<open>Dlp_Scan\<close>: \<open>planes/identity/dlp.ts\<close>, its checks, its table, its scan with
    redaction; \<open>Dlp_Rules\<close>: that scanner behind the built-in rules. \<open>Injection_Patterns\<close>, \<open>Injection_Scan\<close>,
    \<open>Injection_Laws\<close>: \<open>policy/injection.ts\<close>, its pack, its normalisations and scan, and what they promise.

  \<^bold>\<open>How state is modelled.\<close> The class instances and module variables of the source are records passed explicitly and
  returned updated; a \<open>Map\<close> or object whose order matters is an association list in insertion order; a throw or an
  early error return is a sum or option value; timers, signals and file watchers are the steps they run, in any order
  a theorem quantifies over. Times are integers in milliseconds. Strings range over the code units below 256, except in the injection scanner, which works
  on all of UTF-16.

  \<^bold>\<open>Parameters.\<close> What is not under \<open>src/\<close>, or is a table too large to be worth copying, is an argument: the WHATWG URL
  parser, YAML, SHA-256, randomness, locale collation, UTF-8 decoding, the entropy in floating point, the decoy scanner, the zod
  schemas of MCP messages, the webhook. The two content scanners are parameters of the theories that call them and are modelled on their own. Laws they must satisfy are hypotheses of the theorems that use them, and the witnesses instantiate them.

  \<^bold>\<open>What the lemmas show.\<close> Each component has its state invariant and its preservation, the behaviour of every branch,
  and the contract the other components rely on. The properties marked \<open>C\<close> are the contracts that matter most:
  the strongest matching rule decides, whatever the order of rules; the stop overrides every mode and is lifted only by
  those who hold it; a request is decided at most once and pending ones survive a restart; rates, costs and
  connections are bounded in every window; private and metadata addresses are denied, for IPv4 exactly by CIDR; an
  agent is attributed only on proof and a withdrawn credential never falls through; a refused change changes nothing;
  the framing computes a function of the bytes alone; the scan for repeated members is exact; of an MCP session only
  frames that passed every gate are forwarded, the recorded decision is the one enforced, a locked server's tools reach
  the model only as accepted, and the session's tables are bounded; an honest audit log verifies and its last hash
  fixes its history; both scanners report exactly what their tables match, rewrite exactly what they locate, and lose
  nothing to their pre-filter or to the disguises they normalise.

  \<^bold>\<open>Fuel.\<close> The JSON parser and the scan for repeated members recurse with fuel; twice the length of the text plus two is
  used and is proved enough (\<open>parse_fuel\<close>, \<open>scan_fuel\<close>). Every other function is total by structure or a measure.

  \<^bold>\<open>Not modelled.\<close> The dashboard, the HTTP routes and the command line (views and wiring over the modelled parts), the
  proxies' socket and TLS handling, evidence rendering, and operating-system integration.
\<close>

end
